(* ===== verification/Prelude.thy ===== *)
theory Prelude
  imports Main "HOL-Library.Word" "HOL-Library.Char_ord"
begin

text \<open>
  Shared vocabulary of the development: machine integers, the result type of fallible code
  with its sequencing operators, the parts of the Rust standard library the program uses on
  lists and options, and the collections of rewrite rules the component theories fill.

  A Rust \<open>Result<T>\<close> is \<open>'e + 'a\<close> with \<open>Inl\<close> for the error. The macro
  \<open>ensure!\<close> is \<open>ensure\<close>, the operator \<open>?\<close> is \<open>and_then\<close>, and
  \<open>ok_or\<close>/\<open>context\<close> on an option is \<open>or_bail\<close>.
\<close>

named_theorems checks "unfolding of the validation functions"
named_theorems preserve "preservation of the component invariants, one lemma per operation"
named_theorems text_eval "evaluation of the string functions"

type_synonym u8 = "8 word"
type_synonym u16 = "16 word"
type_synonym u32 = "32 word"
type_synonym u64 = "64 word"

section \<open>Results\<close>

definition ensure :: "bool \<Rightarrow> 'e \<Rightarrow> 'e + 'a \<Rightarrow> 'e + 'a" where
  "ensure c e k = (if c then k else Inl e)"

definition and_then :: "'e + 'a \<Rightarrow> ('a \<Rightarrow> 'e + 'b) \<Rightarrow> 'e + 'b" where
  "and_then r k = (case r of Inl e \<Rightarrow> Inl e | Inr x \<Rightarrow> k x)"

definition or_bail :: "'a option \<Rightarrow> 'e \<Rightarrow> ('a \<Rightarrow> 'e + 'b) \<Rightarrow> 'e + 'b" where
  "or_bail x e k = (case x of None \<Rightarrow> Inl e | Some y \<Rightarrow> k y)"

definition is_ok :: "'e + 'a \<Rightarrow> bool" where
  "is_ok r = (case r of Inl _ \<Rightarrow> False | Inr _ \<Rightarrow> True)"

lemma ensure_True [simp]: "ensure True e k = k"
  by (simp add: ensure_def)

lemma ensure_False [simp]: "ensure False e k = Inl e"
  by (simp add: ensure_def)

lemma ensure_Inr_iff [simp]: "ensure c e k = Inr x \<longleftrightarrow> c \<and> k = Inr x"
  by (simp add: ensure_def)

lemma ensure_Inl_iff: "ensure c e k = Inl e' \<longleftrightarrow> (\<not> c \<and> e' = e \<or> c \<and> k = Inl e')"
  by (auto simp: ensure_def)

lemma and_then_Inl [simp]: "and_then (Inl e) k = Inl e"
  by (simp add: and_then_def)

lemma and_then_Inr [simp]: "and_then (Inr x) k = k x"
  by (simp add: and_then_def)

lemma and_then_Inr_iff: "and_then r k = Inr y \<longleftrightarrow> (\<exists>x. r = Inr x \<and> k x = Inr y)"
  by (cases r) auto

lemma and_then_unit_iff: "and_then (r :: 'e + unit) k = Inr y \<longleftrightarrow> r = Inr () \<and> k () = Inr y"
  by (cases r) auto

lemma or_bail_None [simp]: "or_bail None e k = Inl e"
  by (simp add: or_bail_def)

lemma or_bail_Some [simp]: "or_bail (Some x) e k = k x"
  by (simp add: or_bail_def)

lemma or_bail_Inr_iff: "or_bail x e k = Inr z \<longleftrightarrow> (\<exists>y. x = Some y \<and> k y = Inr z)"
  by (cases x) auto

lemma is_ok_simps [simp]: "is_ok (Inr x)" "\<not> is_ok (Inl e)"
  by (simp_all add: is_ok_def)

lemma is_ok_iff: "is_ok r \<longleftrightarrow> (\<exists>x. r = Inr x)"
  by (cases r) auto

lemma is_ok_ensure [simp]: "is_ok (ensure c e k) \<longleftrightarrow> c \<and> is_ok k"
  by (simp add: ensure_def)

lemma is_ok_and_then: "is_ok (and_then r k) \<longleftrightarrow> (\<exists>x. r = Inr x \<and> is_ok (k x))"
  by (cases r) auto

text \<open>\<open>for x in xs { check(x)?; }\<close>: the first error wins.\<close>

fun check_all :: "('a \<Rightarrow> 'e + unit) \<Rightarrow> 'a list \<Rightarrow> 'e + unit" where
  "check_all f [] = Inr ()"
| "check_all f (x # xs) = and_then (f x) (\<lambda>_. check_all f xs)"

lemma check_all_ok_iff: "check_all f xs = Inr () \<longleftrightarrow> (\<forall>x\<in>set xs. f x = Inr ())"
  by (induction xs) (auto simp: and_then_Inr_iff)

text \<open>\<open>iter.map(f).collect::<Result<Vec<_>>>()\<close>.\<close>

fun try_map :: "('a \<Rightarrow> 'e + 'b) \<Rightarrow> 'a list \<Rightarrow> 'e + 'b list" where
  "try_map f [] = Inr []"
| "try_map f (x # xs) = and_then (f x) (\<lambda>y. and_then (try_map f xs) (\<lambda>ys. Inr (y # ys)))"

lemma try_map_Inr_iff: "try_map f xs = Inr ys \<longleftrightarrow> list_all2 (\<lambda>x y. f x = Inr y) xs ys"
  by (induction xs arbitrary: ys) (auto simp: and_then_Inr_iff list_all2_Cons1)

section \<open>Lists and options\<close>

text \<open>\<open>iter.find\<close> on a list is \<open>List.find\<close>; \<open>position\<close> is the first index.\<close>

fun position :: "('a \<Rightarrow> bool) \<Rightarrow> 'a list \<Rightarrow> nat option" where
  "position P [] = None"
| "position P (x # xs) = (if P x then Some 0 else map_option Suc (position P xs))"

lemma position_SomeD:
  "position P xs = Some i \<Longrightarrow> i < length xs \<and> P (xs ! i) \<and> (\<forall>j<i. \<not> P (xs ! j))"
proof (induction xs arbitrary: i)
  case (Cons x xs)
  then show ?case
    by (auto split: if_splits simp: less_Suc_eq_0_disj)
qed simp

lemma position_None_iff: "position P xs = None \<longleftrightarrow> (\<forall>x\<in>set xs. \<not> P x)"
  by (induction xs) auto

lemma position_ex: "x \<in> set xs \<Longrightarrow> P x \<Longrightarrow> \<exists>i. position P xs = Some i"
  using position_None_iff [of P xs] by (cases "position P xs") auto

lemma position_distinct: "distinct xs \<Longrightarrow> i < length xs \<Longrightarrow> position (\<lambda>y. y = xs ! i) xs = Some i"
proof (induction xs arbitrary: i)
  case (Cons x xs)
  then show ?case
    by (cases i) (auto simp: nth_mem)
qed simp

lemma find_SomeD: "List.find P xs = Some x \<Longrightarrow> x \<in> set xs \<and> P x"
  by (auto simp: find_Some_iff)

lemma find_None_iff_set: "List.find P xs = None \<longleftrightarrow> (\<forall>x\<in>set xs. \<not> P x)"
  by (auto simp: find_None_iff)

lemma find_ex: "\<exists>x\<in>set xs. P x \<Longrightarrow> \<exists>x. List.find P xs = Some x"
  by (induction xs) auto

text \<open>\<open>iter.find_map\<close>: the first \<open>Some\<close>.\<close>

fun find_map :: "('a \<Rightarrow> 'b option) \<Rightarrow> 'a list \<Rightarrow> 'b option" where
  "find_map f [] = None"
| "find_map f (x # xs) = (case f x of Some y \<Rightarrow> Some y | None \<Rightarrow> find_map f xs)"

lemma find_map_None_iff: "find_map f xs = None \<longleftrightarrow> (\<forall>x\<in>set xs. f x = None)"
  by (induction xs) (auto split: option.splits)

lemma find_map_SomeD: "find_map f xs = Some y \<Longrightarrow> \<exists>x\<in>set xs. f x = Some y"
  by (induction xs) (auto split: option.splits)

lemma Cons_eq_uptD: "x # xs = [i..<j] \<Longrightarrow> i < j \<and> x = i \<and> xs = [Suc i..<j]"
  by (cases "i < j") (auto simp: upt_conv_Cons)

lemma map_filter_iff: "y \<in> set (List.map_filter f xs) \<longleftrightarrow> (\<exists>x\<in>set xs. f x = Some y)"
  by (induction xs) (auto simp: List.map_filter_simps split: option.splits)

lemma list_all2_in1: "list_all2 R xs ys \<Longrightarrow> x \<in> set xs \<Longrightarrow> \<exists>y\<in>set ys. R x y"
  by (induction rule: list_all2_induct) auto

lemma list_all2_in2: "list_all2 R xs ys \<Longrightarrow> y \<in> set ys \<Longrightarrow> \<exists>x\<in>set xs. R x y"
  by (induction rule: list_all2_induct) auto

text \<open>\<open>VecDeque\<close> used as a ring: drop from the front until at most \<open>n\<close> are left.\<close>

definition keep_last :: "nat \<Rightarrow> 'a list \<Rightarrow> 'a list" where
  "keep_last n xs = drop (length xs - n) xs"

lemma length_keep_last [simp]: "length (keep_last n xs) = min n (length xs)"
  by (simp add: keep_last_def)

lemma keep_last_short [simp]: "length xs \<le> n \<Longrightarrow> keep_last n xs = xs"
  by (simp add: keep_last_def)

lemma set_keep_last: "set (keep_last n xs) \<subseteq> set xs"
  by (auto simp: keep_last_def dest: in_set_dropD)

lemma keep_last_append_suffix: "\<exists>ys. xs = ys @ keep_last n xs"
  unfolding keep_last_def by (metis append_take_drop_id)

text \<open>A \<open>for\<close> loop over \<open>iter_mut()\<close> that threads a local variable.\<close>

fun thread :: "('s \<Rightarrow> 'a \<Rightarrow> 's \<times> 'b) \<Rightarrow> 's \<Rightarrow> 'a list \<Rightarrow> 's \<times> 'b list" where
  "thread f st [] = (st, [])"
| "thread f st (x # xs) =
     (let (st', y) = f st x; (st'', ys) = thread f st' xs in (st'', y # ys))"

lemma thread_append:
  "thread f st (xs @ ys) =
     (let (st', us) = thread f st xs; (st'', vs) = thread f st' ys in (st'', us @ vs))"
  by (induction xs arbitrary: st) (auto simp: Let_def split: prod.splits)

lemma length_thread [simp]: "length (snd (thread f st xs)) = length xs"
proof (induction xs arbitrary: st)
  case (Cons x xs)
  then show ?case by (simp add: Let_def split_beta)
qed simp

text \<open>Going round a ring of \<open>count\<close> places from anywhere meets every place.\<close>

lemma ring_covers:
  assumes "i < (count :: nat)"
  shows "\<exists>offset<count. (start + offset) mod count = i"
proof -
  let ?s = "start mod count"
  have s: "?s < count" using assms by simp
  let ?o = "(i + (count - ?s)) mod count"
  have "(start + ?o) mod count = (?s + (i + (count - ?s))) mod count"
    by (metis mod_add_left_eq mod_add_right_eq)
  also have "?s + (i + (count - ?s)) = i + count" using s by linarith
  also have "(i + count) mod count = i" using assms by simp
  finally show ?thesis using assms s by (intro exI [of _ ?o]) simp
qed

text \<open>Unsigned integer operations with the standard library's overflow behaviour.\<close>

definition div_ceil :: "nat \<Rightarrow> nat \<Rightarrow> nat" where
  "div_ceil a b = (if a mod b = 0 then a div b else a div b + 1)"

lemma div_ceil_bounds: "0 < b \<Longrightarrow> a \<le> div_ceil a b * b \<and> div_ceil a b * b < a + b"
proof -
  assume b: "0 < b"
  have a: "a = b * (a div b) + a mod b" by simp
  have m: "a mod b < b" using b by simp
  have n: "(a div b + 1) * b = b * (a div b) + b" by (simp add: algebra_simps)
  show ?thesis
  proof (cases "a mod b = 0")
    case True
    with a b show ?thesis by (simp add: div_ceil_def mult.commute)
  next
    case False
    then have d: "div_ceil a b * b = b * (a div b) + b" by (simp add: div_ceil_def n)
    from False a m have "a \<le> b * (a div b) + b" "b * (a div b) + b < a + b" by linarith+
    with d show ?thesis by simp
  qed
qed

definition saturate :: "nat \<Rightarrow> nat \<Rightarrow> nat" where
  "saturate m n = (if n \<le> m then n else m)"

definition u64_max :: nat where
  "u64_max = 18446744073709551615"

definition u32_max :: nat where
  "u32_max = 4294967295"

end
