(* ===== verification/Rust_Text.thy ===== *)
theory Rust_Text
  imports Prelude
begin

text \<open>
  The string functions of the Rust standard library that the program uses, on \<open>string\<close>
  as the UTF-8 bytes of a \<open>str\<close>: the ASCII predicates and case folding (which leave the
  bytes of a non-ASCII character alone, as Rust's do), Unicode white-space trimming on the
  UTF-8 encoding, splitting, decimal parsing and printing, and lower-case hexadecimal.
\<close>

abbreviation ord :: "char \<Rightarrow> nat" where
  "ord c \<equiv> of_char c"

definition is_ascii :: "char \<Rightarrow> bool" where
  "is_ascii c = (ord c < 128)"

definition is_ascii_lowercase :: "char \<Rightarrow> bool" where
  "is_ascii_lowercase c = (97 \<le> ord c \<and> ord c \<le> 122)"

definition is_ascii_uppercase :: "char \<Rightarrow> bool" where
  "is_ascii_uppercase c = (65 \<le> ord c \<and> ord c \<le> 90)"

definition is_ascii_digit :: "char \<Rightarrow> bool" where
  "is_ascii_digit c = (48 \<le> ord c \<and> ord c \<le> 57)"

definition is_ascii_alphanumeric :: "char \<Rightarrow> bool" where
  "is_ascii_alphanumeric c = (is_ascii_lowercase c \<or> is_ascii_uppercase c \<or> is_ascii_digit c)"

definition is_ascii_hexdigit :: "char \<Rightarrow> bool" where
  "is_ascii_hexdigit c =
     (is_ascii_digit c \<or> (97 \<le> ord c \<and> ord c \<le> 102) \<or> (65 \<le> ord c \<and> ord c \<le> 70))"

lemmas ascii_defs = is_ascii_def is_ascii_lowercase_def is_ascii_uppercase_def is_ascii_digit_def
  is_ascii_alphanumeric_def is_ascii_hexdigit_def

declare ascii_defs [text_eval]

definition to_ascii_lowercase :: "char \<Rightarrow> char" where
  "to_ascii_lowercase c = (if is_ascii_uppercase c then char_of (ord c + 32) else c)"

definition to_ascii_uppercase :: "char \<Rightarrow> char" where
  "to_ascii_uppercase c = (if is_ascii_lowercase c then char_of (ord c - 32) else c)"

declare to_ascii_lowercase_def [text_eval] to_ascii_uppercase_def [text_eval]

abbreviation lower_ascii :: "string \<Rightarrow> string" where
  "lower_ascii s \<equiv> map to_ascii_lowercase s"

abbreviation upper_ascii :: "string \<Rightarrow> string" where
  "upper_ascii s \<equiv> map to_ascii_uppercase s"

definition eq_ignore_ascii_case :: "string \<Rightarrow> string \<Rightarrow> bool" where
  "eq_ignore_ascii_case a b = (lower_ascii a = lower_ascii b)"

lemma eq_ignore_ascii_case_refl [simp]: "eq_ignore_ascii_case a a"
  by (simp add: eq_ignore_ascii_case_def)

lemma eq_ignore_ascii_case_sym: "eq_ignore_ascii_case a b \<Longrightarrow> eq_ignore_ascii_case b a"
  by (simp add: eq_ignore_ascii_case_def)

lemma eq_ignore_ascii_case_trans:
  "eq_ignore_ascii_case a b \<Longrightarrow> eq_ignore_ascii_case b c \<Longrightarrow> eq_ignore_ascii_case a c"
  by (simp add: eq_ignore_ascii_case_def)

section \<open>White space\<close>

text \<open>
  \<open>char::is_whitespace\<close> on the UTF-8 encoding: the function gives the number of bytes of
  the white-space character a string starts with, 0 when it starts with none.
\<close>

fun ws_head :: "nat list \<Rightarrow> nat" where
  "ws_head (a # b # c # r) =
     (if (9 \<le> a \<and> a \<le> 13) \<or> a = 32 then 1
      else if a = 194 \<and> (b = 133 \<or> b = 160) then 2
      else if a = 225 \<and> b = 154 \<and> c = 128 then 3
      else if a = 226 \<and> b = 128 \<and> ((128 \<le> c \<and> c \<le> 138) \<or> c = 168 \<or> c = 169 \<or> c = 175) then 3
      else if a = 226 \<and> b = 129 \<and> c = 159 then 3
      else if a = 227 \<and> b = 128 \<and> c = 128 then 3
      else 0)"
| "ws_head [a, b] =
     (if (9 \<le> a \<and> a \<le> 13) \<or> a = 32 then 1
      else if a = 194 \<and> (b = 133 \<or> b = 160) then 2 else 0)"
| "ws_head [a] = (if (9 \<le> a \<and> a \<le> 13) \<or> a = 32 then 1 else 0)"
| "ws_head [] = 0"

definition ws_start :: "string \<Rightarrow> nat" where
  "ws_start s = ws_head (map ord (take 3 s))"

text \<open>The same character at the end of a string, read backwards.\<close>

definition ws_end :: "string \<Rightarrow> nat" where
  "ws_end s =
     (if 1 \<le> length s \<and> ws_start (drop (length s - 1) s) = 1 then 1
      else if 2 \<le> length s \<and> ws_start (drop (length s - 2) s) = 2 then 2
      else if 3 \<le> length s \<and> ws_start (drop (length s - 3) s) = 3 then 3
      else 0)"

function trim_start :: "string \<Rightarrow> string" where
  "trim_start s = (if s = [] \<or> ws_start s = 0 then s else trim_start (drop (ws_start s) s))"
  by pat_completeness auto
termination
  by (relation "measure length") (auto simp: ws_start_def)

function trim_end :: "string \<Rightarrow> string" where
  "trim_end s = (if s = [] \<or> ws_end s = 0 then s else trim_end (take (length s - ws_end s) s))"
  by pat_completeness auto
termination
  by (relation "measure length") (auto simp: ws_end_def)

declare trim_start.simps [simp del] trim_end.simps [simp del]

definition trim :: "string \<Rightarrow> string" where
  "trim s = trim_end (trim_start s)"

lemma trim_start_Nil [simp]: "trim_start [] = []"
  by (simp add: trim_start.simps)

lemma trim_end_Nil [simp]: "trim_end [] = []"
  by (simp add: trim_end.simps)

lemma trim_Nil [simp]: "trim [] = []"
  by (simp add: trim_def)

lemma trim_start_suffix: "\<exists>p. s = p @ trim_start s"
proof (induction s rule: trim_start.induct)
  case (1 s)
  show ?case
  proof (cases "s = [] \<or> ws_start s = 0")
    case True
    then show ?thesis by (simp add: trim_start.simps [of s])
  next
    case False
    with 1 obtain p where "drop (ws_start s) s = p @ trim_start (drop (ws_start s) s)"
      by blast
    then have "s = (take (ws_start s) s @ p) @ trim_start (drop (ws_start s) s)"
      by (metis append.assoc append_take_drop_id)
    with False show ?thesis by (metis trim_start.simps)
  qed
qed

lemma trim_start_stop: "trim_start s = [] \<or> ws_start (trim_start s) = 0"
proof (induction s rule: trim_start.induct)
  case (1 s)
  then show ?case
    by (cases "s = [] \<or> ws_start s = 0") (auto simp: trim_start.simps [of s])
qed

lemma trim_start_idem [simp]: "trim_start (trim_start s) = trim_start s"
  using trim_start_stop [of s] trim_start.simps [of "trim_start s"] by auto

lemma trim_end_prefix: "\<exists>r. s = trim_end s @ r"
proof (induction s rule: trim_end.induct)
  case (1 s)
  show ?case
  proof (cases "s = [] \<or> ws_end s = 0")
    case True
    then show ?thesis by (simp add: trim_end.simps [of s])
  next
    case False
    let ?t = "take (length s - ws_end s) s"
    from 1 False obtain r where "?t = trim_end ?t @ r" by blast
    then have "s = trim_end ?t @ r @ drop (length s - ws_end s) s"
      by (metis append.assoc append_take_drop_id)
    with False show ?thesis by (metis trim_end.simps)
  qed
qed

lemma trim_end_stop: "trim_end s = [] \<or> ws_end (trim_end s) = 0"
proof (induction s rule: trim_end.induct)
  case (1 s)
  then show ?case
    by (cases "s = [] \<or> ws_end s = 0") (auto simp: trim_end.simps [of s])
qed

lemma trim_end_idem [simp]: "trim_end (trim_end s) = trim_end s"
  using trim_end_stop [of s] trim_end.simps [of "trim_end s"] by auto

lemma ws_head_prefix: "ws_head bs = 0 \<Longrightarrow> ws_head (take n bs) = 0"
proof (cases bs rule: ws_head.cases)
  case (1 a b c r)
  consider "n = 0" | "n = 1" | "n = 2" | m where "n = Suc (Suc (Suc m))"
    by (metis One_nat_def Suc_1 not0_implies_Suc)
  then show "ws_head bs = 0 \<Longrightarrow> ws_head (take n bs) = 0"
    by cases (auto simp: 1 numeral_2_eq_2 split: if_splits)
next
  case (2 a b)
  consider "n = 0" | "n = 1" | m where "n = Suc (Suc m)" by (metis One_nat_def not0_implies_Suc)
  then show "ws_head bs = 0 \<Longrightarrow> ws_head (take n bs) = 0"
    by cases (auto simp: 2 split: if_splits)
next
  case (3 a)
  then show "ws_head bs = 0 \<Longrightarrow> ws_head (take n bs) = 0" by (cases n) auto
qed simp

lemma ws_start_prefix: "ws_start (p @ r) = 0 \<Longrightarrow> ws_start p = 0"
proof -
  have "take (length p) (take 3 (p @ r)) = take 3 (take (length p) (p @ r))"
    by (simp only: take_take min.commute)
  then have "take (length p) (map ord (take 3 (p @ r))) = map ord (take 3 p)" by (simp only: take_map) simp
  then show "ws_start (p @ r) = 0 \<Longrightarrow> ws_start p = 0"
    using ws_head_prefix [of "map ord (take 3 (p @ r))" "length p"] by (simp only: ws_start_def)
qed

lemma trim_trim [simp]: "trim (trim s) = trim s"
proof -
  let ?t = "trim_start s"
  from trim_end_prefix [of ?t] obtain r where r: "?t = trim_end ?t @ r" by blast
  have "trim_start (trim_end ?t) = trim_end ?t"
  proof (cases "?t = []")
    case False
    with trim_start_stop [of s] have "ws_start (trim_end ?t @ r) = 0" using r by simp
    then have "ws_start (trim_end ?t) = 0" by (rule ws_start_prefix)
    then show ?thesis by (simp add: trim_start.simps [of "trim_end ?t"])
  qed simp
  then show ?thesis by (simp add: trim_def)
qed

section \<open>Searching and splitting\<close>

fun starts_with :: "string \<Rightarrow> string \<Rightarrow> bool" where
  "starts_with s [] = True"
| "starts_with [] (p # ps) = False"
| "starts_with (c # s) (p # ps) = (c = p \<and> starts_with s ps)"

lemma starts_with_iff: "starts_with s p \<longleftrightarrow> (\<exists>r. s = p @ r)"
  by (induction s p rule: starts_with.induct) auto

definition ends_with :: "string \<Rightarrow> string \<Rightarrow> bool" where
  "ends_with s p = starts_with (rev s) (rev p)"

fun strip_prefix :: "string \<Rightarrow> string \<Rightarrow> string option" where
  "strip_prefix s [] = Some s"
| "strip_prefix [] (p # ps) = None"
| "strip_prefix (c # s) (p # ps) = (if c = p then strip_prefix s ps else None)"

lemma strip_prefix_iff: "strip_prefix s p = Some r \<longleftrightarrow> s = p @ r"
  by (induction s p rule: strip_prefix.induct) auto

lemma strip_prefix_None_iff: "strip_prefix s p = None \<longleftrightarrow> \<not> starts_with s p"
  by (induction s p rule: strip_prefix.induct) auto

fun contains_str :: "string \<Rightarrow> string \<Rightarrow> bool" where
  "contains_str [] p = (p = [])"
| "contains_str (c # s) p = (starts_with (c # s) p \<or> contains_str s p)"

lemma contains_str_iff: "contains_str s p \<longleftrightarrow> (\<exists>u v. s = u @ p @ v)"
proof (induction s)
  case (Cons c s)
  then show ?case
    by (auto simp: starts_with_iff Cons_eq_append_conv)
qed simp

text \<open>\<open>str::split_once\<close> on a character and on a string.\<close>

fun split_once :: "char \<Rightarrow> string \<Rightarrow> (string \<times> string) option" where
  "split_once d [] = None"
| "split_once d (c # s) =
     (if c = d then Some ([], s) else map_option (\<lambda>(a, b). (c # a, b)) (split_once d s))"

lemma split_once_Some_iff: "split_once d s = Some (a, b) \<longleftrightarrow> s = a @ d # b \<and> d \<notin> set a"
proof (induction s arbitrary: a)
  case (Cons c s)
  then show ?case by (cases a) auto
qed simp

lemma split_once_None_iff: "split_once d s = None \<longleftrightarrow> d \<notin> set s"
  by (induction s) auto

fun split_once_str :: "string \<Rightarrow> string \<Rightarrow> (string \<times> string) option" where
  "split_once_str d [] = (if d = [] then Some ([], []) else None)"
| "split_once_str d (c # s) =
     (case strip_prefix (c # s) d of
        Some r \<Rightarrow> Some ([], r)
      | None \<Rightarrow> map_option (\<lambda>(a, b). (c # a, b)) (split_once_str d s))"

lemma split_once_str_SomeD: "split_once_str d s = Some (a, b) \<Longrightarrow> s = a @ d @ b"
proof (induction s arbitrary: a)
  case Nil
  then show ?case by (simp split: if_splits)
next
  case (Cons c s)
  then show ?case
    by (auto split: option.splits simp: strip_prefix_iff)
qed

text \<open>\<open>str::split\<close> on a character: always at least one piece.\<close>

fun split_on :: "char \<Rightarrow> string \<Rightarrow> string list" where
  "split_on d [] = [[]]"
| "split_on d (c # s) =
     (if c = d then [] # split_on d s
      else (case split_on d s of [] \<Rightarrow> [[c]] | p # ps \<Rightarrow> (c # p) # ps))"

lemma split_on_nonempty [simp]: "split_on d s \<noteq> []"
  by (induction s) (auto split: list.splits)

lemma split_on_no_sep: "p \<in> set (split_on d s) \<Longrightarrow> d \<notin> set p"
proof (induction s arbitrary: p)
  case (Cons c s)
  obtain q qs where q: "split_on d s = q # qs"
    by (meson list.exhaust split_on_nonempty)
  with Cons show ?case by (auto split: if_splits)
qed simp

lemma length_split_on: "length (split_on d s) = Suc (count_list s d)"
proof (induction s)
  case (Cons c s)
  obtain q qs where q: "split_on d s = q # qs"
    by (meson list.exhaust split_on_nonempty)
  with Cons show ?case by auto
qed simp

fun join :: "string \<Rightarrow> string list \<Rightarrow> string" where
  "join sep [] = []"
| "join sep [x] = x"
| "join sep (x # y # ys) = x @ sep @ join sep (y # ys)"

lemma join_Cons_nonempty: "ys \<noteq> [] \<Longrightarrow> join sep (x # ys) = x @ sep @ join sep ys"
  by (cases ys) auto

lemma join_split_on: "join [d] (split_on d s) = s"
proof (induction s)
  case (Cons c s)
  obtain q qs where q: "split_on d s = q # qs"
    by (meson list.exhaust split_on_nonempty)
  have "join [d] ((c # q) # qs) = c # join [d] (q # qs)"
    by (cases qs) auto
  with Cons q show ?case by (auto simp: join_Cons_nonempty)
qed simp

section \<open>Numbers\<close>

definition digit_value :: "char \<Rightarrow> nat" where
  "digit_value c = ord c - 48"

fun digits_value :: "nat \<Rightarrow> string \<Rightarrow> nat" where
  "digits_value acc [] = acc"
| "digits_value acc (c # s) = digits_value (10 * acc + digit_value c) s"

text \<open>
  \<open>str::parse\<close> at an unsigned type with the given largest value: an optional \<open>+\<close>,
  at least one digit, nothing else, and no overflow.
\<close>

definition parse_unsigned :: "nat \<Rightarrow> string \<Rightarrow> nat option" where
  "parse_unsigned m s =
     (let t = (case s of c # r \<Rightarrow> if c = CHR ''+'' then r else s | [] \<Rightarrow> s)
      in if t \<noteq> [] \<and> list_all is_ascii_digit t \<and> digits_value 0 t \<le> m
         then Some (digits_value 0 t) else None)"

definition parse_u8 :: "string \<Rightarrow> nat option" where
  "parse_u8 = parse_unsigned 255"

definition parse_u16 :: "string \<Rightarrow> nat option" where
  "parse_u16 = parse_unsigned 65535"

definition parse_u32 :: "string \<Rightarrow> nat option" where
  "parse_u32 = parse_unsigned u32_max"

definition parse_u64 :: "string \<Rightarrow> nat option" where
  "parse_u64 = parse_unsigned u64_max"

lemma parse_unsigned_bound: "parse_unsigned m s = Some n \<Longrightarrow> n \<le> m"
  by (auto simp: parse_unsigned_def Let_def split: list.splits if_splits)

definition digit_char :: "nat \<Rightarrow> char" where
  "digit_char n = char_of (48 + n mod 10)"

fun show_nat :: "nat \<Rightarrow> string" where
  "show_nat n = (if n < 10 then [digit_char n] else show_nat (n div 10) @ [digit_char (n mod 10)])"

declare show_nat.simps [simp del]

lemma ord_digit_char [simp]: "ord (digit_char n) = 48 + n mod 10"
proof -
  have "48 + n mod 10 < (256::nat)" by linarith
  then show ?thesis by (simp add: digit_char_def)
qed

lemma digit_value_digit_char [simp]: "digit_value (digit_char n) = n mod 10"
  by (simp add: digit_value_def)

lemma is_ascii_digit_digit_char [simp]: "is_ascii_digit (digit_char n)"
proof -
  have "n mod 10 < 10" by simp
  then show ?thesis unfolding is_ascii_digit_def ord_digit_char by linarith
qed

lemma digits_value_snoc: "digits_value a (s @ [c]) = 10 * digits_value a s + digit_value c"
  by (induction s arbitrary: a) auto

lemma show_nat_nonempty [simp]: "show_nat n \<noteq> []"
  by (subst show_nat.simps) simp

lemma show_nat_digits: "list_all is_ascii_digit (show_nat n)"
proof (induction n rule: show_nat.induct)
  case (1 n)
  then show ?case
    by (subst show_nat.simps) (auto simp: is_ascii_digit_digit_char)
qed

lemma show_nat_value [simp]: "digits_value 0 (show_nat n) = n"
proof (induction n rule: show_nat.induct)
  case (1 n)
  then show ?case
    by (subst show_nat.simps) (auto simp: digits_value_snoc)
qed

lemma show_nat_no_plus: "CHR ''+'' \<notin> set (show_nat n)"
proof
  assume "CHR ''+'' \<in> set (show_nat n)"
  then have "is_ascii_digit (CHR ''+'')"
    using show_nat_digits [of n] by (simp add: list_all_iff)
  then show False by (simp add: is_ascii_digit_def)
qed

lemma parse_show_nat: "n \<le> m \<Longrightarrow> parse_unsigned m (show_nat n) = Some n"
proof -
  assume n: "n \<le> m"
  obtain c r where cr: "show_nat n = c # r"
    by (meson list.exhaust show_nat_nonempty)
  with show_nat_no_plus [of n] have c: "c \<noteq> CHR ''+''" by auto
  have "list_all is_ascii_digit (c # r)" and "digits_value 0 (c # r) = n"
    using show_nat_digits [of n] show_nat_value [of n] unfolding cr by auto
  with c n show ?thesis by (simp add: parse_unsigned_def cr)
qed

lemma show_nat_head: "10 \<le> n \<Longrightarrow> \<exists>c r. show_nat n = c # r \<and> c \<noteq> CHR ''0''"
proof (induction n rule: show_nat.induct)
  case (1 n)
  show ?case
  proof (cases "n div 10 < 10")
    case True
    let ?m = "n div 10"
    from "1.prems" have pos: "1 \<le> ?m" by linarith
    have "ord (digit_char ?m) \<noteq> 48" using True pos by simp
    moreover have "ord (CHR ''0'') = (48::nat)" by simp
    ultimately have "digit_char ?m \<noteq> CHR ''0''" by metis
    with True "1.prems" show ?thesis
      by (simp add: show_nat.simps [of n] show_nat.simps [of ?m])
  next
    case False
    with "1.IH" "1.prems" obtain c r where "show_nat (n div 10) = c # r" "c \<noteq> CHR ''0''"
      by auto
    with "1.prems" show ?thesis by (simp add: show_nat.simps [of n])
  qed
qed

lemma length_show_nat: "n < 10 ^ k \<Longrightarrow> 0 < k \<Longrightarrow> length (show_nat n) \<le> k"
proof (induction k arbitrary: n)
  case (Suc k)
  show ?case
  proof (cases "n < 10")
    case True
    then show ?thesis by (simp add: show_nat.simps)
  next
    case False
    with Suc.prems have "n div 10 < 10 ^ k" by (simp add: div_less_iff_less_mult mult.commute)
    moreover from this False have "0 < k" by (cases k) auto
    ultimately have "length (show_nat (n div 10)) \<le> k" by (rule Suc.IH)
    with False show ?thesis by (simp add: show_nat.simps [of n])
  qed
qed simp

lemma char_not_in_show_nat: "\<not> is_ascii_digit c \<Longrightarrow> c \<notin> set (show_nat n)"
  using show_nat_digits [of n] by (auto simp: list_all_iff)

text \<open>Printed numbers neither start nor end with white space, so trimming leaves them alone.\<close>

lemma ws_head_byte: "1 < ws_head bs \<Longrightarrow> ws_head bs \<le> length bs \<and> 128 \<le> bs ! (ws_head bs - 1)"
  by (cases bs rule: ws_head.cases) (auto split: if_splits)

lemma ws_start_byte:
  assumes "1 < ws_start s"
  shows "128 \<le> (ord (s ! (ws_start s - 1)) :: nat)"
proof -
  let ?n = "ws_start s" and ?bs = "map ord (take 3 s) :: nat list"
  from ws_head_byte [of ?bs] assms have n: "?n \<le> length ?bs" "128 \<le> ?bs ! (?n - 1)"
    by (simp_all add: ws_start_def)
  from n(1) assms have "?n - 1 < length (take 3 s)" by (simp del: One_nat_def) linarith
  then have "?bs ! (?n - 1) = ord (s ! (?n - 1))" by simp
  with n(2) show ?thesis by simp
qed

definition is_ascii_graphic :: "char \<Rightarrow> bool" where
  "is_ascii_graphic c = (33 \<le> ord c \<and> ord c \<le> 126)"

lemma digit_graphic: "is_ascii_digit c \<Longrightarrow> is_ascii_graphic c"
  by (simp add: is_ascii_digit_def is_ascii_graphic_def)

lemma graphic_no_ws:
  assumes "is_ascii_graphic c"
  shows "ws_start (c # s) = 0"
proof -
  from assms have c: "33 \<le> ord c" "ord c \<le> (126::nat)" by (auto simp: is_ascii_graphic_def)
  show ?thesis
  proof (rule ccontr)
    assume "ws_start (c # s) \<noteq> 0"
    then obtain bs where "ws_head (ord c # bs) \<noteq> 0"
      by (auto simp: ws_start_def take_Cons')
    with c show False by (cases "ord c # bs" rule: ws_head.cases) (auto split: if_splits)
  qed
qed

lemma trim_start_graphic: "is_ascii_graphic c \<Longrightarrow> trim_start (c # r) = c # r"
  using graphic_no_ws [of c r] by (simp add: trim_start.simps [of "c # r"])

lemma last_graphic_no_ws:
  assumes "s \<noteq> []" and "is_ascii_graphic (last s)"
  shows "ws_end s = 0"
proof -
  from assms obtain r c where s: "s = r @ [c]" and c: "is_ascii_graphic c"
    by (metis append_butlast_last_id)
  have cb: "ord c < (128::nat)" using c by (simp add: is_ascii_graphic_def)
  have one: "ws_start (drop (length s - 1) s) = 0"
    using graphic_no_ws [OF c, of "[]"] s by simp
  have more: "ws_start (drop (length s - k) s) \<noteq> k" if "2 \<le> k" "k \<le> length s" for k
  proof
    assume a: "ws_start (drop (length s - k) s) = k"
    have "drop (length s - k) s ! (k - 1) = c"
      using that s by (simp add: nth_append nth_drop)
    with ws_start_byte [of "drop (length s - k) s"] a that cb show False by simp
  qed
  from one more [of 2] more [of 3] show ?thesis by (auto simp: ws_end_def)
qed

lemma trim_graphic:
  assumes "s \<noteq> []" and "is_ascii_graphic (hd s)" and "is_ascii_graphic (last s)"
  shows "trim s = s"
proof -
  from assms(1,2) have "trim_start s = s" by (cases s) (auto intro: trim_start_graphic)
  with last_graphic_no_ws [OF assms(1,3)] show ?thesis
    by (simp add: trim_def trim_end.simps [of s])
qed

lemma trim_digits:
  "s \<noteq> [] \<Longrightarrow> is_ascii_digit (hd s) \<Longrightarrow> is_ascii_digit (last s) \<Longrightarrow> trim s = s"
  by (rule trim_graphic) (simp_all add: digit_graphic)

lemma hd_show_nat [simp]: "is_ascii_digit (hd (show_nat n))"
  using show_nat_digits [of n] by (simp add: list_all_iff)

lemma last_show_nat [simp]: "is_ascii_digit (last (show_nat n))"
  using show_nat_digits [of n] by (simp add: list_all_iff)

lemma trim_show_nat [simp]: "trim (show_nat n) = show_nat n"
  by (rule trim_digits) simp_all

text \<open>Lower-case hexadecimal, as \<open>{:02x}\<close> and \<open>{:x}\<close> print it.\<close>

definition hex_char :: "nat \<Rightarrow> char" where
  "hex_char n = (if n mod 16 < 10 then char_of (48 + n mod 16) else char_of (87 + n mod 16))"

fun show_hex :: "nat \<Rightarrow> string" where
  "show_hex n = (if n < 16 then [hex_char n] else show_hex (n div 16) @ [hex_char (n mod 16)])"

declare show_hex.simps [simp del]

text \<open>\<open>{:016x}\<close> on a \<open>u64\<close>: exactly the sixteen nibbles, most significant first.\<close>

definition show_hex16 :: "u64 \<Rightarrow> string" where
  "show_hex16 w = map (\<lambda>i. hex_char (unat (drop_bit (4 * (15 - i)) w))) [0..<16]"

lemma length_show_hex16 [simp]: "length (show_hex16 w) = 16"
  by (simp add: show_hex16_def)

lemma hex_char_hexdigit: "is_ascii_hexdigit (hex_char n)"
proof -
  have "n mod 16 < 16" by simp
  then have "48 + n mod 16 < (256::nat)" "87 + n mod 16 < (256::nat)" by linarith+
  with \<open>n mod 16 < 16\<close> show ?thesis
    by (auto simp: hex_char_def is_ascii_hexdigit_def is_ascii_digit_def)
qed

section \<open>Lines, words and pieces\<close>

text \<open>\<open>str::split\<close> on a string that is not empty.\<close>

function split_str :: "string \<Rightarrow> string \<Rightarrow> string list" where
  "split_str d s =
     (if d = [] then [s]
      else case split_once_str d s of None \<Rightarrow> [s] | Some (a, b) \<Rightarrow> a # split_str d b)"
  by pat_completeness auto
termination
  by (relation "measure (length \<circ> snd)") (auto dest: split_once_str_SomeD)

declare split_str.simps [simp del]

text \<open>\<open>str::lines\<close>: the pieces between line feeds; a last empty piece is not a line, and of every piece
that a line feed ends the carriage return before it goes.\<close>

definition text_lines :: "string \<Rightarrow> string list" where
  "text_lines s =
     (let pieces = split_on (CHR 0x0A) s
      in map (\<lambda>l. if l \<noteq> [] \<and> last l = CHR 0x0D then butlast l else l) (butlast pieces)
         @ (if last pieces = [] then [] else [last pieces]))"

text \<open>\<open>split_ascii_whitespace\<close>, which is \<open>split_whitespace\<close> on ASCII text.\<close>

definition is_ascii_space :: "char \<Rightarrow> bool" where
  "is_ascii_space c = (c \<in> {CHR '' '', CHR 0x09, CHR 0x0A, CHR 0x0B, CHR 0x0C, CHR 0x0D})"

function text_words :: "string \<Rightarrow> string list" where
  "text_words s =
     (let t = dropWhile is_ascii_space s
      in if t = [] then []
         else takeWhile (\<lambda>c. \<not> is_ascii_space c) t # text_words (dropWhile (\<lambda>c. \<not> is_ascii_space c) t))"
  by pat_completeness auto
termination
proof (relation "measure length")
  fix s t :: string
  assume t: "t = dropWhile is_ascii_space s" "t \<noteq> []"
  then have "\<not> is_ascii_space (hd t)" using hd_dropWhile [of is_ascii_space s] by simp
  with t(2) obtain c r where c: "t = c # r" "\<not> is_ascii_space c" by (cases t) auto
  have "length (dropWhile (\<lambda>c. \<not> is_ascii_space c) r) \<le> length r" by (rule length_dropWhile_le)
  moreover have "length t \<le> length s" unfolding t(1) by (rule length_dropWhile_le)
  ultimately show "(dropWhile (\<lambda>c. \<not> is_ascii_space c) t, s) \<in> measure length"
    using c by simp
qed simp

declare text_words.simps [simp del]

end
