(* ===== verification/Country.thy ===== *)
theory Country
  imports Rust_Text "HOL-Library.List_Lexorder"
begin

text \<open>
  Reading a country out of a server name: \<open>crates/oxidom-core/src/country.rs\<close> and
  \<open>country_from_name\<close>, \<open>name_without_flag\<close> of \<open>model.rs\<close>, on UTF-8 bytes.
\<close>


definition alpha2_codes :: "string list" where
  "alpha2_codes =
  [''AD'', ''AE'', ''AF'', ''AG'', ''AI'', ''AL'', ''AM'', ''AO'', ''AQ'', ''AR'', ''AS'', ''AT'',
   ''AU'', ''AW'', ''AX'', ''AZ'', ''BA'', ''BB'', ''BD'', ''BE'', ''BF'', ''BG'', ''BH'', ''BI'',
   ''BJ'', ''BL'', ''BM'', ''BN'', ''BO'', ''BQ'', ''BR'', ''BS'', ''BT'', ''BV'', ''BW'', ''BY'',
   ''BZ'', ''CA'', ''CC'', ''CD'', ''CF'', ''CG'', ''CH'', ''CI'', ''CK'', ''CL'', ''CM'', ''CN'',
   ''CO'', ''CR'', ''CU'', ''CV'', ''CW'', ''CX'', ''CY'', ''CZ'', ''DE'', ''DJ'', ''DK'', ''DM'',
   ''DO'', ''DZ'', ''EC'', ''EE'', ''EG'', ''EH'', ''ER'', ''ES'', ''ET'', ''FI'', ''FJ'', ''FK'',
   ''FM'', ''FO'', ''FR'', ''GA'', ''GB'', ''GD'', ''GE'', ''GF'', ''GG'', ''GH'', ''GI'', ''GL'',
   ''GM'', ''GN'', ''GP'', ''GQ'', ''GR'', ''GS'', ''GT'', ''GU'', ''GW'', ''GY'', ''HK'', ''HM'',
   ''HN'', ''HR'', ''HT'', ''HU'', ''ID'', ''IE'', ''IL'', ''IM'', ''IN'', ''IO'', ''IQ'', ''IR'',
   ''IS'', ''IT'', ''JE'', ''JM'', ''JO'', ''JP'', ''KE'', ''KG'', ''KH'', ''KI'', ''KM'', ''KN'',
   ''KP'', ''KR'', ''KW'', ''KY'', ''KZ'', ''LA'', ''LB'', ''LC'', ''LI'', ''LK'', ''LR'', ''LS'',
   ''LT'', ''LU'', ''LV'', ''LY'', ''MA'', ''MC'', ''MD'', ''ME'', ''MF'', ''MG'', ''MH'', ''MK'',
   ''ML'', ''MM'', ''MN'', ''MO'', ''MP'', ''MQ'', ''MR'', ''MS'', ''MT'', ''MU'', ''MV'', ''MW'',
   ''MX'', ''MY'', ''MZ'', ''NA'', ''NC'', ''NE'', ''NF'', ''NG'', ''NI'', ''NL'', ''NO'', ''NP'',
   ''NR'', ''NU'', ''NZ'', ''OM'', ''PA'', ''PE'', ''PF'', ''PG'', ''PH'', ''PK'', ''PL'', ''PM'',
   ''PN'', ''PR'', ''PS'', ''PT'', ''PW'', ''PY'', ''QA'', ''RE'', ''RO'', ''RS'', ''RU'', ''RW'',
   ''SA'', ''SB'', ''SC'', ''SD'', ''SE'', ''SG'', ''SH'', ''SI'', ''SJ'', ''SK'', ''SL'', ''SM'',
   ''SN'', ''SO'', ''SR'', ''SS'', ''ST'', ''SV'', ''SX'', ''SY'', ''SZ'', ''TC'', ''TD'', ''TF'',
   ''TG'', ''TH'', ''TJ'', ''TK'', ''TL'', ''TM'', ''TN'', ''TO'', ''TR'', ''TT'', ''TV'', ''TW'',
   ''TZ'', ''UA'', ''UG'', ''UM'', ''US'', ''UY'', ''UZ'', ''VA'', ''VC'', ''VE'', ''VG'', ''VI'',
   ''VN'', ''VU'', ''WF'', ''WS'', ''YE'', ''YT'', ''ZA'', ''ZM'', ''ZW'']"

text \<open>
  \<open>binary_search\<close> on the table is membership because the table is sorted
  (\<open>alpha2_codes_sorted\<close>).
\<close>

definition is_alpha2 :: "string \<Rightarrow> bool" where
  "is_alpha2 code =
     (if length code \<noteq> 2 \<or> \<not> list_all (\<lambda>c. is_ascii_lowercase c \<or> is_ascii_uppercase c) code then False
      else upper_ascii code \<in> set alpha2_codes)"

text \<open>The UTF-8 encoding of a regional indicator is four bytes, F0 9F 87 A6 to F0 9F 87 BF.\<close>

fun regional_indicator :: "string \<Rightarrow> (char \<times> string) option" where
  "regional_indicator (a # b # c # d # r) =
     (if ord a = (240::nat) \<and> ord b = (159::nat) \<and> ord c = (135::nat)
         \<and> 166 \<le> (ord d::nat) \<and> ord d \<le> (191::nat)
      then Some (char_of (65 + (ord d - 166) :: nat), r) else None)"
| "regional_indicator _ = None"

definition name_without_flag :: "string \<Rightarrow> string" where
  "name_without_flag name =
     (case regional_indicator (trim_start name) of
        None \<Rightarrow> name
      | Some (_, r) \<Rightarrow>
          (case regional_indicator r of None \<Rightarrow> name | Some (_, r') \<Rightarrow> trim_start r'))"

text \<open>The separators a country token ends at: white space, one of \<open>- _ | . [ (\<close> or a middle dot.\<close>

definition country_sep :: "string \<Rightarrow> nat" where
  "country_sep s =
     (if 0 < ws_start s then ws_start s
      else case s of
        [] \<Rightarrow> 0
      | c # r \<Rightarrow>
          if c \<in> {CHR ''-'', CHR ''_'', CHR ''|'', CHR ''.'', CHR ''['', CHR ''(''} then 1
          else if ord c = (194::nat) \<and> (case r of [] \<Rightarrow> False | d # _ \<Rightarrow> ord d = (183::nat)) then 2
          else 0)"

lemma country_sep_le: "s \<noteq> [] \<Longrightarrow> 0 < country_sep s \<Longrightarrow> length (drop (country_sep s) s) < length s"
  by (cases s) auto

fun country_token :: "string \<Rightarrow> string" where
  "country_token [] = []"
| "country_token (c # s) = (if 0 < country_sep (c # s) then [] else c # country_token s)"

function skip_country_seps :: "string \<Rightarrow> string" where
  "skip_country_seps s =
     (if s \<noteq> [] \<and> 0 < country_sep s then skip_country_seps (drop (country_sep s) s) else s)"
  by pat_completeness auto
termination
  by (relation "measure length") (auto intro: country_sep_le)

declare skip_country_seps.simps [simp del]

definition country_from_name :: "string \<Rightarrow> string option" where
  "country_from_name name =
     (let trimmed = trim_start name;
          tok = country_token (skip_country_seps trimmed);
          by_token = (if tok \<noteq> [] \<and> is_alpha2 tok then Some (upper_ascii tok) else None)
      in case regional_indicator trimmed of
           None \<Rightarrow> by_token
         | Some (a, r) \<Rightarrow>
             (case regional_indicator r of None \<Rightarrow> by_token | Some (b, _) \<Rightarrow> Some [a, b]))"


fun strictly_sorted :: "string list \<Rightarrow> bool" where
  "strictly_sorted (x # y # r) = (x < y \<and> strictly_sorted (y # r))"
| "strictly_sorted _ = True"

lemma strictly_sorted_iff: "strictly_sorted xs \<longleftrightarrow> sorted_wrt (<) xs"
  by (induction xs rule: strictly_sorted.induct) (auto intro: order.strict_trans)

lemma alpha2_codes_strict: "strictly_sorted alpha2_codes"
  by code_simp

lemma alpha2_codes_sorted: "sorted_wrt (<) alpha2_codes"
  using alpha2_codes_strict by (simp add: strictly_sorted_iff)

end
