(* ===== verification/Model.thy ===== *)
theory Model
  imports Rust_Text
begin

text \<open>
  The data model of \<open>crates/oxidom-core/src/model.rs\<close>: protocols, port ranges, the stream
  and Hysteria2 settings, the outbound of a server, servers and subscriptions, with the pure
  functions on them (identity hash, certificate pins, bandwidth hints, labels).

  JSON values (\<open>serde_json::Value\<close>) are only stored and compared here: they are the type
  parameter \<open>'j\<close>. The base64 decoder and the JSON printer are arguments of the functions
  that call them.
\<close>

unbundle bit_operations_syntax

section \<open>Protocols and port ranges\<close>

datatype protocol = PVless | PVmess | PTrojan | PShadowsocks | PSocks | PHttp | PHysteria2

fun protocol_as_str :: "protocol \<Rightarrow> string" where
  "protocol_as_str PVless = ''vless''"
| "protocol_as_str PVmess = ''vmess''"
| "protocol_as_str PTrojan = ''trojan''"
| "protocol_as_str PShadowsocks = ''shadowsocks''"
| "protocol_as_str PSocks = ''socks''"
| "protocol_as_str PHttp = ''http''"
| "protocol_as_str PHysteria2 = ''hysteria2''"

lemma protocol_as_str_inj: "protocol_as_str p = protocol_as_str q \<Longrightarrow> p = q"
  by (cases p; cases q) simp_all

record port_range =
  pr_start :: nat
  pr_end :: nat

text \<open>\<open>split_once(['-', ':'])\<close>: at the first of either character.\<close>

fun split_once_any :: "char list \<Rightarrow> string \<Rightarrow> (string \<times> string) option" where
  "split_once_any ds [] = None"
| "split_once_any ds (c # s) =
     (if c \<in> set ds then Some ([], s)
      else map_option (\<lambda>(a, b). (c # a, b)) (split_once_any ds s))"

lemma split_once_any_app:
  "set a \<inter> set ds = {} \<Longrightarrow> d \<in> set ds \<Longrightarrow> split_once_any ds (a @ d # b) = Some (a, b)"
  by (induction a) auto

lemma split_once_any_None: "set a \<inter> set ds = {} \<Longrightarrow> split_once_any ds a = None"
  by (induction a) auto

definition port_range_parse :: "string \<Rightarrow> port_range option" where
  "port_range_parse raw0 =
     (let raw = trim raw0;
          bounds = (case split_once_any [CHR ''-'', CHR '':''] raw of
              Some (s, e) \<Rightarrow>
                (case parse_u16 (trim s) of
                   None \<Rightarrow> None
                 | Some a \<Rightarrow> (case parse_u16 (trim e) of None \<Rightarrow> None | Some b \<Rightarrow> Some (a, b)))
            | None \<Rightarrow> (case parse_u16 raw of None \<Rightarrow> None | Some a \<Rightarrow> Some (a, a)))
      in case bounds of
           None \<Rightarrow> None
         | Some (a, b) \<Rightarrow>
             if a \<le> b \<and> a \<noteq> 0 then Some \<lparr>pr_start = a, pr_end = b\<rparr> else None)"

definition port_range_to_xray :: "port_range \<Rightarrow> string" where
  "port_range_to_xray r =
     (if pr_start r = pr_end r then show_nat (pr_start r)
      else show_nat (pr_start r) @ ''-'' @ show_nat (pr_end r))"

definition port_range_ok :: "port_range \<Rightarrow> bool" where
  "port_range_ok r = (0 < pr_start r \<and> pr_start r \<le> pr_end r \<and> pr_end r \<le> 65535)"

lemma port_range_parse_to_xray:
  assumes "port_range_ok r"
  shows "port_range_parse (port_range_to_xray r) = Some r"
proof -
  let ?a = "show_nat (pr_start r)" and ?b = "show_nat (pr_end r)"
  have dash: "set (show_nat n) \<inter> set [CHR ''-'', CHR '':''] = {}" for n
    using char_not_in_show_nat [of "CHR ''-''" n] char_not_in_show_nat [of "CHR '':''" n]
    by (simp add: is_ascii_digit_def)
  have pa: "parse_u16 ?a = Some (pr_start r)" and pb: "parse_u16 ?b = Some (pr_end r)"
    unfolding parse_u16_def by (rule parse_show_nat, use assms in \<open>simp add: port_range_ok_def\<close>)+
  have t: "trim (?a @ CHR ''-'' # ?b) = ?a @ CHR ''-'' # ?b"
    by (rule trim_digits) simp_all
  show ?thesis
  proof (cases "pr_start r = pr_end r")
    case True
    then show ?thesis
      using assms pb split_once_any_None [OF dash]
      by (simp add: port_range_parse_def port_range_to_xray_def port_range_ok_def)
  next
    case False
    have "split_once_any [CHR ''-'', CHR '':''] (?a @ CHR ''-'' # ?b) = Some (?a, ?b)"
      by (rule split_once_any_app [OF dash]) simp
    with False assms pa pb t show ?thesis
      by (simp add: port_range_parse_def port_range_to_xray_def port_range_ok_def)
  qed
qed

lemma port_range_parse_ok: "port_range_parse s = Some r \<Longrightarrow> port_range_ok r"
  by (auto simp: port_range_parse_def port_range_ok_def Let_def parse_u16_def
      dest!: parse_unsigned_bound split: option.splits prod.splits if_splits)

section \<open>Bandwidth hints\<close>

text \<open>
  The multiplication is on \<open>u64\<close> and wraps: the release profile of the workspace leaves
  overflow checks off (a debug build panics there instead).
\<close>

fun take_while_digit :: "string \<Rightarrow> string" where
  "take_while_digit [] = []"
| "take_while_digit (c # s) = (if is_ascii_digit c then c # take_while_digit s else [])"

definition clamp_mbps :: "nat \<Rightarrow> nat" where
  "clamp_mbps n = max 1 (min n u32_max)"

definition parse_bandwidth_mbps :: "string \<Rightarrow> nat option" where
  "parse_bandwidth_mbps raw0 =
     (let raw = lower_ascii (trim raw0);
          digits = take_while_digit raw
      in case parse_u64 digits of
           None \<Rightarrow> None
         | Some v \<Rightarrow>
             (let unit = trim (drop (length digits) raw);
                  mbps = (if unit \<in> {''g'', ''gbps'', ''gb'', ''gbit''} then (v * 1000) mod 2 ^ 64
                          else if unit \<in> {''k'', ''kbps'', ''kb'', ''kbit''} then div_ceil v 1000
                          else v)
              in Some (clamp_mbps mbps)))"

lemma clamp_mbps_range: "1 \<le> clamp_mbps n \<and> clamp_mbps n \<le> u32_max"
  by (simp add: clamp_mbps_def u32_max_def)

lemma parse_bandwidth_range: "parse_bandwidth_mbps s = Some n \<Longrightarrow> 1 \<le> n \<and> n \<le> u32_max"
  using clamp_mbps_range by (auto simp: parse_bandwidth_mbps_def Let_def split: option.splits)

section \<open>Outbounds\<close>

record hysteria2_obfs =
  ho_kind :: string
  ho_password :: string

record hysteria2_settings =
  h2_sni :: "string option"
  h2_alpn :: "string list option"
  h2_allow_insecure :: bool
  h2_pin_sha256 :: "string option"
  h2_obfs :: "hysteria2_obfs option"
  h2_up_mbps :: "nat option"
  h2_down_mbps :: "nat option"
  h2_port_hop :: "port_range list"
  h2_hop_interval_secs :: "nat option"
  h2_congestion :: "string option"
  h2_udp_idle_timeout_secs :: "nat option"

record 'j stream_settings =
  ss_network :: string
  ss_security :: string
  ss_sni :: "string option"
  ss_alpn :: "string list option"
  ss_fingerprint :: "string option"
  ss_allow_insecure :: bool
  ss_pin_sha256 :: "string option"
  ss_public_key :: "string option"
  ss_short_id :: "string option"
  ss_spider_x :: "string option"
  ss_path :: "string option"
  ss_host :: "string option"
  ss_service_name :: "string option"
  ss_xhttp_mode :: "string option"
  ss_xhttp_extra :: "'j option"
  ss_grpc_authority :: "string option"
  ss_grpc_multi_mode :: bool
  ss_header_type :: "string option"
  ss_flow :: "string option"
  ss_ech :: "string option"
  ss_verify_peer_cert_by_name :: "string option"
  ss_mldsa65_verify :: "string option"

datatype 'j outbound_spec =
    Vless string string "'j stream_settings"
  | Vmess string nat string "'j stream_settings"
  | Trojan string "'j stream_settings"
  | Shadowsocks string string
  | Socks "string option" "string option"
  | Http "string option" "string option"
  | Hysteria2 string hysteria2_settings
  | XrayProfile "'j list" "'j list" "'j option" string

text \<open>\<open>OutboundSpec::stream\<close> and the update behind \<open>stream_mut\<close>.\<close>

fun stream :: "'j outbound_spec \<Rightarrow> 'j stream_settings option" where
  "stream (Vless _ _ s) = Some s"
| "stream (Vmess _ _ _ s) = Some s"
| "stream (Trojan _ s) = Some s"
| "stream (Shadowsocks _ _) = None"
| "stream (Socks _ _) = None"
| "stream (Http _ _) = None"
| "stream (Hysteria2 _ _) = None"
| "stream (XrayProfile _ _ _ _) = None"

fun map_stream :: "('j stream_settings \<Rightarrow> 'j stream_settings) \<Rightarrow> 'j outbound_spec \<Rightarrow> 'j outbound_spec" where
  "map_stream f (Vless u e s) = Vless u e (f s)"
| "map_stream f (Vmess u a e s) = Vmess u a e (f s)"
| "map_stream f (Trojan p s) = Trojan p (f s)"
| "map_stream f spec = spec"

lemma stream_map_stream: "stream (map_stream f spec) = map_option f (stream spec)"
  by (cases spec) auto

definition spec_tls_sni :: "'j outbound_spec \<Rightarrow> string option" where
  "spec_tls_sni spec =
     (case spec of Hysteria2 _ h \<Rightarrow> h2_sni h
      | _ \<Rightarrow> (case stream spec of None \<Rightarrow> None | Some s \<Rightarrow> ss_sni s))"

definition spec_pin_sha256 :: "'j outbound_spec \<Rightarrow> string option" where
  "spec_pin_sha256 spec =
     (case spec of Hysteria2 _ h \<Rightarrow> h2_pin_sha256 h
      | _ \<Rightarrow> (case stream spec of None \<Rightarrow> None | Some s \<Rightarrow> ss_pin_sha256 s))"

text \<open>\<open>set_pin_sha256\<close>: the new outbound and whether there was a place for the pin.\<close>

definition set_pin_sha256 :: "string option \<Rightarrow> 'j outbound_spec \<Rightarrow> 'j outbound_spec \<times> bool" where
  "set_pin_sha256 pin spec =
     (case spec of
        Hysteria2 a h \<Rightarrow> (Hysteria2 a (h\<lparr>h2_pin_sha256 := pin\<rparr>), True)
      | _ \<Rightarrow> (map_stream (\<lambda>s. s\<lparr>ss_pin_sha256 := pin\<rparr>) spec, stream spec \<noteq> None))"

text \<open>The loop of \<open>same_connection_as\<close> over both sides: pins are cleared before comparing.\<close>

definition unpinned :: "'j outbound_spec \<Rightarrow> 'j outbound_spec" where
  "unpinned spec =
     (case map_stream (\<lambda>s. s\<lparr>ss_pin_sha256 := None\<rparr>) spec of
        Hysteria2 a h \<Rightarrow> Hysteria2 a (h\<lparr>h2_pin_sha256 := None\<rparr>)
      | spec' \<Rightarrow> spec')"

definition spec_same_connection :: "'j outbound_spec \<Rightarrow> 'j outbound_spec \<Rightarrow> bool" where
  "spec_same_connection a b = (a = b \<or> unpinned a = unpinned b)"

lemma spec_same_connection_iff: "spec_same_connection a b \<longleftrightarrow> unpinned a = unpinned b"
  by (auto simp: spec_same_connection_def)

lemma unpinned_set_pin [simp]: "unpinned (fst (set_pin_sha256 pin spec)) = unpinned spec"
  by (cases spec) (simp_all add: unpinned_def set_pin_sha256_def)

lemma pin_after_set: "snd (set_pin_sha256 pin spec) \<Longrightarrow> spec_pin_sha256 (fst (set_pin_sha256 pin spec)) = pin"
  by (cases spec) (simp_all add: spec_pin_sha256_def set_pin_sha256_def)

lemma set_pin_refused: "\<not> snd (set_pin_sha256 pin spec) \<Longrightarrow> fst (set_pin_sha256 pin spec) = spec"
  by (cases spec) (simp_all add: set_pin_sha256_def)

section \<open>Servers and subscriptions\<close>

record 'j server_overrides =
  ov_values :: "(string \<times> 'j) list"
  ov_provider :: "(string \<times> 'j) list"

record 'j server =
  srv_id :: string
  srv_name :: string
  srv_protocol :: protocol
  srv_address :: string
  srv_port :: nat
  srv_transport_label :: string
  srv_country :: "string option"
  srv_spec :: "'j outbound_spec"
  srv_link :: "string option"
  srv_alias :: "string option"
  srv_outbound_patch :: "'j option"
  srv_overrides :: "'j server_overrides option"
  srv_latency_ms :: "nat option"

record user_info =
  ui_upload :: nat
  ui_download :: nat
  ui_total :: nat
  ui_expire :: "int option"

text \<open>What a refresh could not read, and what it read and did not apply.\<close>

record skipped =
  sk_lines :: nat
  sk_schemes :: "string list"

record not_taken =
  nt_rules :: nat
  nt_rule_sets :: nat
  nt_own_source :: bool

definition skipped_default :: skipped where
  "skipped_default = \<lparr>sk_lines = 0, sk_schemes = []\<rparr>"

definition not_taken_default :: not_taken where
  "not_taken_default = \<lparr>nt_rules = 0, nt_rule_sets = 0, nt_own_source = False\<rparr>"

record 'j subscription =
  sub_id :: string
  sub_name :: string
  sub_url :: string
  sub_description :: "string option"
  sub_userinfo :: "user_info option"
  sub_send_hwid :: bool
  sub_user_agent :: "string option"
  sub_servers :: "'j server list"
  sub_skipped :: skipped
  sub_not_taken :: not_taken
  sub_updated_at :: "int option"

definition same_connection_as :: "'j server \<Rightarrow> 'j server \<Rightarrow> bool" where
  "same_connection_as a b =
     (srv_protocol a = srv_protocol b \<and> srv_address a = srv_address b
      \<and> srv_port a = srv_port b \<and> spec_same_connection (srv_spec a) (srv_spec b))"

text \<open>FNV-1a over the bytes of the seed, in wrapping 64-bit arithmetic.\<close>

definition fnv_step :: "u64 \<Rightarrow> char \<Rightarrow> u64" where
  "fnv_step h c = (h XOR of_nat (ord c)) * 0x00000100000001b3"

definition stable_hash :: "string \<Rightarrow> u64" where
  "stable_hash seed = foldl fnv_step 0xcbf29ce484222325 seed"

definition stable_id :: "string \<Rightarrow> string" where
  "stable_id seed = show_hex16 (stable_hash seed)"

definition subscription_new :: "string \<Rightarrow> string option \<Rightarrow> 'j subscription" where
  "subscription_new url name =
     \<lparr>sub_id = stable_id url, sub_name = (case name of Some n \<Rightarrow> n | None \<Rightarrow> url), sub_url = url,
      sub_description = None, sub_userinfo = None, sub_send_hwid = False, sub_user_agent = None,
      sub_servers = [], sub_skipped = skipped_default, sub_not_taken = not_taken_default,
      sub_updated_at = None\<rparr>"

section \<open>Certificate pins\<close>

definition hex_byte :: "nat \<Rightarrow> string" where
  "hex_byte b = [hex_char (b div 16), hex_char b]"

definition normalize_pin_sha256 :: "(string \<Rightarrow> nat list option) \<Rightarrow> string \<Rightarrow> string option" where
  "normalize_pin_sha256 b64 raw =
     (let hex = lower_ascii (filter (\<lambda>c. c \<notin> {CHR '':'', CHR '' '', CHR ''-''}) raw)
      in if length hex = 64 \<and> list_all is_ascii_hexdigit hex then Some hex
         else case b64 (trim raw) of
                None \<Rightarrow> None
              | Some decoded \<Rightarrow>
                  if length decoded = 32 then Some (concat (map hex_byte decoded)) else None)"

definition is_lower_hex :: "char \<Rightarrow> bool" where
  "is_lower_hex c = (is_ascii_digit c \<or> (97 \<le> ord c \<and> ord c \<le> 102))"

definition canonical_pin :: "string \<Rightarrow> bool" where
  "canonical_pin s = (length s = 64 \<and> list_all is_lower_hex s)"

lemma ord_to_ascii_lowercase:
  "ord (to_ascii_lowercase c) = (if is_ascii_uppercase c then ord c + 32 else ord c)"
proof (cases "is_ascii_uppercase c")
  case True
  then have "ord c + 32 < (256::nat)" by (simp add: is_ascii_uppercase_def)
  with True show ?thesis by (simp add: to_ascii_lowercase_def)
qed (simp add: to_ascii_lowercase_def)

lemma lower_hexdigit: "is_ascii_hexdigit (to_ascii_lowercase c) \<Longrightarrow> is_lower_hex (to_ascii_lowercase c)"
  by (auto simp: is_ascii_hexdigit_def is_lower_hex_def is_ascii_digit_def is_ascii_uppercase_def
      ord_to_ascii_lowercase split: if_splits)

lemma hex_char_lower: "is_lower_hex (hex_char n)"
proof -
  have m: "n mod 16 < 16" by simp
  then have "48 + n mod 16 < (256::nat)" "87 + n mod 16 < (256::nat)" by linarith+
  with m show ?thesis
    by (auto simp: hex_char_def is_lower_hex_def is_ascii_digit_def)
qed

lemma length_concat_hex_byte: "length (concat (map hex_byte bs)) = 2 * length bs"
  by (induction bs) (auto simp: hex_byte_def)

lemma normalize_pin_canonical: "normalize_pin_sha256 b64 raw = Some p \<Longrightarrow> canonical_pin p"
  by (auto simp: normalize_pin_sha256_def canonical_pin_def Let_def length_concat_hex_byte
      list_all_iff hex_byte_def hex_char_lower lower_hexdigit
      split: if_splits option.splits)

lemma lower_hex_fixed:
  assumes "is_lower_hex c"
  shows "to_ascii_lowercase c = c" "is_ascii_hexdigit c" "c \<notin> {CHR '':'', CHR '' '', CHR ''-''}"
  using assms
  by (auto simp: is_lower_hex_def is_ascii_hexdigit_def is_ascii_digit_def to_ascii_lowercase_def
      is_ascii_uppercase_def)

lemma normalize_pin_fixed: "canonical_pin p \<Longrightarrow> normalize_pin_sha256 b64 p = Some p"
proof -
  assume p: "canonical_pin p"
  then have a: "\<forall>c\<in>set p. is_lower_hex c" by (simp add: canonical_pin_def list_all_iff)
  have f: "filter (\<lambda>c. c \<notin> {CHR '':'', CHR '' '', CHR ''-''}) p = p"
    using a lower_hex_fixed(3) by (intro filter_True) blast
  have l: "lower_ascii p = p"
    using a lower_hex_fixed(1) by (intro map_idI) blast
  have h: "list_all is_ascii_hexdigit p"
    using a lower_hex_fixed(2) by (auto simp: list_all_iff)
  from f l h p show ?thesis
    by (simp add: normalize_pin_sha256_def canonical_pin_def)
qed

section \<open>Labels\<close>

definition transport_label :: "protocol \<Rightarrow> 'j outbound_spec \<Rightarrow> string" where
  "transport_label p spec =
     (case spec of
        Hysteria2 _ h \<Rightarrow>
          join '' + '' (protocol_as_str p # (case h2_obfs h of None \<Rightarrow> [] | Some x \<Rightarrow> [ho_kind x]))
      | _ \<Rightarrow>
          join '' + '' (protocol_as_str p #
            (case stream spec of
               None \<Rightarrow> []
             | Some s \<Rightarrow>
                 (if ss_network s \<noteq> [] \<and> ss_network s \<noteq> ''tcp'' then [ss_network s] else [])
                 @ (if ss_security s = [] \<or> ss_security s = ''none'' then [] else [ss_security s]))))"

end
