(* ===== verification/Alias.thy ===== *)
theory Alias
  imports Model
begin

text \<open>
  Human handles for servers: \<open>crates/oxidom-core/src/alias.rs\<close> (slugs, suggestions, the
  assignment of missing aliases) and \<open>crates/oxidom-core/src/handle.rs\<close> (resolving what a
  user typed).

  The lemmas show that every generated alias is valid, that the search for a free numbered
  alias ends (its termination proof is the fact that numbered candidates are pairwise
  different), that an assignment gives pairwise different valid aliases and keeps the ones
  that were usable, and that no valid alias can be mistaken for a server id.

  \<open>str::to_lowercase\<close> is the argument \<open>lower\<close>: Unicode case tables are not modelled.
\<close>

definition max_alias_len :: nat where
  "max_alias_len = 32"

definition is_bare_id :: "string \<Rightarrow> bool" where
  "is_bare_id v = (length v = 16 \<and> list_all is_ascii_hexdigit v)"

definition alias_byte :: "char \<Rightarrow> bool" where
  "alias_byte c = (is_ascii_lowercase c \<or> is_ascii_digit c \<or> c = CHR ''-'')"

definition is_valid :: "string \<Rightarrow> bool" where
  "is_valid a =
     (1 \<le> length a \<and> length a \<le> max_alias_len
      \<and> (is_ascii_lowercase (hd a) \<or> is_ascii_digit (hd a))
      \<and> list_all alias_byte a \<and> \<not> is_bare_id a)"

text \<open>\<open>trim_end_matches('-')\<close>, and the loop popping trailing dashes.\<close>

definition trim_dashes :: "string \<Rightarrow> string" where
  "trim_dashes s = rev (dropWhile (\<lambda>c. c = CHR ''-'') (rev s))"

text \<open>One round of the loop over the characters of the name: the slug so far and the pending
separator. A non-ASCII character is skipped, byte by byte.\<close>

fun slug_step :: "string \<times> bool \<Rightarrow> char \<Rightarrow> string \<times> bool" where
  "slug_step (slug, separator) ch =
     (if \<not> is_ascii ch then (slug, separator)
      else
        let c = to_ascii_lowercase ch
        in if is_ascii_lowercase c \<or> is_ascii_digit c
           then ((if separator \<and> slug \<noteq> [] then slug @ ''-'' else slug) @ [c], False)
           else (slug, True))"

definition slugify :: "string \<Rightarrow> string" where
  "slugify name =
     (let raw = fst (foldl slug_step ([], False) name);
          cut = trim_dashes (take max_alias_len raw);
          slug = (if cut = [] then ''server'' else cut)
      in if is_bare_id slug then slug @ ''-s'' else slug)"

definition suggest :: "'j server \<Rightarrow> string" where
  "suggest server =
     (let slug = slugify (srv_name server)
      in case map_option lower_ascii (srv_country server) of
           None \<Rightarrow> slug
         | Some country \<Rightarrow>
             if length country = 2 \<and> list_all is_ascii_lowercase country
             then (if starts_with slug (country @ ''-'') then slug
                   else slugify (country @ ''-'' @ slug))
             else slug)"

section \<open>Numbered candidates\<close>

definition alias_candidate :: "string \<Rightarrow> nat \<Rightarrow> string" where
  "alias_candidate base number =
     (let suffix = ''-'' @ show_nat number;
          keep = max_alias_len - length suffix;
          cut = trim_dashes (take (min (length base) keep) base);
          stem = (if cut = [] then ''server'' else cut)
      in stem @ suffix)"

lemma last_segment:
  assumes "u @ d # a = v @ d # b" and "d \<notin> set a" and "d \<notin> set b"
  shows "a = b"
proof -
  have "takeWhile (\<lambda>x. x \<noteq> d) (rev (w @ d # c)) = rev c" if "d \<notin> set c" for w c
  proof -
    have "\<forall>x\<in>set (rev c). x \<noteq> d" using that by auto
    then have "takeWhile (\<lambda>x. x \<noteq> d) (rev c @ d # rev w) = rev c @ takeWhile (\<lambda>x. x \<noteq> d) (d # rev w)"
      by (subst takeWhile_append2) auto
    then show ?thesis by simp
  qed
  from this [OF assms(2), of u] this [OF assms(3), of v] assms(1) show ?thesis by simp
qed

lemma dash_not_in_show_nat: "CHR ''-'' \<notin> set (show_nat n)"
  by (rule char_not_in_show_nat) (simp add: is_ascii_digit_def)

lemma alias_candidate_inj: "inj (alias_candidate base)"
proof (rule injI)
  fix n m
  assume "alias_candidate base n = alias_candidate base m"
  then obtain u v where "u @ CHR ''-'' # show_nat n = v @ CHR ''-'' # show_nat m"
    by (auto simp: alias_candidate_def Let_def)
  then have "show_nat n = show_nat m"
    by (rule last_segment [OF _ dash_not_in_show_nat dash_not_in_show_nat])
  then show "n = m" by (metis show_nat_value)
qed

text \<open>
  The loop \<open>for number in 2..\<close>. It stops because different numbers give different candidates
  and only finitely many aliases are used: the measure counts the used candidates ahead.
\<close>

function free_from :: "nat \<Rightarrow> string \<Rightarrow> string list \<Rightarrow> string" where
  "free_from number base used =
     (if alias_candidate base number \<notin> set used then alias_candidate base number
      else free_from (Suc number) base used)"
  by pat_completeness auto
termination
proof (relation "measure (\<lambda>(n, b, u). card {m. n \<le> m \<and> alias_candidate b m \<in> set u})")
  fix n b u
  assume hit: "\<not> alias_candidate b n \<notin> set u"
  have fin: "finite {m. k \<le> m \<and> alias_candidate b m \<in> set u}" for k
  proof (rule finite_subset)
    show "finite (alias_candidate b -` set u)"
      by (rule finite_vimageI [OF _ alias_candidate_inj]) simp
  qed auto
  have "{m. Suc n \<le> m \<and> alias_candidate b m \<in> set u} \<subset> {m. n \<le> m \<and> alias_candidate b m \<in> set u}"
  proof (rule psubsetI)
    show "{m. Suc n \<le> m \<and> alias_candidate b m \<in> set u} \<subseteq> {m. n \<le> m \<and> alias_candidate b m \<in> set u}"
      by auto
    have "n \<in> {m. n \<le> m \<and> alias_candidate b m \<in> set u}" using hit by simp
    moreover have "n \<notin> {m. Suc n \<le> m \<and> alias_candidate b m \<in> set u}" by simp
    ultimately show "{m. Suc n \<le> m \<and> alias_candidate b m \<in> set u} \<noteq> {m. n \<le> m \<and> alias_candidate b m \<in> set u}"
      by metis
  qed
  then show "((Suc n, b, u), n, b, u)
      \<in> measure (\<lambda>(n, b, u). card {m. n \<le> m \<and> alias_candidate b m \<in> set u})"
    using fin by (simp add: psubset_card_mono)
qed simp

declare free_from.simps [simp del]

definition available_alias :: "string \<Rightarrow> string list \<Rightarrow> string" where
  "available_alias base used = (if base \<notin> set used then base else free_from 2 base used)"

section \<open>Assignment\<close>

definition keep_alias :: "string list \<Rightarrow> 'j server \<Rightarrow> string list \<times> 'j server" where
  "keep_alias used server =
     (case srv_alias server of
        Some a \<Rightarrow>
          if is_valid a \<and> a \<notin> set used then (a # used, server)
          else (used, server\<lparr>srv_alias := None\<rparr>)
      | None \<Rightarrow> (used, server\<lparr>srv_alias := None\<rparr>))"

definition give_alias :: "string list \<Rightarrow> 'j server \<Rightarrow> string list \<times> 'j server" where
  "give_alias used server =
     (case srv_alias server of
        Some _ \<Rightarrow> (used, server)
      | None \<Rightarrow>
          let a = available_alias (suggest server) used
          in (a # used, server\<lparr>srv_alias := Some a\<rparr>))"

definition over_servers ::
  "('s \<Rightarrow> 'j server \<Rightarrow> 's \<times> 'j server) \<Rightarrow> 's \<Rightarrow> 'j subscription \<Rightarrow> 's \<times> 'j subscription" where
  "over_servers f st sub =
     (let (st', servers) = thread f st (sub_servers sub) in (st', sub\<lparr>sub_servers := servers\<rparr>))"

definition assign :: "'j subscription list \<Rightarrow> 'j subscription list" where
  "assign groups =
     (let (used, kept) = thread (over_servers keep_alias) [] groups
      in snd (thread (over_servers give_alias) used kept))"

section \<open>Resolving a handle\<close>

datatype 'j handle_match = One "'j server" | NoMatch | Ambiguous "'j server list"

definition handle_resolve :: "(string \<Rightarrow> string) \<Rightarrow> 'j server list \<Rightarrow> string \<Rightarrow> 'j handle_match" where
  "handle_resolve lower servers needle =
     (if needle = [] then NoMatch
      else case List.find (\<lambda>s. srv_alias s = Some needle) servers of
        Some s \<Rightarrow> One s
      | None \<Rightarrow>
          (case List.find (\<lambda>s. srv_id s = needle) servers of
             Some s \<Rightarrow> One s
           | None \<Rightarrow>
               let n = lower needle;
                   candidates = filter (\<lambda>s.
                     (case srv_alias s of None \<Rightarrow> False | Some a \<Rightarrow> contains_str (lower a) n)
                     \<or> contains_str (lower (srv_name s)) n) servers
               in case candidates of
                    [] \<Rightarrow> NoMatch
                  | [s] \<Rightarrow> One s
                  | _ \<Rightarrow> Ambiguous candidates))"

section \<open>Validity\<close>

lemma slug_step_inv:
  assumes "list_all alias_byte (fst st) \<and> (fst st \<noteq> [] \<longrightarrow> is_ascii_lowercase (hd (fst st)) \<or> is_ascii_digit (hd (fst st)))"
  shows "list_all alias_byte (fst (slug_step st c))
    \<and> (fst (slug_step st c) \<noteq> [] \<longrightarrow>
        is_ascii_lowercase (hd (fst (slug_step st c))) \<or> is_ascii_digit (hd (fst (slug_step st c))))"
  using assms by (cases st) (auto simp: Let_def alias_byte_def hd_append)

lemma slug_loop_inv:
  assumes "list_all alias_byte (fst st) \<and> (fst st \<noteq> [] \<longrightarrow> is_ascii_lowercase (hd (fst st)) \<or> is_ascii_digit (hd (fst st)))"
  shows "list_all alias_byte (fst (foldl slug_step st name))
    \<and> (fst (foldl slug_step st name) \<noteq> [] \<longrightarrow>
        is_ascii_lowercase (hd (fst (foldl slug_step st name)))
        \<or> is_ascii_digit (hd (fst (foldl slug_step st name))))"
  using assms
proof (induction name arbitrary: st)
  case (Cons c name)
  from Cons.IH [OF slug_step_inv [OF Cons.prems]] show ?case by simp
qed simp

lemma trim_dashes_prefix: "\<exists>r. s = trim_dashes s @ r"
proof -
  have "rev s = takeWhile (\<lambda>c. c = CHR ''-'') (rev s) @ dropWhile (\<lambda>c. c = CHR ''-'') (rev s)"
    by simp
  then have "s = trim_dashes s @ rev (takeWhile (\<lambda>c. c = CHR ''-'') (rev s))"
    unfolding trim_dashes_def by (metis rev_append rev_rev_ident)
  then show ?thesis by blast
qed

lemma length_trim_dashes: "length (trim_dashes s) \<le> length s"
  using trim_dashes_prefix [of s] by (metis length_append le_add1)

lemma trim_dashes_head: "trim_dashes s \<noteq> [] \<Longrightarrow> hd (trim_dashes s) = hd s"
  using trim_dashes_prefix [of s] by (metis hd_append2)

lemma trim_dashes_all: "list_all P s \<Longrightarrow> list_all P (trim_dashes s)"
  using trim_dashes_prefix [of s] by (metis list_all_append)

lemma trim_dashes_keeps: "s \<noteq> [] \<Longrightarrow> hd s \<noteq> CHR ''-'' \<Longrightarrow> trim_dashes s \<noteq> []"
  by (cases s) (auto simp: trim_dashes_def dropWhile_append)

lemma not_dash: "is_ascii_lowercase c \<or> is_ascii_digit c \<Longrightarrow> c \<noteq> CHR ''-''"
  by (auto simp: is_ascii_lowercase_def is_ascii_digit_def)

lemma is_bare_id_no_dash: "CHR ''-'' \<in> set v \<Longrightarrow> \<not> is_bare_id v"
  by (auto simp: is_bare_id_def list_all_iff is_ascii_hexdigit_def is_ascii_digit_def
      intro!: bexI [of _ "CHR ''-''"])

lemma slugify_valid: "is_valid (slugify name)"
proof -
  let ?raw = "fst (foldl slug_step ([], False) name)"
  let ?cut = "trim_dashes (take max_alias_len ?raw)"
  let ?slug = "if ?cut = [] then ''server'' else ?cut"
  have raw: "list_all alias_byte ?raw"
    "?raw \<noteq> [] \<Longrightarrow> is_ascii_lowercase (hd ?raw) \<or> is_ascii_digit (hd ?raw)"
    using slug_loop_inv [of "([], False)" name] by auto
  have all: "list_all alias_byte ?slug"
  proof (cases "?cut = []")
    case False
    from raw(1) have "list_all alias_byte (take max_alias_len ?raw)"
      by (auto simp: list_all_iff dest: in_set_takeD)
    with False show ?thesis by (simp add: trim_dashes_all)
  qed (simp add: alias_byte_def is_ascii_lowercase_def)
  have len: "1 \<le> length ?slug" "length ?slug \<le> max_alias_len"
    using length_trim_dashes [of "take max_alias_len ?raw"]
    by (auto simp: max_alias_len_def Suc_le_eq)
  have hd: "is_ascii_lowercase (hd ?slug) \<or> is_ascii_digit (hd ?slug)"
  proof (cases "?cut = []")
    case False
    then have "hd ?cut = hd (take max_alias_len ?raw)" by (rule trim_dashes_head)
    moreover from False have "?raw \<noteq> []" by (auto simp: trim_dashes_def)
    ultimately show ?thesis
      using False raw(2) by (simp add: max_alias_len_def hd_take)
  qed (simp add: is_ascii_lowercase_def)
  show ?thesis
  proof (cases "is_bare_id ?slug")
    case True
    then have l: "length ?slug = 16" by (simp add: is_bare_id_def)
    have ne: "?slug \<noteq> []" by auto
    have eq: "slugify name = ?slug @ ''-s''"
      using True by (simp add: slugify_def Let_def split del: if_split)
    have nb: "\<not> is_bare_id (?slug @ ''-s'')" by (rule is_bare_id_no_dash) simp
    have "list_all alias_byte (?slug @ ''-s'')"
      using all by (simp add: alias_byte_def is_ascii_lowercase_def split del: if_split)
    then show ?thesis
      unfolding eq is_valid_def using hd nb l ne
      by (simp add: max_alias_len_def hd_append split del: if_split)
  next
    case False
    then have "slugify name = ?slug" by (simp add: slugify_def Let_def split del: if_split)
    with False all len hd show ?thesis by (simp add: is_valid_def split del: if_split)
  qed
qed

lemma suggest_valid: "is_valid (suggest server)"
  by (simp add: suggest_def Let_def slugify_valid split: option.splits)

lemma alias_candidate_valid:
  assumes "is_valid base" and "number < 10 ^ 25"
  shows "is_valid (alias_candidate base number)"
proof -
  let ?suffix = "''-'' @ show_nat number"
  let ?keep = "max_alias_len - length ?suffix"
  let ?cut = "trim_dashes (take (min (length base) ?keep) base)"
  have digits: "length (show_nat number) \<le> 25"
    by (rule length_show_nat) (use assms(2) in auto)
  then have keep: "1 \<le> ?keep" "length ?suffix + ?keep = max_alias_len"
    by (simp_all add: max_alias_len_def)
  have base: "base \<noteq> []" "is_ascii_lowercase (hd base) \<or> is_ascii_digit (hd base)"
    "list_all alias_byte base"
    using assms(1) by (auto simp: is_valid_def)
  let ?t = "take (min (length base) ?keep) base"
  have t: "?t \<noteq> []" "hd ?t = hd base" using base(1) keep(1) by (auto simp: hd_take)
  then have ne: "?cut \<noteq> []" using trim_dashes_keeps [of ?t] not_dash [OF base(2)] by simp
  have cand: "alias_candidate base number = ?cut @ ?suffix"
    using ne by (simp add: alias_candidate_def Let_def)
  have len: "length ?cut \<le> ?keep" using length_trim_dashes [of ?t] by simp
  have hd: "hd (?cut @ ?suffix) = hd base"
    using ne t trim_dashes_head [of ?t] by (simp add: hd_append)
  have cut_all: "list_all alias_byte ?cut"
    by (rule trim_dashes_all) (use base(3) in \<open>auto simp: list_all_iff dest: in_set_takeD\<close>)
  have suf_all: "list_all alias_byte ?suffix"
    using show_nat_digits [of number] by (simp add: alias_byte_def list_all_iff)
  have "\<not> is_bare_id (?cut @ ?suffix)" by (rule is_bare_id_no_dash) simp
  moreover have "length (?cut @ ?suffix) \<le> max_alias_len" using len keep(2) by simp
  moreover have "1 \<le> length (?cut @ ?suffix)" by simp
  moreover have "is_ascii_lowercase (hd (?cut @ ?suffix)) \<or> is_ascii_digit (hd (?cut @ ?suffix))"
    unfolding hd by (rule base(2))
  moreover have "list_all alias_byte (?cut @ ?suffix)" using cut_all suf_all by simp
  ultimately show ?thesis unfolding cand is_valid_def by blast
qed

section \<open>The free-alias search\<close>

lemma free_from_fresh: "free_from number base used \<notin> set used"
  by (induction number base used rule: free_from.induct) (subst free_from.simps, simp)

lemma free_from_search:
  "\<exists>n\<ge>number. free_from number base used = alias_candidate base n
     \<and> (\<forall>m. number \<le> m \<and> m < n \<longrightarrow> alias_candidate base m \<in> set used)"
proof (induction number base used rule: free_from.induct)
  case (1 number base used)
  show ?case
  proof (cases "alias_candidate base number \<in> set used")
    case False
    then have "free_from number base used = alias_candidate base number"
      by (simp add: free_from.simps)
    then show ?thesis by (intro exI [of _ number]) auto
  next
    case True
    with 1 obtain n where n: "Suc number \<le> n" "free_from (Suc number) base used = alias_candidate base n"
      "\<forall>m. Suc number \<le> m \<and> m < n \<longrightarrow> alias_candidate base m \<in> set used"
      by auto
    have "alias_candidate base m \<in> set used" if "number \<le> m" "m < n" for m
      using that True n(3) by (cases "m = number") auto
    with n(1,2) True show ?thesis
      by (intro exI [of _ n]) (auto simp: free_from.simps [of number])
  qed
qed

lemma free_from_bound:
  "\<exists>n \<le> number + length used. free_from number base used = alias_candidate base n"
proof -
  obtain n where n: "number \<le> n" "free_from number base used = alias_candidate base n"
    "\<forall>m. number \<le> m \<and> m < n \<longrightarrow> alias_candidate base m \<in> set used"
    using free_from_search by blast
  have "alias_candidate base ` {number..<n} \<subseteq> set used" using n(3) by auto
  then have "card (alias_candidate base ` {number..<n}) \<le> card (set used)"
    by (rule card_mono [rotated]) simp
  moreover have "card (alias_candidate base ` {number..<n}) = n - number"
    by (simp add: card_image inj_on_subset [OF alias_candidate_inj])
  ultimately have "n \<le> number + length used" using card_length [of used] n(1) by linarith
  with n(2) show ?thesis by blast
qed

lemma available_alias_fresh: "available_alias base used \<notin> set used"
  by (simp add: available_alias_def free_from_fresh)

lemma available_alias_valid:
  assumes "is_valid base" and "length used < 10 ^ 24"
  shows "is_valid (available_alias base used)"
proof (cases "base \<in> set used")
  case True
  obtain n where "n \<le> 2 + length used" "free_from 2 base used = alias_candidate base n"
    using free_from_bound by blast
  with assms True show ?thesis
    by (simp add: available_alias_def alias_candidate_valid)
next
  case False
  with assms(1) show ?thesis by (simp add: available_alias_def)
qed

section \<open>The two passes\<close>

abbreviation store :: "'j subscription list \<Rightarrow> 'j server list" where
  "store groups \<equiv> concat (map sub_servers groups)"

abbreviation aliases :: "'j server list \<Rightarrow> string list" where
  "aliases servers \<equiv> List.map_filter srv_alias servers"

text \<open>A pass over the groups is the pass over the servers in store order.\<close>

lemma over_servers_flat:
  "fst (thread (over_servers f) st groups) = fst (thread f st (store groups))
   \<and> store (snd (thread (over_servers f) st groups)) = snd (thread f st (store groups))"
proof (induction groups arbitrary: st)
  case (Cons g groups)
  then show ?case
    by (simp add: over_servers_def thread_append Let_def split_beta)
qed simp

lemma keep_pass:
  assumes "distinct used"
  shows "fst (thread keep_alias used xs) = rev (aliases (snd (thread keep_alias used xs))) @ used
    \<and> distinct (fst (thread keep_alias used xs))
    \<and> list_all is_valid (aliases (snd (thread keep_alias used xs)))"
  using assms
proof (induction xs arbitrary: used)
  case (Cons x xs)
  show ?case
  proof (cases "\<exists>a. srv_alias x = Some a \<and> is_valid a \<and> a \<notin> set used")
    case True
    then obtain a where a: "srv_alias x = Some a" "is_valid a" "a \<notin> set used" by blast
    then have "distinct (a # used)" using Cons.prems by simp
    from Cons.IH [OF this] a show ?thesis
      by (auto simp: keep_alias_def Let_def split_beta List.map_filter_simps)
  next
    case False
    then have "keep_alias used x = (used, x\<lparr>srv_alias := None\<rparr>)"
      by (auto simp: keep_alias_def split: option.split)
    with Cons.IH [OF Cons.prems] show ?thesis
      by (auto simp: Let_def split_beta List.map_filter_simps)
  qed
qed (simp add: List.map_filter_simps)

text \<open>What a server keeps through a pass: everything but a missing or unusable alias.\<close>

definition same_but_alias :: "'j server \<Rightarrow> 'j server \<Rightarrow> bool" where
  "same_but_alias x y = (x\<lparr>srv_alias := None\<rparr> = y\<lparr>srv_alias := None\<rparr>)"

lemma keep_pass_same: "list_all2 same_but_alias xs (snd (thread keep_alias used xs))"
proof (induction xs arbitrary: used)
  case (Cons x xs)
  have "same_but_alias x (snd (keep_alias used x))"
    by (auto simp: keep_alias_def same_but_alias_def split: option.split)
  with Cons show ?case by (simp add: Let_def split_beta)
qed simp

lemma give_pass_same: "list_all2 same_but_alias xs (snd (thread give_alias used xs))"
proof (induction xs arbitrary: used)
  case (Cons x xs)
  have "same_but_alias x (snd (give_alias used x))"
    by (auto simp: give_alias_def same_but_alias_def Let_def split: option.split)
  with Cons show ?case by (simp add: Let_def split_beta)
qed simp

lemma give_pass_total: "\<forall>y\<in>set (snd (thread give_alias used xs)). srv_alias y \<noteq> None"
proof (induction xs arbitrary: used)
  case (Cons x xs)
  then show ?case
    by (auto simp: give_alias_def Let_def split_beta split: option.splits)
qed simp

lemma give_pass_keeps:
  "list_all2 (\<lambda>x y. srv_alias x \<noteq> None \<longrightarrow> y = x) xs (snd (thread give_alias used xs))"
proof (induction xs arbitrary: used)
  case (Cons x xs)
  have "srv_alias x \<noteq> None \<longrightarrow> snd (give_alias used x) = x"
    by (auto simp: give_alias_def)
  with Cons show ?case by (simp add: Let_def split_beta)
qed simp

lemma give_pass_fresh:
  assumes "distinct (aliases xs)" and "set (aliases xs) \<subseteq> set used"
  shows "distinct (aliases (snd (thread give_alias used xs)))
    \<and> (\<forall>a\<in>set (aliases (snd (thread give_alias used xs))). a \<in> set (aliases xs) \<or> a \<notin> set used)"
  using assms
proof (induction xs arbitrary: used)
  case (Cons x xs)
  show ?case
  proof (cases "srv_alias x")
    case None
    let ?a = "available_alias (suggest x) used"
    have fresh: "?a \<notin> set used" by (rule available_alias_fresh)
    from Cons.prems None have p: "distinct (aliases xs)" "set (aliases xs) \<subseteq> set (?a # used)"
      by (auto simp: List.map_filter_simps)
    from Cons.IH [OF p] None fresh Cons.prems show ?thesis
      by (auto simp: give_alias_def Let_def split_beta List.map_filter_simps)
  next
    case (Some a)
    from Cons.prems Some have p: "distinct (aliases xs)" "set (aliases xs) \<subseteq> set used"
      and a: "a \<in> set used" "a \<notin> set (aliases xs)"
      by (auto simp: List.map_filter_simps)
    from Cons.IH [OF p] Some a show ?thesis
      by (auto simp: give_alias_def Let_def split_beta List.map_filter_simps)
  qed
qed (simp add: List.map_filter_simps)

lemma give_pass_valid:
  assumes "list_all is_valid (aliases xs)" and "length used + length xs < 10 ^ 24"
  shows "list_all is_valid (aliases (snd (thread give_alias used xs)))"
  using assms
proof (induction xs arbitrary: used)
  case (Cons x xs)
  show ?case
  proof (cases "srv_alias x")
    case None
    let ?a = "available_alias (suggest x) used"
    have "is_valid ?a"
      by (rule available_alias_valid [OF suggest_valid]) (use Cons.prems in simp)
    moreover have "list_all is_valid (aliases (snd (thread give_alias (?a # used) xs)))"
      by (rule Cons.IH) (use Cons.prems None in \<open>simp_all add: List.map_filter_simps\<close>)
    moreover have "give_alias used x = (?a # used, x\<lparr>srv_alias := Some ?a\<rparr>)"
      using None by (simp add: give_alias_def Let_def)
    ultimately show ?thesis by (simp add: split_beta List.map_filter_simps)
  next
    case (Some a)
    then have "give_alias used x = (used, x)" by (simp add: give_alias_def)
    with Some Cons.prems Cons.IH [of used] show ?thesis
      by (simp add: split_beta List.map_filter_simps)
  qed
qed simp

lemma assign_flat:
  "store (assign groups) =
     (let (used, kept) = thread keep_alias [] (store groups) in snd (thread give_alias used kept))"
  using over_servers_flat [of keep_alias "[]" groups]
    over_servers_flat [of give_alias "fst (thread (over_servers keep_alias) [] groups)"
      "snd (thread (over_servers keep_alias) [] groups)"]
  by (simp add: assign_def Let_def split_beta)

lemma assign_summary:
  assumes "length (store groups) < 10 ^ 23"
  shows "distinct (aliases (store (assign groups)))"
    and "list_all is_valid (aliases (store (assign groups)))"
    and "\<forall>y\<in>set (store (assign groups)). srv_alias y \<noteq> None"
proof -
  let ?k = "thread keep_alias [] (store groups)"
  have k: "fst ?k = rev (aliases (snd ?k))" "distinct (fst ?k)" "list_all is_valid (aliases (snd ?k))"
    using keep_pass [of "[]" "store groups"] by auto
  then have d: "distinct (aliases (snd ?k))" "set (aliases (snd ?k)) \<subseteq> set (fst ?k)"
    by (metis distinct_rev, simp)
  have eq: "store (assign groups) = snd (thread give_alias (fst ?k) (snd ?k))"
    by (simp add: assign_flat split_beta)
  show "distinct (aliases (store (assign groups)))"
    using give_pass_fresh [OF d] eq by simp
  have "length (aliases (snd ?k)) \<le> length (snd ?k)"
    unfolding List.map_filter_def by (simp add: order_trans [OF length_filter_le])
  then have "length (fst ?k) + length (snd ?k) < 10 ^ 24"
    using assms k(1) by simp
  then show "list_all is_valid (aliases (store (assign groups)))"
    using give_pass_valid [OF k(3)] eq by simp
  show "\<forall>y\<in>set (store (assign groups)). srv_alias y \<noteq> None"
    using give_pass_total eq by simp
qed

lemma keep_alias_first:
  "i < length xs \<Longrightarrow> srv_alias (xs ! i) = Some a \<Longrightarrow> is_valid a \<Longrightarrow> a \<notin> set used \<Longrightarrow>
   (\<forall>j<i. srv_alias (xs ! j) \<noteq> Some a) \<Longrightarrow> snd (thread keep_alias used xs) ! i = xs ! i"
proof (induction xs arbitrary: i used)
  case (Cons x xs)
  show ?case
  proof (cases i)
    case 0
    with Cons.prems show ?thesis by (simp add: keep_alias_def Let_def split_beta)
  next
    case (Suc j)
    then have "srv_alias x \<noteq> Some a" using Cons.prems(5) by auto
    then have "a \<notin> set (fst (keep_alias used x))"
      using Cons.prems(4) by (auto simp: keep_alias_def split: option.splits)
    moreover have "\<forall>k<j. srv_alias (xs ! k) \<noteq> Some a"
      using Cons.prems(5) Suc by (metis Suc_less_eq nth_Cons_Suc)
    ultimately show ?thesis
      using Cons.IH [of j "fst (keep_alias used x)"] Cons.prems Suc
      by (simp add: Let_def split_beta)
  qed
qed simp

lemma assign_keeps:
  assumes i: "i < length (store groups)" and a: "srv_alias (store groups ! i) = Some a"
    and v: "is_valid a" and first: "\<forall>j<i. srv_alias (store groups ! j) \<noteq> Some a"
  shows "store (assign groups) ! i = store groups ! i"
proof -
  let ?k = "thread keep_alias [] (store groups)"
  have k: "snd ?k ! i = store groups ! i"
    by (rule keep_alias_first [OF i a v _ first]) simp
  have "list_all2 (\<lambda>x y. srv_alias x \<noteq> None \<longrightarrow> y = x) (snd ?k) (snd (thread give_alias (fst ?k) (snd ?k)))"
    by (rule give_pass_keeps)
  then have "snd (thread give_alias (fst ?k) (snd ?k)) ! i = snd ?k ! i"
    using i a k by (auto simp: list_all2_conv_all_nth)
  with k show ?thesis by (simp add: assign_flat split_beta)
qed

lemma stable_id_bare: "is_bare_id (stable_id seed)"
  by (simp add: is_bare_id_def stable_id_def show_hex16_def list_all_iff hex_char_hexdigit)

lemma aliases_all: "\<forall>y\<in>set ys. srv_alias y \<noteq> None \<Longrightarrow> map srv_alias ys = map Some (aliases ys)"
  by (induction ys) (auto simp: List.map_filter_simps)

section \<open>Properties\<close>

text \<open>C38: after \<open>assign\<close> every server of the store has an alias, all aliases are valid and
pairwise different, no alias can be read as a server id, and nothing but aliases changed (for a
store of fewer than 10^23 servers, far beyond any address space).\<close>

theorem assign_unique_aliases:
  assumes "length (store groups) < 10 ^ 23"
  shows "(\<forall>y\<in>set (store (assign groups)). \<exists>a. srv_alias y = Some a \<and> is_valid a \<and> (\<forall>seed. a \<noteq> stable_id seed))
    \<and> distinct (map srv_alias (store (assign groups)))
    \<and> list_all2 same_but_alias (store groups) (store (assign groups))"
proof -
  let ?ys = "store (assign groups)"
  note sum = assign_summary [OF assms]
  have some: "map srv_alias ?ys = map Some (aliases ?ys)"
    using sum(3) by (rule aliases_all)
  have "distinct (map srv_alias ?ys)"
    unfolding some using sum(1) by (simp add: distinct_map)
  moreover have "\<exists>a. srv_alias y = Some a \<and> is_valid a \<and> (\<forall>seed. a \<noteq> stable_id seed)" if "y \<in> set ?ys" for y
  proof -
    from sum(3) that obtain a where a: "srv_alias y = Some a" by blast
    with that have "a \<in> set (aliases ?ys)" by (force simp: List.map_filter_def)
    with sum(2) have v: "is_valid a" by (simp add: list_all_iff)
    then have "\<not> is_bare_id a" by (simp add: is_valid_def)
    with a v stable_id_bare show ?thesis by metis
  qed
  moreover have "list_all2 same_but_alias (store groups) ?ys"
  proof -
    let ?k = "thread keep_alias [] (store groups)"
    have "list_all2 same_but_alias (store groups) (snd ?k)" by (rule keep_pass_same)
    moreover have "list_all2 same_but_alias (snd ?k) (snd (thread give_alias (fst ?k) (snd ?k)))"
      by (rule give_pass_same)
    ultimately have "list_all2 same_but_alias (store groups) (snd (thread give_alias (fst ?k) (snd ?k)))"
      by (rule list_all2_trans [rotated]) (simp add: same_but_alias_def)
    then show ?thesis by (simp add: assign_flat split_beta)
  qed
  ultimately show ?thesis by blast
qed

text \<open>a usable alias survives \<open>assign\<close>: the first server in store order that carries a valid
alias is left exactly as it was, whatever later servers are given.\<close>

theorem assign_preserves_usable:
  assumes "i < length (store groups)" and "srv_alias (store groups ! i) = Some a" and "is_valid a"
    and "\<forall>j<i. srv_alias (store groups ! j) \<noteq> Some a"
  shows "store (assign groups) ! i = store groups ! i"
  using assms by (rule assign_keeps)

text \<open>exactness wins when a handle is resolved: if some server carries the typed text as its
alias, the result is such a server, and no substring match or id match elsewhere overrides it;
otherwise a server whose id is the text wins over substring matches.\<close>

theorem handle_resolve_exact_first:
  assumes "needle \<noteq> []"
  shows "((\<exists>s\<in>set servers. srv_alias s = Some needle) \<longrightarrow>
           (\<exists>s\<in>set servers. handle_resolve lower servers needle = One s \<and> srv_alias s = Some needle))
    \<and> ((\<forall>s\<in>set servers. srv_alias s \<noteq> Some needle) \<and> (\<exists>s\<in>set servers. srv_id s = needle) \<longrightarrow>
           (\<exists>s\<in>set servers. handle_resolve lower servers needle = One s \<and> srv_id s = needle))"
proof (intro conjI impI)
  assume "\<exists>s\<in>set servers. srv_alias s = Some needle"
  from find_ex [OF this] obtain s where s: "List.find (\<lambda>s. srv_alias s = Some needle) servers = Some s" ..
  then have "handle_resolve lower servers needle = One s"
    using assms by (simp add: handle_resolve_def)
  with find_SomeD [OF s]
  show "\<exists>s\<in>set servers. handle_resolve lower servers needle = One s \<and> srv_alias s = Some needle"
    by blast
next
  assume a: "(\<forall>s\<in>set servers. srv_alias s \<noteq> Some needle) \<and> (\<exists>s\<in>set servers. srv_id s = needle)"
  then have n: "List.find (\<lambda>s. srv_alias s = Some needle) servers = None"
    by (simp add: find_None_iff_set)
  from a have "\<exists>s\<in>set servers. srv_id s = needle" ..
  from find_ex [OF this] obtain s where s: "List.find (\<lambda>s. srv_id s = needle) servers = Some s" ..
  then have "handle_resolve lower servers needle = One s"
    using assms n by (simp add: handle_resolve_def)
  with find_SomeD [OF s]
  show "\<exists>s\<in>set servers. handle_resolve lower servers needle = One s \<and> srv_id s = needle"
    by blast
qed

definition alias_sample :: "string \<Rightarrow> string option \<Rightarrow> unit server" where
  "alias_sample name al =
     \<lparr>srv_id = name, srv_name = name, srv_protocol = PTrojan, srv_address = [], srv_port = 1,
      srv_transport_label = [], srv_country = None, srv_spec = Shadowsocks [] [], srv_link = None,
      srv_alias = al, srv_outbound_patch = None, srv_overrides = None, srv_latency_ms = None\<rparr>"

definition alias_sample_groups :: "unit subscription list" where
  "alias_sample_groups =
     [(subscription_new ''u'' None)\<lparr>sub_servers :=
        [alias_sample ''Berlin'' None, alias_sample ''Rome'' (Some ''berlin''),
         alias_sample ''Oslo'' (Some ''berlin'')]\<rparr>]"

theorem assign_unique_aliases_witness:
  "length (store alias_sample_groups) = 3 \<and> distinct (map srv_alias (store (assign alias_sample_groups)))"
  using assign_unique_aliases [of alias_sample_groups] by (simp add: alias_sample_groups_def)

lemma alias_sample_valid: "is_valid ''berlin''"
  by (simp add: is_valid_def max_alias_len_def alias_byte_def is_bare_id_def ascii_defs)

theorem assign_preserves_usable_witness:
  "store (assign alias_sample_groups) ! 1 = alias_sample ''Rome'' (Some ''berlin'')"
proof -
  have "store (assign alias_sample_groups) ! 1 = store alias_sample_groups ! 1"
    by (rule assign_preserves_usable [where a = "''berlin''"])
       (simp_all add: alias_sample_groups_def alias_sample_def alias_sample_valid)
  then show ?thesis by (simp add: alias_sample_groups_def)
qed

theorem handle_resolve_exact_first_witness:
  "\<exists>s\<in>set (store alias_sample_groups).
     handle_resolve lower_ascii (store alias_sample_groups) ''berlin'' = One s
     \<and> srv_alias s = Some ''berlin''"
  using handle_resolve_exact_first [of "''berlin''" "store alias_sample_groups" lower_ascii]
  by (simp add: alias_sample_groups_def alias_sample_def)

end
