(* ===== verification/Pool.thy ===== *)
theory Pool
  imports Model "HOL-Library.Product_Lexorder" "HOL-Library.Multiset"
begin

text \<open>
  Pool selection, \<open>crates/oxidom-core/src/pool.rs\<close>: the query, its membership rules
  (\<open>resolve\<close>), and the ranking used at activation (\<open>resolve_ranked\<close>), which deals
  distinct exit endpoints out one apiece before any endpoint gets a second member.

  The lemmas give the membership of both, that ranking only permutes, that its first member is
  a best one, and that truncating a ranked pool keeps as many distinct endpoints as it can.
\<close>

section \<open>Query\<close>

datatype strategy = LeastLoad | RoundRobin | RandomPick | LeastPing

fun strategy_as_xray :: "strategy \<Rightarrow> string" where
  "strategy_as_xray RoundRobin = ''roundRobin''"
| "strategy_as_xray RandomPick = ''random''"
| "strategy_as_xray LeastPing = ''leastPing''"
| "strategy_as_xray LeastLoad = ''leastLoad''"

fun keeps_dead_nodes :: "strategy \<Rightarrow> bool" where
  "keeps_dead_nodes RoundRobin = True"
| "keeps_dead_nodes RandomPick = True"
| "keeps_dead_nodes _ = False"

fun picks_one :: "strategy \<Rightarrow> bool" where
  "picks_one LeastPing = True"
| "picks_one _ = False"

datatype pool_kind = PoolList | PoolRule

record pool_query =
  pq_name :: string
  pq_session :: string
  pq_strategy :: strategy
  pq_members :: "string list"
  pq_subscriptions :: "string list"
  pq_countries :: "string list"
  pq_protocols :: "string list"
  pq_exclude :: "string list"
  pq_max_latency_ms :: "nat option"
  pq_alive_only :: bool
  pq_max :: nat
  pq_expected :: nat
  pq_probe_interval :: string

definition pool_query_default :: pool_query where
  "pool_query_default =
     \<lparr>pq_name = [], pq_session = [], pq_strategy = LeastLoad, pq_members = [],
      pq_subscriptions = [], pq_countries = [], pq_protocols = [], pq_exclude = [],
      pq_max_latency_ms = None, pq_alive_only = False, pq_max = 0, pq_expected = 0,
      pq_probe_interval = []\<rparr>"

definition pool_kind :: "pool_query \<Rightarrow> pool_kind" where
  "pool_kind q = (if pq_members q = [] then PoolRule else PoolList)"

definition has_filters :: "pool_query \<Rightarrow> bool" where
  "has_filters q =
     (pq_subscriptions q \<noteq> [] \<or> pq_countries q \<noteq> [] \<or> pq_protocols q \<noteq> []
      \<or> pq_exclude q \<noteq> [] \<or> pq_max_latency_ms q \<noteq> None \<or> pq_alive_only q)"

datatype known = Reachable nat | Unmeasured | Unreachable

fun known_order :: "known \<Rightarrow> nat \<times> nat" where
  "known_order (Reachable ms) = (0, ms)"
| "known_order Unmeasured = (1, 0)"
| "known_order Unreachable = (2, 0)"

definition matches_known :: "pool_query \<Rightarrow> known \<Rightarrow> bool" where
  "matches_known q k =
     (case pq_max_latency_ms q of
        Some ceiling \<Rightarrow> (case k of Reachable ms \<Rightarrow> ms \<le> ceiling | _ \<Rightarrow> False)
      | None \<Rightarrow>
          if pq_alive_only q then (case k of Reachable _ \<Rightarrow> True | _ \<Rightarrow> False) else True)"

definition session_or_default :: "pool_query \<Rightarrow> string" where
  "session_or_default q = (if pq_session q = [] then ''default'' else pq_session q)"

definition probe_interval_or_default :: "pool_query \<Rightarrow> string" where
  "probe_interval_or_default q = (if pq_probe_interval q = [] then ''5m'' else pq_probe_interval q)"

definition expected_or_all :: "pool_query \<Rightarrow> nat \<Rightarrow> nat" where
  "expected_or_all q members =
     (if pq_expected q = 0 \<or> pq_expected q > members then members else pq_expected q)"

section \<open>Membership\<close>

abbreviation all_servers :: "'j subscription list \<Rightarrow> 'j server list" where
  "all_servers groups \<equiv> concat (map sub_servers groups)"

definition find_member :: "string \<Rightarrow> 'j subscription list \<Rightarrow> 'j server option" where
  "find_member handle groups =
     List.find (\<lambda>s. srv_id s = handle \<or> srv_alias s = Some handle) (all_servers groups)"

definition group_matches :: "pool_query \<Rightarrow> 'j subscription \<Rightarrow> bool" where
  "group_matches q g =
     (pq_subscriptions q = []
      \<or> list_ex (\<lambda>sel. sel = sub_id g \<or> eq_ignore_ascii_case sel (sub_name g)) (pq_subscriptions q))"

definition server_matches :: "pool_query \<Rightarrow> 'j server \<Rightarrow> bool" where
  "server_matches q s =
     (if pq_countries q \<noteq> []
         \<and> \<not> (case srv_country s of None \<Rightarrow> False
              | Some c \<Rightarrow> list_ex (\<lambda>sel. eq_ignore_ascii_case sel c) (pq_countries q)) then False
      else if pq_protocols q \<noteq> []
         \<and> \<not> list_ex (\<lambda>sel. eq_ignore_ascii_case sel (protocol_as_str (srv_protocol s))) (pq_protocols q)
      then False
      else \<not> list_ex (\<lambda>sel. sel = srv_id s \<or> srv_alias s = Some sel) (pq_exclude q))"

definition is_composite :: "'j server \<Rightarrow> bool" where
  "is_composite s = (case srv_spec s of XrayProfile _ _ _ _ \<Rightarrow> True | _ \<Rightarrow> False)"

definition empty_pool_message :: "pool_query \<Rightarrow> string" where
  "empty_pool_message q =
     (if pool_kind q = PoolList
      then ''no server is left of the pool's list ('' @ join '', '' (pq_members q) @ '')''
      else
        let filters =
              (if pq_subscriptions q = [] then [] else [''subscriptions: '' @ join '', '' (pq_subscriptions q)])
              @ (if pq_countries q = [] then [] else [''countries: '' @ join '', '' (pq_countries q)])
              @ (if pq_protocols q = [] then [] else [''protocols: '' @ join '', '' (pq_protocols q)])
              @ (if pq_exclude q = [] then [] else [''exclude: '' @ join '', '' (pq_exclude q)])
              @ (case pq_max_latency_ms q of
                   Some ceiling \<Rightarrow> [''max_latency_ms: '' @ show_nat ceiling]
                 | None \<Rightarrow> (if pq_alive_only q then [''alive_only: true''] else []));
            shown = (if filters = [] then [''no filters''] else filters)
        in ''no server matches the pool query ('' @ join ''; '' shown @ '')'')"

text \<open>The loop over the handles of a frozen list, with the servers kept so far.\<close>

fun resolve_list :: "'j subscription list \<Rightarrow> string list \<Rightarrow> 'j server list \<Rightarrow> 'j server list" where
  "resolve_list groups [] kept = kept"
| "resolve_list groups (handle # hs) kept =
     (case find_member handle groups of
        None \<Rightarrow> resolve_list groups hs kept
      | Some s \<Rightarrow>
          if is_composite s then resolve_list groups hs kept
          else if list_ex (\<lambda>k. srv_id k = srv_id s) kept then resolve_list groups hs kept
          else resolve_list groups hs (kept @ [s]))"

fun resolve_rule :: "pool_query \<Rightarrow> 'j subscription list \<Rightarrow> 'j server list" where
  "resolve_rule q [] = []"
| "resolve_rule q (g # gs) =
     (if group_matches q g
      then filter (\<lambda>s. server_matches q s \<and> \<not> is_composite s) (sub_servers g) @ resolve_rule q gs
      else resolve_rule q gs)"

definition pool_members :: "pool_query \<Rightarrow> 'j subscription list \<Rightarrow> 'j server list" where
  "pool_members q groups =
     (if pool_kind q = PoolList then resolve_list groups (pq_members q) [] else resolve_rule q groups)"

definition cap :: "nat \<Rightarrow> 'a list \<Rightarrow> 'a list" where
  "cap m xs = (if m \<noteq> 0 then take m xs else xs)"

definition resolve :: "pool_query \<Rightarrow> 'j subscription list \<Rightarrow> string + 'j server list" where
  "resolve q groups =
     (let ms = cap (pq_max q) (pool_members q groups)
      in if ms = [] then Inl (empty_pool_message q) else Inr ms)"

definition excluded_composites :: "pool_query \<Rightarrow> 'j subscription list \<Rightarrow> 'j server list" where
  "excluded_composites q groups =
     (if pool_kind q = PoolList
      then filter is_composite (List.map_filter (\<lambda>h. find_member h groups) (pq_members q))
      else filter (\<lambda>s. server_matches q s \<and> is_composite s)
             (concat (map sub_servers (filter (group_matches q) groups))))"

definition missing_members :: "pool_query \<Rightarrow> 'j subscription list \<Rightarrow> string list" where
  "missing_members q groups =
     (if pool_kind q = PoolRule then []
      else filter (\<lambda>h. find_member h groups = None) (pq_members q))"

lemma find_member_SomeD:
  "find_member h groups = Some s \<Longrightarrow>
     s \<in> set (all_servers groups) \<and> (srv_id s = h \<or> srv_alias s = Some h)"
  unfolding find_member_def by (drule find_SomeD) simp

lemma set_resolve_rule:
  "set (resolve_rule q groups) =
     {s. \<exists>g\<in>set groups. group_matches q g \<and> s \<in> set (sub_servers g) \<and> server_matches q s
           \<and> \<not> is_composite s}"
  by (induction groups) auto

lemma resolve_list_distinct:
  "distinct (map srv_id kept) \<Longrightarrow> distinct (map srv_id (resolve_list groups hs kept))"
  by (induction groups hs kept rule: resolve_list.induct)
     (force split: option.splits simp: list_ex_iff)+

lemma resolve_list_keeps: "set kept \<subseteq> set (resolve_list groups hs kept)"
  by (induction groups hs kept rule: resolve_list.induct)
     (auto split: option.splits simp: list_ex_iff)

lemma resolve_list_sound:
  "s \<in> set (resolve_list groups hs kept) \<Longrightarrow>
     s \<in> set kept \<or> (\<not> is_composite s \<and> (\<exists>h\<in>set hs. find_member h groups = Some s))"
  by (induction groups hs kept rule: resolve_list.induct)
     (auto split: option.splits if_splits simp: list_ex_iff)

lemma resolve_list_complete:
  "h \<in> set hs \<Longrightarrow> find_member h groups = Some s \<Longrightarrow> \<not> is_composite s \<Longrightarrow>
     srv_id s \<in> srv_id ` set (resolve_list groups hs kept)"
proof (induction groups hs kept rule: resolve_list.induct)
  case (2 groups handle hs kept)
  note keeps = resolve_list_keeps [of kept groups hs]
  note keeps' = resolve_list_keeps [of "kept @ [s]" groups hs]
  show ?case
  proof (cases "h = handle")
    case True
    show ?thesis
    proof (cases "list_ex (\<lambda>k. srv_id k = srv_id s) kept")
      case dup: True
      then obtain k where k: "k \<in> set kept" "srv_id k = srv_id s" by (auto simp: list_ex_iff)
      from k(1) keeps have "k \<in> set (resolve_list groups hs kept)" by blast
      then have "srv_id s \<in> srv_id ` set (resolve_list groups hs kept)"
        using k(2) by (metis imageI)
      with True dup "2.prems" show ?thesis by simp
    next
      case new: False
      with True "2.prems" keeps' show ?thesis by simp
    qed
  next
    case False
    with 2 show ?thesis by (auto split: option.splits)
  qed
qed simp

lemma set_cap: "set (cap m xs) \<subseteq> set xs"
  by (auto simp: cap_def dest: in_set_takeD)

lemma length_cap: "m \<noteq> 0 \<Longrightarrow> length (cap m xs) \<le> m"
  by (simp add: cap_def)

lemma resolve_Inr: "resolve q groups = Inr ms \<longleftrightarrow> ms = cap (pq_max q) (pool_members q groups) \<and> ms \<noteq> []"
  by (auto simp: resolve_def Let_def)

lemma pool_members_not_composite: "s \<in> set (pool_members q groups) \<Longrightarrow> \<not> is_composite s"
  by (auto simp: pool_members_def set_resolve_rule dest: resolve_list_sound split: if_splits)

lemma pool_members_from_store: "set (pool_members q groups) \<subseteq> set (all_servers groups)"
  by (auto simp: pool_members_def set_resolve_rule dest!: resolve_list_sound find_member_SomeD
      split: if_splits)

section \<open>Ranking\<close>

type_synonym endpoint = "string \<times> nat"

definition endpoint :: "'j server \<Rightarrow> endpoint" where
  "endpoint s = (srv_address s, srv_port s)"

fun bucket_push ::
  "endpoint list \<times> 'j server list list \<Rightarrow> 'j server \<Rightarrow> endpoint list \<times> 'j server list list" where
  "bucket_push (seen, buckets) s =
     (case position (\<lambda>k. k = endpoint s) seen of
        Some i \<Rightarrow> (seen, buckets[i := buckets ! i @ [s]])
      | None \<Rightarrow> (seen @ [endpoint s], buckets @ [[s]]))"

definition bucketed :: "'j server list \<Rightarrow> 'j server list list" where
  "bucketed ms = snd (foldl bucket_push ([], []) ms)"

definition sort_buckets :: "('j server \<Rightarrow> known) \<Rightarrow> 'j server list list \<Rightarrow> 'j server list list" where
  "sort_buckets known bs =
     sort_key (\<lambda>b. known_order (known (hd b))) (map (sort_key (\<lambda>s. known_order (known s))) bs)"

definition round :: "'a list list \<Rightarrow> nat \<Rightarrow> 'a list" where
  "round bs r = concat (map (\<lambda>b. if r < length b then [b ! r] else []) bs)"

definition deal :: "'a list list \<Rightarrow> 'a list" where
  "deal bs = concat (map (round bs) [0..<foldl max 0 (map length bs)])"

definition resolve_ranked ::
  "('j server \<Rightarrow> known) \<Rightarrow> pool_query \<Rightarrow> 'j subscription list \<Rightarrow> string + 'j server list" where
  "resolve_ranked known q groups =
     and_then (resolve (q\<lparr>pq_max := 0\<rparr>) groups) (\<lambda>all.
       let matches = filter (\<lambda>s. matches_known q (known s)) all
       in if matches = [] then Inl (empty_pool_message q)
          else Inr (cap (pq_max q) (deal (sort_buckets known (bucketed matches)))))"

fun distinct_endpoints_acc :: "endpoint list \<Rightarrow> 'j server list \<Rightarrow> nat" where
  "distinct_endpoints_acc seen [] = length seen"
| "distinct_endpoints_acc seen (s # ss) =
     (if endpoint s \<in> set seen then distinct_endpoints_acc seen ss
      else distinct_endpoints_acc (seen @ [endpoint s]) ss)"

definition distinct_endpoints :: "'j server list \<Rightarrow> nat" where
  "distinct_endpoints ms = distinct_endpoints_acc [] ms"

lemma distinct_endpoints_acc_card:
  "distinct seen \<Longrightarrow>
     distinct_endpoints_acc seen ms = card (set seen \<union> endpoint ` set ms)"
proof (induction seen ms rule: distinct_endpoints_acc.induct)
  case (1 seen)
  then show ?case by (simp add: distinct_card)
next
  case (2 seen s ss)
  then show ?case by (simp add: insert_absorb Un_commute [of "{_}"])
qed

lemma distinct_endpoints_card: "distinct_endpoints ms = card (endpoint ` set ms)"
  by (simp add: distinct_endpoints_def distinct_endpoints_acc_card)

subsection \<open>Buckets\<close>

definition bucket_inv :: "endpoint list \<times> 'j server list list \<Rightarrow> bool" where
  "bucket_inv st =
     (distinct (fst st) \<and> length (fst st) = length (snd st)
      \<and> (\<forall>i<length (snd st). snd st ! i \<noteq> [] \<and> (\<forall>s\<in>set (snd st ! i). endpoint s = fst st ! i)))"

lemma bucket_push_inv: "bucket_inv st \<Longrightarrow> bucket_inv (bucket_push st s)"
proof (cases st)
  case (Pair seen buckets)
  assume inv: "bucket_inv st"
  show ?thesis
  proof (cases "position (\<lambda>k. k = endpoint s) seen")
    case None
    then have "endpoint s \<notin> set seen" by (auto simp: position_None_iff)
    with inv Pair None show ?thesis
      by (auto simp: bucket_inv_def nth_append less_Suc_eq)
  next
    case (Some i)
    then have "i < length seen" "seen ! i = endpoint s"
      using position_SomeD [OF Some] by auto
    with inv Pair Some show ?thesis
      by (auto simp: bucket_inv_def nth_list_update)
  qed
qed

lemma mset_concat_update:
  "i < length bs \<Longrightarrow> mset (concat (bs[i := bs ! i @ ys])) = mset (concat bs) + mset ys"
proof (induction bs arbitrary: i)
  case (Cons b bs)
  then show ?case by (cases i) (auto simp: ac_simps)
qed simp

lemma bucket_push_mset:
  assumes "bucket_inv st"
  shows "mset (concat (snd (bucket_push st s))) = add_mset s (mset (concat (snd st)))"
proof (cases st)
  case (Pair seen buckets)
  show ?thesis
  proof (cases "position (\<lambda>k. k = endpoint s) seen")
    case None
    with Pair show ?thesis by simp
  next
    case (Some i)
    then have "i < length buckets"
      using position_SomeD [OF Some] assms Pair by (auto simp: bucket_inv_def)
    with Pair Some show ?thesis by (simp add: mset_concat_update)
  qed
qed

lemma foldl_bucket_push:
  "bucket_inv st \<Longrightarrow>
     bucket_inv (foldl bucket_push st ms)
     \<and> mset (concat (snd (foldl bucket_push st ms))) = mset (concat (snd st)) + mset ms"
proof (induction ms arbitrary: st)
  case (Cons s ms)
  with bucket_push_inv [OF Cons.prems, of s] bucket_push_mset [OF Cons.prems, of s]
  show ?case by simp
qed simp

text \<open>What the rest of the ranking needs of a list of buckets.\<close>

definition buckets_ok :: "'j server list list \<Rightarrow> bool" where
  "buckets_ok bs =
     ((\<forall>b\<in>set bs. b \<noteq> [] \<and> endpoint ` set b = {endpoint (hd b)})
      \<and> distinct (map (\<lambda>b. endpoint (hd b)) bs))"

lemma bucket_inv_ok: "bucket_inv st \<Longrightarrow> buckets_ok (snd st)"
proof -
  assume inv: "bucket_inv st"
  have "endpoint (hd (snd st ! i)) = fst st ! i" if "i < length (snd st)" for i
    using inv that hd_in_set by (auto simp: bucket_inv_def)
  then have "map (\<lambda>b. endpoint (hd b)) (snd st) = fst st"
    using inv by (intro nth_equalityI) (auto simp: bucket_inv_def)
  moreover have "b \<noteq> [] \<and> endpoint ` set b = {endpoint (hd b)}" if "b \<in> set (snd st)" for b
  proof -
    from that obtain i where "i < length (snd st)" "b = snd st ! i" by (auto simp: in_set_conv_nth)
    with inv have b: "b \<noteq> []" "\<forall>s\<in>set b. endpoint s = fst st ! i"
      by (auto simp: bucket_inv_def)
    then have "endpoint (hd b) = fst st ! i" by simp
    with b show ?thesis by (metis image_constant_conv image_cong set_empty)
  qed
  ultimately show ?thesis
    using inv by (simp add: buckets_ok_def bucket_inv_def)
qed

lemma bucketed_ok: "buckets_ok (bucketed ms)"
  and bucketed_mset: "mset (concat (bucketed ms)) = mset ms"
proof -
  have "bucket_inv (([], []) :: endpoint list \<times> 'a server list list)" by (simp add: bucket_inv_def)
  note inv = foldl_bucket_push [OF this, of ms]
  show "buckets_ok (bucketed ms)"
    unfolding bucketed_def by (rule bucket_inv_ok) (use inv in blast)
  show "mset (concat (bucketed ms)) = mset ms"
    using inv by (simp add: bucketed_def)
qed

lemma mset_concat_map_perm:
  "(\<And>b. mset (f b) = mset b) \<Longrightarrow> mset (concat (map f bs)) = mset (concat bs)"
  by (induction bs) auto

lemma mset_concat_cong: "mset bs = mset cs \<Longrightarrow> mset (concat bs) = mset (concat cs)"
  by (metis mset_concat mset_map sum_mset_sum_list)

lemma sort_buckets_mset: "mset (concat (sort_buckets known bs)) = mset (concat bs)"
  unfolding sort_buckets_def
  by (subst mset_concat_cong [of _ "map (sort_key (\<lambda>s. known_order (known s))) bs"])
     (simp_all add: mset_concat_map_perm)

lemma sort_buckets_ok:
  assumes "buckets_ok bs"
  shows "buckets_ok (sort_buckets known bs)"
proof -
  let ?f = "sort_key (\<lambda>s. known_order (known s))"
  let ?e = "\<lambda>b. endpoint (hd b)"
  have ne: "?f b \<noteq> []" if "b \<noteq> []" for b
    using that set_sort by (metis set_empty)
  have hd_f: "hd (?f b) \<in> set b" if "b \<noteq> []" for b
    using hd_in_set [OF ne [OF that]] by simp
  have e: "?e (?f b) = ?e b" if "b \<in> set bs" for b
  proof -
    from assms that have b: "b \<noteq> []" "endpoint ` set b = {?e b}" by (simp_all add: buckets_ok_def)
    from hd_f [OF b(1)] have "?e (?f b) \<in> endpoint ` set b" by (rule imageI)
    with b(2) show ?thesis by simp
  qed
  then have m: "map ?e (map ?f bs) = map ?e bs" by simp
  have "mset (map ?e (sort_buckets known bs)) = mset (map ?e (map ?f bs))"
    by (simp only: sort_buckets_def mset_map mset_sort)
  then have d: "distinct (map ?e (sort_buckets known bs))"
    using assms m by (metis buckets_ok_def mset_eq_imp_distinct_iff)
  have "b \<noteq> [] \<and> endpoint ` set b = {endpoint (hd b)}"
    if b: "b \<in> set (sort_buckets known bs)" for b
  proof -
    have "set (sort_buckets known bs) = ?f ` set bs"
      by (simp add: sort_buckets_def del: set_map) (rule set_map)
    with b obtain b' where b': "b' \<in> set bs" "b = ?f b'" by blast
    with assms have "b' \<noteq> []" "endpoint ` set b' = {?e b'}" by (simp_all add: buckets_ok_def)
    moreover have "set b = set b'" unfolding b'(2) by (rule set_sort)
    moreover have "?e b = ?e b'" unfolding b'(2) by (rule e [OF b'(1)])
    ultimately show ?thesis by (metis set_empty)
  qed
  with d show ?thesis by (simp add: buckets_ok_def)
qed

subsection \<open>Dealing\<close>

lemma foldl_max_ge: "(a::nat) \<le> foldl max a xs \<and> (\<forall>x\<in>set xs. x \<le> foldl max a xs)"
proof (induction xs arbitrary: a)
  case (Cons x xs)
  from Cons [of "max a x"] show ?case by auto
qed simp

lemma mset_concat_map_append:
  "mset (concat (map (\<lambda>r. f r @ g r) rs)) = mset (concat (map f rs)) + mset (concat (map g rs))"
  by (induction rs) auto

lemma concat_nth_upto:
  "length b \<le> n \<Longrightarrow> concat (map (\<lambda>r. if r < length b then [b ! r] else []) [0..<n]) = b"
proof (induction b rule: rev_induct)
  case Nil
  show ?case by (induction n) auto
next
  case (snoc x b)
  let ?f = "\<lambda>c r. if r < length c then [c ! r] else []"
  have upt: "[0..<n] = [0..<length b] @ length b # [Suc (length b)..<n]"
  proof -
    have l: "length b < n" using snoc.prems by simp
    then have "[0..<length b + (n - length b)] = [0..<length b] @ [length b..<length b + (n - length b)]"
      by (intro upt_add_eq_append) simp
    with l show ?thesis by (simp add: upt_conv_Cons)
  qed
  have a: "map (?f (b @ [x])) [0..<length b] = map (?f b) [0..<length b]"
    by (auto simp: nth_append)
  have z: "concat (map (?f (b @ [x])) [Suc (length b)..<n]) = []"
    by (auto simp: concat_eq_Nil_conv)
  have "concat (map (?f b) [0..<length b]) = b"
  proof -
    have "concat (map (?f b) [0..<length b]) = concat (map (\<lambda>r. [b ! r]) [0..<length b])"
      by (intro arg_cong [where f = concat] map_cong) auto
    also have "\<dots> = b" by (simp add: concat_map_singleton map_nth)
    finally show ?thesis .
  qed
  then have "concat (map (?f (b @ [x])) [0..<length b]) = b"
    unfolding a .
  then show ?case
    unfolding upt map_append list.map concat_append concat.simps z by simp
qed

lemma mset_rounds:
  "\<forall>b\<in>set bs. length b \<le> n \<Longrightarrow> mset (concat (map (round bs) [0..<n])) = mset (concat bs)"
proof (induction bs)
  case Nil
  then show ?case by (simp add: round_def)
next
  case (Cons b bs)
  have "round (b # bs) = (\<lambda>r. (if r < length b then [b ! r] else []) @ round bs r)"
    by (auto simp: round_def)
  with Cons show ?case
    by (simp add: mset_concat_map_append concat_nth_upto)
qed

lemma deal_mset: "mset (deal bs) = mset (concat bs)"
  unfolding deal_def by (rule mset_rounds) (use foldl_max_ge in auto)

lemma deal_first_round:
  assumes "\<forall>b\<in>set bs. b \<noteq> []"
  shows "\<exists>rest. deal bs = map hd bs @ rest"
proof (cases bs)
  case Nil
  then show ?thesis by (simp add: deal_def)
next
  case (Cons b bs')
  let ?n = "foldl max 0 (map length bs)"
  have "length b \<le> ?n" using foldl_max_ge [of 0 "map length bs"] Cons by simp
  moreover have "0 < length b" using assms Cons by simp
  ultimately have "0 < ?n" by linarith
  then have "[0..<?n] = 0 # [1..<?n]" by (simp only: upt_conv_Cons One_nat_def)
  moreover have "round bs 0 = map hd bs"
    using assms by (induction bs) (auto simp: round_def hd_conv_nth)
  ultimately show ?thesis by (simp add: deal_def)
qed

lemma deal_endpoints:
  assumes "buckets_ok bs"
  shows "endpoint ` set (deal bs) = set (map (\<lambda>b. endpoint (hd b)) bs)"
proof -
  have "set (deal bs) = (\<Union>b\<in>set bs. set b)"
    using deal_mset [of bs] by (metis mset_eq_setD set_concat)
  then have "endpoint ` set (deal bs) = (\<Union>b\<in>set bs. endpoint ` set b)" by auto
  also have "\<dots> = (\<Union>b\<in>set bs. {endpoint (hd b)})"
    using assms by (intro SUP_cong) (simp_all add: buckets_ok_def)
  finally show ?thesis by auto
qed

lemma deal_spread:
  assumes "buckets_ok bs"
  shows "distinct_endpoints (take m (deal bs)) = min m (distinct_endpoints (deal bs))"
proof -
  let ?e = "map (\<lambda>b. endpoint (hd b)) bs"
  have d: "distinct ?e" using assms by (simp add: buckets_ok_def)
  have all: "distinct_endpoints (deal bs) = length bs"
    using d by (simp add: distinct_endpoints_card deal_endpoints [OF assms] distinct_card
        del: set_map)
  obtain rest where r: "deal bs = map hd bs @ rest"
    using deal_first_round [of bs] assms by (auto simp: buckets_ok_def)
  show ?thesis
  proof (cases "m \<le> length bs")
    case True
    then have "endpoint ` set (take m (deal bs)) = set (take m ?e)"
      by (simp add: r take_map [symmetric] image_image flip: set_map) (simp add: take_map comp_def)
    moreover have "card (set (take m ?e)) = m"
      using d True by (simp add: distinct_card del: set_map)
    ultimately show ?thesis using True all by (simp add: distinct_endpoints_card)
  next
    case False
    then have "set ?e \<subseteq> endpoint ` set (take m (deal bs))" by (auto simp: r)
    moreover have "endpoint ` set (take m (deal bs)) \<subseteq> set ?e"
      using deal_endpoints [OF assms] set_take_subset [of m "deal bs"] by blast
    ultimately have "endpoint ` set (take m (deal bs)) = endpoint ` set (deal bs)"
      using deal_endpoints [OF assms] by blast
    with all False show ?thesis by (simp add: distinct_endpoints_card)
  qed
qed

lemma deal_hd_best:
  assumes ok: "buckets_ok bs" and s: "s \<in> set (concat bs)"
  shows "known_order (known (hd (deal (sort_buckets known bs)))) \<le> known_order (known s)"
proof -
  let ?k = "\<lambda>s. known_order (known s)"
  let ?sb = "sort_buckets known bs"
  have ok': "buckets_ok ?sb" using ok by (rule sort_buckets_ok)
  obtain b where b: "b \<in> set bs" "s \<in> set b" using s by auto
  let ?b = "sort_key ?k b"
  have in_sb: "?b \<in> set ?sb" using b(1) by (auto simp: sort_buckets_def)
  then have ne: "?sb \<noteq> []" by auto
  obtain rest where "deal ?sb = map hd ?sb @ rest"
    using deal_first_round [of ?sb] ok' by (auto simp: buckets_ok_def)
  with ne have hd: "hd (deal ?sb) = hd (hd ?sb)" by (simp add: hd_map)
  have "sorted (map (\<lambda>b. ?k (hd b)) ?sb)"
    by (simp add: sort_buckets_def)
  with in_sb ne have 1: "?k (hd (hd ?sb)) \<le> ?k (hd ?b)"
    by (cases ?sb) auto
  have "sorted (map ?k ?b)" and "s \<in> set ?b" using b(2) by simp_all
  then have "?k (hd ?b) \<le> ?k s" by (cases ?b) auto
  with 1 hd show ?thesis by simp
qed

section \<open>Ranking and resolution together\<close>

lemma resolve_uncapped: "resolve (q\<lparr>pq_max := 0\<rparr>) groups = Inr all \<Longrightarrow> all = pool_members q groups"
proof -
  let ?q = "q\<lparr>pq_max := 0\<rparr>"
  have "group_matches ?q g = group_matches q g" for g :: "'a subscription"
    by (simp add: group_matches_def)
  moreover have "server_matches ?q s = server_matches q s" for s :: "'a server"
    by (cases "srv_country s") (simp_all add: server_matches_def)
  ultimately have "resolve_rule ?q gs = resolve_rule q gs" for gs :: "'a subscription list"
    by (induction gs) simp_all
  moreover assume "resolve (q\<lparr>pq_max := 0\<rparr>) groups = Inr all"
  ultimately show ?thesis
    by (simp add: resolve_Inr pool_members_def pool_kind_def cap_def)
qed

definition pool_candidates ::
  "('j server \<Rightarrow> known) \<Rightarrow> pool_query \<Rightarrow> 'j subscription list \<Rightarrow> 'j server list" where
  "pool_candidates known q groups =
     filter (\<lambda>s. matches_known q (known s)) (pool_members q groups)"

lemma resolve_ranked_Inr:
  assumes "resolve_ranked known q groups = Inr ranked"
  shows "ranked = cap (pq_max q) (deal (sort_buckets known (bucketed (pool_candidates known q groups))))"
    and "pool_candidates known q groups \<noteq> []"
  using assms resolve_uncapped
  by (fastforce simp: resolve_ranked_def and_then_Inr_iff Let_def pool_candidates_def split: if_splits)+

lemma ranked_mset: "mset (deal (sort_buckets known (bucketed ms))) = mset ms"
  by (simp add: deal_mset sort_buckets_mset bucketed_mset)

text \<open>an uncapped ranked pool is a reordering of the resolved pool that passes
the latency constraint: nothing joins, nothing is lost, nothing is doubled.\<close>

theorem resolve_ranked_permutes:
  assumes "resolve_ranked known q groups = Inr ranked" and "pq_max q = 0"
  shows "mset ranked = mset (filter (\<lambda>s. matches_known q (known s)) (pool_members q groups))"
  using resolve_ranked_Inr [OF assms(1)] assms(2)
  by (simp add: cap_def ranked_mset pool_candidates_def)

definition sample_server :: "string \<Rightarrow> string \<Rightarrow> nat \<Rightarrow> unit server" where
  "sample_server i a p =
     \<lparr>srv_id = i, srv_name = i, srv_protocol = PTrojan, srv_address = a, srv_port = p,
      srv_transport_label = [], srv_country = None, srv_spec = Shadowsocks [] [], srv_link = None,
      srv_alias = None, srv_outbound_patch = None, srv_overrides = None, srv_latency_ms = None\<rparr>"

definition sample_groups :: "unit subscription list" where
  "sample_groups =
     [(subscription_new ''u'' None)\<lparr>sub_servers :=
        [sample_server ''a'' ''h1'' 1, sample_server ''b'' ''h1'' 1, sample_server ''c'' ''h2'' 1]\<rparr>]"

definition sample_known :: "unit server \<Rightarrow> known" where
  "sample_known s = (if srv_id s = ''c'' then Reachable 20 else Unmeasured)"

lemma sample_members:
  "pool_members pool_query_default sample_groups =
     [sample_server ''a'' ''h1'' 1, sample_server ''b'' ''h1'' 1, sample_server ''c'' ''h2'' 1]"
  by (simp add: pool_members_def pool_query_default_def pool_kind_def sample_groups_def
      group_matches_def server_matches_def is_composite_def sample_server_def)

lemma sample_resolve:
  "resolve (pool_query_default\<lparr>pq_max := 0\<rparr>) sample_groups =
     Inr [sample_server ''a'' ''h1'' 1, sample_server ''b'' ''h1'' 1, sample_server ''c'' ''h2'' 1]"
  using sample_members by (simp add: resolve_def cap_def pool_query_default_def)

lemma sample_ranked:
  "resolve_ranked sample_known (pool_query_default\<lparr>pq_max := m\<rparr>) sample_groups =
     Inr (cap m [sample_server ''c'' ''h2'' 1, sample_server ''a'' ''h1'' 1, sample_server ''b'' ''h1'' 1])"
  using sample_resolve
  by (simp add: resolve_ranked_def matches_known_def pool_query_default_def bucketed_def
      endpoint_def sample_server_def sample_known_def sort_buckets_def deal_def round_def
      insort_key_def numeral_2_eq_2 upt_rec cap_def)

theorem resolve_ranked_permutes_witness:
  "mset [sample_server ''c'' ''h2'' 1, sample_server ''a'' ''h1'' 1, sample_server ''b'' ''h1'' 1] =
     mset (filter (\<lambda>s. matches_known pool_query_default (sample_known s))
       (pool_members pool_query_default sample_groups))"
proof -
  have r: "resolve_ranked sample_known pool_query_default sample_groups =
      Inr [sample_server ''c'' ''h2'' 1, sample_server ''a'' ''h1'' 1, sample_server ''b'' ''h1'' 1]"
    using sample_ranked [of 0] by (simp add: cap_def pool_query_default_def)
  show ?thesis
    by (rule resolve_ranked_permutes [OF r]) (simp add: pool_query_default_def)
qed

text \<open>truncating a ranked pool to \<open>max\<close> members keeps as many distinct exit endpoints as
\<open>max\<close> members can have: no endpoint gets a second member before every endpoint has one.\<close>

theorem resolve_ranked_spreads:
  assumes "resolve_ranked known q groups = Inr ranked" and "pq_max q \<noteq> 0"
  shows "length ranked \<le> pq_max q
    \<and> distinct_endpoints ranked =
        min (pq_max q)
          (distinct_endpoints (filter (\<lambda>s. matches_known q (known s)) (pool_members q groups)))"
proof -
  let ?c = "pool_candidates known q groups"
  let ?d = "deal (sort_buckets known (bucketed ?c))"
  have r: "ranked = take (pq_max q) ?d"
    using resolve_ranked_Inr [OF assms(1)] assms(2) by (simp add: cap_def)
  have "distinct_endpoints ?d = distinct_endpoints ?c"
    using ranked_mset [of known ?c] by (metis distinct_endpoints_card mset_eq_setD)
  moreover have "buckets_ok (sort_buckets known (bucketed ?c))"
    by (rule sort_buckets_ok [OF bucketed_ok])
  ultimately show ?thesis
    using r deal_spread [of "sort_buckets known (bucketed ?c)" "pq_max q"]
    by (simp add: pool_candidates_def)
qed

theorem resolve_ranked_spreads_witness:
  "distinct_endpoints [sample_server ''c'' ''h2'' 1, sample_server ''a'' ''h1'' 1] =
     min 2 (distinct_endpoints
       (filter (\<lambda>s. matches_known (pool_query_default\<lparr>pq_max := 2\<rparr>) (sample_known s))
         (pool_members (pool_query_default\<lparr>pq_max := 2\<rparr>) sample_groups)))"
proof -
  have r: "resolve_ranked sample_known (pool_query_default\<lparr>pq_max := 2\<rparr>) sample_groups =
      Inr [sample_server ''c'' ''h2'' 1, sample_server ''a'' ''h1'' 1]"
    using sample_ranked [of 2] by (simp add: cap_def)
  show ?thesis
    using resolve_ranked_spreads [OF r] by simp
qed

text \<open>the first member of a ranked pool, its opening exit, is at least as good (reachable
by latency, then unmeasured, then unreachable) as every candidate of the pool.\<close>

theorem resolve_ranked_opens_best:
  assumes "resolve_ranked known q groups = Inr ranked"
    and "s \<in> set (pool_members q groups)" and "matches_known q (known s)"
  shows "ranked \<noteq> [] \<and> known_order (known (hd ranked)) \<le> known_order (known s)"
proof -
  let ?c = "pool_candidates known q groups"
  let ?d = "deal (sort_buckets known (bucketed ?c))"
  have s: "s \<in> set (concat (bucketed ?c))"
    using assms(2,3) bucketed_mset [of ?c] by (metis (no_types, lifting) mem_Collect_eq mset_eq_setD
        pool_candidates_def set_filter)
  have ne: "?d \<noteq> []"
    using resolve_ranked_Inr(2) [OF assms(1)] ranked_mset [of known ?c] by (metis mset_zero_iff)
  have r: "ranked = cap (pq_max q) ?d" using resolve_ranked_Inr(1) [OF assms(1)] .
  with ne have "hd ranked = hd ?d" and "ranked \<noteq> []" by (auto simp: cap_def)
  with deal_hd_best [OF bucketed_ok s] show ?thesis by simp
qed

theorem resolve_ranked_opens_best_witness:
  "known_order (sample_known (sample_server ''c'' ''h2'' 1))
     \<le> known_order (sample_known (sample_server ''a'' ''h1'' 1))"
proof -
  have r: "resolve_ranked sample_known pool_query_default sample_groups =
      Inr [sample_server ''c'' ''h2'' 1, sample_server ''a'' ''h1'' 1, sample_server ''b'' ''h1'' 1]"
    using sample_ranked [of 0] by (simp add: cap_def pool_query_default_def)
  have m: "sample_server ''a'' ''h1'' 1 \<in> set (pool_members pool_query_default sample_groups)"
    by (simp add: sample_members)
  have k: "matches_known pool_query_default (sample_known (sample_server ''a'' ''h1'' 1))"
    by (simp add: matches_known_def pool_query_default_def)
  show ?thesis
    using resolve_ranked_opens_best [OF r m k] by simp
qed

end
