(* ===== verification/Net.thy ===== *)
theory Net
  imports Rust_Text
begin

text \<open>
  IPv4 addresses and networks: \<open>std::net::Ipv4Addr\<close> with its parser, printer and address
  classes, and the \<open>Cidr\<close> of \<open>crates/oxidom-core/src/tun/plan.rs\<close> with its \<open>FromStr\<close>
  and \<open>Display\<close>. The round trip of the printer and the parser is the component's property.
\<close>

section \<open>Addresses\<close>

datatype ipv4 = Ipv4 (oct1: u8) (oct2: u8) (oct3: u8) (oct4: u8)

definition octets :: "ipv4 \<Rightarrow> u8 list" where
  "octets a = [oct1 a, oct2 a, oct3 a, oct4 a]"

lemma octets_inj: "octets a = octets b \<Longrightarrow> a = b"
  by (cases a; cases b) (simp add: octets_def)

definition localhost :: ipv4 where
  "localhost = Ipv4 127 0 0 1"

definition unspecified :: ipv4 where
  "unspecified = Ipv4 0 0 0 0"

definition is_loopback :: "ipv4 \<Rightarrow> bool" where
  "is_loopback a = (oct1 a = 127)"

definition is_link_local :: "ipv4 \<Rightarrow> bool" where
  "is_link_local a = (oct1 a = 169 \<and> oct2 a = 254)"

definition is_broadcast :: "ipv4 \<Rightarrow> bool" where
  "is_broadcast a = (a = Ipv4 255 255 255 255)"

text \<open>One decimal octet: one to three digits, no leading zero, at most 255.\<close>

definition parse_octet :: "string \<Rightarrow> u8 option" where
  "parse_octet s =
     (if s \<noteq> [] \<and> length s \<le> 3 \<and> list_all is_ascii_digit s
         \<and> (length s = 1 \<or> hd s \<noteq> CHR ''0'') \<and> digits_value 0 s \<le> 255
      then Some (of_nat (digits_value 0 s)) else None)"

definition parse_ipv4 :: "string \<Rightarrow> ipv4 option" where
  "parse_ipv4 s =
     (case map parse_octet (split_on CHR ''.'' s) of
        [Some a, Some b, Some c, Some d] \<Rightarrow> Some (Ipv4 a b c d)
      | _ \<Rightarrow> None)"

definition show_octet :: "u8 \<Rightarrow> string" where
  "show_octet w = show_nat (unat w)"

definition show_ipv4 :: "ipv4 \<Rightarrow> string" where
  "show_ipv4 a = join ''.'' (map show_octet (octets a))"

lemma unat_u8_bound: "unat (w :: u8) \<le> 255"
proof -
  have "unat w < 2 ^ LENGTH(8)" by (rule unsigned_less)
  then show ?thesis by simp
qed

lemma parse_show_octet: "parse_octet (show_octet w) = Some w"
proof -
  let ?n = "unat w"
  have b: "?n \<le> 255" by (rule unat_u8_bound)
  have len: "length (show_nat ?n) \<le> 3"
    by (rule length_show_nat) (use b in auto)
  have lead: "length (show_nat ?n) = 1 \<or> hd (show_nat ?n) \<noteq> CHR ''0''"
  proof (cases "?n < 10")
    case True
    then show ?thesis by (simp add: show_nat.simps [of ?n])
  next
    case False
    then show ?thesis using show_nat_head [of ?n] by auto
  qed
  have "of_nat ?n = w" by simp
  with b len lead show_nat_digits [of ?n] show ?thesis
    by (simp add: parse_octet_def show_octet_def)
qed

lemma split_on_no_char: "d \<notin> set s \<Longrightarrow> split_on d s = [s]"
  by (induction s) auto

lemma split_on_app: "d \<notin> set a \<Longrightarrow> split_on d (a @ d # r) = a # split_on d r"
  by (induction a) auto

lemma no_dot_octet: "CHR ''.'' \<notin> set (show_octet w)"
  unfolding show_octet_def by (rule char_not_in_show_nat) (simp add: is_ascii_digit_def)

lemma no_slash_octet: "CHR ''/'' \<notin> set (show_octet w)"
  unfolding show_octet_def by (rule char_not_in_show_nat) (simp add: is_ascii_digit_def)

lemma show_ipv4_unfold:
  "show_ipv4 a = show_octet (oct1 a) @ CHR ''.'' # show_octet (oct2 a) @ CHR ''.''
     # show_octet (oct3 a) @ CHR ''.'' # show_octet (oct4 a)"
  by (simp add: show_ipv4_def octets_def)

lemma parse_show_ipv4: "parse_ipv4 (show_ipv4 a) = Some a"
  by (simp add: parse_ipv4_def show_ipv4_unfold split_on_app split_on_no_char no_dot_octet
      parse_show_octet)

lemma show_ipv4_inj: "show_ipv4 a = show_ipv4 b \<Longrightarrow> a = b"
  by (metis option.inject parse_show_ipv4)

section \<open>Networks\<close>

record cidr =
  c_address :: ipv4
  c_prefix :: nat

datatype cidr_error = InvalidPrefix | PrefixOutOfRange | InvalidAddress

definition cidr_from_str :: "string \<Rightarrow> cidr_error + cidr" where
  "cidr_from_str v =
     and_then
       (case split_once CHR ''/'' v of
          Some (a, p) \<Rightarrow> or_bail (parse_u8 p) InvalidPrefix (\<lambda>n. Inr (a, n))
        | None \<Rightarrow> Inr (v, 32))
       (\<lambda>(a, n).
          ensure (n \<le> 32) PrefixOutOfRange
            (or_bail (parse_ipv4 a) InvalidAddress (\<lambda>x. Inr \<lparr>c_address = x, c_prefix = n\<rparr>)))"

definition cidr_display :: "cidr \<Rightarrow> string" where
  "cidr_display c = show_ipv4 (c_address c) @ ''/'' @ show_nat (c_prefix c)"

lemma cidr_from_str_prefix: "cidr_from_str v = Inr c \<Longrightarrow> c_prefix c \<le> 32"
  by (auto simp: cidr_from_str_def and_then_Inr_iff or_bail_Inr_iff split: prod.splits)

lemma split_once_app: "d \<notin> set a \<Longrightarrow> split_once d (a @ d # b) = Some (a, b)"
  by (simp add: split_once_Some_iff)

lemma no_slash_ipv4: "CHR ''/'' \<notin> set (show_ipv4 a)"
  by (simp add: show_ipv4_unfold no_slash_octet)

lemma cidr_display_parse:
  assumes "c_prefix c \<le> 32"
  shows "cidr_from_str (cidr_display c) = Inr c"
proof -
  have "split_once CHR ''/'' (cidr_display c) = Some (show_ipv4 (c_address c), show_nat (c_prefix c))"
    using split_once_app [OF no_slash_ipv4] by (simp add: cidr_display_def)
  moreover have "parse_u8 (show_nat (c_prefix c)) = Some (c_prefix c)"
    unfolding parse_u8_def by (rule parse_show_nat) (use assms in simp)
  ultimately show ?thesis
    using assms by (simp add: cidr_from_str_def parse_show_ipv4)
qed

text \<open>A bare address is a host network.\<close>

lemma cidr_bare_address: "cidr_from_str (show_ipv4 a) = Inr \<lparr>c_address = a, c_prefix = 32\<rparr>"
proof -
  have "split_once CHR ''/'' (show_ipv4 a) = None"
    using no_slash_ipv4 by (simp add: split_once_None_iff)
  then show ?thesis by (simp add: cidr_from_str_def parse_show_ipv4)
qed

end
