(* ===== verification/Bind.thy ===== *)
theory Bind
  imports Net Model
begin

text \<open>
  Stable addresses, device names and routing marks of profiles:
  \<open>crates/oxidom-core/src/bind.rs\<close>.

  The three allocators of the file are one search: start at a slot derived from the hash of the
  profile name and take the first slot, going round, that is not in use. The locale
  \<open>slot_ring\<close> states what a numbering of the slots must promise and proves the search sound,
  complete and stable once; it is interpreted for loopback addresses, device addresses and
  routing marks.
\<close>

section \<open>The search\<close>

definition first_free :: "nat \<Rightarrow> (nat \<Rightarrow> 'a) \<Rightarrow> nat \<Rightarrow> 'a list \<Rightarrow> 'a option" where
  "first_free count slot start taken =
     find_map (\<lambda>offset. let a = slot ((start + offset) mod count)
                        in if a \<notin> set taken then Some a else None) [0..<count]"

locale slot_ring =
  fixes count :: nat and slot :: "nat \<Rightarrow> 'a"
  assumes count_pos: "0 < count"
    and slot_inj: "inj_on slot {..<count}"
begin

abbreviation "search \<equiv> first_free count slot"

lemma search_sound:
  assumes "search start taken = Some a"
  shows "a \<notin> set taken \<and> a \<in> slot ` {..<count}"
proof -
  from assms obtain offset where "a = slot ((start + offset) mod count)" "a \<notin> set taken"
    unfolding first_free_def
    by (auto simp: Let_def split: if_splits dest!: find_map_SomeD)
  with count_pos show ?thesis by auto
qed

lemma search_None_iff: "search start taken = None \<longleftrightarrow> slot ` {..<count} \<subseteq> set taken"
proof
  assume n: "search start taken = None"
  then have n: "\<forall>offset<count. slot ((start + offset) mod count) \<in> set taken"
    unfolding first_free_def find_map_None_iff by (auto simp: Let_def split: if_splits)
  show "slot ` {..<count} \<subseteq> set taken"
  proof
    fix a assume "a \<in> slot ` {..<count}"
    then obtain i where i: "i < count" "a = slot i" by auto
    from ring_covers [OF i(1)] n i(2) show "a \<in> set taken" by metis
  qed
next
  assume "slot ` {..<count} \<subseteq> set taken"
  moreover have "(start + offset) mod count < count" for offset using count_pos by simp
  ultimately show "search start taken = None"
    unfolding first_free_def find_map_None_iff by (fastforce simp: Let_def)
qed

text \<open>Fewer addresses in use than slots: there is a free one.\<close>

lemma search_total:
  assumes "length taken < count"
  shows "\<exists>a. search start taken = Some a"
proof (rule ccontr)
  assume "\<nexists>a. search start taken = Some a"
  then have "slot ` {..<count} \<subseteq> set taken"
    by (cases "search start taken") (simp_all add: search_None_iff)
  then have "card (slot ` {..<count}) \<le> card (set taken)" by (simp add: card_mono)
  moreover have "card (slot ` {..<count}) = count" using slot_inj by (simp add: card_image)
  ultimately show False using assms card_length [of taken] by simp
qed

text \<open>The home slot wins while it is free, so the result does not depend on what else is taken.\<close>

lemma search_home:
  assumes "slot (start mod count) \<notin> set taken"
  shows "search start taken = Some (slot (start mod count))"
proof -
  have "[0..<count] = 0 # [1..<count]" using count_pos by (simp add: upt_conv_Cons)
  with assms show ?thesis by (simp add: first_free_def)
qed

lemma find_map_grow:
  "find_map (\<lambda>x. if f x \<notin> A then Some (f x) else None) xs = Some a \<Longrightarrow> A \<subseteq> B \<Longrightarrow> a \<notin> B \<Longrightarrow>
   find_map (\<lambda>x. if f x \<notin> B then Some (f x) else None) xs = Some a"
  by (induction xs) (auto split: if_splits)

text \<open>Taking more addresses moves a profile only if its own address is among them.\<close>

lemma search_stable:
  assumes "search start taken = Some a" and "set taken \<subseteq> set taken'" and "a \<notin> set taken'"
  shows "search start taken' = Some a"
  using assms unfolding first_free_def Let_def by (rule find_map_grow)

end

section \<open>Loopback addresses\<close>

definition first_octet_count :: nat where "first_octet_count = 254"
definition second_octet_count :: nat where "second_octet_count = 256"
definition profile_address_count :: nat where "profile_address_count = 65024"

definition default_profile :: string where
  "default_profile = ''default''"

definition profile_slot :: "nat \<Rightarrow> ipv4" where
  "profile_slot index =
     Ipv4 127 (of_nat (1 + index div second_octet_count)) (of_nat (index mod second_octet_count)) 1"

definition profile_start :: "string \<Rightarrow> nat" where
  "profile_start profile =
     (let hash = stable_hash profile;
          first = 1 + unat hash mod first_octet_count;
          second = unat (drop_bit 8 hash) mod second_octet_count
      in (first - 1) * second_octet_count + second)"

definition address_for :: "string \<Rightarrow> ipv4 list \<Rightarrow> ipv4 option" where
  "address_for profile taken =
     (if profile = default_profile then Some localhost
      else first_free profile_address_count profile_slot (profile_start profile) taken)"

section \<open>Device addresses\<close>

definition device_last_octet_count :: nat where "device_last_octet_count = 254"
definition device_address_count :: nat where "device_address_count = 65024"

definition device_slot :: "nat \<Rightarrow> ipv4" where
  "device_slot index =
     Ipv4 198 18 (of_nat (index div device_last_octet_count))
       (of_nat (1 + index mod device_last_octet_count))"

definition device_address_for :: "string \<Rightarrow> ipv4 list \<Rightarrow> ipv4 option" where
  "device_address_for profile taken =
     (if profile = default_profile then Some (Ipv4 198 18 0 1)
      else first_free device_address_count device_slot
             (unat (stable_hash profile) mod device_address_count) taken)"

section \<open>Routing marks\<close>

definition routing_mark_default :: u32 where "routing_mark_default = 0x6f00"
definition routing_mark_first :: u32 where "routing_mark_first = 0x6f01"
definition routing_mark_last :: u32 where "routing_mark_last = 0x6fff"

definition mark_count :: nat where
  "mark_count = unat (routing_mark_last - routing_mark_first + 1)"

definition mark_slot :: "nat \<Rightarrow> u32" where
  "mark_slot index = routing_mark_first + of_nat index"

definition routing_mark :: "string \<Rightarrow> u32 list \<Rightarrow> u32 option" where
  "routing_mark profile taken =
     (if profile = default_profile then Some routing_mark_default
      else first_free mark_count mark_slot (unat (stable_hash profile) mod mark_count) taken)"

section \<open>The three numberings are rings of slots\<close>

lemma of_nat_u8_inj: "a < 256 \<Longrightarrow> b < 256 \<Longrightarrow> (of_nat a :: u8) = of_nat b \<longleftrightarrow> a = b"
  by (auto simp: word_of_nat_eq_iff take_bit_eq_mod)

lemma unat_of_nat_u8: "a < 256 \<Longrightarrow> unat (of_nat a :: u8) = a"
  by (simp add: unat_of_nat take_bit_eq_mod)

lemma of_nat_u32_inj: "a < 256 \<Longrightarrow> b < 256 \<Longrightarrow> (of_nat a :: u32) = of_nat b \<longleftrightarrow> a = b"
  by (auto simp: word_of_nat_eq_iff take_bit_eq_mod)

lemma unat_of_nat_u32: "a < 65536 \<Longrightarrow> unat (of_nat a :: u32) = a"
  by (simp add: unat_of_nat take_bit_eq_mod)

lemma mark_count_255: "mark_count = 255"
  by (simp add: mark_count_def routing_mark_last_def routing_mark_first_def)

interpretation loopback: slot_ring profile_address_count profile_slot
proof
  show "0 < profile_address_count" by (simp add: profile_address_count_def)
  show "inj_on profile_slot {..<profile_address_count}"
  proof (rule inj_onI)
    fix a b
    assume a: "a \<in> {..<profile_address_count}" and b: "b \<in> {..<profile_address_count}"
      and "profile_slot a = profile_slot b"
    then have e: "(of_nat (1 + a div 256) :: u8) = of_nat (1 + b div 256)"
      "(of_nat (a mod 256) :: u8) = of_nat (b mod 256)"
      by (simp_all add: profile_slot_def second_octet_count_def)
    have "1 + a div 256 < 256" "1 + b div 256 < 256"
      using a b by (simp_all add: profile_address_count_def)
    then have "1 + a div 256 = 1 + b div 256" using e(1) by (rule of_nat_u8_inj [THEN iffD1])
    then have "a div 256 = b div 256" by simp
    moreover have "a mod 256 = b mod 256" using e(2) of_nat_u8_inj [of "a mod 256" "b mod 256"] by simp
    ultimately show "a = b" by (metis div_mult_mod_eq)
  qed
qed

interpretation device: slot_ring device_address_count device_slot
proof
  show "0 < device_address_count" by (simp add: device_address_count_def)
  show "inj_on device_slot {..<device_address_count}"
  proof (rule inj_onI)
    fix a b
    assume a: "a \<in> {..<device_address_count}" and b: "b \<in> {..<device_address_count}"
      and "device_slot a = device_slot b"
    then have e: "(of_nat (a div 254) :: u8) = of_nat (b div 254)"
      "(of_nat (1 + a mod 254) :: u8) = of_nat (1 + b mod 254)"
      by (simp_all add: device_slot_def device_last_octet_count_def)
    have "a div 254 < 256" "b div 254 < 256"
      using a b by (simp_all add: device_address_count_def)
    then have "a div 254 = b div 254" using e(1) by (rule of_nat_u8_inj [THEN iffD1])
    moreover have "1 + a mod 254 < 256" "1 + b mod 254 < 256"
      using mod_less_divisor [of 254 a] mod_less_divisor [of 254 b] by simp_all
    then have "1 + a mod 254 = 1 + b mod 254" using e(2) by (rule of_nat_u8_inj [THEN iffD1])
    ultimately show "a = b" by (metis add_left_cancel div_mult_mod_eq)
  qed
qed

interpretation mark: slot_ring mark_count mark_slot
proof
  show "0 < mark_count" by (simp add: mark_count_255)
  show "inj_on mark_slot {..<mark_count}"
    by (rule inj_onI) (simp add: mark_count_255 mark_slot_def of_nat_u32_inj)
qed

section \<open>Device names\<close>

datatype device_error = DeviceLength | DeviceCharacters | ProfileDoesNotFit

definition device_prefix :: string where "device_prefix = ''oxi-''"
definition device_name_max :: nat where "device_name_max = 15"

definition device_byte :: "char \<Rightarrow> bool" where
  "device_byte c = (is_ascii_alphanumeric c \<or> c = CHR ''.'' \<or> c = CHR ''_'' \<or> c = CHR ''-'')"

definition validate_device_name :: "string \<Rightarrow> device_error + unit" where
  "validate_device_name name =
     ensure (1 \<le> length name \<and> length name \<le> device_name_max) DeviceLength
       (ensure (\<not> (name = ''.'' \<or> name = ''..'' \<or> \<not> list_all device_byte name)) DeviceCharacters
         (Inr ()))"

definition device_name :: "string \<Rightarrow> device_error + string" where
  "device_name profile =
     (let name = device_prefix @ profile
      in case validate_device_name name of
           Inl _ \<Rightarrow> Inl ProfileDoesNotFit
         | Inr _ \<Rightarrow> Inr name)"

lemma device_name_ok_iff:
  "is_ok (device_name profile) \<longleftrightarrow> length profile \<le> 11 \<and> list_all device_byte profile"
proof -
  have "list_all device_byte device_prefix"
    by (simp add: device_prefix_def device_byte_def ascii_defs)
  moreover have "device_prefix @ profile \<noteq> ''.''" "device_prefix @ profile \<noteq> ''..''"
    by (simp_all add: device_prefix_def)
  moreover have "length (device_prefix @ profile) = 4 + length profile" by (simp add: device_prefix_def)
  ultimately show ?thesis
    by (auto simp: device_name_def Let_def validate_device_name_def ensure_def device_name_max_def
        simp del: length_append split: sum.splits)
qed

section \<open>What a slot looks like\<close>

lemma profile_slot_class:
  assumes "a \<in> profile_slot ` {..<profile_address_count}"
  shows "is_loopback a \<and> a \<noteq> localhost"
proof -
  from assms obtain i where i: "i < profile_address_count" "a = profile_slot i" by auto
  have b: "1 + i div 256 < 256" using i(1) by (simp add: profile_address_count_def)
  have "(of_nat (1 + i div 256) :: u8) \<noteq> of_nat 0"
    using of_nat_u8_inj [OF b, of 0] by simp
  then have "oct2 a \<noteq> 0" by (simp add: i(2) profile_slot_def second_octet_count_def)
  then show ?thesis by (auto simp: i(2) profile_slot_def is_loopback_def localhost_def)
qed

lemma device_slot_class:
  assumes "a \<in> device_slot ` {..<device_address_count}"
  shows "oct1 a = 198 \<and> oct2 a = 18 \<and> oct4 a \<noteq> 0 \<and> oct4 a \<noteq> 255"
proof -
  from assms obtain i where i: "a = device_slot i" by auto
  have b: "1 + i mod 254 < 255" using mod_less_divisor [of 254 i] by simp
  then have "unat (of_nat (1 + i mod 254) :: u8) = 1 + i mod 254"
    by (intro unat_of_nat_u8) linarith
  then have "unat (oct4 a) = 1 + i mod 254" by (simp add: i device_slot_def device_last_octet_count_def)
  with b have "unat (oct4 a) \<noteq> unat (0 :: u8)" "unat (oct4 a) \<noteq> unat (255 :: u8)" by simp_all
  then show ?thesis by (auto simp: i device_slot_def)
qed

lemma mark_slot_class:
  assumes "m \<in> mark_slot ` {..<mark_count}"
  shows "0x6f01 \<le> unat m \<and> unat m \<le> 0x6fff"
proof -
  from assms obtain i where i: "i < 255" "m = mark_slot i" by (auto simp: mark_count_255)
  have "mark_slot i = of_nat (0x6f01 + i)" by (simp add: mark_slot_def routing_mark_first_def)
  moreover have "unat (of_nat (0x6f01 + i) :: u32) = 0x6f01 + i"
    by (rule unat_of_nat_u32) (use i in simp)
  ultimately have "unat (mark_slot i) = 0x6f01 + i" by (simp only:)
  then show ?thesis using i by simp
qed

section \<open>Properties\<close>

text \<open>every profile but the default one gets a loopback address that no running session uses and
that is never the default profile's 127.0.0.1, and it gets one whenever fewer than 65024 are
in use.\<close>

theorem address_for_fresh:
  assumes "profile \<noteq> default_profile"
  shows "(\<forall>a. address_for profile taken = Some a \<longrightarrow> a \<notin> set taken \<and> is_loopback a \<and> a \<noteq> localhost)
    \<and> (length taken < profile_address_count \<longrightarrow> (\<exists>a. address_for profile taken = Some a))"
  using assms loopback.search_sound [of "profile_start profile" taken] profile_slot_class
    loopback.search_total [of taken "profile_start profile"]
  by (auto simp: address_for_def)

text \<open>a profile's loopback address is stable: other sessions coming and going do not move it
unless one of them holds that very address, and the default profile is always at 127.0.0.1.\<close>

theorem address_for_stable:
  assumes "address_for profile taken = Some a" and "set taken \<subseteq> set taken'" and "a \<notin> set taken'"
  shows "address_for profile taken' = Some a \<and> (profile = default_profile \<longrightarrow> a = localhost)"
  using assms loopback.search_stable [of "profile_start profile" taken a taken']
  by (auto simp: address_for_def split: if_splits)

text \<open>routing marks: the profiles share the 256 numbers 0x6f00 to 0x6fff, the default profile has
the first one for itself, every other profile gets an unused mark of the rest while one is left, and
the allocation fails exactly when all 255 are in use.\<close>

theorem routing_mark_private:
  assumes "profile \<noteq> default_profile"
  shows "(\<forall>m. routing_mark profile taken = Some m \<longrightarrow>
            m \<notin> set taken \<and> unat routing_mark_default < unat m \<and> unat m \<le> 0x6fff)
    \<and> (routing_mark profile taken = None \<longleftrightarrow> mark_slot ` {..<mark_count} \<subseteq> set taken)"
proof -
  let ?s = "unat (stable_hash profile) mod mark_count"
  have "m \<notin> set taken \<and> unat routing_mark_default < unat m \<and> unat m \<le> 0x6fff"
    if "first_free mark_count mark_slot ?s taken = Some m" for m
    using mark.search_sound [OF that] mark_slot_class [of m]
    by (simp add: routing_mark_default_def)
  with assms mark.search_None_iff [of ?s taken] show ?thesis
    by (simp add: routing_mark_def)
qed

text \<open>the device address of a profile lies in 198.18.0.0/16, never ends in 0 or 255 and is unused,
but it is not kept apart from the default profile's fixed one: the profile \<open>zm\<close> is given
198.18.0.1, which \<open>default\<close> takes as well without looking at what is in use.\<close>

theorem device_address_for_collides:
  shows "(profile \<noteq> default_profile \<longrightarrow> device_address_for profile taken = Some a \<longrightarrow>
           a \<notin> set taken \<and> oct1 a = 198 \<and> oct2 a = 18 \<and> oct4 a \<noteq> 0 \<and> oct4 a \<noteq> 255)
    \<and> device_address_for ''zm'' [] = device_address_for default_profile [Ipv4 198 18 0 1]"
proof
  show "profile \<noteq> default_profile \<longrightarrow> device_address_for profile taken = Some a \<longrightarrow>
      a \<notin> set taken \<and> oct1 a = 198 \<and> oct2 a = 18 \<and> oct4 a \<noteq> 0 \<and> oct4 a \<noteq> 255"
    using device.search_sound [of "unat (stable_hash profile) mod device_address_count" taken a]
      device_slot_class [of a]
    by (auto simp: device_address_for_def)
  have h: "unat (stable_hash ''zm'') mod device_address_count = 0"
    by (simp add: stable_hash_def fnv_step_def device_address_count_def)
  have "device_slot 0 = Ipv4 198 18 0 1" by (simp add: device_slot_def)
  then have "device_address_for ''zm'' [] = Some (Ipv4 198 18 0 1)"
    using device.search_home [of 0 "[]"] by (simp add: device_address_for_def default_profile_def h)
  then show "device_address_for ''zm'' [] = device_address_for default_profile [Ipv4 198 18 0 1]"
    by (simp add: device_address_for_def)
qed

text \<open>a device name that is derived or accepted fits Linux: 1 to 15 bytes of the allowed ASCII
characters; deriving succeeds exactly for profile names of at most 11 such bytes and never
truncates, so different profiles have different devices.\<close>

theorem device_name_faithful:
  shows "(is_ok (device_name profile) \<longleftrightarrow> length profile \<le> 11 \<and> list_all device_byte profile)
    \<and> (device_name profile = Inr name \<longrightarrow>
         validate_device_name name = Inr () \<and> name = device_prefix @ profile)
    \<and> (device_name profile = Inr name \<and> device_name other = Inr name \<longrightarrow> profile = other)"
  using device_name_ok_iff [of profile]
  by (auto simp: device_name_def Let_def split: sum.splits)

section \<open>Witnesses\<close>

lemma work_home: "address_for ''work'' [] = Some (profile_slot (profile_start ''work'' mod profile_address_count))"
  using loopback.search_home [of "profile_start ''work''" "[]"]
  by (simp add: address_for_def default_profile_def)

theorem address_for_fresh_witness:
  "\<exists>a. address_for ''work'' [] = Some a \<and> is_loopback a \<and> a \<noteq> localhost"
  using address_for_fresh [of "''work''" "[]"]
  by (auto simp: default_profile_def profile_address_count_def)

theorem address_for_stable_witness:
  "address_for ''work'' [localhost] = address_for ''work'' []"
proof -
  let ?a = "profile_slot (profile_start ''work'' mod profile_address_count)"
  have "?a \<noteq> localhost" using profile_slot_class [of ?a] by (simp add: profile_address_count_def)
  then show ?thesis
    using address_for_stable [OF work_home, of "[localhost]"] work_home by simp
qed

theorem routing_mark_private_witness:
  "\<exists>m. routing_mark ''work'' [0x6f02] = Some m \<and> m \<noteq> 0x6f02 \<and> m \<noteq> routing_mark_default"
proof -
  have d: "''work'' \<noteq> default_profile" by (simp add: default_profile_def)
  obtain m where m: "routing_mark ''work'' [0x6f02] = Some m"
    using mark.search_total [of "[0x6f02]" "unat (stable_hash ''work'') mod mark_count"] d
    by (auto simp: routing_mark_def mark_count_255)
  with routing_mark_private [OF d, of "[0x6f02]"] show ?thesis by auto
qed

theorem device_address_for_collides_witness:
  "device_address_for ''zm'' [] = device_address_for default_profile [Ipv4 198 18 0 1]"
  using device_address_for_collides by blast

theorem device_name_faithful_witness:
  "device_name ''work'' = Inr ''oxi-work'' \<and> validate_device_name ''oxi-work'' = Inr ()"
proof -
  have "is_ok (device_name ''work'')"
    using device_name_faithful [of "''work''"] by (simp add: device_byte_def ascii_defs)
  then obtain name where n: "device_name ''work'' = Inr name" by (auto simp: is_ok_iff)
  then have "validate_device_name name = Inr () \<and> name = ''oxi-work''"
    using device_name_faithful [where profile = "''work''" and name = name and other = "''work''"]
    unfolding device_prefix_def append.simps by blast
  with n show ?thesis by metis
qed

end
