(* ===== verification/Route_Plan.thy ===== *)
theory Route_Plan
  imports Net
begin

text \<open>
  Route planning: \<open>crates/oxidom-core/src/tun/plan.rs\<close> (\<open>plan_routes\<close> and
  \<open>plan_failover_routes\<close>; \<open>Cidr\<close> itself is in \<open>Net\<close>).

  What the kernel does with the planned routes is the abstract specification: the longest
  matching prefix decides where a packet goes. Over it the lemmas state what the plans promise:
  in default mode everything but the servers goes into the tunnel, marked applications never get
  a way around it, and a failover capture list never swallows a candidate's own address.
\<close>

section \<open>Plans\<close>

datatype route_mode = Manual | ListMode | DefaultMode

datatype via = Device | Interface u32 | Gateway ipv4

record route_spec =
  r_destination :: cidr
  r_via :: via
  r_table :: u32

record rule_spec =
  rule_mark :: u32
  rule_table :: u32
  rule_priority :: u32

record connected_route =
  cr_destination :: cidr
  cr_interface :: u32

record plan_input =
  in_table :: u32
  in_mark :: u32
  in_mode :: route_mode
  in_list :: "cidr list"
  in_servers :: "ipv4 list"
  in_gateway :: "ipv4 option"
  in_connected :: "connected_route list"

record route_plan =
  plan_private :: "route_spec list"
  plan_system :: "route_spec list"
  plan_rule :: rule_spec

datatype plan_error = EmptyList | NoServerAddress | NoGateway | NoListGateway | CaptureConflict

definition mk_cidr :: "ipv4 \<Rightarrow> nat \<Rightarrow> cidr" where
  "mk_cidr a n = \<lparr>c_address = a, c_prefix = n\<rparr>"

definition plan_routes :: "plan_input \<Rightarrow> plan_error + route_plan" where
  "plan_routes input =
     (let private =
            map (\<lambda>route. \<lparr>r_destination = cr_destination route, r_via = Interface (cr_interface route),
                          r_table = in_table input\<rparr>) (in_connected input)
            @ [\<lparr>r_destination = mk_cidr unspecified 0, r_via = Device, r_table = in_table input\<rparr>];
          rule = \<lparr>rule_mark = in_mark input, rule_table = in_table input, rule_priority = in_mark input\<rparr>
      in and_then
           (case in_mode input of
              Manual \<Rightarrow> Inr []
            | ListMode \<Rightarrow>
                ensure (in_list input \<noteq> []) EmptyList
                  (Inr (map (\<lambda>d. \<lparr>r_destination = d, r_via = Device, r_table = 254\<rparr>) (in_list input)))
            | DefaultMode \<Rightarrow>
                ensure (in_servers input \<noteq> []) NoServerAddress
                  (or_bail (in_gateway input) NoGateway (\<lambda>gateway.
                    Inr (map (\<lambda>server. \<lparr>r_destination = mk_cidr server 32, r_via = Gateway gateway,
                                         r_table = 254\<rparr>) (in_servers input)
                         @ [\<lparr>r_destination = mk_cidr unspecified 1, r_via = Device, r_table = 254\<rparr>,
                            \<lparr>r_destination = mk_cidr (Ipv4 128 0 0 0) 1, r_via = Device, r_table = 254\<rparr>]))))
           (\<lambda>system. Inr \<lparr>plan_private = private, plan_system = system, plan_rule = rule\<rparr>))"

text \<open>The loop over the candidate addresses: a conflict with a captured host stops it.\<close>

fun bypass_loop :: "cidr list \<Rightarrow> ipv4 \<Rightarrow> route_spec list \<Rightarrow> ipv4 list \<Rightarrow> plan_error + route_spec list" where
  "bypass_loop captured gateway bypasses [] = Inr bypasses"
| "bypass_loop captured gateway bypasses (address # addresses) =
     ensure (\<not> list_ex (\<lambda>route. c_prefix route = 32 \<and> c_address route = address) captured) CaptureConflict
       (let bypass = \<lparr>r_destination = mk_cidr address 32, r_via = Gateway gateway, r_table = 254\<rparr>
        in bypass_loop captured gateway
             (if bypass \<notin> set bypasses then bypasses @ [bypass] else bypasses) addresses)"

definition plan_failover_routes :: "plan_input \<Rightarrow> plan_error + route_plan" where
  "plan_failover_routes input =
     and_then (plan_routes input) (\<lambda>plan.
       if in_mode input = ListMode
       then or_bail (in_gateway input) NoListGateway (\<lambda>gateway.
              and_then (bypass_loop (in_list input) gateway [] (in_servers input)) (\<lambda>bypasses.
                Inr (plan\<lparr>plan_system := bypasses @ plan_system plan\<rparr>)))
       else Inr plan)"

section \<open>What the kernel does with a table\<close>

definition ipv4_value :: "ipv4 \<Rightarrow> nat" where
  "ipv4_value a =
     ((unat (oct1 a) * 256 + unat (oct2 a)) * 256 + unat (oct3 a)) * 256 + unat (oct4 a)"

definition covers :: "cidr \<Rightarrow> ipv4 \<Rightarrow> bool" where
  "covers c a =
     (ipv4_value (c_address c) div 2 ^ (32 - c_prefix c) = ipv4_value a div 2 ^ (32 - c_prefix c))"

text \<open>The longest matching prefix wins; among equal ones the first.\<close>

fun longest :: "route_spec list \<Rightarrow> ipv4 \<Rightarrow> route_spec option" where
  "longest [] a = None"
| "longest (r # rs) a =
     (if \<not> covers (r_destination r) a then longest rs a
      else case longest rs a of
        Some b \<Rightarrow> if c_prefix (r_destination r) < c_prefix (r_destination b) then Some b else Some r
      | None \<Rightarrow> Some r)"

definition route_lookup :: "route_spec list \<Rightarrow> ipv4 \<Rightarrow> via option" where
  "route_lookup routes a = map_option r_via (longest routes a)"

lemma ipv4_value_bound: "ipv4_value a < 2 ^ 32"
proof -
  note b = unat_u8_bound [of "oct1 a"] unat_u8_bound [of "oct2 a"]
    unat_u8_bound [of "oct3 a"] unat_u8_bound [of "oct4 a"]
  then show ?thesis by (simp add: ipv4_value_def)
qed

lemma base_256_digit:
  fixes x y d e :: nat
  assumes "x * 256 + d = y * 256 + e" and "d \<le> 255" and "e \<le> 255"
  shows "x = y \<and> d = e"
proof -
  have d: "d = e"
    using arg_cong [OF assms(1), of "\<lambda>n. n mod 256"] assms(2,3) by simp
  with assms(1) show ?thesis by simp
qed

lemma ipv4_value_inj: "ipv4_value a = ipv4_value b \<longleftrightarrow> a = b"
proof
  assume e: "ipv4_value a = ipv4_value b"
  have step: "x = x' \<and> unat d = unat d'"
    if "x * 256 + unat d = x' * 256 + unat d'" for x x' and d d' :: u8
    using base_256_digit [OF that unat_u8_bound unat_u8_bound] .
  note s1 = step [OF e [unfolded ipv4_value_def]]
  note s2 = step [OF s1 [THEN conjunct1]]
  note s3 = step [OF s2 [THEN conjunct1]]
  from s1 s2 s3 show "a = b" by (cases a; cases b) (auto dest: unsigned_word_eqI)
qed simp

lemma covers_host: "c_prefix c = 32 \<Longrightarrow> covers c a \<longleftrightarrow> c_address c = a"
  by (simp add: covers_def ipv4_value_inj)

lemma mk_cidr_host: "(\<exists>c\<in>A. c_prefix c = 32 \<and> c_address c = a) \<longleftrightarrow> mk_cidr a 32 \<in> A"
proof
  assume "\<exists>c\<in>A. c_prefix c = 32 \<and> c_address c = a"
  then obtain c where "c \<in> A" "c_prefix c = 32" "c_address c = a" by blast
  moreover from this have "c = mk_cidr a 32" by (simp add: mk_cidr_def)
  ultimately show "mk_cidr a 32 \<in> A" by simp
qed (auto simp: mk_cidr_def intro!: bexI [of _ "mk_cidr a 32"])

lemma covers_all: "c_prefix c = 0 \<Longrightarrow> covers c a"
  using ipv4_value_bound [of a] ipv4_value_bound [of "c_address c"] by (simp add: covers_def)

lemma covers_halves: "covers (mk_cidr unspecified 1) a \<or> covers (mk_cidr (Ipv4 128 0 0 0) 1) a"
proof -
  have "ipv4_value a div 2147483648 = 0 \<or> ipv4_value a div 2147483648 = 1"
    using ipv4_value_bound [of a] by (simp, linarith)
  then show ?thesis by (auto simp: covers_def mk_cidr_def unspecified_def ipv4_value_def)
qed

lemma longest_None_iff: "longest rs a = None \<longleftrightarrow> (\<forall>r\<in>set rs. \<not> covers (r_destination r) a)"
  by (induction rs) (auto split: option.splits if_splits)

lemma longest_SomeD:
  "longest rs a = Some b \<Longrightarrow>
   b \<in> set rs \<and> covers (r_destination b) a
   \<and> (\<forall>r\<in>set rs. covers (r_destination r) a \<longrightarrow> c_prefix (r_destination r) \<le> c_prefix (r_destination b))"
proof (induction rs arbitrary: b)
  case (Cons r rs)
  show ?case
  proof (cases "longest rs a")
    case None
    moreover from this have "\<forall>r\<in>set rs. \<not> covers (r_destination r) a" by (simp add: longest_None_iff)
    ultimately show ?thesis using Cons.prems by (auto split: if_splits)
  next
    case (Some c)
    from Cons.IH [OF Some] Cons.prems Some show ?thesis by (auto split: if_splits)
  qed
qed simp

text \<open>Where all winning candidates agree, the lookup is that one.\<close>

lemma route_lookup_eq:
  assumes "w \<in> set rs" and "covers (r_destination w) a" and "r_via w = v"
    and "\<And>r. r \<in> set rs \<Longrightarrow> covers (r_destination r) a \<Longrightarrow>
           c_prefix (r_destination w) \<le> c_prefix (r_destination r) \<Longrightarrow> r_via r = v"
  shows "route_lookup rs a = Some v"
proof -
  from assms(1,2) obtain b where b: "longest rs a = Some b"
    using longest_None_iff [of rs a] by (cases "longest rs a") auto
  from longest_SomeD [OF b] assms have "r_via b = v" by blast
  with b show ?thesis by (simp add: route_lookup_def)
qed

lemma route_lookup_None: "\<forall>r\<in>set rs. \<not> covers (r_destination r) a \<Longrightarrow> route_lookup rs a = None"
  using longest_None_iff [of rs a] by (simp add: route_lookup_def)

section \<open>The planners\<close>

lemma plan_routes_private:
  "plan_routes input = Inr plan \<Longrightarrow>
   plan_private plan =
     map (\<lambda>route. \<lparr>r_destination = cr_destination route, r_via = Interface (cr_interface route),
                   r_table = in_table input\<rparr>) (in_connected input)
     @ [\<lparr>r_destination = mk_cidr unspecified 0, r_via = Device, r_table = in_table input\<rparr>]
   \<and> plan_rule plan = \<lparr>rule_mark = in_mark input, rule_table = in_table input, rule_priority = in_mark input\<rparr>"
  by (auto simp: plan_routes_def Let_def and_then_Inr_iff)

lemma plan_routes_default:
  assumes "in_mode input = DefaultMode"
  shows "plan_routes input = Inr plan \<longleftrightarrow>
    in_servers input \<noteq> [] \<and> (\<exists>gateway. in_gateway input = Some gateway
      \<and> plan_system plan =
          map (\<lambda>server. \<lparr>r_destination = mk_cidr server 32, r_via = Gateway gateway, r_table = 254\<rparr>)
            (in_servers input)
          @ [\<lparr>r_destination = mk_cidr unspecified 1, r_via = Device, r_table = 254\<rparr>,
             \<lparr>r_destination = mk_cidr (Ipv4 128 0 0 0) 1, r_via = Device, r_table = 254\<rparr>]
      \<and> plan = \<lparr>plan_private = plan_private plan, plan_system = plan_system plan, plan_rule = plan_rule plan\<rparr>
      \<and> plan_private plan =
          map (\<lambda>route. \<lparr>r_destination = cr_destination route, r_via = Interface (cr_interface route),
                        r_table = in_table input\<rparr>) (in_connected input)
          @ [\<lparr>r_destination = mk_cidr unspecified 0, r_via = Device, r_table = in_table input\<rparr>]
      \<and> plan_rule plan = \<lparr>rule_mark = in_mark input, rule_table = in_table input,
                            rule_priority = in_mark input\<rparr>)"
  using assms by (cases plan) (auto simp: plan_routes_def Let_def and_then_Inr_iff or_bail_Inr_iff)

lemma plan_routes_list:
  assumes "in_mode input = ListMode" and "plan_routes input = Inr plan"
  shows "in_list input \<noteq> []
    \<and> plan_system plan = map (\<lambda>d. \<lparr>r_destination = d, r_via = Device, r_table = 254\<rparr>) (in_list input)"
  using assms by (auto simp: plan_routes_def Let_def and_then_Inr_iff)

lemma bypass_loop_spec:
  "bypass_loop captured gateway bypasses addresses = Inr out \<Longrightarrow>
   set out = set bypasses \<union>
     (\<lambda>a. \<lparr>r_destination = mk_cidr a 32, r_via = Gateway gateway, r_table = 254\<rparr>) ` set addresses
   \<and> (distinct bypasses \<longrightarrow> distinct out)
   \<and> (\<forall>a\<in>set addresses. \<forall>c\<in>set captured. \<not> (c_prefix c = 32 \<and> c_address c = a))"
proof (induction addresses arbitrary: bypasses)
  case (Cons a addresses)
  let ?b = "\<lparr>r_destination = mk_cidr a 32, r_via = Gateway gateway, r_table = 254 :: u32\<rparr>"
  from Cons.prems have ok: "\<forall>c\<in>set captured. \<not> (c_prefix c = 32 \<and> c_address c = a)"
    and rest: "bypass_loop captured gateway (if ?b \<notin> set bypasses then bypasses @ [?b] else bypasses) addresses = Inr out"
    by (auto simp: Let_def list_ex_iff)
  from Cons.IH [OF rest] ok show ?case by (auto split: if_splits)
qed simp

lemma bypass_loop_ok_iff:
  "is_ok (bypass_loop captured gateway bypasses addresses) \<longleftrightarrow>
   (\<forall>a\<in>set addresses. \<forall>c\<in>set captured. \<not> (c_prefix c = 32 \<and> c_address c = a))"
  by (induction addresses arbitrary: bypasses) (auto simp: Let_def list_ex_iff)

lemma plan_failover_list:
  assumes m: "in_mode input = ListMode" and p: "plan_failover_routes input = Inr plan"
  obtains gateway bypasses where "in_gateway input = Some gateway"
    and "bypass_loop (in_list input) gateway [] (in_servers input) = Inr bypasses"
    and "plan_system plan =
      bypasses @ map (\<lambda>d. \<lparr>r_destination = d, r_via = Device, r_table = 254\<rparr>) (in_list input)"
proof -
  from p obtain base where base: "plan_routes input = Inr base"
    by (auto simp: plan_failover_routes_def and_then_Inr_iff)
  from p m base obtain gateway bypasses where g: "in_gateway input = Some gateway"
    and b: "bypass_loop (in_list input) gateway [] (in_servers input) = Inr bypasses"
    and plan: "plan = base\<lparr>plan_system := bypasses @ plan_system base\<rparr>"
    by (auto simp: plan_failover_routes_def and_then_Inr_iff or_bail_Inr_iff)
  from plan_routes_list [OF m base] plan show ?thesis
    by (intro that [OF g b]) simp
qed

lemma plan_failover_private:
  "plan_failover_routes input = Inr plan \<Longrightarrow>
   \<exists>base. plan_routes input = Inr base \<and> plan_private plan = plan_private base
     \<and> plan_rule plan = plan_rule base"
  by (auto simp: plan_failover_routes_def and_then_Inr_iff or_bail_Inr_iff split: if_splits)

section \<open>Properties\<close>

text \<open>C29: default mode leaks nothing: put the planned routes into a main table whose own route for an
address is at most the host's default route (prefix 0) and every destination goes into the tunnel
device, the servers' own addresses alone go to the gateway. This is so wherever the planned routes
stand in the table.\<close>

theorem default_mode_no_leak:
  assumes plan: "plan_routes input = Inr plan" and mode: "in_mode input = DefaultMode"
    and host: "\<forall>r\<in>set (before @ after). covers (r_destination r) a \<longrightarrow> c_prefix (r_destination r) = 0"
  shows "route_lookup (before @ plan_system plan @ after) a =
    Some (if a \<in> set (in_servers input) then Gateway (the (in_gateway input)) else Device)"
proof -
  from plan mode obtain gateway where g: "in_gateway input = Some gateway"
    and sys: "plan_system plan =
      map (\<lambda>server. \<lparr>r_destination = mk_cidr server 32, r_via = Gateway gateway, r_table = 254\<rparr>)
        (in_servers input)
      @ [\<lparr>r_destination = mk_cidr unspecified 1, r_via = Device, r_table = 254\<rparr>,
         \<lparr>r_destination = mk_cidr (Ipv4 128 0 0 0) 1, r_via = Device, r_table = 254\<rparr>]"
    by (auto simp: plan_routes_default)
  show ?thesis
  proof (cases "a \<in> set (in_servers input)")
    case True
    let ?w = "\<lparr>r_destination = mk_cidr a 32, r_via = Gateway gateway, r_table = 254 :: u32\<rparr>"
    have "route_lookup (before @ plan_system plan @ after) a = Some (Gateway gateway)"
      by (rule route_lookup_eq [of ?w])
         (use True host in \<open>auto simp: sys mk_cidr_def covers_host\<close>)
    with True g show ?thesis by simp
  next
    case False
    obtain half where half: "half \<in> {unspecified, Ipv4 128 0 0 0}" "covers (mk_cidr half 1) a"
      using covers_halves [of a] by blast
    define w where "w = \<lparr>r_destination = mk_cidr half 1, r_via = Device, r_table = 254 :: u32\<rparr>"
    with half have w: "w \<in> set (plan_system plan)"
      "covers (r_destination w) a" "r_via w = Device" "c_prefix (r_destination w) = 1"
      by (auto simp: sys mk_cidr_def)
    have "route_lookup (before @ plan_system plan @ after) a = Some Device"
    proof (rule route_lookup_eq [of w])
      fix r assume r: "r \<in> set (before @ plan_system plan @ after)" "covers (r_destination r) a"
        "c_prefix (r_destination w) \<le> c_prefix (r_destination r)"
      then have "r \<notin> set (before @ after)" using host w(4) by fastforce
      with r(1) have "r \<in> set (plan_system plan)" by auto
      with False r(2) show "r_via r = Device" by (auto simp: sys mk_cidr_def covers_host)
    qed (use w in auto)
    with False show ?thesis by simp
  qed
qed

text \<open>C30: a marked application has no way around the tunnel: in every mode, with and without failover,
the private table holds only the connected networks of the host and a default route into the device,
no route through a gateway; it is selected by the profile's mark, and every address that is not on
a connected network goes into the device.\<close>

theorem private_table_no_bypass:
  assumes "plan_routes input = Inr plan \<or> plan_failover_routes input = Inr plan"
  shows "(\<forall>r\<in>set (plan_private plan). r_table r = in_table input \<and> (\<forall>g. r_via r \<noteq> Gateway g))
    \<and> plan_rule plan = \<lparr>rule_mark = in_mark input, rule_table = in_table input,
                          rule_priority = in_mark input\<rparr>
    \<and> ((\<forall>c\<in>set (in_connected input). \<not> covers (cr_destination c) a) \<longrightarrow>
         route_lookup (plan_private plan) a = Some Device)"
proof -
  from assms obtain base where "plan_routes input = Inr base"
    "plan_private plan = plan_private base" "plan_rule plan = plan_rule base"
    using plan_failover_private by blast
  with plan_routes_private have priv: "plan_private plan =
      map (\<lambda>route. \<lparr>r_destination = cr_destination route, r_via = Interface (cr_interface route),
                    r_table = in_table input\<rparr>) (in_connected input)
      @ [\<lparr>r_destination = mk_cidr unspecified 0, r_via = Device, r_table = in_table input\<rparr>]"
    and rule: "plan_rule plan = \<lparr>rule_mark = in_mark input, rule_table = in_table input,
                                  rule_priority = in_mark input\<rparr>"
    by auto
  have "route_lookup (plan_private plan) a = Some Device"
    if "\<forall>c\<in>set (in_connected input). \<not> covers (cr_destination c) a"
    by (rule route_lookup_eq [of "\<lparr>r_destination = mk_cidr unspecified 0, r_via = Device,
          r_table = in_table input\<rparr>"])
       (use that in \<open>auto simp: priv mk_cidr_def covers_all\<close>)
  with priv rule show ?thesis by auto
qed

text \<open>with failover, a capture list never swallows a candidate: every candidate address goes to the
gateway, every other address goes into the device exactly when the list covers it, no bypass is
listed twice, and planning is refused exactly when the list is empty, there is no gateway or a
captured host is itself a candidate.\<close>

theorem failover_list_bypasses:
  assumes mode: "in_mode input = ListMode"
    and wf: "\<forall>c\<in>set (in_list input). c_prefix c \<le> 32"
  shows "(\<forall>plan. plan_failover_routes input = Inr plan \<longrightarrow>
            route_lookup (plan_system plan) a =
              (if a \<in> set (in_servers input) then Some (Gateway (the (in_gateway input)))
               else if \<exists>c\<in>set (in_list input). covers c a then Some Device else None))
    \<and> (is_ok (plan_failover_routes input) \<longleftrightarrow>
         in_list input \<noteq> [] \<and> in_gateway input \<noteq> None
         \<and> (\<forall>s\<in>set (in_servers input). mk_cidr s 32 \<notin> set (in_list input)))"
proof (intro conjI allI impI)
  fix plan assume p: "plan_failover_routes input = Inr plan"
  obtain gateway bypasses where g: "in_gateway input = Some gateway"
    and b: "bypass_loop (in_list input) gateway [] (in_servers input) = Inr bypasses"
    and sys: "plan_system plan =
      bypasses @ map (\<lambda>d. \<lparr>r_destination = d, r_via = Device, r_table = 254\<rparr>) (in_list input)"
    by (rule plan_failover_list [OF mode p])
  note spec = bypass_loop_spec [OF b]
  show "route_lookup (plan_system plan) a =
      (if a \<in> set (in_servers input) then Some (Gateway (the (in_gateway input)))
       else if \<exists>c\<in>set (in_list input). covers c a then Some Device else None)"
  proof (cases "a \<in> set (in_servers input)")
    case True
    let ?w = "\<lparr>r_destination = mk_cidr a 32, r_via = Gateway gateway, r_table = 254 :: u32\<rparr>"
    have full: "c_prefix c \<noteq> 32 \<or> c_address c \<noteq> a" if "c \<in> set (in_list input)" for c
      using spec True that by blast
    have "route_lookup (plan_system plan) a = Some (Gateway gateway)"
    proof (rule route_lookup_eq [of ?w])
      fix r assume r: "r \<in> set (plan_system plan)" "covers (r_destination r) a"
        "c_prefix (r_destination ?w) \<le> c_prefix (r_destination r)"
      from r(1) consider "r \<in> set bypasses" | c where "c \<in> set (in_list input)" "r_destination r = c"
        by (auto simp: sys)
      then show "r_via r = Gateway gateway"
      proof cases
        case 1 then show ?thesis using spec by auto
      next
        case 2
        then have "c_prefix c = 32" using wf r(3) by (force simp: mk_cidr_def)
        with 2 r(2) full [of c] show ?thesis by (simp add: covers_host)
      qed
    qed (use True spec in \<open>auto simp: sys mk_cidr_def covers_host\<close>)
    with True g show ?thesis by simp
  next
    case False
    have bno: "\<not> covers (r_destination r) a" if "r \<in> set bypasses" for r
      using spec that False by (auto simp: mk_cidr_def covers_host)
    show ?thesis
    proof (cases "\<exists>c\<in>set (in_list input). covers c a")
      case True
      then obtain c where c: "c \<in> set (in_list input)" "covers c a" by blast
      have "route_lookup (plan_system plan) a = Some Device"
        by (rule route_lookup_eq [of "\<lparr>r_destination = c, r_via = Device, r_table = 254\<rparr>"])
           (use c bno in \<open>auto simp: sys\<close>)
      with True False show ?thesis by simp
    next
      case none: False
      then have "route_lookup (plan_system plan) a = None"
        by (intro route_lookup_None) (use bno in \<open>auto simp: sys\<close>)
      with none False show ?thesis by simp
    qed
  qed
next
  have "is_ok (plan_failover_routes input) \<longleftrightarrow>
      in_list input \<noteq> [] \<and> (\<exists>g. in_gateway input = Some g
        \<and> is_ok (bypass_loop (in_list input) g [] (in_servers input)))"
    using mode
    by (cases "in_gateway input")
       (auto simp: plan_failover_routes_def plan_routes_def Let_def ensure_def is_ok_iff and_then_Inr_iff)
  also have "\<dots> \<longleftrightarrow> in_list input \<noteq> [] \<and> in_gateway input \<noteq> None
      \<and> (\<forall>s\<in>set (in_servers input). mk_cidr s 32 \<notin> set (in_list input))"
    unfolding bypass_loop_ok_iff mk_cidr_host [symmetric] by auto
  finally show "is_ok (plan_failover_routes input) \<longleftrightarrow>
         in_list input \<noteq> [] \<and> in_gateway input \<noteq> None
         \<and> (\<forall>s\<in>set (in_servers input). mk_cidr s 32 \<notin> set (in_list input))" .
qed

section \<open>Witnesses\<close>

definition sample_input :: "route_mode \<Rightarrow> plan_input" where
  "sample_input mode =
     \<lparr>in_table = 0x6f21, in_mark = 0x6f21, in_mode = mode,
      in_list = [mk_cidr (Ipv4 10 0 0 0) 8], in_servers = [Ipv4 203 0 113 7],
      in_gateway = Some (Ipv4 192 0 2 1),
      in_connected = [\<lparr>cr_destination = mk_cidr (Ipv4 192 0 2 0) 24, cr_interface = 7\<rparr>]\<rparr>"

theorem default_mode_no_leak_witness:
  "\<exists>plan. plan_routes (sample_input DefaultMode) = Inr plan
     \<and> route_lookup (plan_system plan
         @ [\<lparr>r_destination = mk_cidr unspecified 0, r_via = Gateway (Ipv4 192 0 2 1), r_table = 254\<rparr>])
         (Ipv4 8 8 8 8) = Some Device"
proof -
  obtain plan where p: "plan_routes (sample_input DefaultMode) = Inr plan"
    by (simp add: plan_routes_def sample_input_def)
  from default_mode_no_leak [OF p, of "[]"
      "[\<lparr>r_destination = mk_cidr unspecified 0, r_via = Gateway (Ipv4 192 0 2 1), r_table = 254\<rparr>]"
      "Ipv4 8 8 8 8"] p
  show ?thesis by (auto simp: sample_input_def mk_cidr_def)
qed

theorem private_table_no_bypass_witness:
  "\<exists>plan. plan_routes (sample_input ListMode) = Inr plan
     \<and> route_lookup (plan_private plan) (Ipv4 8 8 8 8) = Some Device"
proof -
  obtain plan where p: "plan_routes (sample_input ListMode) = Inr plan"
    by (simp add: plan_routes_def sample_input_def)
  have "\<not> covers (mk_cidr (Ipv4 192 0 2 0) 24) (Ipv4 8 8 8 8)"
    by (simp add: covers_def mk_cidr_def ipv4_value_def)
  with private_table_no_bypass [of "sample_input ListMode" plan "Ipv4 8 8 8 8"] p
  show ?thesis by (auto simp: sample_input_def)
qed

theorem failover_list_bypasses_witness:
  "\<exists>plan. plan_failover_routes (sample_input ListMode) = Inr plan
     \<and> route_lookup (plan_system plan) (Ipv4 203 0 113 7) = Some (Gateway (Ipv4 192 0 2 1))"
proof -
  have "is_ok (plan_failover_routes (sample_input ListMode))"
    using failover_list_bypasses [of "sample_input ListMode" "Ipv4 203 0 113 7"]
    by (simp add: sample_input_def mk_cidr_def)
  then obtain plan where p: "plan_failover_routes (sample_input ListMode) = Inr plan"
    by (auto simp: is_ok_iff)
  with failover_list_bypasses [of "sample_input ListMode" "Ipv4 203 0 113 7"]
  show ?thesis by (auto simp: sample_input_def mk_cidr_def)
qed

end
