(* ===== verification/Failover.thy ===== *)
theory Failover
  imports Model
begin

text \<open>
  Sequential recovery: \<open>crates/oxidom-core/src/failover.rs\<close> (\<open>FailoverPolicy\<close>,
  \<open>FailoverPatch\<close>, \<open>Decision\<close> and the state machine \<open>Activation\<close>).

  An \<open>Instant\<close> is a natural number of nanoseconds. A panic is the outer \<open>None\<close>, an
  \<open>Err\<close> is \<open>Inl\<close>; every method checks before it writes, so an error leaves the
  activation as it was. The relation \<open>act_step\<close> is one successful call and \<open>history\<close>
  the sequences of calls on one activation. The invariant ties the fields to the history: the
  visited candidates are the failed one and those admitted since, attempts count the admissions.
\<close>

section \<open>Policy\<close>

datatype failover_error =
    MaxAttemptsRange | CooldownRange | MemberCount | MemberIds | MissingMember | CompositeMember
  | NotEnabled | PrimaryNotMember | ActDisarmed | EpisodeActive | NotCurrent | NotReady | NotInFlight

record policy =
  pol_enabled :: bool
  pol_members :: "string list"
  pol_max_attempts :: nat
  pol_cooldown_secs :: nat

definition policy_default :: policy where
  "policy_default =
     \<lparr>pol_enabled = False, pol_members = [], pol_max_attempts = 3, pol_cooldown_secs = 30\<rparr>"

text \<open>The loop over the members with the set of seen ids.\<close>

fun members_check :: "string list \<Rightarrow> string list \<Rightarrow> failover_error + unit" where
  "members_check seen [] = Inr ()"
| "members_check seen (i # is) =
     ensure (trim i \<noteq> [] \<and> i \<notin> set seen) MemberIds (members_check (i # seen) is)"

definition policy_validate :: "policy \<Rightarrow> failover_error + unit" where
  "policy_validate p =
     ensure (1 \<le> pol_max_attempts p \<and> pol_max_attempts p \<le> 64) MaxAttemptsRange
       (ensure (1 \<le> pol_cooldown_secs p \<and> pol_cooldown_secs p \<le> 3600) CooldownRange
         (if pol_enabled p
          then ensure (2 \<le> length (pol_members p) \<and> length (pol_members p) \<le> 64) MemberCount
                 (members_check [] (pol_members p))
          else Inr ()))"

text \<open>The catalog is collected into a map by id: the last server with an id counts.\<close>

definition policy_validate_candidates :: "policy \<Rightarrow> 'j server list \<Rightarrow> failover_error + unit" where
  "policy_validate_candidates p servers =
     and_then (policy_validate p) (\<lambda>_.
       if \<not> pol_enabled p then Inr ()
       else
         let catalog = map_of (rev (map (\<lambda>s. (srv_id s, s)) servers))
         in check_all (\<lambda>i. or_bail (catalog i) MissingMember (\<lambda>server.
              ensure (case srv_spec server of XrayProfile _ _ _ _ \<Rightarrow> False | _ \<Rightarrow> True)
                CompositeMember (Inr ()))) (pol_members p))"

record patch =
  pat_enabled :: "bool option"
  pat_members :: "string list option"
  pat_max_attempts :: "nat option"
  pat_cooldown_secs :: "nat option"

definition patch_is_empty :: "patch \<Rightarrow> bool" where
  "patch_is_empty q =
     (pat_enabled q = None \<and> pat_members q = None \<and> pat_max_attempts q = None
      \<and> pat_cooldown_secs q = None)"

definition patch_apply :: "patch \<Rightarrow> policy option \<Rightarrow> failover_error + policy option" where
  "patch_apply q current =
     (if patch_is_empty q then Inr current
      else
        let p0 = (case current of Some p \<Rightarrow> p | None \<Rightarrow> policy_default);
            p1 = (case pat_enabled q of Some e \<Rightarrow> p0\<lparr>pol_enabled := e\<rparr> | None \<Rightarrow> p0);
            p2 = (case pat_members q of Some m \<Rightarrow> p1\<lparr>pol_members := m\<rparr> | None \<Rightarrow> p1);
            p3 = (case pat_max_attempts q of Some n \<Rightarrow> p2\<lparr>pol_max_attempts := n\<rparr> | None \<Rightarrow> p2);
            p4 = (case pat_cooldown_secs q of Some c \<Rightarrow> p3\<lparr>pol_cooldown_secs := c\<rparr> | None \<Rightarrow> p3)
        in and_then (policy_validate p4) (\<lambda>_. Inr (Some p4)))"

lemma members_check_ok:
  "members_check seen is = Inr () \<longleftrightarrow>
   (\<forall>i\<in>set is. trim i \<noteq> []) \<and> distinct is \<and> set is \<inter> set seen = {}"
  by (induction "is" arbitrary: seen) auto

lemma policy_validate_ok:
  "policy_validate p = Inr () \<longleftrightarrow>
   1 \<le> pol_max_attempts p \<and> pol_max_attempts p \<le> 64
   \<and> 1 \<le> pol_cooldown_secs p \<and> pol_cooldown_secs p \<le> 3600
   \<and> (pol_enabled p \<longrightarrow> 2 \<le> length (pol_members p) \<and> length (pol_members p) \<le> 64
        \<and> (\<forall>i\<in>set (pol_members p). trim i \<noteq> []) \<and> distinct (pol_members p))"
  by (auto simp: policy_validate_def members_check_ok)

lemma patch_apply_shape:
  "patch_apply q current = Inr out \<Longrightarrow>
   (patch_is_empty q \<and> out = current) \<or> (\<not> patch_is_empty q \<and> (\<exists>p. out = Some p
     \<and> policy_validate p = Inr ()
     \<and> (let p0 = (case current of Some p \<Rightarrow> p | None \<Rightarrow> policy_default) in
        pol_enabled p = (case pat_enabled q of Some e \<Rightarrow> e | None \<Rightarrow> pol_enabled p0)
        \<and> pol_members p = (case pat_members q of Some m \<Rightarrow> m | None \<Rightarrow> pol_members p0)
        \<and> pol_max_attempts p = (case pat_max_attempts q of Some n \<Rightarrow> n | None \<Rightarrow> pol_max_attempts p0)
        \<and> pol_cooldown_secs p = (case pat_cooldown_secs q of Some c \<Rightarrow> c | None \<Rightarrow> pol_cooldown_secs p0))))"
  by (auto simp: patch_apply_def Let_def and_then_Inr_iff split: if_splits option.splits)

section \<open>Activation\<close>

datatype decision = Idle | Wait nat | Attempt string | InFlight | Exhausted | Disarmed

record activation =
  act_policy :: policy
  act_current :: nat
  act_visited :: "bool list"
  act_attempts :: nat
  act_episode :: bool
  act_in_flight :: bool
  act_armed :: bool
  act_cooldown_until :: "nat option"

definition secs :: "nat \<Rightarrow> nat" where
  "secs n = n * 1000000000"

definition activation_new :: "policy \<Rightarrow> string \<Rightarrow> failover_error + activation" where
  "activation_new p initial_id =
     and_then (policy_validate p) (\<lambda>_.
       ensure (pol_enabled p) NotEnabled
         (or_bail (position (\<lambda>i. i = initial_id) (pol_members p)) PrimaryNotMember (\<lambda>current.
           Inr \<lparr>act_policy = p, act_current = current,
                act_visited = replicate (length (pol_members p)) False, act_attempts = 0,
                act_episode = False, act_in_flight = False, act_armed = True,
                act_cooldown_until = None\<rparr>)))"

text \<open>The search both \<open>progress\<close> and \<open>next\<close> run: the first unvisited member after the
current one, going round.\<close>

definition next_unvisited :: "activation \<Rightarrow> nat option" where
  "next_unvisited a =
     (let n = length (pol_members (act_policy a))
      in List.find (\<lambda>i. \<not> act_visited a ! i)
           (map (\<lambda>offset. (act_current a + offset) mod n) [1..<n]))"

definition progress :: "activation \<Rightarrow> nat \<times> string option" where
  "progress a =
     (act_attempts a,
      if act_armed a \<and> act_episode a \<and> \<not> act_in_flight a
         \<and> act_attempts a < pol_max_attempts (act_policy a)
      then map_option (\<lambda>i. pol_members (act_policy a) ! i) (next_unvisited a)
      else None)"

definition begin_episode :: "activation \<Rightarrow> string \<Rightarrow> failover_error + activation" where
  "begin_episode a failed_id =
     ensure (act_armed a) ActDisarmed
       (ensure (\<not> act_episode a) EpisodeActive
         (ensure (pol_members (act_policy a) ! act_current a = failed_id) NotCurrent
           (Inr (a\<lparr>act_visited := (act_visited a)[act_current a := True], act_episode := True\<rparr>))))"

text \<open>\<open>None\<close> is the panic of \<open>expect("an unvisited candidate remains")\<close>.\<close>

definition act_next :: "activation \<Rightarrow> nat \<Rightarrow> nat \<Rightarrow> decision option" where
  "act_next a now backoff_until =
     (if \<not> act_armed a then Some Disarmed
      else if act_in_flight a then Some InFlight
      else if \<not> act_episode a then Some Idle
      else if pol_max_attempts (act_policy a) \<le> act_attempts a \<or> list_all (\<lambda>seen. seen) (act_visited a)
      then Some Exhausted
      else
        let deadline = (case act_cooldown_until a of None \<Rightarrow> backoff_until
                        | Some cooldown \<Rightarrow> max cooldown backoff_until)
        in if now < deadline then Some (Wait deadline)
           else map_option (\<lambda>i. Attempt (pol_members (act_policy a) ! i)) (next_unvisited a))"

definition admit :: "activation \<Rightarrow> string \<Rightarrow> nat \<Rightarrow> nat \<Rightarrow> (failover_error + activation) option" where
  "admit a i now backoff_until =
     (case act_next a now backoff_until of
        None \<Rightarrow> None
      | Some d \<Rightarrow>
          if d \<noteq> Attempt i then Some (Inl NotReady)
          else case position (\<lambda>member. member = i) (pol_members (act_policy a)) of
            None \<Rightarrow> None
          | Some current \<Rightarrow>
              Some (Inr (a\<lparr>act_current := current,
                           act_visited := (act_visited a)[current := True],
                           act_attempts := act_attempts a + 1,
                           act_in_flight := True,
                           act_cooldown_until := Some (now + secs (pol_cooldown_secs (act_policy a)))\<rparr>)))"

definition check_in_flight :: "activation \<Rightarrow> string \<Rightarrow> failover_error + unit" where
  "check_in_flight a i =
     ensure (act_in_flight a \<and> pol_members (act_policy a) ! act_current a = i) NotInFlight (Inr ())"

definition attempt_failed :: "activation \<Rightarrow> string \<Rightarrow> failover_error + activation" where
  "attempt_failed a i =
     and_then (check_in_flight a i) (\<lambda>_. Inr (a\<lparr>act_in_flight := False\<rparr>))"

definition confirm_success :: "activation \<Rightarrow> string \<Rightarrow> failover_error + activation" where
  "confirm_success a i =
     and_then (check_in_flight a i) (\<lambda>_.
       Inr (a\<lparr>act_in_flight := False, act_episode := False, act_attempts := 0,
              act_visited := map (\<lambda>_. False) (act_visited a)\<rparr>))"

definition disarm :: "activation \<Rightarrow> activation" where
  "disarm a = a\<lparr>act_armed := False\<rparr>"

section \<open>Histories\<close>

datatype call = Begin string | Admit string nat | Failed string | Confirm string | Disarm

inductive act_step :: "activation \<Rightarrow> call \<Rightarrow> activation \<Rightarrow> bool" where
  step_begin: "begin_episode a i = Inr a' \<Longrightarrow> act_step a (Begin i) a'"
| step_admit: "admit a i now backoff = Some (Inr a') \<Longrightarrow> act_step a (Admit i now) a'"
| step_failed: "attempt_failed a i = Inr a' \<Longrightarrow> act_step a (Failed i) a'"
| step_confirm: "confirm_success a i = Inr a' \<Longrightarrow> act_step a (Confirm i) a'"
| step_disarm: "act_step a Disarm (disarm a)"

inductive_cases act_step_BeginE: "act_step a (Begin i) a'"
inductive_cases act_step_AdmitE: "act_step a (Admit i now) a'"
inductive_cases act_step_FailedE: "act_step a (Failed i) a'"
inductive_cases act_step_ConfirmE: "act_step a (Confirm i) a'"
inductive_cases act_step_DisarmE: "act_step a Disarm a'"

lemmas act_step_elims =
  act_step_BeginE act_step_AdmitE act_step_FailedE act_step_ConfirmE act_step_DisarmE

text \<open>The calls an activation has accepted, newest first.\<close>

inductive history :: "policy \<Rightarrow> string \<Rightarrow> call list \<Rightarrow> activation \<Rightarrow> bool" for p primary where
  start: "activation_new p primary = Inr a \<Longrightarrow> history p primary [] a"
| more: "history p primary calls a \<Longrightarrow> act_step a c a' \<Longrightarrow> history p primary (c # calls) a'"

text \<open>The candidates of the current episode: the one that failed and the ones admitted since.\<close>

fun episode_ids :: "call list \<Rightarrow> string list" where
  "episode_ids [] = []"
| "episode_ids (Begin i # calls) = [i]"
| "episode_ids (Admit i now # calls) = i # episode_ids calls"
| "episode_ids (_ # calls) = episode_ids calls"

fun admit_times :: "call list \<Rightarrow> nat list" where
  "admit_times [] = []"
| "admit_times (Admit i now # calls) = now # admit_times calls"
| "admit_times (_ # calls) = admit_times calls"

section \<open>The invariant\<close>

definition spaced :: "nat \<Rightarrow> nat list \<Rightarrow> bool" where
  "spaced d ts = sorted_wrt (\<lambda>later earlier. earlier + d \<le> later) ts"

definition act_inv :: "policy \<Rightarrow> call list \<Rightarrow> activation \<Rightarrow> bool" where
  "act_inv p calls a =
     (let members = pol_members p; cd = secs (pol_cooldown_secs p); ids = episode_ids calls
      in act_policy a = p \<and> policy_validate p = Inr () \<and> pol_enabled p
         \<and> length (act_visited a) = length members \<and> act_current a < length members
         \<and> act_attempts a \<le> pol_max_attempts p
         \<and> (act_in_flight a \<longrightarrow> act_episode a)
         \<and> (\<not> act_episode a \<longrightarrow> act_attempts a = 0 \<and> (\<forall>i<length members. \<not> act_visited a ! i))
         \<and> (act_episode a \<longrightarrow>
              distinct ids \<and> length ids = act_attempts a + 1 \<and> hd ids = members ! act_current a
              \<and> set ids \<subseteq> set members
              \<and> (\<forall>i<length members. act_visited a ! i \<longleftrightarrow> members ! i \<in> set ids))
         \<and> act_cooldown_until a = (case admit_times calls of [] \<Rightarrow> None | t # _ \<Rightarrow> Some (t + cd))
         \<and> spaced cd (admit_times calls)
         \<and> (act_armed a \<longleftrightarrow> Disarm \<notin> set calls))"

lemma spaced_Cons: "spaced d (t # ts) \<longleftrightarrow> (\<forall>u\<in>set ts. u + d \<le> t) \<and> spaced d ts"
  by (simp add: spaced_def)

lemma spaced_hd_max: "spaced d (t # ts) \<Longrightarrow> u \<in> set (t # ts) \<Longrightarrow> u \<le> t"
  by (auto simp: spaced_Cons)

lemma ring_find_None:
  fixes c n :: nat
  assumes "c < n"
  shows "List.find P (map (\<lambda>offset. (c + offset) mod n) [1..<n]) = None \<longleftrightarrow> (\<forall>i<n. i \<noteq> c \<longrightarrow> \<not> P i)"
proof -
  have "set (map (\<lambda>offset. (c + offset) mod n) [1..<n]) = {i. i < n \<and> i \<noteq> c}"
  proof (intro equalityI subsetI)
    fix i assume "i \<in> set (map (\<lambda>offset. (c + offset) mod n) [1..<n])"
    then obtain f where f: "1 \<le> f" "f < n" "i = (c + f) mod n" by auto
    moreover have "(c + f) mod n \<noteq> c"
    proof (cases "c + f < n")
      case True with f show ?thesis by simp
    next
      case False
      then have "(c + f) mod n = c + f - n" using f assms by (simp add: mod_if)
      with f False show ?thesis by linarith
    qed
    ultimately show "i \<in> {i. i < n \<and> i \<noteq> c}" using assms by simp
  next
    fix i assume i: "i \<in> {i. i < n \<and> i \<noteq> c}"
    then obtain f where f: "f < n" "(c + f) mod n = i" using ring_covers [of i n c] by auto
    with i assms have "f \<noteq> 0" by (metis (mono_tags, lifting) add_0_right mem_Collect_eq mod_less)
    with f show "i \<in> set (map (\<lambda>offset. (c + offset) mod n) [1..<n])"
      by (auto intro!: image_eqI [of _ _ f])
  qed
  then show ?thesis by (auto simp: find_None_iff_set simp del: set_map)
qed

lemma next_unvisited_Some:
  assumes "act_inv p calls a" and "next_unvisited a = Some i"
  shows "i < length (pol_members p) \<and> \<not> act_visited a ! i"
proof -
  from assms(1) have p: "act_policy a = p" and n: "0 < length (pol_members p)"
    by (auto simp: act_inv_def Let_def)
  from find_SomeD [OF assms(2) [unfolded next_unvisited_def Let_def p]]
  obtain f where "i = (act_current a + f) mod length (pol_members p)" "\<not> act_visited a ! i" by auto
  with mod_less_divisor [OF n] show ?thesis by simp
qed

lemma next_unvisited_None_iff:
  assumes "act_inv p calls a"
  shows "next_unvisited a = None \<longleftrightarrow>
    (\<forall>i<length (pol_members p). i \<noteq> act_current a \<longrightarrow> act_visited a ! i)"
  using assms ring_find_None [of "act_current a" "length (pol_members p)" "\<lambda>i. \<not> act_visited a ! i"]
  by (simp add: next_unvisited_def act_inv_def Let_def)

lemma inv_current_visited:
  "act_inv p calls a \<Longrightarrow> act_episode a \<Longrightarrow> act_visited a ! act_current a"
  unfolding act_inv_def Let_def
  by (metis add_is_0 hd_in_set length_0_conv one_neq_zero)

lemma inv_all_visited_iff:
  "act_inv p calls a \<Longrightarrow> list_all (\<lambda>seen. seen) (act_visited a) \<longleftrightarrow>
   (\<forall>i<length (pol_members p). act_visited a ! i)"
  by (auto simp: act_inv_def Let_def list_all_length)

lemma next_unvisited_exists:
  assumes "act_inv p calls a" and "act_episode a" and "\<not> list_all (\<lambda>seen. seen) (act_visited a)"
  shows "\<exists>i. next_unvisited a = Some i"
  using assms next_unvisited_None_iff [OF assms(1)] inv_current_visited [OF assms(1,2)]
    inv_all_visited_iff [OF assms(1)]
  by (cases "next_unvisited a") auto

lemma act_inv_policy: "act_inv p calls a \<Longrightarrow> act_policy a = p"
  by (simp add: act_inv_def Let_def)

lemma act_inv_members:
  assumes "act_inv p calls a"
  shows "distinct (pol_members p)" "2 \<le> length (pol_members p)" "1 \<le> pol_max_attempts p"
  using assms by (auto simp: act_inv_def Let_def policy_validate_ok)

text \<open>An admission names the member \<open>next\<close> found, at an index the search returned.\<close>

lemma admit_Some:
  assumes inv: "act_inv p calls a" and ok: "admit a i now backoff = Some (Inr a')"
  obtains k where "k < length (pol_members p)" "\<not> act_visited a ! k" "pol_members p ! k = i"
    "act_armed a" "act_episode a" "\<not> act_in_flight a" "act_attempts a < pol_max_attempts p"
    "act_cooldown_until a = None \<or> the (act_cooldown_until a) \<le> now"
    "a' = a\<lparr>act_current := k, act_visited := (act_visited a)[k := True],
            act_attempts := act_attempts a + 1, act_in_flight := True,
            act_cooldown_until := Some (now + secs (pol_cooldown_secs p))\<rparr>"
proof -
  from ok have n: "act_next a now backoff = Some (Attempt i)"
    by (auto simp: admit_def split: option.splits if_splits)
  then obtain k where k: "next_unvisited a = Some k" "pol_members p ! k = i"
    and g: "act_armed a" "act_episode a" "\<not> act_in_flight a" "act_attempts a < pol_max_attempts p"
      "act_cooldown_until a = None \<or> the (act_cooldown_until a) \<le> now"
    using act_inv_policy [OF inv]
    by (auto simp: act_next_def Let_def split: if_splits option.splits)
  from next_unvisited_Some [OF inv k(1)] have kk: "k < length (pol_members p)" "\<not> act_visited a ! k"
    by auto
  have "position (\<lambda>m. m = i) (pol_members p) = Some k"
    using position_distinct [OF act_inv_members(1) [OF inv] kk(1)] k(2) by simp
  with ok n act_inv_policy [OF inv]
  have "a' = a\<lparr>act_current := k, act_visited := (act_visited a)[k := True],
            act_attempts := act_attempts a + 1, act_in_flight := True,
            act_cooldown_until := Some (now + secs (pol_cooldown_secs p))\<rparr>"
    by (simp add: admit_def)
  with kk k(2) g show ?thesis by (rule that)
qed

section \<open>Every call preserves it\<close>

lemma start_inv [preserve]: "activation_new p primary = Inr a \<Longrightarrow> act_inv p [] a"
  by (auto simp: activation_new_def and_then_Inr_iff or_bail_Inr_iff act_inv_def Let_def spaced_def
      dest!: position_SomeD)

lemma begin_inv [preserve]:
  assumes inv: "act_inv p calls a" and ok: "begin_episode a i = Inr a'"
  shows "act_inv p (Begin i # calls) a'"
proof -
  from ok have g: "act_armed a" "\<not> act_episode a" "pol_members p ! act_current a = i"
    and a': "a' = a\<lparr>act_visited := (act_visited a)[act_current a := True], act_episode := True\<rparr>"
    using act_inv_policy [OF inv] by (auto simp: begin_episode_def)
  note d = act_inv_members(1) [OF inv]
  from inv g(2) have f: "\<forall>k<length (pol_members p). \<not> act_visited a ! k" "act_attempts a = 0"
    "act_current a < length (pol_members p)" "length (act_visited a) = length (pol_members p)"
    by (auto simp: act_inv_def Let_def)
  then have "(act_visited a)[act_current a := True] ! k \<longleftrightarrow> pol_members p ! k = i"
    if "k < length (pol_members p)" for k
    using that d g(3) by (auto simp: nth_list_update nth_eq_iff_index_eq)
  with inv g a' f show ?thesis by (auto simp: act_inv_def Let_def nth_mem)
qed

lemma admit_inv [preserve]:
  assumes inv: "act_inv p calls a" and ok: "admit a i now backoff = Some (Inr a')"
  shows "act_inv p (Admit i now # calls) a'"
proof -
  obtain k where k: "k < length (pol_members p)" "\<not> act_visited a ! k" "pol_members p ! k = i"
    and g: "act_armed a" "act_episode a" "\<not> act_in_flight a" "act_attempts a < pol_max_attempts p"
      "act_cooldown_until a = None \<or> the (act_cooldown_until a) \<le> now"
    and a': "a' = a\<lparr>act_current := k, act_visited := (act_visited a)[k := True],
            act_attempts := act_attempts a + 1, act_in_flight := True,
            act_cooldown_until := Some (now + secs (pol_cooldown_secs p))\<rparr>"
    by (rule admit_Some [OF inv ok])
  note d = act_inv_members(1) [OF inv]
  let ?cd = "secs (pol_cooldown_secs p)"
  have new: "i \<notin> set (episode_ids calls)" using inv g(2) k by (auto simp: act_inv_def Let_def)
  have vis: "(act_visited a)[k := True] ! j \<longleftrightarrow> pol_members p ! j = i \<or> act_visited a ! j"
    if "j < length (pol_members p)" for j
    using that d k inv by (auto simp: nth_list_update nth_eq_iff_index_eq act_inv_def Let_def)
  have "u + ?cd \<le> now" if "u \<in> set (admit_times calls)" for u
  proof (cases "admit_times calls")
    case Nil with that show ?thesis by simp
  next
    case (Cons t ts)
    with inv g(5) have "t + ?cd \<le> now" "spaced ?cd (t # ts)" by (auto simp: act_inv_def Let_def)
    with spaced_hd_max [of ?cd t ts u] that Cons show ?thesis by simp
  qed
  then have "spaced ?cd (now # admit_times calls)"
    using inv by (simp add: spaced_Cons act_inv_def Let_def)
  with inv k g a' new vis show ?thesis
    by (simp add: act_inv_def Let_def) (metis nth_mem)
qed

lemma failed_inv [preserve]:
  "act_inv p calls a \<Longrightarrow> attempt_failed a i = Inr a' \<Longrightarrow> act_inv p (Failed i # calls) a'"
  by (auto simp: attempt_failed_def check_in_flight_def and_then_Inr_iff act_inv_def Let_def)

lemma confirm_inv [preserve]:
  "act_inv p calls a \<Longrightarrow> confirm_success a i = Inr a' \<Longrightarrow> act_inv p (Confirm i # calls) a'"
  by (auto simp: confirm_success_def check_in_flight_def and_then_Inr_iff act_inv_def Let_def)

lemma disarm_inv [preserve]: "act_inv p calls a \<Longrightarrow> act_inv p (Disarm # calls) (disarm a)"
  by (simp add: disarm_def act_inv_def Let_def)

lemma step_inv: "act_step a c a' \<Longrightarrow> act_inv p calls a \<Longrightarrow> act_inv p (c # calls) a'"
  by (induction rule: act_step.induct) (auto intro: preserve)

lemma history_inv: "history p primary calls a \<Longrightarrow> act_inv p calls a"
  by (induction rule: history.induct) (auto intro: start_inv step_inv)

section \<open>What the invariant gives\<close>

lemma inv_all_visited_count:
  assumes inv: "act_inv p calls a" and ep: "act_episode a"
  shows "list_all (\<lambda>seen. seen) (act_visited a) \<longleftrightarrow> act_attempts a + 1 = length (pol_members p)"
    and "act_attempts a + 1 \<le> length (pol_members p)"
proof -
  let ?m = "pol_members p" and ?ids = "episode_ids calls"
  from inv ep have ids: "distinct ?ids" "length ?ids = act_attempts a + 1" "set ?ids \<subseteq> set ?m"
    and vis: "\<forall>i<length ?m. act_visited a ! i \<longleftrightarrow> ?m ! i \<in> set ?ids"
    by (auto simp: act_inv_def Let_def)
  have c: "card (set ?ids) = act_attempts a + 1" "card (set ?m) = length ?m"
    using ids act_inv_members(1) [OF inv] by (simp_all add: distinct_card)
  show "act_attempts a + 1 \<le> length ?m" using card_mono [OF _ ids(3)] c by simp
  have "list_all (\<lambda>seen. seen) (act_visited a) \<longleftrightarrow> set ?m \<subseteq> set ?ids"
    unfolding inv_all_visited_iff [OF inv] using vis by (auto simp: subset_iff in_set_conv_nth)
  also have "\<dots> \<longleftrightarrow> set ?ids = set ?m" using ids(3) by auto
  also have "\<dots> \<longleftrightarrow> act_attempts a + 1 = length ?m"
    using c card_subset_eq [OF _ ids(3)] by (metis List.finite_set)
  finally show "list_all (\<lambda>seen. seen) (act_visited a) \<longleftrightarrow> act_attempts a + 1 = length ?m" .
qed

lemma inv_next_total:
  assumes "act_inv p calls a"
  shows "\<exists>d. act_next a now backoff = Some d"
  using next_unvisited_exists [OF assms] by (auto simp: act_next_def Let_def)

lemma inv_attempt:
  assumes inv: "act_inv p calls a" and n: "act_next a now backoff = Some (Attempt i)"
  shows "i \<in> set (pol_members p) \<and> i \<notin> set (episode_ids calls) \<and> act_episode a
    \<and> position (\<lambda>m. m = i) (pol_members p) \<noteq> None"
proof -
  from n obtain k where k: "next_unvisited a = Some k" "pol_members p ! k = i" and e: "act_episode a"
    using act_inv_policy [OF inv] by (auto simp: act_next_def Let_def split: if_splits)
  from next_unvisited_Some [OF inv k(1)] have kk: "k < length (pol_members p)" "\<not> act_visited a ! k"
    by auto
  then have "i \<in> set (pol_members p)" using k(2) by auto
  moreover have "i \<notin> set (episode_ids calls)"
    using inv e kk k(2) by (auto simp: act_inv_def Let_def)
  ultimately show ?thesis using e position_ex [of i "pol_members p" "\<lambda>m. m = i"] by auto
qed

lemma inv_admit_total:
  assumes inv: "act_inv p calls a"
  shows "admit a i now backoff \<noteq> None"
proof -
  obtain d where d: "act_next a now backoff = Some d" using inv_next_total [OF inv] by blast
  with inv_attempt [OF inv, of now backoff i] act_inv_policy [OF inv] show ?thesis
    by (auto simp: admit_def split: option.splits)
qed

lemma history_split:
  "history p primary (post @ pre) a \<Longrightarrow> \<exists>b. history p primary pre b"
proof (induction post arbitrary: a)
  case (Cons c post)
  from Cons.prems show ?case by (cases rule: history.cases) (auto intro: Cons.IH)
qed auto

lemma disarmed_stays:
  "history p primary (post @ Disarm # pre) a \<Longrightarrow>
   \<not> act_armed a \<and> (\<forall>c\<in>set post. \<forall>i now. c \<noteq> Begin i \<and> c \<noteq> Admit i now)"
proof (induction post arbitrary: a)
  case Nil
  then have "history p primary (Disarm # pre) a" by simp
  then obtain b where "act_step b Disarm a" by (cases rule: history.cases) auto
  then show ?case by (cases rule: act_step.cases) (simp add: disarm_def)
next
  case (Cons c post)
  from Cons.prems obtain b where b: "history p primary (post @ Disarm # pre) b" "act_step b c a"
    by (cases rule: history.cases) auto
  from Cons.IH [OF b(1)] have off: "\<not> act_armed b"
    "\<forall>c\<in>set post. \<forall>i now. c \<noteq> Begin i \<and> c \<noteq> Admit i now" by auto
  from b(2) off(1) have "\<not> act_armed a \<and> (\<forall>i now. c \<noteq> Begin i \<and> c \<noteq> Admit i now)"
    by (cases rule: act_step.cases)
       (auto simp: begin_episode_def admit_def act_next_def attempt_failed_def confirm_success_def
          check_in_flight_def disarm_def and_then_Inr_iff split: option.splits if_splits)
  with off(2) show ?case by auto
qed

section \<open>Properties\<close>

text \<open>C31: recovery never panics and never repeats: after any history of calls both \<open>next\<close> and
\<open>admit\<close> answer (the two \<open>expect\<close>s and the vector accesses are safe), and a candidate that
\<open>next\<close> offers is an authorized member that has not failed in this episode.\<close>

theorem failover_no_panic:
  assumes "history p primary calls a"
  shows "act_next a now backoff \<noteq> None \<and> admit a i now backoff \<noteq> None
    \<and> act_current a < length (pol_members (act_policy a))
    \<and> length (act_visited a) = length (pol_members (act_policy a))
    \<and> (\<forall>j. act_next a now backoff = Some (Attempt j) \<longrightarrow>
          j \<in> set (pol_members p) \<and> j \<notin> set (episode_ids calls))"
proof -
  from assms have inv: "act_inv p calls a" by (rule history_inv)
  with inv_next_total [OF inv, of now backoff] inv_admit_total [OF inv] inv_attempt [OF inv]
  show ?thesis by (auto simp: act_inv_def Let_def)
qed

text \<open>C32: the budget of an episode: while it lasts, the failed candidate and those admitted since are
pairwise different authorized members, ending in the current one; the attempts counted are exactly
the admissions and stay within \<open>max_attempts\<close> and the other members.\<close>

theorem failover_episode_budget:
  assumes "history p primary calls a" and "act_episode a"
  shows "distinct (episode_ids calls) \<and> set (episode_ids calls) \<subseteq> set (pol_members p)
    \<and> hd (episode_ids calls) = pol_members p ! act_current a
    \<and> length (episode_ids calls) = act_attempts a + 1
    \<and> act_attempts a \<le> min (pol_max_attempts p) (length (pol_members p) - 1)"
proof -
  from assms(1) have inv: "act_inv p calls a" by (rule history_inv)
  from inv_all_visited_count(2) [OF inv assms(2)] inv assms(2)
  show ?thesis by (auto simp: act_inv_def Let_def)
qed

text \<open>the cooldown holds between any two admissions of an activation, also across episodes and
confirmations: a later one is at least \<open>cooldown_secs\<close> after every earlier one.\<close>

theorem failover_cooldown_spacing:
  assumes "history p primary calls a"
  shows "sorted_wrt (\<lambda>later earlier. earlier + secs (pol_cooldown_secs p) \<le> later) (admit_times calls)"
  using history_inv [OF assms] by (simp add: act_inv_def Let_def spaced_def)

text \<open>C33: recovery ends exactly when it should: armed, in an episode and with nothing in flight,
\<open>next\<close> says \<open>Exhausted\<close> if and only if the attempts made are the smaller of
\<open>max_attempts\<close> and the number of other members; before that, once cooldown and backoff have
passed, it offers an attempt, so no episode is stuck.\<close>

theorem failover_exhaustion:
  assumes "history p primary calls a" and "act_armed a" and "act_episode a" and "\<not> act_in_flight a"
  shows "(act_next a now backoff = Some Exhausted \<longleftrightarrow>
            act_attempts a = min (pol_max_attempts p) (length (pol_members p) - 1))
    \<and> (act_attempts a < min (pol_max_attempts p) (length (pol_members p) - 1) \<and> backoff \<le> now
         \<and> (\<forall>c. act_cooldown_until a = Some c \<longrightarrow> c \<le> now) \<longrightarrow>
         (\<exists>i. act_next a now backoff = Some (Attempt i)))"
proof -
  from assms(1) have inv: "act_inv p calls a" by (rule history_inv)
  note p = act_inv_policy [OF inv] and n = inv_all_visited_count [OF inv assms(3)]
  have le: "act_attempts a \<le> pol_max_attempts p" using inv by (simp add: act_inv_def Let_def)
  have ends: "(pol_max_attempts p \<le> act_attempts a \<or> list_all (\<lambda>seen. seen) (act_visited a)) \<longleftrightarrow>
      act_attempts a = min (pol_max_attempts p) (length (pol_members p) - 1)"
    using n le by auto
  show ?thesis
  proof (cases "act_attempts a = min (pol_max_attempts p) (length (pol_members p) - 1)")
    case True
    with ends assms(2-4) p show ?thesis by (auto simp: act_next_def)
  next
    case False
    with ends have "\<not> list_all (\<lambda>seen. seen) (act_visited a)" by blast
    from next_unvisited_exists [OF inv assms(3) this] obtain k where k: "next_unvisited a = Some k" ..
    from False ends assms(2-4) p k show ?thesis
      by (auto simp: act_next_def Let_def split: option.splits)
  qed
qed

text \<open>C34: disarming is for good: once an activation has been disarmed, no further call is accepted
that begins an episode or admits a candidate, whatever else is called, and \<open>next\<close> keeps
answering \<open>Disarmed\<close>.\<close>

theorem failover_disarm_permanent:
  assumes "history p primary (post @ Disarm # pre) a"
  shows "act_next a now backoff = Some Disarmed
    \<and> (\<forall>c\<in>set post. \<forall>i at. c \<noteq> Begin i \<and> c \<noteq> Admit i at)"
  using disarmed_stays [OF assms] by (auto simp: act_next_def)

text \<open>C35: the read-only progress tells the truth: the candidate it shows is the one \<open>next\<close> will
offer as soon as its waiting is over, and it shows none exactly when \<open>next\<close> will never offer
one from this state.\<close>

theorem failover_progress_agrees:
  assumes "history p primary calls a"
  shows "fst (progress a) = act_attempts a
    \<and> (snd (progress a) = Some i \<longleftrightarrow> (\<exists>now. act_next a now backoff = Some (Attempt i)))"
proof -
  from assms have inv: "act_inv p calls a" by (rule history_inv)
  note p = act_inv_policy [OF inv]
  let ?now = "case act_cooldown_until a of None \<Rightarrow> backoff | Some c \<Rightarrow> max c backoff"
  have all: "list_all (\<lambda>seen. seen) (act_visited a) \<Longrightarrow> act_episode a \<Longrightarrow> next_unvisited a = None"
    using next_unvisited_None_iff [OF inv] inv_all_visited_iff [OF inv] by blast
  have "snd (progress a) = Some i \<Longrightarrow> act_next a ?now backoff = Some (Attempt i)"
    using all by (auto simp: progress_def act_next_def Let_def split: if_splits)
  moreover have "act_next a now backoff = Some (Attempt i) \<Longrightarrow> snd (progress a) = Some i" for now
    by (auto simp: progress_def act_next_def Let_def split: if_splits)
  ultimately show ?thesis by (auto simp: progress_def)
qed

text \<open>a patch never installs an invalid policy: applied to nothing or to any saved policy it
either fails, leaving what was saved, or gives a valid policy in which exactly the fields the patch
names have the patch's values; the empty patch changes nothing, and applying a patch twice is
applying it once.\<close>

theorem patch_apply_valid:
  assumes "patch_apply q current = Inr out"
  shows "(patch_is_empty q \<longrightarrow> out = current)
    \<and> (\<not> patch_is_empty q \<longrightarrow> (\<exists>p. out = Some p \<and> policy_validate p = Inr ()
          \<and> (\<forall>e. pat_enabled q = Some e \<longrightarrow> pol_enabled p = e)
          \<and> (pat_members q = None \<longrightarrow>
               pol_members p = pol_members (case current of Some p0 \<Rightarrow> p0 | None \<Rightarrow> policy_default))))
    \<and> patch_apply q out = Inr out"
proof -
  note sh = patch_apply_shape [OF assms]
  have "patch_apply q out = Inr out"
  proof (cases "patch_is_empty q")
    case True with sh show ?thesis by (simp add: patch_apply_def)
  next
    case False
    define p0 where "p0 = (case current of Some p \<Rightarrow> p | None \<Rightarrow> policy_default)"
    from False sh obtain p where p: "out = Some p" "policy_validate p = Inr ()"
      and e: "pol_enabled p = (case pat_enabled q of Some e \<Rightarrow> e | None \<Rightarrow> pol_enabled p0)"
        "pol_members p = (case pat_members q of Some m \<Rightarrow> m | None \<Rightarrow> pol_members p0)"
        "pol_max_attempts p = (case pat_max_attempts q of Some n \<Rightarrow> n | None \<Rightarrow> pol_max_attempts p0)"
        "pol_cooldown_secs p = (case pat_cooldown_secs q of Some c \<Rightarrow> c | None \<Rightarrow> pol_cooldown_secs p0)"
      unfolding Let_def p0_def by blast
    have f: "\<forall>e. pat_enabled q = Some e \<longrightarrow> pol_enabled p = e"
        "\<forall>m. pat_members q = Some m \<longrightarrow> pol_members p = m"
        "\<forall>n. pat_max_attempts q = Some n \<longrightarrow> pol_max_attempts p = n"
        "\<forall>c. pat_cooldown_secs q = Some c \<longrightarrow> pol_cooldown_secs p = c"
      by (simp_all add: e)
    have same: "\<And>e. pat_enabled q = Some e \<Longrightarrow> p\<lparr>pol_enabled := e\<rparr> = p"
      "\<And>m. pat_members q = Some m \<Longrightarrow> p\<lparr>pol_members := m\<rparr> = p"
      "\<And>n. pat_max_attempts q = Some n \<Longrightarrow> p\<lparr>pol_max_attempts := n\<rparr> = p"
      "\<And>c. pat_cooldown_secs q = Some c \<Longrightarrow> p\<lparr>pol_cooldown_secs := c\<rparr> = p"
      using f by (cases p; simp)+
    show ?thesis
      unfolding p(1) using p(2) False
      by (cases "pat_enabled q"; cases "pat_members q"; cases "pat_max_attempts q";
          cases "pat_cooldown_secs q") (simp_all add: patch_apply_def same)
  qed
  with sh show ?thesis by (auto simp: Let_def)
qed

section \<open>Witnesses\<close>

definition sample_policy :: policy where
  "sample_policy =
     \<lparr>pol_enabled = True, pol_members = [''1'', ''2'', ''3''], pol_max_attempts = 3,
      pol_cooldown_secs = 30\<rparr>"

definition sample_start :: activation where
  "sample_start =
     \<lparr>act_policy = sample_policy, act_current = 0, act_visited = [False, False, False],
      act_attempts = 0, act_episode = False, act_in_flight = False, act_armed = True,
      act_cooldown_until = None\<rparr>"

definition sample_failed :: activation where
  "sample_failed = sample_start\<lparr>act_visited := [True, False, False], act_episode := True\<rparr>"

lemma sample_trim: "trim ''1'' = ''1''" "trim ''2'' = ''2''" "trim ''3'' = ''3''"
  by (simp_all add: trim_digits is_ascii_digit_def)

lemma sample_start_new: "activation_new sample_policy ''1'' = Inr sample_start"
  by (simp add: activation_new_def sample_policy_def sample_start_def policy_validate_def sample_trim
      numeral_3_eq_3)

lemma sample_history: "history sample_policy ''1'' [] sample_start"
  by (rule history.start [OF sample_start_new])

lemma sample_history_failed: "history sample_policy ''1'' [Begin ''1''] sample_failed"
  by (rule history.more [OF sample_history], rule step_begin)
     (simp add: begin_episode_def sample_start_def sample_failed_def sample_policy_def)

theorem failover_no_panic_witness:
  "act_next sample_failed 5 5 \<noteq> None \<and> admit sample_failed ''2'' 5 5 \<noteq> None"
  using failover_no_panic [OF sample_history_failed] by blast

theorem failover_episode_budget_witness:
  "act_attempts sample_failed + 1 = length (episode_ids [Begin ''1''])
   \<and> act_attempts sample_failed \<le> 2"
  using failover_episode_budget [OF sample_history_failed]
  by (simp add: sample_failed_def sample_start_def sample_policy_def)

lemma sample_history_admitted:
  "\<exists>a. history sample_policy ''1'' [Admit ''2'' 7, Begin ''1''] a"
proof -
  have n: "act_next sample_failed 7 5 = Some (Attempt ''2'')"
    by (simp add: act_next_def next_unvisited_def sample_failed_def sample_start_def
        sample_policy_def upt_rec)
  obtain a where "admit sample_failed ''2'' 7 5 = Some (Inr a)"
    using n by (simp add: admit_def sample_failed_def sample_start_def sample_policy_def)
  then show ?thesis by (blast intro: history.more [OF sample_history_failed] step_admit)
qed

theorem failover_cooldown_spacing_witness:
  "sorted_wrt (\<lambda>later earlier. earlier + secs 30 \<le> later) (admit_times [Admit ''2'' 7, Begin ''1''])"
proof -
  obtain a where "history sample_policy ''1'' [Admit ''2'' 7, Begin ''1''] a"
    using sample_history_admitted ..
  from failover_cooldown_spacing [OF this] show ?thesis by (simp add: sample_policy_def)
qed

theorem failover_exhaustion_witness:
  "act_next sample_failed 5 5 \<noteq> Some Exhausted \<and> (\<exists>i. act_next sample_failed 5 5 = Some (Attempt i))"
  using failover_exhaustion [OF sample_history_failed, of 5 5]
  by (simp add: sample_failed_def sample_start_def sample_policy_def)

theorem failover_disarm_permanent_witness:
  "act_next (disarm sample_failed) 5 5 = Some Disarmed"
  using failover_disarm_permanent [of sample_policy "''1''" "[]" "[Begin ''1'']" "disarm sample_failed" 5 5]
    history.more [OF sample_history_failed step_disarm] by simp

theorem failover_progress_agrees_witness:
  "snd (progress sample_failed) = Some ''2'' \<longleftrightarrow> (\<exists>now. act_next sample_failed now 5 = Some (Attempt ''2''))"
  using failover_progress_agrees [OF sample_history_failed, of "''2''" 5] by simp

definition sample_patch :: patch where
  "sample_patch = \<lparr>pat_enabled = None, pat_members = None, pat_max_attempts = Some 5, pat_cooldown_secs = None\<rparr>"

lemma sample_patch_apply:
  "patch_apply sample_patch None = Inr (Some (policy_default\<lparr>pol_max_attempts := 5\<rparr>))"
  by (simp add: patch_apply_def sample_patch_def patch_is_empty_def policy_validate_def policy_default_def)

theorem patch_apply_valid_witness:
  "policy_validate (policy_default\<lparr>pol_max_attempts := 5\<rparr>) = Inr ()"
  using patch_apply_valid [OF sample_patch_apply] by (simp add: sample_patch_def patch_is_empty_def)

end
