(* ===== verification/Envelope.thy ===== *)
theory Envelope
  imports Failover Bind Route_Plan
begin

text \<open>
  The routing authorization of a TUN failover: \<open>TunEnvelope\<close> in
  \<open>crates/oxidom-core/src/failover.rs\<close>, with \<open>OnCoreExit\<close>
  (\<open>crates/oxidom-core/src/config.rs\<close>) and \<open>ProfileInterface\<close>
  (\<open>crates/oxidom-core/src/profile.rs\<close>).

  The lemmas say what an envelope that could be built promises: its own catalog passes the later
  checks, every later accepted candidate dials the address the routes were planned for, and
  planning those routes cannot fail on a conflict.
\<close>

section \<open>Settings it authorizes\<close>

datatype on_core_exit = Hold | Release

record profile_interface =
  pi_enable :: bool
  pi_device :: string
  pi_address :: string
  pi_mtu :: nat
  pi_routes :: route_mode
  pi_list :: "string list"

datatype envelope_error =
    InterfaceDisabled | NotHold | BadDevice device_error | BadMtu | BadInterfaceAddress
  | BadCidr cidr_error | EmptyCapture | CandidateIds | CandidateCount | CaptureCandidate
  | OutboundPatch | NotLiteral | NotUnicast | ZeroPort | PortHopping | CompositeOutbound
  | XhttpExtension | EchExtension | UnsupportedTransport | UnsupportedSecurity
  | CandidateMissing | CandidateChanged | OutsideEnvelope | InterfaceChanged

record tun_envelope =
  env_interface :: profile_interface
  env_candidates :: "(string \<times> ipv4 \<times> string) list"

section \<open>Endpoints\<close>

definition dialable :: "ipv4 \<Rightarrow> bool" where
  "dialable a =
     (oct1 a \<noteq> 0 \<and> unat (oct1 a) < 224 \<and> \<not> is_loopback a \<and> \<not> is_link_local a \<and> \<not> is_broadcast a)"

definition kind_and_stream ::
  "'j outbound_spec \<Rightarrow> envelope_error + (string \<times> 'j stream_settings option)" where
  "kind_and_stream spec =
     (case spec of
        Vless _ _ s \<Rightarrow> Inr (''vless'', Some s)
      | Vmess _ _ _ s \<Rightarrow> Inr (''vmess'', Some s)
      | Trojan _ s \<Rightarrow> Inr (''trojan'', Some s)
      | Shadowsocks _ _ \<Rightarrow> Inr (''shadowsocks'', None)
      | Socks _ _ \<Rightarrow> Inr (''socks'', None)
      | Http _ _ \<Rightarrow> Inr (''http'', None)
      | Hysteria2 _ settings \<Rightarrow>
          ensure (h2_port_hop settings = []) PortHopping (Inr (''hysteria2'', None))
      | XrayProfile _ _ _ _ \<Rightarrow> Inl CompositeOutbound)"

definition endpoint_shape :: "string \<times> 'j stream_settings option \<Rightarrow> envelope_error + string" where
  "endpoint_shape ks =
     (case ks of (kind, settings) \<Rightarrow>
        case settings of
          Some s \<Rightarrow>
            ensure (ss_xhttp_extra s = None) XhttpExtension
              (ensure (ss_ech s = None) EchExtension
                (ensure (ss_network s \<in> {'''', ''tcp'', ''ws'', ''grpc'', ''xhttp'', ''splithttp'', ''h2''})
                   UnsupportedTransport
                  (ensure (ss_security s \<in> {'''', ''none'', ''tls'', ''reality''}) UnsupportedSecurity
                    (Inr (kind @ ''/'' @ ss_network s @ ''/'' @ ss_security s)))))
        | None \<Rightarrow> Inr kind)"

definition endpoint :: "'j server \<Rightarrow> envelope_error + (ipv4 \<times> string)" where
  "endpoint server =
     ensure (srv_outbound_patch server = None) OutboundPatch
       (or_bail (parse_ipv4 (srv_address server)) NotLiteral (\<lambda>address.
         ensure (dialable address) NotUnicast
           (ensure (srv_port server \<noteq> 0) ZeroPort
             (and_then (kind_and_stream (srv_spec server)) (\<lambda>ks.
               and_then (endpoint_shape ks) (\<lambda>shape. Inr (address, shape)))))))"

section \<open>Building and checking\<close>

text \<open>The loop over the catalog: the ids seen so far are those of the collected candidates.\<close>

fun collect_candidates ::
  "'j server list \<Rightarrow> (string \<times> ipv4 \<times> string) list \<Rightarrow> envelope_error + (string \<times> ipv4 \<times> string) list" where
  "collect_candidates [] candidates = Inr candidates"
| "collect_candidates (server # catalog) candidates =
     ensure (trim (srv_id server) \<noteq> [] \<and> srv_id server \<notin> set (map fst candidates)) CandidateIds
       (and_then (endpoint server) (\<lambda>(address, shape).
         collect_candidates catalog (candidates @ [(srv_id server, address, shape)])))"

definition parse_captures :: "string list \<Rightarrow> envelope_error + cidr list" where
  "parse_captures = try_map (\<lambda>entry. case cidr_from_str entry of Inl e \<Rightarrow> Inl (BadCidr e) | Inr c \<Rightarrow> Inr c)"

definition captured :: "cidr list \<Rightarrow> (string \<times> ipv4 \<times> string) list \<Rightarrow> bool" where
  "captured captures candidates =
     list_ex (\<lambda>route. c_prefix route = 32 \<and> list_ex (\<lambda>c. fst (snd c) = c_address route) candidates) captures"

definition envelope_new ::
  "'j server list \<Rightarrow> profile_interface \<Rightarrow> on_core_exit \<Rightarrow> envelope_error + tun_envelope" where
  "envelope_new catalog requested effective_policy =
     ensure (pi_enable requested) InterfaceDisabled
     (ensure (effective_policy = Hold) NotHold
     (and_then (if pi_device requested \<noteq> []
                then case validate_device_name (pi_device requested) of
                       Inl e \<Rightarrow> Inl (BadDevice e) | Inr _ \<Rightarrow> Inr ()
                else Inr ())
     (\<lambda>_. ensure (pi_mtu requested = 0 \<or> 576 \<le> pi_mtu requested) BadMtu
     (and_then (if pi_address requested \<noteq> []
                then ensure (parse_ipv4 (pi_address requested) \<noteq> None) BadInterfaceAddress (Inr ())
                else Inr ())
     (\<lambda>_. and_then (parse_captures (pi_list requested))
     (\<lambda>captures. and_then (if pi_routes requested = ListMode
                then ensure (captures \<noteq> []) EmptyCapture (Inr ()) else Inr ())
     (\<lambda>_. and_then (collect_candidates catalog [])
     (\<lambda>candidates. ensure (2 \<le> length candidates \<and> length candidates \<le> 64) CandidateCount
     (and_then (if pi_routes requested = ListMode
                then ensure (\<not> captured captures candidates) CaptureCandidate (Inr ()) else Inr ())
     (\<lambda>_. Inr \<lparr>env_interface = requested, env_candidates = candidates\<rparr>))))))))))"

definition validate_candidates :: "tun_envelope \<Rightarrow> 'j server list \<Rightarrow> envelope_error + unit" where
  "validate_candidates env catalog =
     check_all (\<lambda>(i, address, shape).
       case filter (\<lambda>server. srv_id server = i) catalog of
         [server] \<Rightarrow>
           and_then (endpoint server) (\<lambda>current. ensure (current = (address, shape)) CandidateChanged (Inr ()))
       | _ \<Rightarrow> Inl CandidateMissing) (env_candidates env)"

definition validate_candidate :: "tun_envelope \<Rightarrow> 'j server \<Rightarrow> envelope_error + unit" where
  "validate_candidate env server =
     or_bail (List.find (\<lambda>candidate. fst candidate = srv_id server) (env_candidates env)) OutsideEnvelope
       (\<lambda>(_, address, shape).
         and_then (endpoint server) (\<lambda>current. ensure (current = (address, shape)) CandidateChanged (Inr ())))"

definition validate_interface :: "tun_envelope \<Rightarrow> profile_interface \<Rightarrow> on_core_exit \<Rightarrow> envelope_error + unit" where
  "validate_interface env requested effective_policy =
     ensure (requested = env_interface env \<and> effective_policy = Hold) InterfaceChanged (Inr ())"

definition env_contains :: "tun_envelope \<Rightarrow> string \<Rightarrow> bool" where
  "env_contains env i = list_ex (\<lambda>candidate. fst candidate = i) (env_candidates env)"

definition env_addresses :: "tun_envelope \<Rightarrow> ipv4 list" where
  "env_addresses env =
     foldl (\<lambda>addresses (_, address, _). if address \<notin> set addresses then addresses @ [address] else addresses)
       [] (env_candidates env)"

section \<open>Lemmas\<close>

lemma endpoint_dialable: "endpoint server = Inr (a, shape) \<Longrightarrow> dialable a \<and> parse_ipv4 (srv_address server) = Some a"
  by (auto simp: endpoint_def or_bail_Inr_iff and_then_Inr_iff)

lemma endpoint_plain:
  assumes "endpoint server = Inr (a, shape)"
  shows "srv_outbound_patch server = None \<and> srv_port server \<noteq> 0
    \<and> (\<forall>x y z w. srv_spec server \<noteq> XrayProfile x y z w)"
  using assms
  by (auto simp: endpoint_def or_bail_Inr_iff and_then_Inr_iff kind_and_stream_def)

lemma collect_candidates_spec:
  "collect_candidates catalog acc = Inr out \<Longrightarrow> distinct (map fst acc) \<Longrightarrow>
   distinct (map fst out)
   \<and> (\<exists>new. out = acc @ new
        \<and> list_all2 (\<lambda>server (i, a, shape). i = srv_id server \<and> endpoint server = Inr (a, shape)) catalog new)"
proof (induction catalog arbitrary: acc)
  case (Cons server catalog)
  from Cons.prems obtain a shape where e: "endpoint server = Inr (a, shape)"
    and fresh: "srv_id server \<notin> set (map fst acc)"
    and r: "collect_candidates catalog (acc @ [(srv_id server, a, shape)]) = Inr out"
    by (auto simp: and_then_Inr_iff)
  from Cons.prems(2) fresh have "distinct (map fst (acc @ [(srv_id server, a, shape)]))" by auto
  from Cons.IH [OF r this] obtain new where d: "distinct (map fst out)"
    and "out = (acc @ [(srv_id server, a, shape)]) @ new"
    and "list_all2 (\<lambda>server (i, a, shape). i = srv_id server \<and> endpoint server = Inr (a, shape)) catalog new"
    by blast
  then have "out = acc @ ((srv_id server, a, shape) # new)
      \<and> list_all2 (\<lambda>server (i, a, shape). i = srv_id server \<and> endpoint server = Inr (a, shape))
          (server # catalog) ((srv_id server, a, shape) # new)"
    using e by simp
  with d show ?case by blast
qed auto

lemma envelope_new_spec:
  assumes "envelope_new catalog requested effective_policy = Inr env"
  shows "pi_enable requested \<and> effective_policy = Hold \<and> env_interface env = requested
    \<and> distinct (map fst (env_candidates env))
    \<and> 2 \<le> length (env_candidates env) \<and> length (env_candidates env) \<le> 64
    \<and> list_all2 (\<lambda>server (i, a, shape). i = srv_id server \<and> endpoint server = Inr (a, shape))
        catalog (env_candidates env)
    \<and> (\<exists>captures. parse_captures (pi_list requested) = Inr captures
         \<and> (pi_routes requested = ListMode \<longrightarrow> captures \<noteq> [] \<and> \<not> captured captures (env_candidates env)))"
proof -
  from assms obtain captures candidates where env: "env = \<lparr>env_interface = requested, env_candidates = candidates\<rparr>"
    and g: "pi_enable requested" "effective_policy = Hold"
      "2 \<le> length candidates" "length candidates \<le> 64"
    and p: "parse_captures (pi_list requested) = Inr captures"
    and c: "collect_candidates catalog [] = Inr candidates"
    and l: "pi_routes requested = ListMode \<longrightarrow> captures \<noteq> [] \<and> \<not> captured captures candidates"
    by (auto simp: envelope_new_def and_then_Inr_iff split: if_splits)
  from collect_candidates_spec [OF c] env g p l show ?thesis by auto
qed

lemma filter_unique:
  "distinct (map f xs) \<Longrightarrow> x \<in> set xs \<Longrightarrow> filter (\<lambda>y. f y = f x) xs = [x]"
proof (induction xs)
  case (Cons y xs)
  show ?case
  proof (cases "x = y")
    case True
    have "filter (\<lambda>z. f z = f y) xs = []"
      using Cons.prems(1) by (auto simp: filter_empty_conv) (metis image_eqI)
    with True show ?thesis by simp
  next
    case False
    with Cons.prems have "f y \<noteq> f x" "x \<in> set xs" by auto
    with Cons show ?thesis by simp
  qed
qed simp

lemma env_addresses_set: "set (env_addresses env) = (\<lambda>c. fst (snd c)) ` set (env_candidates env)"
proof -
  have "set (foldl (\<lambda>addresses (_, address, _). if address \<notin> set addresses then addresses @ [address] else addresses)
          acc cs) = set acc \<union> (\<lambda>c. fst (snd c)) ` set cs" for acc and cs :: "(string \<times> ipv4 \<times> string) list"
  proof (induction cs arbitrary: acc)
    case (Cons c cs)
    obtain i a shape where "c = (i, a, shape)" by (cases c)
    with Cons [of "acc @ [a]"] Cons [of acc] show ?case by (simp add: insert_absorb)
  qed simp
  then show ?thesis by (simp add: env_addresses_def)
qed

lemma captures_wf: "parse_captures texts = Inr captures \<Longrightarrow> c \<in> set captures \<Longrightarrow> c_prefix c \<le> 32"
proof -
  assume p: "parse_captures texts = Inr captures" and c: "c \<in> set captures"
  from p have "list_all2 (\<lambda>x y. (case cidr_from_str x of Inl e \<Rightarrow> Inl (BadCidr e) | Inr c \<Rightarrow> Inr c) = Inr y)
      texts captures"
    unfolding parse_captures_def try_map_Inr_iff .
  from list_all2_in2 [OF this c] obtain t
    where "(case cidr_from_str t of Inl e \<Rightarrow> Inl (BadCidr e) | Inr c \<Rightarrow> Inr c) = Inr c" ..
  then show ?thesis by (auto split: sum.splits dest: cidr_from_str_prefix)
qed

lemma parse_captures_total:
  "\<forall>t\<in>set texts. is_ok (cidr_from_str t) \<Longrightarrow> \<exists>captures. parse_captures texts = Inr captures"
  unfolding parse_captures_def
  by (induction texts) (auto simp: is_ok_iff)

lemma collect_candidates_error:
  "collect_candidates catalog acc = Inl e \<Longrightarrow>
   e = CandidateIds \<or> (\<exists>server\<in>set catalog. endpoint server = Inl e)"
proof (induction catalog arbitrary: acc)
  case (Cons server catalog)
  then show ?case
    by (cases "endpoint server") (auto simp: ensure_Inl_iff split: prod.splits)
qed simp

section \<open>Properties\<close>

text \<open>an envelope accepts the catalog it was built from, candidate by candidate and as a whole,
and the interface it was built for; so nothing is refused later unless something changed.\<close>

theorem envelope_accepts_itself:
  assumes "envelope_new catalog requested effective_policy = Inr env"
  shows "validate_candidates env catalog = Inr ()
    \<and> (\<forall>server\<in>set catalog. validate_candidate env server = Inr () \<and> env_contains env (srv_id server))
    \<and> validate_interface env requested effective_policy = Inr ()"
proof -
  note spec = envelope_new_spec [OF assms]
  let ?R = "\<lambda>server (i, a, shape). i = srv_id server \<and> endpoint server = Inr (a, shape)"
  from spec have all: "list_all2 ?R catalog (env_candidates env)"
    and d: "distinct (map fst (env_candidates env))" by auto
  have ids: "map srv_id catalog = map fst (env_candidates env)"
    using all by (induction rule: list_all2_induct) auto
  have dc: "distinct (map srv_id catalog)" using d ids by simp
  have one: "validate_candidate env server = Inr () \<and> env_contains env (srv_id server)"
    if s: "server \<in> set catalog" for server
  proof -
    from list_all2_in1 [OF all s] obtain c where c: "c \<in> set (env_candidates env)" "?R server c" ..
    obtain i a shape where ci: "c = (i, a, shape)" by (cases c)
    have "\<exists>c\<in>set (env_candidates env). fst c = srv_id server" using c ci by force
    from find_ex [OF this] obtain f where
      f: "List.find (\<lambda>candidate. fst candidate = srv_id server) (env_candidates env) = Some f" ..
    from find_SomeD [OF f] c ci d have "f = c" by (metis (mono_tags, lifting) case_prodD eq_key_imp_eq_value fst_conv surj_pair)
    with f c ci show ?thesis
      by (force simp: validate_candidate_def env_contains_def list_ex_iff)
  qed
  have "validate_candidates env catalog = Inr ()"
    unfolding validate_candidates_def check_all_ok_iff
  proof
    fix c assume "c \<in> set (env_candidates env)"
    from list_all2_in2 [OF all this] obtain server where s: "server \<in> set catalog" "?R server c" ..
    with filter_unique [OF dc s(1)]
    show "(case c of (i, address, shape) \<Rightarrow>
        case filter (\<lambda>server. srv_id server = i) catalog of
          [server] \<Rightarrow> and_then (endpoint server)
            (\<lambda>current. ensure (current = (address, shape)) CandidateChanged (Inr ()))
        | _ \<Rightarrow> Inl CandidateMissing) = Inr ()"
      by (auto split: prod.splits)
  qed
  with one spec show ?thesis by (auto simp: validate_interface_def)
qed

text \<open>an admitted candidate dials where the routes were planned: whatever server later passes
\<open>validate_candidate\<close> has a literal unicast address, neither loopback nor link-local, that is one
of the addresses of the envelope, and no raw patch or composite outbound hides behind it.\<close>

theorem envelope_admits_planned_address:
  assumes "envelope_new catalog requested effective_policy = Inr env"
    and "validate_candidate env server = Inr ()"
  shows "\<exists>a\<in>set (env_addresses env). parse_ipv4 (srv_address server) = Some a \<and> dialable a
    \<and> env_contains env (srv_id server) \<and> srv_outbound_patch server = None
    \<and> (\<forall>x y z w. srv_spec server \<noteq> XrayProfile x y z w)"
proof -
  from assms(2) obtain i a shape where
    f: "List.find (\<lambda>candidate. fst candidate = srv_id server) (env_candidates env) = Some (i, a, shape)"
    and e: "endpoint server = Inr (a, shape)"
    by (auto simp: validate_candidate_def or_bail_Inr_iff and_then_Inr_iff split: prod.splits)
  from find_SomeD [OF f] have c: "(i, a, shape) \<in> set (env_candidates env)" "i = srv_id server" by auto
  then have "a \<in> set (env_addresses env)" by (force simp: env_addresses_set)
  moreover have "env_contains env (srv_id server)" using c by (force simp: env_contains_def list_ex_iff)
  ultimately show ?thesis using endpoint_dialable [OF e] endpoint_plain [OF e] by blast
qed

text \<open>an envelope can be routed: planning the failover routes for its interface and its addresses
never meets the capture conflict or an empty list; the only thing that can still be missing is the
host's default gateway.\<close>

theorem envelope_routes_plan:
  assumes "envelope_new catalog requested effective_policy = Inr env"
    and "parse_captures (pi_list requested) = Inr captures"
    and "in_mode input = pi_routes requested" and "in_list input = captures"
    and "in_servers input = env_addresses env" and "in_gateway input \<noteq> None"
  shows "is_ok (plan_failover_routes input)"
proof -
  note spec = envelope_new_spec [OF assms(1)]
  have ne: "env_addresses env \<noteq> []"
  proof -
    have "env_candidates env \<noteq> []" using spec by auto
    then have "set (env_addresses env) \<noteq> {}" unfolding env_addresses_set by simp
    then show ?thesis by auto
  qed
  show ?thesis
  proof (cases "pi_routes requested")
    case Manual
    then show ?thesis using assms
      by (simp add: plan_failover_routes_def plan_routes_def)
  next
    case DefaultMode
    then show ?thesis using assms ne
      by (auto simp: plan_failover_routes_def plan_routes_def)
  next
    case ListMode
    with spec assms(2) have l: "captures \<noteq> []" "\<not> captured captures (env_candidates env)" by auto
    obtain g where g: "in_gateway input = Some g" using assms(6) by auto
    have "\<not> (c_prefix c = 32 \<and> c_address c = a)"
      if "a \<in> set (env_addresses env)" "c \<in> set captures" for a c
      using l(2) that by (force simp: env_addresses_set captured_def list_ex_iff)
    then have "is_ok (bypass_loop captures g [] (env_addresses env))"
      unfolding bypass_loop_ok_iff by blast
    then show ?thesis using ListMode assms l g
      by (auto simp: plan_failover_routes_def plan_routes_def is_ok_iff)
  qed
qed

section \<open>Witnesses\<close>

definition sample_server :: "string \<Rightarrow> ipv4 \<Rightarrow> unit server" where
  "sample_server i a =
     \<lparr>srv_id = i, srv_name = i, srv_protocol = PShadowsocks, srv_address = show_ipv4 a, srv_port = 443,
      srv_transport_label = [], srv_country = None, srv_spec = Shadowsocks [] [], srv_link = None,
      srv_alias = None, srv_outbound_patch = None, srv_overrides = None, srv_latency_ms = None\<rparr>"

definition sample_catalog :: "unit server list" where
  "sample_catalog = [sample_server ''1'' (Ipv4 203 0 113 7), sample_server ''2'' (Ipv4 203 0 113 8)]"

definition sample_interface :: profile_interface where
  "sample_interface =
     \<lparr>pi_enable = True, pi_device = [], pi_address = [], pi_mtu = 1500, pi_routes = DefaultMode, pi_list = []\<rparr>"

definition sample_envelope :: tun_envelope where
  "sample_envelope =
     \<lparr>env_interface = sample_interface,
      env_candidates = [(''1'', Ipv4 203 0 113 7, ''shadowsocks''), (''2'', Ipv4 203 0 113 8, ''shadowsocks'')]\<rparr>"

lemma sample_endpoint:
  "dialable a \<Longrightarrow> endpoint (sample_server i a) = Inr (a, ''shadowsocks'')"
  by (simp add: endpoint_def sample_server_def parse_show_ipv4 kind_and_stream_def endpoint_shape_def)

lemma sample_envelope_new: "envelope_new sample_catalog sample_interface Hold = Inr sample_envelope"
proof -
  have d: "dialable (Ipv4 203 0 113 7)" "dialable (Ipv4 203 0 113 8)"
    by (simp_all add: dialable_def is_loopback_def is_link_local_def is_broadcast_def)
  have i: "srv_id (sample_server i a) = i" for i a by (simp add: sample_server_def)
  show ?thesis
    by (simp add: envelope_new_def sample_interface_def sample_catalog_def sample_envelope_def
        parse_captures_def sample_endpoint [OF d(1)] sample_endpoint [OF d(2)] i sample_trim)
qed

theorem envelope_accepts_itself_witness:
  "validate_candidates sample_envelope sample_catalog = Inr ()
   \<and> validate_candidate sample_envelope (sample_server ''2'' (Ipv4 203 0 113 8)) = Inr ()"
  using envelope_accepts_itself [OF sample_envelope_new] by (simp add: sample_catalog_def)

theorem envelope_admits_planned_address_witness:
  "\<exists>a\<in>set (env_addresses sample_envelope). dialable a"
proof -
  have "validate_candidate sample_envelope (sample_server ''2'' (Ipv4 203 0 113 8)) = Inr ()"
    by (simp add: validate_candidate_def sample_envelope_def sample_endpoint dialable_def
        is_loopback_def is_link_local_def is_broadcast_def) (simp add: sample_server_def)
  from envelope_admits_planned_address [OF sample_envelope_new this] show ?thesis by blast
qed

theorem envelope_routes_plan_witness:
  "is_ok (plan_failover_routes
     \<lparr>in_table = 1, in_mark = 1, in_mode = DefaultMode, in_list = [],
      in_servers = env_addresses sample_envelope, in_gateway = Some (Ipv4 192 0 2 1), in_connected = []\<rparr>)"
  by (rule envelope_routes_plan [OF sample_envelope_new, of "[]"])
     (simp_all add: sample_interface_def parse_captures_def)

end
