(* ===== verification/Routing.thy ===== *)
theory Routing
  imports Rust_Text
begin

text \<open>
  The routing block a profile carries: \<open>crates/oxidom-core/src/xray/routing.rs\<close>.

  JSON values belong to \<open>serde_json\<close>; a value is of an unknown type \<open>'j\<close> and the parts of
  the library the code calls are the record \<open>'j json\<close>, an argument of every definition: the
  parser, the views \<open>as_object\<close>, \<open>as_array\<close> and \<open>as_str\<close>. An object is the list of its
  entries. The lemmas say what a block that passed the check can and cannot do.
\<close>

record 'j json =
  js_parse :: "string \<Rightarrow> 'j option"
  js_object :: "'j \<Rightarrow> (string \<times> 'j) list option"
  js_array :: "'j \<Rightarrow> 'j list option"
  js_str :: "'j \<Rightarrow> string option"

definition contains_key :: "(string \<times> 'j) list \<Rightarrow> string \<Rightarrow> bool" where
  "contains_key entries key = (map_of entries key \<noteq> None)"

definition always_present :: "string list" where
  "always_present = [''direct'', ''block'']"

definition single_server_tag :: string where
  "single_server_tag = ''proxy''"

datatype shape = SingleServer | PoolShape

datatype routing_error =
    NotJson | NotObject | CarriesBalancers | CarriesDomainStrategy | RulesNotArray
  | RuleNotObject nat | RuleBalancer nat | RuleNoTag nat | RuleTagNotString nat
  | RulePoolProxy nat | RuleUnknownTag nat string

definition check_tag :: "string \<Rightarrow> nat \<Rightarrow> shape \<Rightarrow> routing_error + unit" where
  "check_tag tag place shape =
     (if tag \<in> set always_present then Inr ()
      else if tag = single_server_tag
      then (case shape of SingleServer \<Rightarrow> Inr () | PoolShape \<Rightarrow> Inl (RulePoolProxy place))
      else Inl (RuleUnknownTag place tag))"

definition check_rule :: "'j json \<Rightarrow> 'j \<Rightarrow> nat \<Rightarrow> shape \<Rightarrow> routing_error + unit" where
  "check_rule J rule index shape =
     (let position = index + 1
      in or_bail (js_object J rule) (RuleNotObject position) (\<lambda>entries.
           ensure (\<not> contains_key entries ''balancerTag'') (RuleBalancer position)
             (or_bail (map_of entries ''outboundTag'') (RuleNoTag position) (\<lambda>value.
               or_bail (js_str J value) (RuleTagNotString position) (\<lambda>tag. check_tag tag position shape)))))"

definition routing_validate :: "'j json \<Rightarrow> string \<Rightarrow> shape \<Rightarrow> routing_error + 'j" where
  "routing_validate J raw shape =
     or_bail (js_parse J (trim raw)) NotJson (\<lambda>value.
       or_bail (js_object J value) NotObject (\<lambda>entries.
         ensure (\<not> contains_key entries ''balancers'') CarriesBalancers
           (ensure (\<not> contains_key entries ''domainStrategy'') CarriesDomainStrategy
             (and_then
               (case map_of entries ''rules'' of
                  None \<Rightarrow> Inr []
                | Some v \<Rightarrow> (case js_array J v of Some rules \<Rightarrow> Inr rules | None \<Rightarrow> Inl RulesNotArray))
               (\<lambda>rules. and_then
                  (check_all (\<lambda>(index, rule). check_rule J rule index shape)
                     (zip [0..<length rules] rules))
                  (\<lambda>_. Inr value))))))"

definition routing_parts :: "'j json \<Rightarrow> 'j \<Rightarrow> 'j list \<times> (string \<times> 'j) list" where
  "routing_parts J block =
     (case js_object J block of
        None \<Rightarrow> ([], [])
      | Some entries \<Rightarrow>
          ((case map_of entries ''rules'' of
              None \<Rightarrow> []
            | Some v \<Rightarrow> (case js_array J v of Some rules \<Rightarrow> rules | None \<Rightarrow> [])),
           filter (\<lambda>(key, _). key \<noteq> ''rules'') entries))"

definition rule_count :: "'j json \<Rightarrow> string \<Rightarrow> nat option" where
  "rule_count J raw =
     (case js_parse J (trim raw) of
        None \<Rightarrow> None
      | Some value \<Rightarrow>
          (case js_object J value of
             None \<Rightarrow> None
           | Some entries \<Rightarrow>
               Some (case map_of entries ''rules'' of
                       None \<Rightarrow> 0
                     | Some v \<Rightarrow> (case js_array J v of Some rules \<Rightarrow> length rules | None \<Rightarrow> 0))))"

section \<open>Lemmas\<close>

text \<open>The outbounds a session of each shape generates.\<close>

fun generated_tags :: "shape \<Rightarrow> string set" where
  "generated_tags SingleServer = {''direct'', ''block'', ''proxy''}"
| "generated_tags PoolShape = {''direct'', ''block''}"

definition rule_ok :: "'j json \<Rightarrow> shape \<Rightarrow> 'j \<Rightarrow> bool" where
  "rule_ok J shape rule =
     (case js_object J rule of
        None \<Rightarrow> False
      | Some entries \<Rightarrow>
          map_of entries ''balancerTag'' = None
          \<and> (case map_of entries ''outboundTag'' of
               None \<Rightarrow> False
             | Some v \<Rightarrow> (case js_str J v of None \<Rightarrow> False | Some tag \<Rightarrow> tag \<in> generated_tags shape)))"

lemma check_tag_ok_iff: "check_tag tag n shape = Inr () \<longleftrightarrow> tag \<in> generated_tags shape"
  by (cases shape) (auto simp: check_tag_def always_present_def single_server_tag_def)

lemma check_rule_ok_iff: "check_rule J rule index shape = Inr () \<longleftrightarrow> rule_ok J shape rule"
  by (auto simp: check_rule_def rule_ok_def Let_def or_bail_Inr_iff contains_key_def check_tag_ok_iff
      split: option.splits)

lemma ball_zip_snd: "length xs = length ys \<Longrightarrow> (\<forall>x\<in>set (zip xs ys). P (snd x)) \<longleftrightarrow> (\<forall>y\<in>set ys. P y)"
  by (induction rule: list_induct2) auto

lemma check_rules_ok_iff:
  "check_all (\<lambda>(index, rule). check_rule J rule index shape) (zip [0..<length rules] rules) = Inr ()
   \<longleftrightarrow> (\<forall>rule\<in>set rules. rule_ok J shape rule)"
proof -
  have len: "length [0..<length rules] = length rules" by simp
  show ?thesis
    using ball_zip_snd [OF len, of "rule_ok J shape"]
    by (simp add: check_all_ok_iff check_rule_ok_iff split_beta)
qed

definition block_rules :: "'j json \<Rightarrow> (string \<times> 'j) list \<Rightarrow> 'j list option" where
  "block_rules J entries =
     (case map_of entries ''rules'' of None \<Rightarrow> Some [] | Some v \<Rightarrow> js_array J v)"

lemma rules_of_block:
  "(case map_of entries ''rules'' of
      None \<Rightarrow> Inr []
    | Some v \<Rightarrow> (case js_array J v of Some rules \<Rightarrow> Inr rules | None \<Rightarrow> Inl RulesNotArray)) = Inr rules
   \<longleftrightarrow> block_rules J entries = Some rules"
  by (auto simp: block_rules_def split: option.splits)

lemma routing_validate_iff:
  "routing_validate J raw shape = Inr value \<longleftrightarrow>
   js_parse J (trim raw) = Some value
   \<and> (\<exists>entries rules. js_object J value = Some entries
        \<and> map_of entries ''balancers'' = None \<and> map_of entries ''domainStrategy'' = None
        \<and> block_rules J entries = Some rules \<and> (\<forall>rule\<in>set rules. rule_ok J shape rule))"
  by (auto simp: routing_validate_def or_bail_Inr_iff and_then_Inr_iff contains_key_def
      rules_of_block check_rules_ok_iff)

lemma pool_rule_single: "rule_ok J PoolShape rule \<Longrightarrow> rule_ok J SingleServer rule"
  by (auto simp: rule_ok_def split: option.splits)

lemma filter_no_key: "map_of entries k = None \<Longrightarrow> filter (\<lambda>(key, _). key \<noteq> k) entries = entries"
  by (induction entries) (auto split: if_splits)

section \<open>Properties\<close>

text \<open>a block that is accepted cannot leave the tunnel by a balancer or name an outbound that is
not generated: validation succeeds exactly on a JSON object without \<open>balancers\<close> and
\<open>domainStrategy\<close> whose rules are all objects with an \<open>outboundTag\<close> the session's shape
generates and no \<open>balancerTag\<close>, and what is spliced into the configuration are exactly those
rules and the other keys, the two refused ones never among them.\<close>

theorem routing_validate_exact:
  shows "(is_ok (routing_validate J raw shape) \<longleftrightarrow>
            (\<exists>value entries rules. js_parse J (trim raw) = Some value \<and> js_object J value = Some entries
               \<and> map_of entries ''balancers'' = None \<and> map_of entries ''domainStrategy'' = None
               \<and> block_rules J entries = Some rules \<and> (\<forall>rule\<in>set rules. rule_ok J shape rule)))
    \<and> (routing_validate J raw shape = Inr value \<longrightarrow>
         (\<forall>rule\<in>set (fst (routing_parts J value)). rule_ok J shape rule)
         \<and> rule_count J raw = Some (length (fst (routing_parts J value)))
         \<and> fst ` set (snd (routing_parts J value)) \<inter> {''balancers'', ''domainStrategy'', ''rules''} = {})"
proof
  show "is_ok (routing_validate J raw shape) \<longleftrightarrow>
            (\<exists>value entries rules. js_parse J (trim raw) = Some value \<and> js_object J value = Some entries
               \<and> map_of entries ''balancers'' = None \<and> map_of entries ''domainStrategy'' = None
               \<and> block_rules J entries = Some rules \<and> (\<forall>rule\<in>set rules. rule_ok J shape rule))"
    unfolding is_ok_iff routing_validate_iff by blast
  show "routing_validate J raw shape = Inr value \<longrightarrow>
         (\<forall>rule\<in>set (fst (routing_parts J value)). rule_ok J shape rule)
         \<and> rule_count J raw = Some (length (fst (routing_parts J value)))
         \<and> fst ` set (snd (routing_parts J value)) \<inter> {''balancers'', ''domainStrategy'', ''rules''} = {}"
  proof
    assume "routing_validate J raw shape = Inr value"
    then obtain entries rules where p: "js_parse J (trim raw) = Some value" "js_object J value = Some entries"
      and k: "map_of entries ''balancers'' = None" "map_of entries ''domainStrategy'' = None"
      and r: "block_rules J entries = Some rules" "\<forall>rule\<in>set rules. rule_ok J shape rule"
      unfolding routing_validate_iff by blast
    have "fst (routing_parts J value) = rules"
      using p r(1) by (auto simp: routing_parts_def block_rules_def split: option.splits)
    moreover have "rule_count J raw = Some (length rules)"
      using p r(1) by (auto simp: rule_count_def block_rules_def split: option.splits)
    moreover have "fst ` set (snd (routing_parts J value)) \<inter> {''balancers'', ''domainStrategy'', ''rules''} = {}"
      using p k by (auto simp: routing_parts_def map_of_eq_None_iff image_iff)
    ultimately show "(\<forall>rule\<in>set (fst (routing_parts J value)). rule_ok J shape rule)
         \<and> rule_count J raw = Some (length (fst (routing_parts J value)))
         \<and> fst ` set (snd (routing_parts J value)) \<inter> {''balancers'', ''domainStrategy'', ''rules''} = {}"
      using r(2) by simp
  qed
qed

text \<open>a pool is the stricter case: a block a pool accepts is accepted, with the same value, for a
single server, so switching a profile from a pool to a server never invalidates its block.\<close>

theorem routing_pool_stricter:
  assumes "routing_validate J raw PoolShape = Inr value"
  shows "routing_validate J raw SingleServer = Inr value"
proof -
  from assms obtain entries rules where p: "js_parse J (trim raw) = Some value" "js_object J value = Some entries"
    and k: "map_of entries ''balancers'' = None" "map_of entries ''domainStrategy'' = None"
    and r: "block_rules J entries = Some rules" "\<forall>rule\<in>set rules. rule_ok J PoolShape rule"
    unfolding routing_validate_iff by blast
  from r(2) have "\<forall>rule\<in>set rules. rule_ok J SingleServer rule" by (simp add: pool_rule_single)
  with p k r(1) show ?thesis unfolding routing_validate_iff by simp
qed

section \<open>Witnesses\<close>

text \<open>A tiny instance of the JSON interface: values are numbers, the text \<open>{}\<close> is the empty object.\<close>

definition tiny_json :: "nat json" where
  "tiny_json =
     \<lparr>js_parse = (\<lambda>s. if s = ''{}'' then Some 0 else None),
      js_object = (\<lambda>v. if v = 0 then Some [] else None), js_array = (\<lambda>_. None), js_str = (\<lambda>_. None)\<rparr>"

lemma trim_braces: "trim ''{}'' = ''{}''"
proof -
  have "ws_start ''{}'' = 0" by (simp add: ws_start_def)
  then have "trim_start ''{}'' = ''{}''" by (subst trim_start.simps) simp
  moreover have "ws_end ''{}'' = 0" by (simp add: ws_end_def ws_start_def)
  then have "trim_end ''{}'' = ''{}''" by (subst trim_end.simps) simp
  ultimately show ?thesis by (simp add: trim_def)
qed

lemma tiny_valid: "routing_validate tiny_json ''{}'' PoolShape = Inr 0"
  by (simp add: routing_validate_def tiny_json_def trim_braces contains_key_def)

theorem routing_validate_exact_witness: "rule_count tiny_json ''{}'' = Some (length (fst (routing_parts tiny_json 0)))"
  using routing_validate_exact [of tiny_json "''{}''" PoolShape 0] tiny_valid by simp

theorem routing_pool_stricter_witness: "routing_validate tiny_json ''{}'' SingleServer = Inr 0"
  by (rule routing_pool_stricter) (rule tiny_valid)

end
