(* ===== verification/Core_Options.thy ===== *)
theory Core_Options
  imports Rust_Text
begin

text \<open>
  Core settings and their two levels: \<open>crates/oxidom-core/src/core_options.rs\<close>.

  \<open>usable\<close> is \<open>usable_pool_probe\<close>, whose URL parser is the \<open>url\<close> crate. The lemmas
  show that resolving is field-by-field precedence (the abstract \<open>overlay\<close> of the two levels)
  and that two levels that were accepted resolve to settings the core takes.
\<close>

section \<open>Settings\<close>

datatype log_level = LvDebug | LvInfo | LvWarning | LvError | LvSilent
datatype domain_strategy = AsIs | IpIfNonMatch | IpOnDemand
datatype dest_override = DestHttp | DestTls | DestQuic
datatype xudp_mode = XudpReject | XudpAllow | XudpSkip
datatype query_strategy = UseIp | UseIpv4 | UseIpv6
datatype noise_kind = NoiseRand | NoiseStr | NoiseBase64

fun log_level_as_xray :: "log_level \<Rightarrow> string" where
  "log_level_as_xray LvDebug = ''debug''"
| "log_level_as_xray LvInfo = ''info''"
| "log_level_as_xray LvWarning = ''warning''"
| "log_level_as_xray LvError = ''error''"
| "log_level_as_xray LvSilent = ''none''"

fun domain_strategy_as_xray :: "domain_strategy \<Rightarrow> string" where
  "domain_strategy_as_xray AsIs = ''AsIs''"
| "domain_strategy_as_xray IpIfNonMatch = ''IPIfNonMatch''"
| "domain_strategy_as_xray IpOnDemand = ''IPOnDemand''"

fun dest_override_as_xray :: "dest_override \<Rightarrow> string" where
  "dest_override_as_xray DestHttp = ''http''"
| "dest_override_as_xray DestTls = ''tls''"
| "dest_override_as_xray DestQuic = ''quic''"

fun xudp_mode_as_xray :: "xudp_mode \<Rightarrow> string" where
  "xudp_mode_as_xray XudpReject = ''reject''"
| "xudp_mode_as_xray XudpAllow = ''allow''"
| "xudp_mode_as_xray XudpSkip = ''skip''"

fun query_strategy_as_xray :: "query_strategy \<Rightarrow> string" where
  "query_strategy_as_xray UseIp = ''UseIP''"
| "query_strategy_as_xray UseIpv4 = ''UseIPv4''"
| "query_strategy_as_xray UseIpv6 = ''UseIPv6''"

fun noise_kind_as_xray :: "noise_kind \<Rightarrow> string" where
  "noise_kind_as_xray NoiseRand = ''rand''"
| "noise_kind_as_xray NoiseStr = ''str''"
| "noise_kind_as_xray NoiseBase64 = ''base64''"

record noise =
  no_kind :: noise_kind
  no_packet :: string
  no_delay :: string

record sniffing_options =
  so_enabled :: "bool option"
  so_dest_override :: "dest_override list option"
  so_route_only :: "bool option"

record mux_options =
  mo_enabled :: "bool option"
  mo_concurrency :: "int option"
  mo_xudp_concurrency :: "int option"
  mo_xudp_proxy_udp_443 :: "xudp_mode option"

record fragment_options =
  fo_enabled :: "bool option"
  fo_packets :: "string option"
  fo_length :: "string option"
  fo_interval :: "string option"

record dns_options =
  do_server :: "string option"
  do_direct_server :: "string option"
  do_query_strategy :: "query_strategy option"

record core_options =
  co_log_level :: "log_level option"
  co_domain_strategy :: "domain_strategy option"
  co_sniffing :: sniffing_options
  co_mux :: mux_options
  co_fragment :: fragment_options
  co_noises :: "noise list option"
  co_dns :: dns_options
  co_pool_probe_url :: "string option"

definition core_options_default :: core_options where
  "core_options_default =
     \<lparr>co_log_level = None, co_domain_strategy = None,
      co_sniffing = \<lparr>so_enabled = None, so_dest_override = None, so_route_only = None\<rparr>,
      co_mux = \<lparr>mo_enabled = None, mo_concurrency = None, mo_xudp_concurrency = None,
                mo_xudp_proxy_udp_443 = None\<rparr>,
      co_fragment = \<lparr>fo_enabled = None, fo_packets = None, fo_length = None, fo_interval = None\<rparr>,
      co_noises = None,
      co_dns = \<lparr>do_server = None, do_direct_server = None, do_query_strategy = None\<rparr>,
      co_pool_probe_url = None\<rparr>"

definition core_is_unset :: "core_options \<Rightarrow> bool" where
  "core_is_unset c = (c = core_options_default)"

datatype origin = BuiltIn | Global | Profile

definition origin_of :: "'a option \<Rightarrow> 'a option \<Rightarrow> origin" where
  "origin_of global profile =
     (case (global, profile) of
        (_, Some _) \<Rightarrow> Profile
      | (Some _, None) \<Rightarrow> Global
      | (None, None) \<Rightarrow> BuiltIn)"

section \<open>Resolving\<close>

record resolved_sniffing =
  rs_enabled :: bool
  rs_dest_override :: "dest_override list"
  rs_route_only :: bool

record resolved_mux =
  rm_concurrency :: "int option"
  rm_xudp_concurrency :: "int option"
  rm_xudp_proxy_udp_443 :: "xudp_mode option"

record resolved_fragment =
  rfr_packets :: string
  rfr_length :: string
  rfr_interval :: string

record resolved_dialer =
  rd_fragment :: "resolved_fragment option"
  rd_noises :: "noise list"

record resolved_dns =
  rdns_server :: string
  rdns_direct_server :: "string option"
  rdns_query_strategy :: query_strategy

record 'j resolved_core =
  rc_log_level :: log_level
  rc_domain_strategy :: domain_strategy
  rc_sniffing :: resolved_sniffing
  rc_mux :: "resolved_mux option"
  rc_dialer :: "resolved_dialer option"
  rc_dns :: "resolved_dns option"
  rc_routing :: "'j option"
  rc_pool_probe :: string

definition or_else :: "'a option \<Rightarrow> 'a option \<Rightarrow> 'a option" where
  "or_else a b = (case a of Some _ \<Rightarrow> a | None \<Rightarrow> b)"

definition unwrap_or :: "'a option \<Rightarrow> 'a \<Rightarrow> 'a" where
  "unwrap_or a d = (case a of Some x \<Rightarrow> x | None \<Rightarrow> d)"

definition default_pool_probe :: string where
  "default_pool_probe = ''https://connectivitycheck.gstatic.com/generate_204''"

definition default_fragment_packets :: string where "default_fragment_packets = ''tlshello''"
definition default_fragment_length :: string where "default_fragment_length = ''100-200''"
definition default_fragment_interval :: string where "default_fragment_interval = ''10-20''"

definition pick :: "string option \<Rightarrow> string option \<Rightarrow> string \<Rightarrow> string" where
  "pick g p fallback = unwrap_or (or_else p g) fallback"

definition filter_opt :: "('a \<Rightarrow> bool) \<Rightarrow> 'a option \<Rightarrow> 'a option" where
  "filter_opt P a = (case a of Some x \<Rightarrow> if P x then Some x else None | None \<Rightarrow> None)"

definition resolve_core :: "(string \<Rightarrow> bool) \<Rightarrow> core_options \<Rightarrow> core_options \<Rightarrow> 'j resolved_core" where
  "resolve_core usable global profile =
     (let gf = co_fragment global; pf = co_fragment profile;
          fragment_on = unwrap_or (or_else (fo_enabled pf) (fo_enabled gf)) False;
          fragment = (if fragment_on
            then Some \<lparr>rfr_packets = pick (fo_packets gf) (fo_packets pf) default_fragment_packets,
                       rfr_length = pick (fo_length gf) (fo_length pf) default_fragment_length,
                       rfr_interval = pick (fo_interval gf) (fo_interval pf) default_fragment_interval\<rparr>
            else None);
          noises = unwrap_or (or_else (co_noises profile) (co_noises global)) [];
          dialer = (if fragment \<noteq> None \<or> noises \<noteq> []
            then Some \<lparr>rd_fragment = fragment, rd_noises = noises\<rparr> else None);
          gm = co_mux global; pm = co_mux profile;
          mux_on = unwrap_or (or_else (mo_enabled pm) (mo_enabled gm)) False;
          mux = (if mux_on
            then Some \<lparr>rm_concurrency = or_else (mo_concurrency pm) (mo_concurrency gm),
                       rm_xudp_concurrency = or_else (mo_xudp_concurrency pm) (mo_xudp_concurrency gm),
                       rm_xudp_proxy_udp_443 =
                         or_else (mo_xudp_proxy_udp_443 pm) (mo_xudp_proxy_udp_443 gm)\<rparr>
            else None);
          gd = co_dns global; pd = co_dns profile;
          dns = map_option (\<lambda>server.
            \<lparr>rdns_server = server,
             rdns_direct_server = or_else (do_direct_server pd) (do_direct_server gd),
             rdns_query_strategy =
               unwrap_or (or_else (do_query_strategy pd) (do_query_strategy gd)) UseIp\<rparr>)
            (or_else (do_server pd) (do_server gd));
          gs = co_sniffing global; ps = co_sniffing profile
      in \<lparr>rc_log_level = unwrap_or (or_else (co_log_level profile) (co_log_level global)) LvWarning,
          rc_domain_strategy =
            unwrap_or (or_else (co_domain_strategy profile) (co_domain_strategy global)) IpIfNonMatch,
          rc_sniffing =
            \<lparr>rs_enabled = unwrap_or (or_else (so_enabled ps) (so_enabled gs)) True,
             rs_dest_override =
               unwrap_or (or_else (so_dest_override ps) (so_dest_override gs)) [DestHttp, DestTls],
             rs_route_only = unwrap_or (or_else (so_route_only ps) (so_route_only gs)) False\<rparr>,
          rc_mux = mux, rc_dialer = dialer, rc_dns = dns, rc_routing = None,
          rc_pool_probe =
            unwrap_or (filter_opt usable
              (map_option trim (or_else (co_pool_probe_url profile) (co_pool_probe_url global))))
              default_pool_probe\<rparr>)"

section \<open>Validation\<close>

datatype core_error =
    BadConcurrency string int | NotRange string | BackwardsRange string | EmptyNoisePacket
  | BlankServer | BadPoolProbe | BlankDirectServer | DirectWithoutServer

definition max_mux_concurrency :: int where
  "max_mux_concurrency = 1024"

definition check_concurrency :: "string \<Rightarrow> int \<Rightarrow> core_error + unit" where
  "check_concurrency field value =
     ensure (value = -1 \<or> (1 \<le> value \<and> value \<le> max_mux_concurrency)) (BadConcurrency field value) (Inr ())"

definition check_range :: "string \<Rightarrow> string \<Rightarrow> core_error + unit" where
  "check_range field value =
     (case split_once CHR ''-'' value of
        None \<Rightarrow> or_bail (parse_u32 value) (NotRange field) (\<lambda>_. Inr ())
      | Some (lo, hi) \<Rightarrow>
          or_bail (parse_u32 lo) (NotRange field) (\<lambda>a.
            or_bail (parse_u32 hi) (NotRange field) (\<lambda>b.
              ensure (a \<le> b) (BackwardsRange field) (Inr ()))))"

text \<open>\<open>if let Some(x) = value { check(x)?; }\<close>\<close>

definition if_some :: "'a option \<Rightarrow> ('a \<Rightarrow> 'e + unit) \<Rightarrow> 'e + unit" where
  "if_some a f = (case a of None \<Rightarrow> Inr () | Some x \<Rightarrow> f x)"

lemma if_some_ok_iff: "if_some a f = Inr () \<longleftrightarrow> (\<forall>x. a = Some x \<longrightarrow> f x = Inr ())"
  by (auto simp: if_some_def split: option.splits)

definition core_validate :: "(string \<Rightarrow> bool) \<Rightarrow> core_options \<Rightarrow> core_error + unit" where
  "core_validate usable c =
     and_then (if_some (mo_concurrency (co_mux c)) (check_concurrency ''concurrency''))
     (\<lambda>_. and_then (if_some (mo_xudp_concurrency (co_mux c)) (check_concurrency ''xudp_concurrency''))
     (\<lambda>_. and_then (if_some (fo_packets (co_fragment c)) (\<lambda>packets.
            if packets \<noteq> default_fragment_packets then check_range ''fragment packets'' packets else Inr ()))
     (\<lambda>_. and_then (if_some (fo_length (co_fragment c)) (check_range ''fragment length''))
     (\<lambda>_. and_then (if_some (fo_interval (co_fragment c)) (check_range ''fragment interval''))
     (\<lambda>_. and_then (check_all (\<lambda>noise.
            ensure (no_packet noise \<noteq> []) EmptyNoisePacket (check_range ''noise delay'' (no_delay noise)))
            (unwrap_or (co_noises c) []))
     (\<lambda>_. and_then (if_some (do_server (co_dns c)) (\<lambda>server. ensure (trim server \<noteq> []) BlankServer (Inr ())))
     (\<lambda>_. and_then (if_some (co_pool_probe_url c) (\<lambda>url.
            ensure (trim url = [] \<or> usable (trim url)) BadPoolProbe (Inr ())))
     (\<lambda>_. if_some (do_direct_server (co_dns c)) (\<lambda>direct.
            ensure (trim direct \<noteq> []) BlankDirectServer
              (ensure (do_server (co_dns c) \<noteq> None) DirectWithoutServer (Inr ())))))))))))"

section \<open>Lemmas\<close>

lemma or_else_simps [simp]: "or_else (Some x) b = Some x" "or_else None b = b" "or_else a None = a"
  by (auto simp: or_else_def split: option.split)

lemma or_else_assoc: "or_else (or_else a b) c = or_else a (or_else b c)"
  by (cases a) auto

lemma or_else_Some: "or_else a b = Some x \<Longrightarrow> a = Some x \<or> b = Some x"
  by (cases a) auto

text \<open>The specification of two levels: one level in which every field is the upper one's when that sets
it and the lower one's otherwise.\<close>

definition overlay :: "core_options \<Rightarrow> core_options \<Rightarrow> core_options" where
  "overlay lower upper =
     \<lparr>co_log_level = or_else (co_log_level upper) (co_log_level lower),
      co_domain_strategy = or_else (co_domain_strategy upper) (co_domain_strategy lower),
      co_sniffing =
        (let l = co_sniffing lower; u = co_sniffing upper
         in \<lparr>so_enabled = or_else (so_enabled u) (so_enabled l),
             so_dest_override = or_else (so_dest_override u) (so_dest_override l),
             so_route_only = or_else (so_route_only u) (so_route_only l)\<rparr>),
      co_mux =
        (let l = co_mux lower; u = co_mux upper
         in \<lparr>mo_enabled = or_else (mo_enabled u) (mo_enabled l),
             mo_concurrency = or_else (mo_concurrency u) (mo_concurrency l),
             mo_xudp_concurrency = or_else (mo_xudp_concurrency u) (mo_xudp_concurrency l),
             mo_xudp_proxy_udp_443 = or_else (mo_xudp_proxy_udp_443 u) (mo_xudp_proxy_udp_443 l)\<rparr>),
      co_fragment =
        (let l = co_fragment lower; u = co_fragment upper
         in \<lparr>fo_enabled = or_else (fo_enabled u) (fo_enabled l),
             fo_packets = or_else (fo_packets u) (fo_packets l),
             fo_length = or_else (fo_length u) (fo_length l),
             fo_interval = or_else (fo_interval u) (fo_interval l)\<rparr>),
      co_noises = or_else (co_noises upper) (co_noises lower),
      co_dns =
        (let l = co_dns lower; u = co_dns upper
         in \<lparr>do_server = or_else (do_server u) (do_server l),
             do_direct_server = or_else (do_direct_server u) (do_direct_server l),
             do_query_strategy = or_else (do_query_strategy u) (do_query_strategy l)\<rparr>),
      co_pool_probe_url = or_else (co_pool_probe_url upper) (co_pool_probe_url lower)\<rparr>"

lemma overlay_default: "overlay c core_options_default = c" "overlay core_options_default c = c"
  by (auto simp: overlay_def core_options_default_def Let_def
      intro!: core_options.equality sniffing_options.equality mux_options.equality
        fragment_options.equality dns_options.equality)

lemma overlay_assoc: "overlay (overlay a b) c = overlay a (overlay b c)"
  by (simp add: overlay_def or_else_assoc Let_def)

text \<open>A range the core takes and acts on: a number, or two in ascending order.\<close>

definition good_range :: "string \<Rightarrow> bool" where
  "good_range value = is_ok (check_range [] value)"

lemma check_range_ok_iff: "check_range field value = Inr () \<longleftrightarrow> good_range value"
  by (auto simp: good_range_def check_range_def is_ok_iff or_bail_Inr_iff split: option.splits prod.splits)

lemma default_ranges: "good_range default_fragment_length" "good_range default_fragment_interval"
  by (simp_all add: good_range_def check_range_def default_fragment_length_def default_fragment_interval_def
      parse_u32_def parse_unsigned_def is_ascii_digit_def digit_value_def u32_max_def)

definition good_concurrency :: "int \<Rightarrow> bool" where
  "good_concurrency n = (n = -1 \<or> 1 \<le> n \<and> n \<le> 1024)"

text \<open>What a validated level promises, field by field.\<close>

definition level_ok :: "(string \<Rightarrow> bool) \<Rightarrow> core_options \<Rightarrow> bool" where
  "level_ok usable c =
     ((\<forall>n. mo_concurrency (co_mux c) = Some n \<longrightarrow> good_concurrency n)
      \<and> (\<forall>n. mo_xudp_concurrency (co_mux c) = Some n \<longrightarrow> good_concurrency n)
      \<and> (\<forall>p. fo_packets (co_fragment c) = Some p \<longrightarrow> p = default_fragment_packets \<or> good_range p)
      \<and> (\<forall>p. fo_length (co_fragment c) = Some p \<longrightarrow> good_range p)
      \<and> (\<forall>p. fo_interval (co_fragment c) = Some p \<longrightarrow> good_range p)
      \<and> (\<forall>ns. co_noises c = Some ns \<longrightarrow> (\<forall>n\<in>set ns. no_packet n \<noteq> [] \<and> good_range (no_delay n)))
      \<and> (\<forall>s. do_server (co_dns c) = Some s \<longrightarrow> trim s \<noteq> [])
      \<and> (\<forall>u. co_pool_probe_url c = Some u \<longrightarrow> trim u = [] \<or> usable (trim u))
      \<and> (\<forall>s. do_direct_server (co_dns c) = Some s \<longrightarrow> trim s \<noteq> [] \<and> do_server (co_dns c) \<noteq> None))"

lemma core_validate_iff: "core_validate usable c = Inr () \<longleftrightarrow> level_ok usable c"
proof -
  have conc: "check_concurrency field n = Inr () \<longleftrightarrow> good_concurrency n" for field n
    by (simp add: check_concurrency_def good_concurrency_def max_mux_concurrency_def)
  have noises: "check_all (\<lambda>noise. ensure (no_packet noise \<noteq> []) EmptyNoisePacket
        (check_range ''noise delay'' (no_delay noise))) (unwrap_or (co_noises c) []) = Inr ()
      \<longleftrightarrow> (\<forall>ns. co_noises c = Some ns \<longrightarrow> (\<forall>n\<in>set ns. no_packet n \<noteq> [] \<and> good_range (no_delay n)))"
    by (cases "co_noises c") (simp_all add: check_all_ok_iff check_range_ok_iff unwrap_or_def)
  have packets: "(if p \<noteq> default_fragment_packets then check_range ''fragment packets'' p else Inr ()) = Inr ()
      \<longleftrightarrow> p = default_fragment_packets \<or> good_range p" for p
    by (simp add: check_range_ok_iff)
  show ?thesis
    unfolding core_validate_def and_then_unit_iff level_ok_def noises
    by (simp only: if_some_ok_iff conc packets check_range_ok_iff ensure_Inr_iff) auto
qed

lemma overlay_level_ok: "level_ok usable g \<Longrightarrow> level_ok usable p \<Longrightarrow> level_ok usable (overlay g p)"
  unfolding level_ok_def overlay_def Let_def
  by (cases "do_server (co_dns p)"; cases "do_direct_server (co_dns p)") (auto dest!: or_else_Some)

lemma resolve_core_overlay':
  "resolve_core usable global profile = resolve_core usable core_options_default (overlay global profile)"
  unfolding resolve_core_def pick_def overlay_def core_options_default_def Let_def by simp

section \<open>Properties\<close>

text \<open>settings are resolved field by field, the profile over the machine over the built-in value:
resolving two levels is resolving their overlay over nothing, a level that sets nothing changes
nothing, and no setting a level leaves open is reset by it.\<close>

theorem resolve_core_overlay:
  "resolve_core usable global profile = resolve_core usable core_options_default (overlay global profile)
   \<and> resolve_core usable global core_options_default = resolve_core usable core_options_default global"
  using resolve_core_overlay' [of usable global core_options_default] resolve_core_overlay' overlay_default(1)
  by metis

text \<open>two levels that were accepted resolve to settings the core takes and acts on: concurrency in
range, every fragment and noise range ascending, a resolver that is not blank, a direct resolver only
beside it, and a health-check address that is usable whatever was configured.\<close>

theorem resolve_core_valid:
  assumes "core_validate usable global = Inr ()" and "core_validate usable profile = Inr ()"
    and "usable default_pool_probe"
  shows "let r = resolve_core usable global profile :: 'j resolved_core in
      (\<forall>m. rc_mux r = Some m \<longrightarrow>
         (\<forall>n. rm_concurrency m = Some n \<or> rm_xudp_concurrency m = Some n \<longrightarrow> good_concurrency n))
      \<and> (\<forall>d. rc_dialer r = Some d \<longrightarrow>
            (\<forall>f. rd_fragment d = Some f \<longrightarrow>
               (rfr_packets f = default_fragment_packets \<or> good_range (rfr_packets f))
               \<and> good_range (rfr_length f) \<and> good_range (rfr_interval f))
            \<and> (\<forall>n\<in>set (rd_noises d). no_packet n \<noteq> [] \<and> good_range (no_delay n))
            \<and> (rd_fragment d \<noteq> None \<or> rd_noises d \<noteq> []))
      \<and> (\<forall>d. rc_dns r = Some d \<longrightarrow> trim (rdns_server d) \<noteq> [])
      \<and> usable (rc_pool_probe r) \<and> rc_routing r = None"
proof -
  let ?r = "resolve_core usable global profile :: 'j resolved_core" and ?c = "overlay global profile"
  have ok: "level_ok usable ?c"
    using assms(1,2) by (simp add: core_validate_iff overlay_level_ok)
  have r: "(?r :: 'j resolved_core) = resolve_core usable core_options_default ?c" using resolve_core_overlay' by blast
  have "good_concurrency n" if "rc_mux ?r = Some m" "rm_concurrency m = Some n \<or> rm_xudp_concurrency m = Some n" for m n
    using that ok unfolding r
    by (auto simp: resolve_core_def Let_def core_options_default_def level_ok_def split: if_splits)
  moreover have "(\<forall>f. rd_fragment d = Some f \<longrightarrow>
               (rfr_packets f = default_fragment_packets \<or> good_range (rfr_packets f))
               \<and> good_range (rfr_length f) \<and> good_range (rfr_interval f))
            \<and> (\<forall>n\<in>set (rd_noises d). no_packet n \<noteq> [] \<and> good_range (no_delay n))
            \<and> (rd_fragment d \<noteq> None \<or> rd_noises d \<noteq> [])" if "rc_dialer ?r = Some d" for d
    using that ok default_ranges unfolding r
    by (auto simp: resolve_core_def Let_def core_options_default_def level_ok_def pick_def unwrap_or_def
        split: if_splits option.splits)
  moreover have "trim (rdns_server d) \<noteq> []" if "rc_dns ?r = Some d" for d
    using that ok unfolding r
    by (auto simp: resolve_core_def Let_def core_options_default_def level_ok_def)
  moreover have "usable (rc_pool_probe ?r)"
    using assms(3) by (auto simp: resolve_core_def Let_def unwrap_or_def filter_opt_def split: option.splits if_splits)
  moreover have "rc_routing ?r = None" by (simp add: resolve_core_def Let_def)
  ultimately show ?thesis unfolding Let_def by blast
qed

section \<open>Witnesses\<close>

theorem resolve_core_valid_witness:
  "rc_pool_probe (resolve_core (\<lambda>u. u = default_pool_probe) core_options_default core_options_default :: unit resolved_core) =
     default_pool_probe"
proof -
  have "core_validate (\<lambda>u. u = default_pool_probe) core_options_default = Inr ()"
    by (simp add: core_validate_iff level_ok_def core_options_default_def)
  from resolve_core_valid [OF this this, where 'j = unit] show ?thesis by (simp add: Let_def)
qed

end
