(* ===== verification/Profile.thy ===== *)
theory Profile
  imports Pool Envelope Routing Core_Options "HOL-Library.List_Lexorder"
begin

text \<open>
  Saved connection profiles: \<open>crates/oxidom-core/src/profile.rs\<close> (the data, \<open>validate\<close>,
  the naming rules) and the profile store below the configuration directory (\<open>list\<close>,
  \<open>load\<close>, \<open>save\<close>, \<open>remove\<close>, \<open>ensure_default\<close>).

  The store is the directory: file names with their bodies. TOML text is read and written by the
  \<open>toml\<close> crate, which is the pair of arguments \<open>from_toml\<close> and \<open>to_toml\<close>; a disk that
  fails is not modelled. The JSON interface \<open>J\<close> and \<open>usable\<close> are those of \<open>Routing\<close> and
  \<open>Core_Options\<close>.
\<close>

section \<open>Data\<close>

record profile_select =
  ps_server :: string
  ps_pool :: "pool_query option"

record profile_proxy =
  px_socks_port :: nat
  px_http_port :: nat

record profile =
  pr_description :: string
  pr_select :: profile_select
  pr_proxy :: profile_proxy
  pr_interface :: profile_interface
  pr_core :: core_options
  pr_on_core_exit :: "on_core_exit option"
  pr_routing :: "string option"
  pr_failover :: "policy option"

definition profile_default :: profile where
  "profile_default =
     \<lparr>pr_description = [], pr_select = \<lparr>ps_server = [], ps_pool = None\<rparr>,
      pr_proxy = \<lparr>px_socks_port = 10808, px_http_port = 10809\<rparr>,
      pr_interface = \<lparr>pi_enable = False, pi_device = [], pi_address = [], pi_mtu = 0,
                      pi_routes = Manual, pi_list = []\<rparr>,
      pr_core = core_options_default, pr_on_core_exit = None, pr_routing = None, pr_failover = None\<rparr>"

text \<open>The request-only guard an editor sends along.\<close>

record expectation =
  ex_select :: profile_select
  ex_failover :: "policy option"

definition expectation_of :: "profile \<Rightarrow> expectation" where
  "expectation_of p = \<lparr>ex_select = pr_select p, ex_failover = pr_failover p\<rparr>"

section \<open>Validation\<close>

datatype profile_error =
    PFailover failover_error | FailoverNeedsServer | FailoverNeedsHold | FailoverRouting
  | ServerAndPool | ListWithFilters | TooManyMembers | PoolMaxRange | BadProbeInterval
  | PRouting routing_error | PortZero | PortsShared | PDevice device_error | PAddress | PMtu
  | RoutesNeedInterface | EmptyRouteList | PCidr cidr_error | PCore core_error
  | PReserved | PBadName | PNoFile | PParse | PSerialize

text \<open>An error of a callee seen through \<open>?\<close>.\<close>

definition lift_err :: "('e \<Rightarrow> 'f) \<Rightarrow> 'e + 'a \<Rightarrow> 'f + 'a" where
  "lift_err f r = (case r of Inl e \<Rightarrow> Inl (f e) | Inr x \<Rightarrow> Inr x)"

lemma lift_err_Inr_iff [simp]: "lift_err f r = Inr x \<longleftrightarrow> r = Inr x"
  by (cases r) (simp_all add: lift_err_def)

definition max_pool_members :: nat where
  "max_pool_members = 64"

definition valid_xray_duration :: "string \<Rightarrow> bool" where
  "valid_xray_duration v =
     (v \<noteq> [] \<and> last v \<in> {CHR ''s'', CHR ''m'', CHR ''h''} \<and> butlast v \<noteq> []
      \<and> list_all is_ascii_digit (butlast v))"

definition routing_block :: "'j json \<Rightarrow> profile \<Rightarrow> routing_error + 'j option" where
  "routing_block J p =
     (case pr_routing p of
        None \<Rightarrow> Inr None
      | Some raw \<Rightarrow>
          and_then (routing_validate J raw
              (if ps_pool (pr_select p) \<noteq> None then PoolShape else SingleServer))
            (\<lambda>v. Inr (Some v)))"

definition failover_check :: "profile \<Rightarrow> profile_error + unit" where
  "failover_check p =
     if_some (pr_failover p) (\<lambda>policy.
       and_then (lift_err PFailover (policy_validate policy)) (\<lambda>_.
         if pol_enabled policy
         then ensure (trim (ps_server (pr_select p)) \<noteq> [] \<and> ps_pool (pr_select p) = None) FailoverNeedsServer
           (ensure (\<not> (pi_enable (pr_interface p) \<and> pr_on_core_exit p = Some Release)) FailoverNeedsHold
             (ensure (\<not> (pi_enable (pr_interface p) \<and> pr_routing p \<noteq> None)) FailoverRouting (Inr ())))
         else Inr ()))"

definition pool_check :: "pool_query \<Rightarrow> profile_error + unit" where
  "pool_check q =
     ensure (\<not> (pool_kind q = PoolList \<and> has_filters q)) ListWithFilters
       (ensure (length (pq_members q) \<le> max_pool_members) TooManyMembers
         (ensure (pq_max q \<le> max_pool_members) PoolMaxRange
           (ensure (pq_probe_interval q = [] \<or> valid_xray_duration (pq_probe_interval q)) BadProbeInterval
             (Inr ()))))"

definition interface_check :: "string \<Rightarrow> profile_interface \<Rightarrow> profile_error + unit" where
  "interface_check name i =
     and_then
       (if pi_device i \<noteq> [] then lift_err PDevice (validate_device_name (pi_device i))
        else if pi_enable i then and_then (lift_err PDevice (device_name name)) (\<lambda>_. Inr ())
        else Inr ())
     (\<lambda>_. and_then
       (if pi_address i \<noteq> [] then or_bail (parse_ipv4 (pi_address i)) PAddress (\<lambda>_. Inr ()) else Inr ())
     (\<lambda>_. ensure (pi_mtu i = 0 \<or> (576 \<le> pi_mtu i \<and> pi_mtu i \<le> 65535)) PMtu
       (ensure (\<not> (pi_routes i \<noteq> Manual \<and> \<not> pi_enable i)) RoutesNeedInterface
         (if pi_routes i = ListMode
          then ensure (pi_list i \<noteq> []) EmptyRouteList
            (check_all (\<lambda>v. and_then (lift_err PCidr (cidr_from_str v)) (\<lambda>_. Inr ())) (pi_list i))
          else Inr ()))))"

definition profile_validate :: "'j json \<Rightarrow> (string \<Rightarrow> bool) \<Rightarrow> string \<Rightarrow> profile \<Rightarrow> profile_error + unit" where
  "profile_validate J usable name p =
     and_then (failover_check p)
     (\<lambda>_. ensure (\<not> (ps_server (pr_select p) \<noteq> [] \<and> ps_pool (pr_select p) \<noteq> None)) ServerAndPool
     (and_then (if_some (ps_pool (pr_select p)) pool_check)
     (\<lambda>_. and_then (lift_err PRouting (routing_block J p))
     (\<lambda>_. ensure (\<not> (px_socks_port (pr_proxy p) = 0 \<or> px_http_port (pr_proxy p) = 0)) PortZero
     (ensure (px_socks_port (pr_proxy p) \<noteq> px_http_port (pr_proxy p)) PortsShared
     (and_then (interface_check name (pr_interface p))
     (\<lambda>_. and_then (lift_err PCore (core_validate usable (pr_core p))) (\<lambda>_. Inr ()))))))))"

section \<open>Names\<close>

definition max_name_len :: nat where
  "max_name_len = 32"

definition reserved_names :: "string list" where
  "reserved_names =
     [''up'', ''connect-profile'', ''down'', ''disconnect'', ''status'', ''ip'', ''list'', ''ping'',
      ''alias'', ''profile'', ''core'', ''connect'', ''daemon'', ''gui'', ''run'', ''env'', ''tun'',
      ''trust'', ''server'']"

definition name_byte :: "char \<Rightarrow> bool" where
  "name_byte c = (is_ascii_lowercase c \<or> is_ascii_digit c \<or> c = CHR ''_'' \<or> c = CHR ''-'')"

definition valid_name :: "string \<Rightarrow> bool" where
  "valid_name n =
     (1 \<le> length n \<and> length n \<le> max_name_len
      \<and> (is_ascii_lowercase (hd n) \<or> is_ascii_digit (hd n)) \<and> list_all name_byte n)"

definition is_reserved :: "string \<Rightarrow> bool" where
  "is_reserved n = (n \<in> set reserved_names)"

section \<open>The store\<close>

type_synonym directory = "(string \<times> string) list"

definition toml_suffix :: string where
  "toml_suffix = ''.toml''"

text \<open>\<open>file_stem\<close> and \<open>extension\<close>: the part before and after the last dot, for a file name
that does not start with its only dot.\<close>

definition toml_stem :: "string \<Rightarrow> string option" where
  "toml_stem file =
     (if ends_with file toml_suffix \<and> length file > length toml_suffix
      then Some (take (length file - length toml_suffix) file) else None)"

definition profile_path :: "string \<Rightarrow> profile_error + string" where
  "profile_path name = ensure (valid_name name) PBadName (Inr (name @ toml_suffix))"

definition profile_names :: "directory \<Rightarrow> string list" where
  "profile_names dir =
     sort (filter valid_name (List.map_filter (\<lambda>(file, _). toml_stem file) dir))"

definition profile_load :: "(string \<Rightarrow> profile option) \<Rightarrow> directory \<Rightarrow> string \<Rightarrow> profile_error + profile" where
  "profile_load from_toml dir name =
     and_then (profile_path name) (\<lambda>path.
       or_bail (map_of dir path) PNoFile (\<lambda>body.
         or_bail (from_toml body) PParse Inr))"

definition profile_load_or_default ::
  "(string \<Rightarrow> profile option) \<Rightarrow> directory \<Rightarrow> string \<Rightarrow> profile_error + profile" where
  "profile_load_or_default from_toml dir name =
     and_then (profile_path name) (\<lambda>path.
       if map_of dir path = None then Inr profile_default else profile_load from_toml dir name)"

text \<open>The atomic write: the file is replaced where it is, or is new.\<close>

definition write_file :: "string \<Rightarrow> string \<Rightarrow> directory \<Rightarrow> directory" where
  "write_file path body dir = (path, body) # filter (\<lambda>(file, _). file \<noteq> path) dir"

definition profile_save ::
  "'j json \<Rightarrow> (string \<Rightarrow> bool) \<Rightarrow> (profile \<Rightarrow> string option) \<Rightarrow> string \<Rightarrow> profile \<Rightarrow> directory
     \<Rightarrow> profile_error + directory" where
  "profile_save J usable to_toml name p dir =
     ensure (\<not> is_reserved name) PReserved
       (and_then (profile_path name) (\<lambda>path.
         and_then (profile_validate J usable name p) (\<lambda>_.
           or_bail (to_toml p) PSerialize (\<lambda>body. Inr (write_file path body dir)))))"

definition profile_remove :: "string \<Rightarrow> directory \<Rightarrow> profile_error + (bool \<times> directory)" where
  "profile_remove name dir =
     and_then (profile_path name) (\<lambda>path.
       Inr (map_of dir path \<noteq> None, filter (\<lambda>(file, _). file \<noteq> path) dir))"

definition ensure_default ::
  "'j json \<Rightarrow> (string \<Rightarrow> bool) \<Rightarrow> (profile \<Rightarrow> string option) \<Rightarrow> string option \<Rightarrow> 'j server list
     \<Rightarrow> nat \<Rightarrow> nat \<Rightarrow> directory \<Rightarrow> profile_error + directory" where
  "ensure_default J usable to_toml active_id servers socks_port http_port dir =
     (if profile_names dir \<noteq> [] then Inr dir
      else
        let server =
              (case active_id of
                 None \<Rightarrow> []
               | Some i \<Rightarrow>
                   (case List.find (\<lambda>s. srv_id s = i) servers of
                      None \<Rightarrow> []
                    | Some s \<Rightarrow> (case srv_alias s of None \<Rightarrow> [] | Some a \<Rightarrow> a)));
            p = profile_default\<lparr>pr_select := \<lparr>ps_server = server, ps_pool = None\<rparr>,
                                pr_proxy := \<lparr>px_socks_port = socks_port, px_http_port = http_port\<rparr>\<rparr>
        in profile_save J usable to_toml default_profile p dir)"

section \<open>Lemmas\<close>

lemma failover_check_ok_iff:
  "failover_check p = Inr () \<longleftrightarrow>
   (\<forall>policy. pr_failover p = Some policy \<longrightarrow> policy_validate policy = Inr ()
      \<and> (pol_enabled policy \<longrightarrow> trim (ps_server (pr_select p)) \<noteq> [] \<and> ps_pool (pr_select p) = None
           \<and> (pi_enable (pr_interface p) \<longrightarrow> pr_on_core_exit p \<noteq> Some Release \<and> pr_routing p = None)))"
  by (cases "pr_failover p") (auto simp: failover_check_def if_some_def and_then_unit_iff)

definition interface_ok :: "string \<Rightarrow> profile_interface \<Rightarrow> bool" where
  "interface_ok name i =
     ((pi_device i \<noteq> [] \<longrightarrow> validate_device_name (pi_device i) = Inr ())
      \<and> (pi_device i = [] \<and> pi_enable i \<longrightarrow> is_ok (device_name name))
      \<and> (pi_address i \<noteq> [] \<longrightarrow> parse_ipv4 (pi_address i) \<noteq> None)
      \<and> (pi_mtu i = 0 \<or> 576 \<le> pi_mtu i \<and> pi_mtu i \<le> 65535)
      \<and> (pi_routes i \<noteq> Manual \<longrightarrow> pi_enable i)
      \<and> (pi_routes i = ListMode \<longrightarrow> pi_list i \<noteq> [] \<and> (\<forall>v\<in>set (pi_list i). is_ok (cidr_from_str v))))"

lemma interface_check_ok_iff: "interface_check name i = Inr () \<longleftrightarrow> interface_ok name i"
proof -
  have device: "(if pi_device i \<noteq> [] then lift_err PDevice (validate_device_name (pi_device i))
        else if pi_enable i then and_then (lift_err PDevice (device_name name)) (\<lambda>_. Inr ())
        else Inr ()) = Inr ()
      \<longleftrightarrow> (pi_device i \<noteq> [] \<longrightarrow> validate_device_name (pi_device i) = Inr ())
          \<and> (pi_device i = [] \<and> pi_enable i \<longrightarrow> is_ok (device_name name))"
    by (auto simp: and_then_Inr_iff is_ok_iff)
  have address: "(if pi_address i \<noteq> [] then or_bail (parse_ipv4 (pi_address i)) PAddress (\<lambda>_. Inr ()) else Inr ()) = Inr ()
      \<longleftrightarrow> (pi_address i \<noteq> [] \<longrightarrow> parse_ipv4 (pi_address i) \<noteq> None)"
    by (auto simp: or_bail_Inr_iff)
  have list: "(if pi_routes i = ListMode
          then ensure (pi_list i \<noteq> []) EmptyRouteList
            (check_all (\<lambda>v. and_then (lift_err PCidr (cidr_from_str v)) (\<lambda>_. Inr ())) (pi_list i))
          else Inr ()) = Inr ()
      \<longleftrightarrow> (pi_routes i = ListMode \<longrightarrow> pi_list i \<noteq> [] \<and> (\<forall>v\<in>set (pi_list i). is_ok (cidr_from_str v)))"
    by (auto simp: check_all_ok_iff and_then_Inr_iff is_ok_iff)
  show ?thesis
    unfolding interface_check_def and_then_unit_iff device address ensure_Inr_iff list interface_ok_def
    by blast
qed

lemma profile_validate_iff:
  "profile_validate J usable name p = Inr () \<longleftrightarrow>
   failover_check p = Inr ()
   \<and> (ps_server (pr_select p) = [] \<or> ps_pool (pr_select p) = None)
   \<and> (\<forall>q. ps_pool (pr_select p) = Some q \<longrightarrow> pool_check q = Inr ())
   \<and> is_ok (routing_block J p)
   \<and> px_socks_port (pr_proxy p) \<noteq> 0 \<and> px_http_port (pr_proxy p) \<noteq> 0
   \<and> px_socks_port (pr_proxy p) \<noteq> px_http_port (pr_proxy p)
   \<and> interface_ok name (pr_interface p) \<and> core_validate usable (pr_core p) = Inr ()"
  unfolding profile_validate_def and_then_unit_iff if_some_ok_iff interface_check_ok_iff [symmetric]
  by (auto simp: and_then_Inr_iff and_then_unit_iff is_ok_iff if_some_ok_iff)

lemma ends_with_iff: "ends_with s p \<longleftrightarrow> (\<exists>u. s = u @ p)"
  unfolding ends_with_def starts_with_iff by (metis rev_append rev_rev_ident)

lemma toml_stem_iff: "toml_stem file = Some n \<longleftrightarrow> file = n @ toml_suffix \<and> n \<noteq> []"
  by (auto simp: toml_stem_def ends_with_iff)

lemma valid_name_nonempty: "valid_name n \<Longrightarrow> n \<noteq> []"
  by (auto simp: valid_name_def)

lemma set_profile_names:
  "n \<in> set (profile_names dir) \<longleftrightarrow> valid_name n \<and> map_of dir (n @ toml_suffix) \<noteq> None"
proof -
  have "n \<in> set (List.map_filter (\<lambda>(file, _). toml_stem file) dir) \<longleftrightarrow> n \<noteq> [] \<and> n @ toml_suffix \<in> fst ` set dir"
    unfolding map_filter_iff by (force simp: toml_stem_iff)
  then show ?thesis
    unfolding profile_names_def by (auto simp: map_of_eq_None_iff dest: valid_name_nonempty)
qed

lemma map_of_write_file:
  "map_of (write_file path body dir) f = (if f = path then Some body else map_of dir f)"
  by (induction dir) (auto simp: write_file_def)

lemma map_of_without: "map_of (filter (\<lambda>(file, _). file \<noteq> path) dir) f = (if f = path then None else map_of dir f)"
  by (induction dir) auto

lemma profile_save_spec:
  "profile_save J usable to_toml name p dir = Inr dir' \<longleftrightarrow>
   \<not> is_reserved name \<and> valid_name name \<and> profile_validate J usable name p = Inr ()
   \<and> (\<exists>body. to_toml p = Some body \<and> dir' = write_file (name @ toml_suffix) body dir)"
  by (auto simp: profile_save_def profile_path_def and_then_Inr_iff and_then_unit_iff or_bail_Inr_iff)

lemma sorted_profile_names: "sorted (profile_names dir)"
  by (simp add: profile_names_def)

lemma core_validate_default: "core_validate usable core_options_default = Inr ()"
  by (simp add: core_validate_def core_options_default_def if_some_def unwrap_or_def)

lemmas seed_facts = failover_check_def profile_default_def if_some_def routing_block_def is_ok_def
  core_validate_default

lemma seed_valid:
  "profile_validate J usable name
     (profile_default\<lparr>pr_select := \<lparr>ps_server = server, ps_pool = None\<rparr>,
                      pr_proxy := \<lparr>px_socks_port = socks, px_http_port = http\<rparr>\<rparr>) = Inr ()
   \<longleftrightarrow> socks \<noteq> 0 \<and> http \<noteq> 0 \<and> socks \<noteq> http"
  by (auto simp: profile_validate_iff seed_facts interface_ok_def)

lemma default_name: "valid_name default_profile" "\<not> is_reserved default_profile"
  by code_simp+

section \<open>Properties\<close>

text \<open>an accepted profile can be used as it stands: two different nonzero ports, a server or a
pool but not both, an interface whose given or derived device name fits Linux, capture lists that
parse, core settings the core takes, and an enabled failover only with a valid policy, a single
server and, on an interface, no custom routing and no release of the routes.\<close>

theorem profile_validate_sound:
  assumes "profile_validate J usable name p = Inr ()"
  shows "px_socks_port (pr_proxy p) \<noteq> 0 \<and> px_http_port (pr_proxy p) \<noteq> 0
    \<and> px_socks_port (pr_proxy p) \<noteq> px_http_port (pr_proxy p)
    \<and> (ps_server (pr_select p) = [] \<or> ps_pool (pr_select p) = None)
    \<and> (pi_enable (pr_interface p) \<longrightarrow> (\<exists>device. validate_device_name device = Inr ()
          \<and> (if pi_device (pr_interface p) = [] then device_name name = Inr device
             else device = pi_device (pr_interface p))))
    \<and> (pi_routes (pr_interface p) = ListMode \<longrightarrow>
          (\<exists>captures. parse_captures (pi_list (pr_interface p)) = Inr captures \<and> captures \<noteq> []))
    \<and> level_ok usable (pr_core p)
    \<and> (\<forall>policy. pr_failover p = Some policy \<and> pol_enabled policy \<longrightarrow>
          policy_validate policy = Inr () \<and> ps_pool (pr_select p) = None
          \<and> (pi_enable (pr_interface p) \<longrightarrow> pr_routing p = None \<and> pr_on_core_exit p \<noteq> Some Release))"
proof -
  note v = assms [unfolded profile_validate_iff failover_check_ok_iff core_validate_iff]
  have "\<exists>device. validate_device_name device = Inr ()
      \<and> (if pi_device (pr_interface p) = [] then device_name name = Inr device
         else device = pi_device (pr_interface p))" if "pi_enable (pr_interface p)"
  proof (cases "pi_device (pr_interface p) = []")
    case True
    with v that have "is_ok (device_name name)" by (simp add: interface_ok_def)
    then obtain device where d: "device_name name = Inr device" by (auto simp: is_ok_iff)
    then have "validate_device_name device = Inr ()"
      by (auto simp: device_name_def Let_def split: sum.splits)
    with True d show ?thesis by auto
  qed (use v in \<open>auto simp: interface_ok_def\<close>)
  moreover have "\<exists>captures. parse_captures (pi_list (pr_interface p)) = Inr captures \<and> captures \<noteq> []"
    if "pi_routes (pr_interface p) = ListMode"
  proof -
    from v that have l: "pi_list (pr_interface p) \<noteq> []"
      "\<forall>t\<in>set (pi_list (pr_interface p)). is_ok (cidr_from_str t)"
      by (auto simp: interface_ok_def)
    from parse_captures_total [OF l(2)] obtain captures where
      c: "parse_captures (pi_list (pr_interface p)) = Inr captures" ..
    then have "length captures = length (pi_list (pr_interface p))"
      by (auto simp: parse_captures_def try_map_Inr_iff dest: list_all2_lengthD)
    with c l(1) show ?thesis by auto
  qed
  ultimately show ?thesis using v by simp
qed

text \<open>what a saved profile was checked for is what its TUN failover needs: when the effective policy
is to hold and the capture list is in use or empty, building the envelope can fail only on the
candidates, never on the interface.\<close>

theorem profile_interface_envelope:
  assumes "profile_validate J usable name p = Inr ()" and "pi_enable (pr_interface p)"
    and "pi_routes (pr_interface p) = ListMode \<or> pi_list (pr_interface p) = []"
    and "envelope_new catalog (pr_interface p) Hold = Inl e"
  shows "e \<in> {CandidateIds, CandidateCount, CaptureCandidate}
    \<or> (\<exists>server\<in>set catalog. endpoint server = Inl e)"
proof -
  let ?i = "pr_interface p"
  have ok: "interface_ok name ?i" using assms(1) by (simp add: profile_validate_iff)
  have "\<forall>t\<in>set (pi_list ?i). is_ok (cidr_from_str t)"
    using ok assms(3) by (auto simp: interface_ok_def)
  from parse_captures_total [OF this] obtain captures where c: "parse_captures (pi_list ?i) = Inr captures" ..
  have ne: "captures \<noteq> []" if "pi_routes ?i = ListMode"
    using ok that c by (auto simp: interface_ok_def parse_captures_def try_map_Inr_iff)
  have "collect_candidates catalog acc = Inl e \<Longrightarrow> e = CandidateIds \<or> (\<exists>server\<in>set catalog. endpoint server = Inl e)" for acc
    by (rule collect_candidates_error)
  with assms(2,4) ok c ne show ?thesis
    by (auto simp: envelope_new_def interface_ok_def and_then_def ensure_def
        split: if_splits sum.splits)
qed


text \<open>startup seeds the store and never rewrites it. When a profile exists the directory is left
as it is; when none does, usable ports are enough for the seed to be accepted, and the only profile
listed is then the default one.\<close>

theorem ensure_default_seeds_once:
  shows "(profile_names dir \<noteq> [] \<longrightarrow>
      ensure_default J usable to_toml active servers socks http dir = Inr dir)
    \<and> (profile_names dir = [] \<and> socks \<noteq> 0 \<and> http \<noteq> 0 \<and> socks \<noteq> http \<and> (\<forall>p. to_toml p \<noteq> None) \<longrightarrow>
      (\<exists>dir'. ensure_default J usable to_toml active servers socks http dir = Inr dir'
         \<and> set (profile_names dir') = {default_profile}))"
proof
  show "profile_names dir \<noteq> [] \<longrightarrow> ensure_default J usable to_toml active servers socks http dir = Inr dir"
    by (simp add: ensure_default_def)
  show "profile_names dir = [] \<and> socks \<noteq> 0 \<and> http \<noteq> 0 \<and> socks \<noteq> http \<and> (\<forall>p. to_toml p \<noteq> None) \<longrightarrow>
      (\<exists>dir'. ensure_default J usable to_toml active servers socks http dir = Inr dir'
         \<and> set (profile_names dir') = {default_profile})"
  proof
    assume a: "profile_names dir = [] \<and> socks \<noteq> 0 \<and> http \<noteq> 0 \<and> socks \<noteq> http \<and> (\<forall>p. to_toml p \<noteq> None)"
    define seed where "seed server = profile_default\<lparr>pr_select := \<lparr>ps_server = server, ps_pool = None\<rparr>,
        pr_proxy := \<lparr>px_socks_port = socks, px_http_port = http\<rparr>\<rparr>" for server
    have "\<exists>dir'. profile_save J usable to_toml default_profile (seed server) dir = Inr dir'
        \<and> set (profile_names dir') = {default_profile}" for server
    proof -
      from a obtain body where body: "to_toml (seed server) = Some body" by blast
      have none: "\<not> (valid_name n \<and> map_of dir (n @ toml_suffix) \<noteq> None)" for n
        using a set_profile_names [of n dir] by simp
      have "set (profile_names (write_file (default_profile @ toml_suffix) body dir)) = {default_profile}"
        using none default_name by (auto simp: set_profile_names map_of_write_file split: if_splits)
      with a body default_name show ?thesis
        by (simp add: profile_save_spec seed_def seed_valid)
    qed
    then show "\<exists>dir'. ensure_default J usable to_toml active servers socks http dir = Inr dir'
         \<and> set (profile_names dir') = {default_profile}"
      using a unfolding ensure_default_def Let_def seed_def by simp
  qed
qed

text \<open>the capture list is documented as used only by list routes, and the checks of a profile look
at it only there; but opening the tunnel parses it in every mode. A profile with an interface, a
valid name and a capture list that does not parse is accepted, and its envelope then fails on that
list.\<close>

theorem manual_list_accepted_then_refused:
  assumes "valid_name name" and "is_ok (device_name name)" and "cidr_from_str entry = Inl e"
  shows "\<exists>p. profile_validate J usable name p = Inr () \<and> pi_routes (pr_interface p) = Manual
    \<and> envelope_new catalog (pr_interface p) Hold = Inl (BadCidr e)"
proof -
  let ?i = "\<lparr>pi_enable = True, pi_device = [], pi_address = [], pi_mtu = 0, pi_routes = Manual, pi_list = [entry]\<rparr>"
  let ?p = "profile_default\<lparr>pr_interface := ?i\<rparr>"
  have "profile_validate J usable name ?p = Inr ()"
    using assms(2) by (simp add: profile_validate_iff seed_facts interface_ok_def)
  moreover have "envelope_new catalog ?i Hold = Inl (BadCidr e)"
    using assms(3) by (simp add: envelope_new_def parse_captures_def)
  ultimately show ?thesis by (intro exI [of _ ?p]) simp
qed

section \<open>Witnesses\<close>

definition sample_profile :: profile where
  "sample_profile = profile_default\<lparr>pr_interface := sample_interface\<rparr>"

lemma work_device: "is_ok (device_name ''work'')" "valid_name ''work''" "\<not> is_reserved ''work''"
proof -
  show "is_ok (device_name ''work'')"
    using device_name_ok_iff [of "''work''"] by (simp add: device_byte_def ascii_defs device_prefix_def
        device_name_max_def is_ok_iff)
qed code_simp+

lemma sample_profile_valid: "profile_validate J usable ''work'' sample_profile = Inr ()"
  using work_device(1)
  by (simp add: profile_validate_iff sample_profile_def seed_facts(1-5) core_validate_default
      interface_ok_def sample_interface_def)

theorem profile_validate_sound_witness:
  "\<exists>device. validate_device_name device = Inr () \<and> device_name ''work'' = Inr device"
  using profile_validate_sound [OF sample_profile_valid [of tiny_json "\<lambda>_. True"]]
  by (simp add: sample_profile_def sample_interface_def)

theorem profile_interface_envelope_witness:
  "envelope_new ([] :: unit server list) sample_interface Hold = Inl CandidateCount"
proof -
  have "pr_interface sample_profile = sample_interface" by (simp add: sample_profile_def)
  then have "envelope_new ([] :: unit server list) sample_interface Hold = Inl e \<Longrightarrow>
      e \<in> {CandidateIds, CandidateCount, CaptureCandidate}" for e
    using profile_interface_envelope [OF sample_profile_valid [of tiny_json "\<lambda>_. True"], of "[]" e]
    by (simp add: sample_interface_def)
  then show ?thesis
    by (simp add: envelope_new_def sample_interface_def parse_captures_def)
qed

text \<open>One profile and one text for it.\<close>

definition tiny_to_toml :: "profile \<Rightarrow> string option" where
  "tiny_to_toml p = (if p = sample_profile then Some ''interface'' else None)"


theorem ensure_default_seeds_once_witness:
  "\<exists>dir'. ensure_default tiny_json (\<lambda>_. True) (\<lambda>_. Some []) None [] 10808 10809 [] = Inr dir'
     \<and> set (profile_names dir') = {default_profile}"
  using ensure_default_seeds_once [of "[]" tiny_json "\<lambda>_. True" "\<lambda>_. Some []" None "[]" 10808 10809]
  by (simp add: profile_names_def)

theorem manual_list_accepted_then_refused_witness:
  "\<exists>p e. profile_validate tiny_json (\<lambda>_. True) ''work'' p = Inr ()
     \<and> envelope_new sample_catalog (pr_interface p) Hold = Inl (BadCidr e)"
proof -
  have "cidr_from_str ''lan'' = Inl InvalidAddress" by code_simp
  from manual_list_accepted_then_refused [OF work_device(2,1) this] show ?thesis by blast
qed

end
