(* ===== verification/Log_Book.thy ===== *)
theory Log_Book
  imports Rust_Text "HOL-Library.Word"
begin

text \<open>
  The diagnostic log: \<open>crates/oxidom-core/src/logbook.rs\<close> (\<open>LogBook\<close>, \<open>LogSlice\<close>
  and the reading of a child process's line).

  A book is its records, oldest first, and the counter of the next sequence number; the
  invariant is that the numbers held are consecutive and end just below the counter. From it
  follow the accounting of \<open>since\<close>: what a reader gets and what it is told it missed add up
  to exactly what was written after its cursor. The counter is a natural number: 2^64 lines
  cannot be written. The clock and the process id are arguments.
\<close>

unbundle bit_operations_syntax

section \<open>Records\<close>

definition capacity :: nat where
  "capacity = 5000"

datatype log_source = Oxidom | Xray | Tun2socks

datatype severity = SevError | SevWarn | SevInfo | SevDebug | SevTrace

fun severity_rank :: "severity \<Rightarrow> nat" where
  "severity_rank SevError = 0"
| "severity_rank SevWarn = 1"
| "severity_rank SevInfo = 2"
| "severity_rank SevDebug = 3"
| "severity_rank SevTrace = 4"

text \<open>The derived \<open>Ord\<close>: the declaration order.\<close>

instantiation severity :: linorder
begin

definition less_eq_severity :: "severity \<Rightarrow> severity \<Rightarrow> bool" where
  "less_eq_severity a b = (severity_rank a \<le> severity_rank b)"

definition less_severity :: "severity \<Rightarrow> severity \<Rightarrow> bool" where
  "less_severity a b = (severity_rank a < severity_rank b)"

instance
proof
  fix a b :: severity
  show "a \<le> b \<Longrightarrow> b \<le> a \<Longrightarrow> a = b"
    by (cases a; cases b) (simp_all add: less_eq_severity_def)
qed (auto simp: less_eq_severity_def less_severity_def)

end

definition at_least :: "severity \<Rightarrow> severity \<Rightarrow> bool" where
  "at_least s threshold = (s \<le> threshold)"

record log_record =
  lr_seq :: nat
  lr_unix_ms :: nat
  lr_source :: log_source
  lr_severity :: severity
  lr_profile :: "string option"
  lr_target :: string
  lr_text :: string

record log_slice =
  sl_records :: "log_record list"
  sl_book_id :: u64
  sl_first_seq :: nat
  sl_next_seq :: nat
  sl_skipped :: nat

definition legacy_book_id :: u64 where
  "legacy_book_id = 0"

section \<open>Reading a process line\<close>

record parsed_line =
  pl_severity :: severity
  pl_target :: string
  pl_text :: string

definition strip_timestamp :: "string \<Rightarrow> string" where
  "strip_timestamp line =
     (case split_once CHR '' '' line of
        None \<Rightarrow> line
      | Some (date, tail) \<Rightarrow>
          (case split_once CHR '' '' tail of
             None \<Rightarrow> line
           | Some (time, rest) \<Rightarrow>
               let dated = length date = 10 \<and> length (split_on CHR ''/'' date) = 3
                     \<and> list_all (\<lambda>c. is_ascii_digit c \<or> c = CHR ''/'') date;
                   timed = 8 \<le> length time \<and> length (split_on CHR '':'' time) = 3
                     \<and> list_all (\<lambda>c. is_ascii_digit c \<or> c = CHR '':'' \<or> c = CHR ''.'') time
               in if dated \<and> timed then trim_start rest else line))"

definition level_of_name :: "string \<Rightarrow> severity option" where
  "level_of_name name =
     (let n = lower_ascii name
      in if n \<in> {''error'', ''fatal'', ''err''} then Some SevError
         else if n \<in> {''warning'', ''warn''} then Some SevWarn
         else if n = ''info'' then Some SevInfo
         else if n = ''debug'' then Some SevDebug
         else None)"

definition strip_severity :: "string \<Rightarrow> (severity \<times> string) option" where
  "strip_severity line =
     (case strip_prefix line ''['' of
        None \<Rightarrow> None
      | Some rest \<Rightarrow>
          (case split_once CHR '']'' rest of
             None \<Rightarrow> None
           | Some (name, tail) \<Rightarrow>
               map_option (\<lambda>severity. (severity, trim_start tail)) (level_of_name name)))"

definition split_target :: "string \<Rightarrow> string \<times> string" where
  "split_target line =
     (case split_once_str '': '' line of
        Some (head, tail) \<Rightarrow>
          if head \<noteq> [] \<and> CHR '' '' \<notin> set head then (head, tail) else ('''', line)
      | None \<Rightarrow> ('''', line))"

definition parse_process_line :: "string \<Rightarrow> parsed_line" where
  "parse_process_line line =
     (let rest = strip_timestamp (trim_end line)
      in case strip_severity rest of
           None \<Rightarrow> \<lparr>pl_severity = SevInfo, pl_target = '''', pl_text = rest\<rparr>
         | Some (severity, rest') \<Rightarrow>
             let (target, text) = split_target rest'
             in \<lparr>pl_severity = severity, pl_target = target, pl_text = text\<rparr>)"

section \<open>The book\<close>

record log_book =
  bk_records :: "log_record list"
  bk_next_seq :: nat
  bk_id :: u64

definition book_new :: "u64 \<Rightarrow> u32 \<Rightarrow> log_book" where
  "book_new now_ms pid =
     (let i = push_bit 16 now_ms XOR ucast pid
      in \<lparr>bk_records = [], bk_next_seq = 1, bk_id = (if i = legacy_book_id then 1 else i)\<rparr>)"

definition first_seq :: "log_book \<Rightarrow> nat" where
  "first_seq b = (case bk_records b of [] \<Rightarrow> bk_next_seq b | r # _ \<Rightarrow> lr_seq r)"

definition push ::
  "nat \<Rightarrow> log_source \<Rightarrow> severity \<Rightarrow> string option \<Rightarrow> string \<Rightarrow> string \<Rightarrow> log_book \<Rightarrow> nat \<times> log_book" where
  "push now_ms source severity profile target text b =
     (let seq = bk_next_seq b;
          r = \<lparr>lr_seq = seq, lr_unix_ms = now_ms, lr_source = source, lr_severity = severity,
               lr_profile = profile, lr_target = target, lr_text = text\<rparr>
      in (seq, b\<lparr>bk_next_seq := seq + 1, bk_records := keep_last capacity (bk_records b @ [r])\<rparr>))"

definition push_process_line ::
  "nat \<Rightarrow> log_source \<Rightarrow> string option \<Rightarrow> string \<Rightarrow> log_book \<Rightarrow> nat \<times> log_book" where
  "push_process_line now_ms source profile line b =
     (let parsed = parse_process_line line
      in push now_ms source (pl_severity parsed) profile (pl_target parsed) (pl_text parsed) b)"

definition since :: "log_book \<Rightarrow> nat \<Rightarrow> nat \<Rightarrow> log_slice" where
  "since b after_seq limit =
     (let matching = filter (\<lambda>r. after_seq < lr_seq r) (bk_records b);
          over_limit = length matching - limit;
          evicted = first_seq b - (after_seq + 1)
      in \<lparr>sl_records = drop over_limit matching, sl_book_id = bk_id b, sl_first_seq = first_seq b,
          sl_next_seq = bk_next_seq b, sl_skipped = evicted + over_limit\<rparr>)"

definition texts_for :: "log_book \<Rightarrow> log_source \<Rightarrow> string option \<Rightarrow> nat \<Rightarrow> string list" where
  "texts_for b source profile from_seq =
     map lr_text
       (filter (\<lambda>r. case profile of None \<Rightarrow> True | Some name \<Rightarrow> lr_profile r = Some name)
         (filter (\<lambda>r. lr_source r = source)
           (filter (\<lambda>r. from_seq \<le> lr_seq r) (bk_records b))))"

definition legacy_lines :: "log_book \<Rightarrow> string list" where
  "legacy_lines b =
     map (\<lambda>r. case lr_source r of
            Oxidom \<Rightarrow> ''oxidom: '' @ lr_text r
          | Xray \<Rightarrow> lr_text r
          | Tun2socks \<Rightarrow> ''tun2socks: '' @ lr_text r) (bk_records b)"

definition book_clear :: "log_book \<Rightarrow> log_book" where
  "book_clear b = b\<lparr>bk_records := []\<rparr>"

definition legacy_source :: "string \<Rightarrow> log_source \<times> string" where
  "legacy_source line =
     (case strip_prefix line ''oxidom: '' of
        Some rest \<Rightarrow> (Oxidom, rest)
      | None \<Rightarrow>
          (case strip_prefix line ''tun2socks: '' of
             Some rest \<Rightarrow> (Tun2socks, rest)
           | None \<Rightarrow> (Xray, line)))"

definition from_legacy_lines :: "string list \<Rightarrow> log_slice" where
  "from_legacy_lines lines =
     (let records =
        map (\<lambda>(line, seq).
          let (source, text) = legacy_source line; parsed = parse_process_line text
          in \<lparr>lr_seq = seq, lr_unix_ms = 0, lr_source = source, lr_severity = pl_severity parsed,
              lr_profile = None, lr_target = pl_target parsed, lr_text = pl_text parsed\<rparr>)
          (zip lines [1..<length lines + 1])
      in \<lparr>sl_records = records, sl_book_id = legacy_book_id, sl_first_seq = 1,
          sl_next_seq = length records + 1, sl_skipped = 0\<rparr>)"

section \<open>The invariant\<close>

definition book_ok :: "log_book \<Rightarrow> bool" where
  "book_ok b =
     (map lr_seq (bk_records b) = [bk_next_seq b - length (bk_records b) ..< bk_next_seq b]
      \<and> length (bk_records b) < bk_next_seq b \<and> length (bk_records b) \<le> capacity
      \<and> bk_id b \<noteq> legacy_book_id)"

lemma book_new_ok [preserve]: "book_ok (book_new now pid)"
  by (simp add: book_ok_def book_new_def Let_def legacy_book_id_def)

lemma map_keep_last: "map f (keep_last n xs) = keep_last n (map f xs)"
  by (simp add: keep_last_def drop_map)

lemma keep_last_upt: "keep_last n [i..<j] = [max i (j - n) ..< j]"
proof (cases "i \<le> j - n")
  case True
  then have "i + (j - i - n) = j - n \<or> j \<le> i + (j - i - n) \<and> j \<le> j - n" by linarith
  with True show ?thesis by (auto simp: keep_last_def max_def)
next
  case False
  then show ?thesis by (auto simp: keep_last_def max_def)
qed

lemma push_ok [preserve]:
  assumes "book_ok b" shows "book_ok (snd (push now source severity profile target text b))"
proof -
  let ?n = "length (bk_records b)"
  have "[bk_next_seq b - ?n ..< bk_next_seq b] @ [bk_next_seq b] = [bk_next_seq b - ?n ..< bk_next_seq b + 1]"
    by simp
  with assms show ?thesis
    by (auto simp: book_ok_def push_def Let_def map_keep_last keep_last_upt capacity_def max_def min_def
        simp del: upt_Suc)
qed

lemma push_process_line_ok [preserve]:
  "book_ok b \<Longrightarrow> book_ok (snd (push_process_line now source profile line b))"
  by (simp add: push_process_line_def Let_def push_ok)

lemma clear_ok [preserve]: "book_ok b \<Longrightarrow> book_ok (book_clear b)"
  by (simp add: book_ok_def book_clear_def)

lemma first_seq_ok: "book_ok b \<Longrightarrow> first_seq b = bk_next_seq b - length (bk_records b)"
proof -
  assume ok: "book_ok b"
  show ?thesis
  proof (cases "bk_records b")
    case Nil then show ?thesis by (simp add: first_seq_def)
  next
    case (Cons r rs)
    with ok have s: "lr_seq r # map lr_seq rs = [bk_next_seq b - Suc (length rs) ..< bk_next_seq b]"
      and "Suc (length rs) < bk_next_seq b"
      by (auto simp: book_ok_def)
    then have "[bk_next_seq b - Suc (length rs) ..< bk_next_seq b] =
        (bk_next_seq b - Suc (length rs)) # [Suc (bk_next_seq b - Suc (length rs)) ..< bk_next_seq b]"
      by (simp add: upt_conv_Cons)
    with s show ?thesis using Cons by (simp add: first_seq_def)
  qed
qed

lemma filter_upt_greater: "filter (\<lambda>i. n < i) [i..<j] = [max i (n + 1) ..< j]"
  by (induction j) (auto simp: max_def)

lemma since_matching:
  assumes "book_ok b"
  shows "map lr_seq (filter (\<lambda>r. after_seq < lr_seq r) (bk_records b)) =
    [max (first_seq b) (after_seq + 1) ..< bk_next_seq b]"
proof -
  have "map lr_seq (filter (\<lambda>r. after_seq < lr_seq r) (bk_records b)) =
      filter (\<lambda>i. after_seq < i) (map lr_seq (bk_records b))"
    by (simp add: filter_map o_def)
  also have "\<dots> = [max (first_seq b) (after_seq + 1) ..< bk_next_seq b]"
    using assms first_seq_ok [OF assms] by (simp add: book_ok_def filter_upt_greater)
  finally show ?thesis .
qed

lemma drop_upt_tail: "drop (j - i - n) [i..<j] = [j - min n (j - i) ..< (j :: nat)]"
proof (cases "i \<le> j")
  case True
  then have "i + (j - i - n) = j - min n (j - i)" by linarith
  then show ?thesis by simp
qed simp

lemma since_records:
  assumes "book_ok b"
  shows "length (sl_records (since b after_seq limit)) =
      min limit (bk_next_seq b - max (first_seq b) (after_seq + 1))"
    and "map lr_seq (sl_records (since b after_seq limit)) =
      [bk_next_seq b - length (sl_records (since b after_seq limit)) ..< bk_next_seq b]"
proof -
  let ?m = "filter (\<lambda>r. after_seq < lr_seq r) (bk_records b)"
  note m = since_matching [OF assms, of after_seq]
  from arg_cong [OF m, of length]
  have len: "length ?m = bk_next_seq b - max (first_seq b) (after_seq + 1)" by simp
  then show l: "length (sl_records (since b after_seq limit)) =
      min limit (bk_next_seq b - max (first_seq b) (after_seq + 1))"
    by (simp add: since_def Let_def)
  have "map lr_seq (sl_records (since b after_seq limit)) =
      drop (length ?m - limit) [max (first_seq b) (after_seq + 1) ..< bk_next_seq b]"
    by (simp only: since_def Let_def log_slice.simps m [symmetric] drop_map)
  also have "\<dots> = [bk_next_seq b - length (sl_records (since b after_seq limit)) ..< bk_next_seq b]"
    unfolding l len by (rule drop_upt_tail)
  finally show "map lr_seq (sl_records (since b after_seq limit)) =
      [bk_next_seq b - length (sl_records (since b after_seq limit)) ..< bk_next_seq b]" .
qed

lemma since_skipped:
  assumes "book_ok b" and "after_seq < bk_next_seq b"
  shows "length (sl_records (since b after_seq limit)) + sl_skipped (since b after_seq limit) =
    bk_next_seq b - (after_seq + 1)"
proof -
  let ?m = "filter (\<lambda>r. after_seq < lr_seq r) (bk_records b)"
  from arg_cong [OF since_matching [OF assms(1), of after_seq], of length]
  have len: "length ?m = bk_next_seq b - max (first_seq b) (after_seq + 1)" by simp
  have "first_seq b \<le> bk_next_seq b" using first_seq_ok [OF assms(1)] by simp
  moreover have "length (sl_records (since b after_seq limit)) + sl_skipped (since b after_seq limit) =
      length ?m + (first_seq b - (after_seq + 1))"
    by (simp add: since_def Let_def)
  ultimately show ?thesis using len assms(2) by auto
qed

section \<open>Histories of a book\<close>

datatype book_op =
    Push nat log_source severity "string option" string string
  | Process nat log_source "string option" string
  | Clear

text \<open>The sequence numbers handed out by a run, and the book it ends in.\<close>

fun book_run :: "book_op list \<Rightarrow> log_book \<Rightarrow> nat list \<times> log_book" where
  "book_run [] b = ([], b)"
| "book_run (Push now source severity profile target text # ops) b =
     (let (seq, b') = push now source severity profile target text b; (seqs, b'') = book_run ops b'
      in (seq # seqs, b''))"
| "book_run (Process now source profile line # ops) b =
     (let (seq, b') = push_process_line now source profile line b; (seqs, b'') = book_run ops b'
      in (seq # seqs, b''))"
| "book_run (Clear # ops) b = book_run ops (book_clear b)"

lemma push_next [simp]:
  "fst (push now source severity profile target text b) = bk_next_seq b"
  "bk_next_seq (snd (push now source severity profile target text b)) = bk_next_seq b + 1"
  "bk_id (snd (push now source severity profile target text b)) = bk_id b"
  by (simp_all add: push_def Let_def)

lemma push_process_next [simp]:
  "fst (push_process_line now source profile line b) = bk_next_seq b"
  "bk_next_seq (snd (push_process_line now source profile line b)) = bk_next_seq b + 1"
  "bk_id (snd (push_process_line now source profile line b)) = bk_id b"
  by (simp_all add: push_process_line_def Let_def)

lemma book_run_ok: "book_ok b \<Longrightarrow> book_ok (snd (book_run ops b))"
proof (induction ops arbitrary: b)
  case (Cons op ops)
  then show ?case
    by (cases op) (simp_all add: Let_def split_beta push_ok push_process_line_ok clear_ok)
qed simp

lemma book_run_next:
  "fst (book_run ops b) = [bk_next_seq b ..< bk_next_seq (snd (book_run ops b))]
   \<and> bk_next_seq b \<le> bk_next_seq (snd (book_run ops b))
   \<and> bk_id (snd (book_run ops b)) = bk_id b"
proof (induction ops arbitrary: b)
  case (Cons op ops)
  show ?case
  proof (cases op)
    case (Push now source severity profile target body)
    with Cons [of "snd (push now source severity profile target body b)"] show ?thesis
      by (auto simp: Let_def split_beta upt_conv_Cons)
  next
    case (Process now source profile line)
    with Cons [of "snd (push_process_line now source profile line b)"] show ?thesis
      by (auto simp: Let_def split_beta upt_conv_Cons)
  next
    case Clear
    with Cons [of "book_clear b"] show ?thesis by (auto simp: book_clear_def)
  qed
qed simp

definition reached :: "log_book \<Rightarrow> bool" where
  "reached b = (\<exists>now pid ops. b = snd (book_run ops (book_new now pid)))"

lemma reached_ok: "reached b \<Longrightarrow> book_ok b"
  by (auto simp: reached_def intro: book_run_ok book_new_ok)

section \<open>Properties\<close>

text \<open>nothing a reader misses is hidden: for a cursor the book has issued, the records returned
and the number reported as skipped add up to exactly the lines written after the cursor, at most
\<open>limit\<close> of them are returned, they are consecutive and the newest there are, and none was
seen before.\<close>

theorem since_accounts:
  assumes "reached b" and "after_seq < bk_next_seq b"
  shows "length (sl_records (since b after_seq limit)) + sl_skipped (since b after_seq limit) =
      bk_next_seq b - (after_seq + 1)
    \<and> length (sl_records (since b after_seq limit)) \<le> limit
    \<and> map lr_seq (sl_records (since b after_seq limit)) =
        [bk_next_seq b - length (sl_records (since b after_seq limit)) ..< bk_next_seq b]
    \<and> (\<forall>r\<in>set (sl_records (since b after_seq limit)). after_seq < lr_seq r)"
proof -
  note ok = reached_ok [OF assms(1)]
  have "\<forall>r\<in>set (sl_records (since b after_seq limit)). after_seq < lr_seq r"
    by (auto simp: since_def Let_def dest: in_set_dropD)
  with since_skipped [OF ok assms(2)] since_records [OF ok] show ?thesis by simp
qed

text \<open>sequence numbers are never reused: over any run of pushes and clears from a new book the
numbers handed out are 1, 2, 3, ... without gap or repetition, the book never holds more than 5000
records, what it holds carries consecutive numbers ending with the last one issued, and its
identifier is never the one reserved for daemons without a book.\<close>

theorem book_numbers_unique:
  assumes "book_run ops (book_new now pid) = (seqs, b)"
  shows "seqs = [1..<length seqs + 1] \<and> bk_next_seq b = length seqs + 1
    \<and> map lr_seq (bk_records b) = [bk_next_seq b - length (bk_records b) ..< bk_next_seq b]
    \<and> length (bk_records b) \<le> capacity \<and> bk_id b \<noteq> legacy_book_id"
proof -
  have n: "bk_next_seq (book_new now pid) = 1" by (simp add: book_new_def Let_def)
  from book_run_next [of ops "book_new now pid"] assms n
  have s: "seqs = [1..<bk_next_seq b]" and "1 \<le> bk_next_seq b" by auto
  then have "bk_next_seq b = length seqs + 1" by simp
  with s have "seqs = [1..<length seqs + 1] \<and> bk_next_seq b = length seqs + 1" by metis
  moreover have "book_ok b" using book_run_ok [OF book_new_ok, of ops now pid] assms by simp
  ultimately show ?thesis by (auto simp: book_ok_def)
qed

text \<open>an old client's flat view keeps the origin of every line: rebuilt from its legacy lines, a
book gives the same number of records in the same order, each attributed to the program that
wrote it, as long as no line of the core itself starts with one of the two prefixes.\<close>

theorem legacy_lines_sources:
  assumes "\<forall>r\<in>set (bk_records b). lr_source r = Xray \<longrightarrow>
      \<not> starts_with (lr_text r) ''oxidom: '' \<and> \<not> starts_with (lr_text r) ''tun2socks: ''"
  shows "map lr_source (sl_records (from_legacy_lines (legacy_lines b))) = map lr_source (bk_records b)
    \<and> map lr_seq (sl_records (from_legacy_lines (legacy_lines b))) = [1..<length (bk_records b) + 1]
    \<and> map lr_text (sl_records (from_legacy_lines (legacy_lines b))) =
        map (\<lambda>r. pl_text (parse_process_line (lr_text r))) (bk_records b)"
proof -
  let ?line = "\<lambda>r. case lr_source r of Oxidom \<Rightarrow> ''oxidom: '' @ lr_text r | Xray \<Rightarrow> lr_text r
      | Tun2socks \<Rightarrow> ''tun2socks: '' @ lr_text r"
  have one: "legacy_source (?line r) = (lr_source r, lr_text r)" if "r \<in> set (bk_records b)" for r
  proof (cases "lr_source r")
    case Xray
    with assms that have n: "strip_prefix (lr_text r) ''oxidom: '' = None"
      "strip_prefix (lr_text r) ''tun2socks: '' = None"
      by (simp_all add: strip_prefix_None_iff)
    with Xray show ?thesis by (simp add: legacy_source_def)
  qed (simp_all add: legacy_source_def)
  have len: "length (legacy_lines b) = length (bk_records b)" by (simp add: legacy_lines_def)
  have nth: "legacy_source (legacy_lines b ! i) = (lr_source (bk_records b ! i), lr_text (bk_records b ! i))"
    if "i < length (bk_records b)" for i
    using one [OF nth_mem [OF that]] that by (simp add: legacy_lines_def)
  define mk where "mk = (\<lambda>(line, seq).
      let (source, text) = legacy_source line; parsed = parse_process_line text
      in \<lparr>lr_seq = seq, lr_unix_ms = 0, lr_source = source, lr_severity = pl_severity parsed,
          lr_profile = None, lr_target = pl_target parsed, lr_text = pl_text parsed\<rparr>)"
  have recs: "sl_records (from_legacy_lines (legacy_lines b)) =
      map mk (zip (legacy_lines b) [1..<length (legacy_lines b) + 1])"
    by (simp add: from_legacy_lines_def mk_def Let_def)
  have mk: "lr_source (mk (l, n)) = fst (legacy_source l)" "lr_seq (mk (l, n)) = n"
    "lr_text (mk (l, n)) = pl_text (parse_process_line (snd (legacy_source l)))" for l n
    by (simp_all add: mk_def Let_def split_beta)
  have "map lr_source (map mk (zip (legacy_lines b) [1..<length (legacy_lines b) + 1])) = map lr_source (bk_records b)"
    by (rule nth_equalityI) (simp_all add: len mk nth del: upt_Suc)
  moreover have "map lr_seq (map mk (zip (legacy_lines b) [1..<length (legacy_lines b) + 1])) =
      [1..<length (bk_records b) + 1]"
    by (rule nth_equalityI) (simp_all add: len mk del: upt_Suc)
  moreover have "map lr_text (map mk (zip (legacy_lines b) [1..<length (legacy_lines b) + 1])) =
      map (\<lambda>r. pl_text (parse_process_line (lr_text r))) (bk_records b)"
    by (rule nth_equalityI) (simp_all add: len mk nth del: upt_Suc)
  ultimately show ?thesis unfolding recs by blast
qed

section \<open>Witnesses\<close>

definition sample_ops :: "book_op list" where
  "sample_ops =
     [Push 7 Oxidom SevInfo None ''t'' ''one'', Push 8 Xray SevWarn None ''t'' ''two'', Clear,
      Push 9 Tun2socks SevInfo None ''t'' ''three'']"

definition sample_book :: log_book where
  "sample_book = snd (book_run sample_ops (book_new 1 1))"

lemma sample_book_reached: "reached sample_book"
  unfolding sample_book_def reached_def by blast

lemma sample_book_next: "bk_next_seq sample_book = 4"
  by (simp add: sample_book_def sample_ops_def push_def book_clear_def book_new_def Let_def)

theorem since_accounts_witness:
  "length (sl_records (since sample_book 1 10)) + sl_skipped (since sample_book 1 10) = 2"
  using since_accounts [OF sample_book_reached, of 1 10] by (simp add: sample_book_next)

theorem book_numbers_unique_witness:
  "fst (book_run sample_ops (book_new 1 1)) = [1, 2, 3]"
proof -
  obtain seqs b where r: "book_run sample_ops (book_new 1 1) = (seqs, b)" by (cases "book_run sample_ops (book_new 1 1)")
  from book_numbers_unique [OF this] have s: "seqs = [1..<length seqs + 1]" by simp
  from r sample_book_next book_numbers_unique [OF r] have "length seqs = 3" by (simp add: sample_book_def)
  with s r show ?thesis by (simp add: upt_rec numeral_3_eq_3 numeral_2_eq_2)
qed

theorem legacy_lines_sources_witness:
  "map lr_source (sl_records (from_legacy_lines (legacy_lines sample_book))) = [Tun2socks]"
proof -
  have r: "map lr_source (bk_records sample_book) = [Tun2socks]"
    by (simp add: sample_book_def sample_ops_def push_def book_clear_def book_new_def Let_def capacity_def)
  then have "\<forall>r\<in>set (bk_records sample_book). lr_source r \<noteq> Xray" by auto
  then show ?thesis using legacy_lines_sources [of sample_book] r by simp
qed

end
