(* ===== verification/Log_Feed.thy ===== *)
theory Log_Feed
  imports Log_Book "HOL-Library.Multiset"
begin

text \<open>
  The merge of two logs into one view: \<open>crates/oxidom-gui/src/gui/logfeed.rs\<close>.

  \<open>absorb\<close> is one round: take the daemon's slice (stage 1), this process's slice (stage 2),
  release what is old enough or too much (stage 3) and redeliver after a restart (stage 4).
  The feed uses the book only through \<open>since\<close>: the locale \<open>log_source\<close> states what it
  relies on, and it is interpreted on the model of \<open>LogBook\<close>. \<open>sort_by_key\<close> is stable
  and is \<open>sort_key\<close>; \<open>sort_unstable_by_key\<close> is the argument \<open>usort\<close>, of which the
  lemmas assume only that it sorts.
\<close>

section \<open>State\<close>

definition reorder_window_ms :: nat where "reorder_window_ms = 600"
definition hold_capacity :: nat where "hold_capacity = capacity"

record held =
  h_record :: log_record
  h_ours :: bool

record feed_batch =
  fb_records :: "log_record list"
  fb_reset :: bool
  fb_skipped :: nat

record log_feed =
  lf_remote_cursor :: nat
  lf_remote_book :: "u64 option"
  lf_local_cursor :: nat
  lf_holding :: "held list"
  lf_released_ours :: "log_record list"
  lf_reset_pending :: bool

definition feed_new :: log_feed where
  "feed_new =
     \<lparr>lf_remote_cursor = 0, lf_remote_book = None, lf_local_cursor = 0, lf_holding = [],
      lf_released_ours = [], lf_reset_pending = False\<rparr>"

definition reset_remote :: "log_feed \<Rightarrow> log_feed" where
  "reset_remote f =
     f\<lparr>lf_remote_cursor := 0, lf_remote_book := None, lf_holding := filter h_ours (lf_holding f),
       lf_reset_pending := True\<rparr>"

section \<open>One round\<close>

definition hold :: "bool \<Rightarrow> log_record list \<Rightarrow> held list" where
  "hold ours records = map (\<lambda>r. \<lparr>h_record = r, h_ours = ours\<rparr>) records"

text \<open>Stage 1: the feed after taking the daemon's slice, \<open>reset\<close>, \<open>restart_reset\<close> and
the number skipped.\<close>

definition absorb_remote :: "log_feed \<Rightarrow> log_slice \<Rightarrow> log_feed \<times> bool \<times> bool \<times> nat" where
  "absorb_remote f remote =
     (let reset = lf_reset_pending f;
          f0 = f\<lparr>lf_reset_pending := False\<rparr>
      in if sl_book_id remote = legacy_book_id
         then (f0\<lparr>lf_holding := hold False (sl_records remote),
                  lf_remote_cursor := (if sl_records remote = [] then 0 else lr_seq (last (sl_records remote))),
                  lf_local_cursor := 0\<rparr>,
               True, reset, sl_skipped remote)
         else
           let restarted = lf_remote_book f \<noteq> Some (sl_book_id remote);
               reset' = (reset \<or> (restarted \<and> lf_remote_book f \<noteq> None));
               f1 = (if restarted
                     then f0\<lparr>lf_remote_book := Some (sl_book_id remote),
                             lf_holding := filter h_ours (lf_holding f),
                             lf_remote_cursor := 0\<rparr>
                     else f0);
               cursor = lf_remote_cursor f1
           in case position (\<lambda>r. cursor < lr_seq r) (sl_records remote) of
                Some first_fresh \<Rightarrow>
                  (f1\<lparr>lf_remote_cursor := lr_seq (last (sl_records remote)),
                      lf_holding := lf_holding f1 @ hold False (drop first_fresh (sl_records remote))\<rparr>,
                   reset', reset', lr_seq (sl_records remote ! first_fresh) - cursor - 1)
              | None \<Rightarrow> (f1, reset', reset', sl_first_seq remote - (cursor + 1)))"

text \<open>Stage 2: this process's own slice.\<close>

definition absorb_local :: "log_feed \<Rightarrow> u64 \<Rightarrow> log_slice \<Rightarrow> log_feed" where
  "absorb_local f remote_id local_slice =
     (let f' = (if remote_id \<noteq> legacy_book_id \<and> sl_records local_slice \<noteq> []
                then f\<lparr>lf_local_cursor := lr_seq (last (sl_records local_slice))\<rparr> else f)
      in f'\<lparr>lf_holding := lf_holding f' @ hold True (sl_records local_slice)\<rparr>)"

text \<open>Stage 3: what is released in order, and what stays held.\<close>

definition release :: "nat \<Rightarrow> held list \<Rightarrow> held list \<times> held list" where
  "release now_ms holding =
     (let sorted = sort_key (\<lambda>h. lr_unix_ms (h_record h)) holding;
          cutoff = now_ms - reorder_window_ms;
          settled = length (takeWhile (\<lambda>h. lr_unix_ms (h_record h) \<le> cutoff) sorted);
          rest = drop settled sorted;
          excess = length rest - hold_capacity
      in (take settled sorted @ take excess rest, drop excess rest))"

text \<open>Stage 4.\<close>

definition absorb ::
  "(log_record list \<Rightarrow> log_record list) \<Rightarrow> log_feed \<Rightarrow> log_slice \<Rightarrow> log_slice \<Rightarrow> nat \<Rightarrow> log_feed \<times> feed_batch" where
  "absorb usort f remote local_slice now_ms =
     (let (f1, reset, restart_reset, skipped) = absorb_remote f remote;
          f2 = absorb_local f1 (sl_book_id remote) local_slice;
          (out, holding) = release now_ms (lf_holding f2);
          records = map h_record out;
          fresh_ours = map h_record (filter h_ours out);
          redeliver = (if restart_reset then lf_released_ours f2 else []);
          f3 = f2\<lparr>lf_holding := holding,
                  lf_released_ours := keep_last capacity (lf_released_ours f2 @ fresh_ours)\<rparr>
      in (f3, \<lparr>fb_records = (if restart_reset then usort (redeliver @ records) else records),
               fb_reset = reset, fb_skipped = skipped + sl_skipped local_slice\<rparr>))"

section \<open>What the feed relies on\<close>

text \<open>
  The contract of a source of log slices: \<open>good\<close> is its invariant, \<open>upcoming\<close> the number
  the next line will get, \<open>poll\<close> the request a reader makes.
\<close>

locale log_source =
  fixes good :: "'b \<Rightarrow> bool" and upcoming :: "'b \<Rightarrow> nat" and poll :: "'b \<Rightarrow> nat \<Rightarrow> nat \<Rightarrow> log_slice"
  assumes poll_seqs: "good b \<Longrightarrow> map lr_seq (sl_records (poll b after_seq limit)) =
      [upcoming b - length (sl_records (poll b after_seq limit)) ..< upcoming b]"
    and poll_length: "good b \<Longrightarrow> length (sl_records (poll b after_seq limit)) < upcoming b"
    and poll_first: "good b \<Longrightarrow> sl_first_seq (poll b after_seq limit) \<le> upcoming b"
    and poll_id: "good b \<Longrightarrow> sl_book_id (poll b after_seq limit) \<noteq> legacy_book_id"
begin

lemma position_upt:
  "map lr_seq rs = [i..<j] \<Longrightarrow>
   position (\<lambda>r. c < lr_seq r) rs = (if max i (c + 1) < j then Some (max i (c + 1) - i) else None)"
proof (induction rs arbitrary: i)
  case (Cons r rs)
  then have c: "i < j" "lr_seq r = i" "map lr_seq rs = [Suc i..<j]"
    using Cons_eq_uptD [of "lr_seq r" "map lr_seq rs" i j] by simp_all
  show ?case
  proof (cases "c < i")
    case True
    with c show ?thesis by (auto simp: max_def)
  next
    case False
    with Cons.IH [OF c(3)] c(1,2) show ?thesis by (auto simp: max_def)
  qed
qed (auto simp: eq_commute [of "[]"])

text \<open>The accounting of stage 1, for a slice asked for with any cursor at all: what is newly held
carries consecutive numbers above the old cursor, up to the new one, and what is reported as
skipped is exactly the gap before it.\<close>

lemma fresh_accounts:
  assumes good: "good b" and book: "lf_remote_book f = Some (sl_book_id (poll b after_seq limit))"
    and fresh: "sl_records (poll b after_seq limit) \<noteq> []" and ahead: "lf_remote_cursor f + 1 < upcoming b"
  obtains new f' reset skipped where
    "absorb_remote f (poll b after_seq limit) = (f', reset, reset, skipped)"
    "lf_holding f' = lf_holding f @ hold False new"
    "lf_remote_cursor f' + 1 = upcoming b"
    "map lr_seq new = [lf_remote_cursor f + skipped + 1 ..< upcoming b]"
    "new \<noteq> []" "lf_remote_book f' = lf_remote_book f" "set new \<subseteq> set (sl_records (poll b after_seq limit))"
proof -
  let ?s = "poll b after_seq limit" and ?c = "lf_remote_cursor f"
  let ?rs = "sl_records ?s" and ?n = "upcoming b"
  let ?i = "?n - length ?rs" and ?k = "max (?n - length ?rs) (?c + 1) - (?n - length ?rs)"
  note seqs = poll_seqs [OF good, of after_seq limit]
  have len: "length ?rs < ?n" by (rule poll_length [OF good])
  have pl: "0 < length ?rs" using fresh by simp
  have k: "?k < length ?rs" using ahead pl len by (auto simp: max_def)
  have pos: "position (\<lambda>r. ?c < lr_seq r) ?rs = Some ?k"
    using position_upt [OF seqs, of ?c] ahead pl len by (auto simp: max_def)
  have nk: "lr_seq (?rs ! ?k) = ?i + ?k"
  proof -
    have "lr_seq (?rs ! ?k) = [?i..<?n] ! ?k" using k by (metis nth_map seqs)
    also have "\<dots> = ?i + ?k" by (rule nth_upt) (use k len in linarith)
    finally show ?thesis .
  qed
  have "last (map lr_seq ?rs) = last [?i..<?n]" by (simp only: seqs)
  moreover have "last [?i..<?n] = ?n - 1" by (rule last_upt) (use pl len in linarith)
  ultimately have lst: "lr_seq (last ?rs) + 1 = ?n" using fresh len by (simp add: last_map)
  define f' where "f' = f\<lparr>lf_reset_pending := False, lf_remote_cursor := lr_seq (last ?rs),
      lf_holding := lf_holding f @ hold False (drop ?k ?rs)\<rparr>"
  have eq: "absorb_remote f ?s = (f', lf_reset_pending f, lf_reset_pending f, ?i + ?k - ?c - 1)"
    using book poll_id [OF good] pos nk by (simp add: absorb_remote_def Let_def f'_def)
  have gap: "?c + (?i + ?k - ?c - 1) + 1 = ?i + ?k" by (auto simp: max_def)
  have "map lr_seq (drop ?k ?rs) = [?i + ?k ..< ?n]"
    by (metis seqs drop_map drop_upt)
  then have new: "map lr_seq (drop ?k ?rs) = [?c + (?i + ?k - ?c - 1) + 1 ..< ?n]" unfolding gap .
  show ?thesis
  proof (rule that [OF eq _ _ new])
    show "lf_holding f' = lf_holding f @ hold False (drop ?k ?rs)" by (simp add: f'_def)
    show "lf_remote_cursor f' + 1 = ?n" using lst by (simp add: f'_def)
    show "drop ?k ?rs \<noteq> []" using k by simp
    show "lf_remote_book f' = lf_remote_book f" by (simp add: f'_def)
    show "set (drop ?k ?rs) \<subseteq> set ?rs" by (rule set_drop_subset)
  qed
qed

text \<open>A slice with nothing new changes neither cursor nor holding: a late answer is harmless.\<close>

lemma stale_harmless:
  assumes good: "good b" and book: "lf_remote_book f = Some (sl_book_id (poll b after_seq limit))"
    and behind: "upcoming b \<le> lf_remote_cursor f + 1"
  shows "absorb_remote f (poll b after_seq limit) =
    (f\<lparr>lf_reset_pending := False\<rparr>, lf_reset_pending f, lf_reset_pending f, 0)"
proof -
  let ?s = "poll b after_seq limit"
  have "position (\<lambda>r. lf_remote_cursor f < lr_seq r) (sl_records ?s) = None"
    using position_upt [OF poll_seqs [OF good, of after_seq limit], of "lf_remote_cursor f"]
      behind by simp
  moreover have "sl_first_seq ?s \<le> upcoming b" by (rule poll_first [OF good])
  ultimately show ?thesis
    using book poll_id [OF good, of after_seq limit] behind by (simp add: absorb_remote_def Let_def)
qed

end

lemma first_seq_le: "book_ok b \<Longrightarrow> first_seq b \<le> bk_next_seq b"
  by (simp add: first_seq_ok)

interpretation book: log_source book_ok bk_next_seq since
proof
  fix b after_seq limit assume ok: "book_ok b"
  show "map lr_seq (sl_records (since b after_seq limit)) =
      [bk_next_seq b - length (sl_records (since b after_seq limit)) ..< bk_next_seq b]"
    by (rule since_records(2) [OF ok])
  show "length (sl_records (since b after_seq limit)) < bk_next_seq b"
    using since_records(1) [OF ok, of after_seq limit] ok by (auto simp: book_ok_def min_def)
  show "sl_first_seq (since b after_seq limit) \<le> bk_next_seq b"
    using first_seq_le [OF ok] by (simp add: since_def Let_def)
  show "sl_book_id (since b after_seq limit) \<noteq> legacy_book_id"
    using ok by (simp add: since_def Let_def book_ok_def)
qed

section \<open>Order and conservation\<close>

lemma release_all: "mset (fst (release now hs)) + mset (snd (release now hs)) = mset hs"
proof -
  have "mset (take n xs @ take m (drop n xs)) + mset (drop m (drop n xs)) = mset xs" for n m and xs :: "held list"
    by (metis append.assoc append_take_drop_id mset_append)
  then show ?thesis by (simp add: release_def Let_def)
qed

lemma release_append: "fst (release now hs) @ snd (release now hs) = sort_key (\<lambda>h. lr_unix_ms (h_record h)) hs"
  unfolding release_def Let_def fst_conv snd_conv by (metis append.assoc append_take_drop_id)

lemma release_sorted:
  "sorted (map (\<lambda>h. lr_unix_ms (h_record h)) (fst (release now hs) @ snd (release now hs)))"
  unfolding release_append by simp

lemma release_bounded: "length (snd (release now hs)) \<le> hold_capacity"
  by (simp add: release_def Let_def)

lemma takeWhile_sorted_all:
  "sorted (map f xs) \<Longrightarrow> x \<in> set xs \<Longrightarrow> f x \<le> (c :: nat) \<Longrightarrow> x \<in> set (takeWhile (\<lambda>y. f y \<le> c) xs)"
  by (induction xs) (auto dest: order_trans)

text \<open>A record that is old enough leaves in this round.\<close>

lemma release_settled:
  assumes "h \<in> set hs" and "lr_unix_ms (h_record h) \<le> now - reorder_window_ms"
  shows "h \<in> set (fst (release now hs))"
proof -
  let ?sorted = "sort_key (\<lambda>h. lr_unix_ms (h_record h)) hs"
  let ?tw = "takeWhile (\<lambda>h. lr_unix_ms (h_record h) \<le> now - reorder_window_ms) ?sorted"
  have "h \<in> set ?tw" by (rule takeWhile_sorted_all) (use assms in simp_all)
  moreover have "take (length ?tw) ?sorted = ?tw" by (metis takeWhile_eq_take)
  ultimately show ?thesis by (simp add: release_def Let_def)
qed

text \<open>What stays held is younger than the window.\<close>

lemma release_kept:
  assumes "h \<in> set (snd (release now hs))"
  shows "now - reorder_window_ms < lr_unix_ms (h_record h)"
proof -
  let ?key = "\<lambda>h. lr_unix_ms (h_record h)"
  let ?sorted = "sort_key ?key hs"
  let ?P = "\<lambda>h. ?key h \<le> now - reorder_window_ms"
  have later: "\<not> ?P x" if "x \<in> set (dropWhile ?P xs)" "sorted (map ?key xs)" for x xs
    using that by (induction xs) (auto split: if_splits)
  have "h \<in> set (dropWhile ?P ?sorted)"
    using assms set_drop_subset unfolding release_def Let_def snd_conv dropWhile_eq_drop by fast
  from later [OF this] show ?thesis by simp
qed

lemma absorb_parts:
  assumes "absorb usort f remote local_slice now = (f', batch)"
    and "absorb_remote f remote = (f1, reset, restart, skipped)"
  defines "f2 \<equiv> absorb_local f1 (sl_book_id remote) local_slice"
  shows "lf_holding f' = snd (release now (lf_holding f2))"
    and "lf_released_ours f' =
      keep_last capacity (lf_released_ours f1 @ map h_record (filter h_ours (fst (release now (lf_holding f2)))))"
    and "lf_remote_cursor f' = lf_remote_cursor f1" "lf_remote_book f' = lf_remote_book f1"
    and "fb_records batch =
      (let records = map h_record (fst (release now (lf_holding f2)))
       in if restart then usort (lf_released_ours f1 @ records) else records)"
    and "fb_reset batch = reset" "fb_skipped batch = skipped + sl_skipped local_slice"
    and "lf_holding f2 = lf_holding f1 @ hold True (sl_records local_slice)"
proof -
  have f2: "lf_released_ours f2 = lf_released_ours f1" "lf_remote_cursor f2 = lf_remote_cursor f1"
    "lf_remote_book f2 = lf_remote_book f1" "lf_holding f2 = lf_holding f1 @ hold True (sl_records local_slice)"
    by (simp_all add: f2_def absorb_local_def Let_def)
  note eq = assms(1) [unfolded absorb_def assms(2) Let_def split_beta f2_def [symmetric] fst_conv snd_conv]
  from eq f2 show "lf_holding f' = snd (release now (lf_holding f2))"
    "lf_released_ours f' =
      keep_last capacity (lf_released_ours f1 @ map h_record (filter h_ours (fst (release now (lf_holding f2)))))"
    "lf_remote_cursor f' = lf_remote_cursor f1" "lf_remote_book f' = lf_remote_book f1"
    "fb_records batch =
      (let records = map h_record (fst (release now (lf_holding f2)))
       in if restart then usort (lf_released_ours f1 @ records) else records)"
    "fb_reset batch = reset" "fb_skipped batch = skipped + sl_skipped local_slice"
    "lf_holding f2 = lf_holding f1 @ hold True (sl_records local_slice)"
    by (auto simp: Let_def)
qed

lemma map_hold [simp]: "map h_record (hold ours rs) = rs"
  by (simp add: hold_def o_def)

lemma absorb_conserves:
  assumes "absorb usort f remote local_slice now = (f', batch)"
    and "absorb_remote f remote = (f1, reset, restart, skipped)"
    and "\<And>xs. restart \<Longrightarrow> mset (usort xs) = mset xs"
  shows "mset (fb_records batch) + mset (map h_record (lf_holding f')) =
    (if restart then mset (lf_released_ours f1) else {#})
    + mset (map h_record (lf_holding f1)) + mset (sl_records local_slice)"
proof -
  note parts = absorb_parts [OF assms(1,2)]
  let ?f2 = "absorb_local f1 (sl_book_id remote) local_slice"
  have "mset (map h_record (fst (release now (lf_holding ?f2)))) + mset (map h_record (lf_holding f')) =
      mset (map h_record (lf_holding ?f2))"
    using arg_cong [OF release_all [of now "lf_holding ?f2"], of "image_mset h_record"]
    by (simp add: parts(1))
  also have "\<dots> = mset (map h_record (lf_holding f1)) + mset (sl_records local_slice)"
    by (simp add: parts(8))
  finally show ?thesis
    by (simp add: parts(5) Let_def assms(3) ac_simps)
qed

section \<open>Properties\<close>


text \<open>what a round shows is in order and in time: for any slices and clock, the batch is sorted by
arrival time, everything older than the window is shown in this round, what stays held is younger
than the window, and neither the held lines nor the remembered own lines exceed their ceilings.\<close>

theorem feed_batch_ordered:
  assumes "absorb usort f remote local_slice now = (f', batch)"
    and "\<And>xs. sorted (map lr_unix_ms (usort xs))"
  shows "sorted (map lr_unix_ms (fb_records batch))
    \<and> (\<forall>h\<in>set (lf_holding f'). now - reorder_window_ms < lr_unix_ms (h_record h))
    \<and> length (lf_holding f') \<le> hold_capacity \<and> length (lf_released_ours f') \<le> capacity"
proof -
  obtain f1 reset restart skipped where a: "absorb_remote f remote = (f1, reset, restart, skipped)"
    by (cases "absorb_remote f remote")
  note parts = absorb_parts [OF assms(1) a]
  have "sorted (map lr_unix_ms (map h_record (fst (release now hs))))" for hs
    using release_sorted [of now hs] by (simp add: sorted_append o_def)
  then have "sorted (map lr_unix_ms (fb_records batch))"
    using assms(2) by (simp add: parts(5) Let_def)
  with release_kept release_bounded show ?thesis
    by (auto simp: parts(1,2))
qed

text \<open>a restarted daemon takes only its own lines away: when a slice of another book arrives, the
round resets the view and its batch together with what stays held is exactly the own lines shown
before (up to the capacity), the own lines still held, this round's own lines and the lines of the
new book; no line of the dead book is left.\<close>

theorem feed_restart_keeps_ours:
  assumes "reached b" and "lf_remote_book f = Some old" and "old \<noteq> bk_id b"
    and "sl_records (since b after_seq limit) \<noteq> []"
    and "absorb usort f (since b after_seq limit) local_slice now = (f', batch)"
    and "\<And>xs. mset (usort xs) = mset xs"
  shows "fb_reset batch
    \<and> mset (fb_records batch) + mset (map h_record (lf_holding f')) =
        mset (lf_released_ours f) + mset (map h_record (filter h_ours (lf_holding f)))
        + mset (sl_records (since b after_seq limit)) + mset (sl_records local_slice)
    \<and> lf_remote_book f' = Some (bk_id b)"
proof -
  let ?s = "since b after_seq limit"
  have i: "sl_book_id ?s = bk_id b" "bk_id b \<noteq> legacy_book_id"
    using reached_ok [OF assms(1)] by (auto simp: since_def Let_def book_ok_def)
  obtain f1 reset restart skipped where a: "absorb_remote f ?s = (f1, reset, restart, skipped)"
    by (cases "absorb_remote f ?s")
  have seqs: "map lr_seq (sl_records ?s) = [bk_next_seq b - length (sl_records ?s) ..< bk_next_seq b]"
    and len: "length (sl_records ?s) < bk_next_seq b"
    using book.poll_seqs book.poll_length reached_ok [OF assms(1)] by auto
  have "position (\<lambda>r. 0 < lr_seq r) (sl_records ?s) = Some 0"
  proof (cases "sl_records ?s")
    case (Cons r rs)
    then have "lr_seq r = bk_next_seq b - length (sl_records ?s)"
      using Cons_eq_uptD [of "lr_seq r" "map lr_seq rs"] seqs by auto
    with Cons len show ?thesis by simp
  qed (use assms(4) in simp)
  with a i assms(2,3) have f1: "restart" "reset" "lf_released_ours f1 = lf_released_ours f"
    "lf_holding f1 = filter h_ours (lf_holding f) @ hold False (sl_records ?s)"
    "lf_remote_book f1 = Some (bk_id b)"
    by (auto simp: absorb_remote_def Let_def)
  with absorb_parts [OF assms(5) a] absorb_conserves [OF assms(5) a assms(6)]
  show ?thesis by (simp add: ac_simps)
qed

text \<open>a gap with nothing after it is counted again on every poll: when the daemon's log is cleared
while the feed is \<open>n\<close> lines behind and nothing new is written, each round reports the same
\<open>n\<close> lines as skipped and leaves the cursor where it was, so \<open>k\<close> rounds announce
\<open>k * n\<close> lost lines where \<open>n\<close> were lost.\<close>

fun poll_cleared :: "nat \<Rightarrow> log_book \<Rightarrow> nat \<Rightarrow> log_feed \<Rightarrow> nat \<times> log_feed" where
  "poll_cleared 0 b limit f = (0, f)"
| "poll_cleared (Suc k) b limit f =
     (let (f', _, _, skipped) = absorb_remote f (since (book_clear b) (lf_remote_cursor f) limit);
          (more, f'') = poll_cleared k b limit f'
      in (skipped + more, f''))"

lemma cleared_round:
  assumes "lf_remote_book f = Some (bk_id b)" and "bk_id b \<noteq> legacy_book_id"
  shows "\<exists>reset. absorb_remote f (since (book_clear b) (lf_remote_cursor f) limit) =
    (f\<lparr>lf_reset_pending := False\<rparr>, reset, reset, bk_next_seq b - (lf_remote_cursor f + 1))"
  using assms by (simp add: absorb_remote_def since_def book_clear_def first_seq_def Let_def)

text \<open>after \<open>clear\<close> the gap is counted again and again: a viewer that had seen only part of the
book before it was cleared is told, in every poll until a new line is written, that the same lines
were skipped, so k polls report k times the gap, although the view counts the skipped lines up.\<close>

theorem cleared_gap_recounted:
  assumes "reached b" and "lf_remote_book f = Some (bk_id b)"
  shows "fst (poll_cleared k b limit f) = k * (bk_next_seq b - (lf_remote_cursor f + 1))
    \<and> lf_remote_cursor (snd (poll_cleared k b limit f)) = lf_remote_cursor f"
  using assms(2)
proof (induction k arbitrary: f)
  case (Suc k)
  have "bk_id b \<noteq> legacy_book_id" using reached_ok [OF assms(1)] by (simp add: book_ok_def)
  from cleared_round [OF Suc.prems this] obtain reset where
    r: "absorb_remote f (since (book_clear b) (lf_remote_cursor f) limit) =
      (f\<lparr>lf_reset_pending := False\<rparr>, reset, reset, bk_next_seq b - (lf_remote_cursor f + 1))" ..
  from Suc.IH [of "f\<lparr>lf_reset_pending := False\<rparr>"] Suc.prems show ?case
    by (simp add: r Let_def split_beta)
qed simp

section \<open>Witnesses\<close>

definition sample_feed :: log_feed where
  "sample_feed = feed_new\<lparr>lf_remote_book := Some (bk_id sample_book), lf_remote_cursor := 1\<rparr>"

definition empty_slice :: log_slice where
  "empty_slice = \<lparr>sl_records = [], sl_book_id = 9, sl_first_seq = 1, sl_next_seq = 1, sl_skipped = 0\<rparr>"

lemma sample_since: "sl_records (since sample_book a 10) \<noteq> []" if "a \<le> 2"
  using that
  by (simp add: since_def sample_book_def sample_ops_def push_def book_clear_def book_new_def Let_def
      capacity_def)


theorem feed_batch_ordered_witness:
  "sorted (map lr_unix_ms (fb_records (snd
     (absorb (sort_key lr_unix_ms) sample_feed (since sample_book 1 10) empty_slice 700))))"
proof -
  obtain f' batch where e: "absorb (sort_key lr_unix_ms) sample_feed (since sample_book 1 10) empty_slice 700 = (f', batch)"
    by (cases "absorb (sort_key lr_unix_ms) sample_feed (since sample_book 1 10) empty_slice 700")
  from feed_batch_ordered [OF e] e show ?thesis by simp
qed

theorem feed_restart_keeps_ours_witness:
  "fb_reset (snd (absorb (sort_key lr_unix_ms)
     (sample_feed\<lparr>lf_remote_book := Some (bk_id sample_book + 1)\<rparr>) (since sample_book 1 10) empty_slice 700))"
proof -
  let ?f = "sample_feed\<lparr>lf_remote_book := Some (bk_id sample_book + 1)\<rparr>"
  obtain f' batch where e: "absorb (sort_key lr_unix_ms) ?f (since sample_book 1 10) empty_slice 700 = (f', batch)"
    by (cases "absorb (sort_key lr_unix_ms) ?f (since sample_book 1 10) empty_slice 700")
  have "fb_reset batch"
    using feed_restart_keeps_ours [OF sample_book_reached, of ?f "bk_id sample_book + 1" 1 10
        "sort_key lr_unix_ms" empty_slice 700 f' batch] e
    by (simp add: sample_since)
  with e show ?thesis by simp
qed

theorem cleared_gap_recounted_witness:
  "fst (poll_cleared 3 sample_book 10 sample_feed) = 6"
  using cleared_gap_recounted [OF sample_book_reached, of sample_feed 3 10]
  by (simp add: sample_feed_def feed_new_def sample_book_next)

end
