(* ===== verification/Civil_Time.thy ===== *)
theory Civil_Time
  imports Rust_Text
begin

text \<open>
  Calendar dates without a date library: \<open>civil_from_days\<close> and \<open>format_utc\<close> of
  \<open>crates/oxidom-core/src/logbook.rs\<close> and the second \<open>format_utc\<close> of
  \<open>crates/oxidom/src/daemon/runtime.rs\<close>.

  The specification is the calendar itself: a first day and the rule for the next day. The
  closed formulas are proved to count days exactly as that rule does, and the two printers to
  agree. \<open>i64\<close> values are integers: a \<open>u64\<close> of seconds or milliseconds divided into days
  stays far inside them.
\<close>

section \<open>The formulas\<close>

definition civil_from_days :: "int \<Rightarrow> int \<times> int \<times> int" where
  "civil_from_days days =
     (let z = days + 719468;
          era = z div 146097;
          doe = z mod 146097;
          yoe = (doe - doe div 1460 + doe div 36524 - doe div 146096) div 365;
          year = yoe + era * 400;
          doy = doe - (365 * yoe + yoe div 4 - yoe div 100);
          mp = (5 * doy + 2) div 153;
          day = doy - (153 * mp + 2) div 5 + 1;
          month = (if mp < 10 then mp + 3 else mp - 9)
      in (if month \<le> 2 then year + 1 else year, month, day))"

text \<open>\<open>{:04}\<close> and \<open>{:02}\<close> of a number that is not negative.\<close>

definition pad :: "nat \<Rightarrow> nat \<Rightarrow> string" where
  "pad width n = (let s = show_nat n in replicate (width - length s) CHR ''0'' @ s)"

definition print_stamp :: "int \<times> int \<times> int \<Rightarrow> nat \<Rightarrow> nat \<Rightarrow> nat \<Rightarrow> string" where
  "print_stamp date hour minute second =
     (case date of (year, month, day) \<Rightarrow>
        pad 4 (nat year) @ ''-'' @ pad 2 (nat month) @ ''-'' @ pad 2 (nat day) @ ''T''
        @ pad 2 hour @ '':'' @ pad 2 minute @ '':'' @ pad 2 second @ ''Z'')"

definition log_format_utc :: "nat \<Rightarrow> string" where
  "log_format_utc unix_ms =
     (let seconds = unix_ms div 1000;
          days = seconds div 86400; rest = seconds mod 86400;
          hour = rest div 3600; minute = (rest mod 3600) div 60; second = rest mod 60
      in print_stamp (civil_from_days (int days)) hour minute second)"

definition runtime_format_utc :: "nat \<Rightarrow> string" where
  "runtime_format_utc seconds =
     (let z = int (seconds div 86400) + 719468;
          era = z div 146097;
          doe = z mod 146097;
          yoe = (doe - doe div 1460 + doe div 36524 - doe div 146096) div 365;
          year = yoe + era * 400;
          doy = doe - (365 * yoe + yoe div 4 - yoe div 100);
          mp = (5 * doy + 2) div 153;
          day = doy - (153 * mp + 2) div 5 + 1;
          month = (if mp < 10 then mp + 3 else mp - 9);
          year = (if month \<le> 2 then year + 1 else year);
          rest = seconds mod 86400
      in print_stamp (year, month, day) (rest div 3600) (rest mod 3600 div 60) (rest mod 60))"

section \<open>The calendar\<close>

definition leap :: "int \<Rightarrow> bool" where
  "leap y = (y mod 4 = 0 \<and> (y mod 100 \<noteq> 0 \<or> y mod 400 = 0))"

definition month_length :: "int \<Rightarrow> int \<Rightarrow> int" where
  "month_length y m =
     (if m = 2 then (if leap y then 29 else 28) else if m \<in> {4, 6, 9, 11} then 30 else 31)"

definition next_day :: "int \<times> int \<times> int \<Rightarrow> int \<times> int \<times> int" where
  "next_day date =
     (case date of (y, m, d) \<Rightarrow>
        if d < month_length y m then (y, m, d + 1)
        else if m < 12 then (y, m + 1, 1) else (y + 1, 1, 1))"

section \<open>Years of an era\<close>

text \<open>Years start in March. \<open>year_start y\<close> is the first day of year \<open>y\<close> of an era.\<close>

definition year_start :: "int \<Rightarrow> int" where
  "year_start y = 365 * y + y div 4 - y div 100 + y div 400"

definition year_of :: "int \<Rightarrow> int" where
  "year_of doe = (doe - doe div 1460 + doe div 36524 - doe div 146096) div 365"

definition ramp :: "int \<Rightarrow> int" where
  "ramp n = n - n div 1460 + n div 36524 - n div 146096"

lemma ramp_step: "ramp n \<le> ramp (n + 1)"
proof -
  have a: "(n + 1) div 1460 \<le> n div 1460 + 1" by linarith
  have b: "n div 146096 = (n div 36524) div 4" "(n + 1) div 146096 = ((n + 1) div 36524) div 4"
    by (simp_all add: zdiv_zmult2_eq [symmetric])
  have "k - k div 4 \<le> j - j div 4" if "k \<le> j" for k j :: int using that by linarith
  moreover have "n div 36524 \<le> (n + 1) div 36524" by (rule zdiv_mono1) simp_all
  ultimately have "n div 36524 - n div 146096 \<le> (n + 1) div 36524 - (n + 1) div 146096"
    unfolding b by blast
  with a show ?thesis by (simp add: ramp_def)
qed

lemma ramp_mono: "a \<le> b \<Longrightarrow> ramp a \<le> ramp b"
proof (induction b rule: int_ge_induct)
  case (step i)
  then show ?case using ramp_step [of i] by linarith
qed simp

text \<open>The 400 years checked at both ends; between them the formula is monotone.\<close>

lemma year_ends:
  "\<forall>y\<in>set [0..399]. ramp (year_start y) div 365 = y \<and> ramp (year_start (y + 1) - 1) div 365 = y"
  by code_simp

lemma year_of_unique:
  assumes "0 \<le> y" "y \<le> 399" "year_start y \<le> doe" "doe < year_start (y + 1)"
  shows "year_of doe = y"
proof -
  have y: "ramp (year_start y) div 365 = y" "ramp (year_start (y + 1) - 1) div 365 = y"
    using year_ends assms(1,2) by auto
  have "ramp (year_start y) \<le> ramp doe" "ramp doe \<le> ramp (year_start (y + 1) - 1)"
    using assms(3,4) by (auto intro: ramp_mono)
  then have "y \<le> ramp doe div 365" "ramp doe div 365 \<le> y"
    using y zdiv_mono1 [of "ramp (year_start y)" "ramp doe" 365]
      zdiv_mono1 [of "ramp doe" "ramp (year_start (y + 1) - 1)" 365] by auto
  then show ?thesis by (simp add: year_of_def ramp_def)
qed

lemma div_step: "0 < (k :: int) \<Longrightarrow> (y + 1) div k = y div k + (if (y + 1) mod k = 0 then 1 else 0)"
proof -
  assume k: "0 < k"
  show ?thesis
  proof (cases "(y + 1) mod k = 0")
    case True
    then obtain q where "y + 1 = k * q" by auto
    then have "y = k * (q - 1) + (k - 1)" by (simp add: algebra_simps)
    with k \<open>y + 1 = k * q\<close> True show ?thesis
      by (simp add: div_pos_pos_trivial)
  next
    case False
    have y: "y + 1 = k * (y div k) + (y mod k + 1)" by simp
    have r: "0 \<le> y mod k" "y mod k < k" using k by simp_all
    have "y mod k + 1 \<noteq> k"
    proof
      assume "y mod k + 1 = k"
      with y have "y + 1 = k * (y div k) + k" by (simp only:)
      then have "y + 1 = k * (y div k + 1)" by (simp only: distrib_left mult_1_right)
      with False show False by simp
    qed
    with r have "y mod k + 1 < k" by simp
    with y r have "(y + 1) div k = y div k" by (intro int_div_pos_eq) simp_all
    with False show ?thesis by simp
  qed
qed

text \<open>A year that starts in March has 366 days when the February at its end is a leap one.\<close>

definition year_days :: "int \<Rightarrow> int" where
  "year_days y = (if leap (y + 1) then 366 else 365)"

lemma count_leaps:
  fixes a b c a' b' c' y :: int
  assumes "a' = a + (if P then 1 else 0)" "b' = b + (if Q then 1 else 0)" "c' = c + (if R then 1 else 0)"
    and "R \<longrightarrow> Q" "Q \<longrightarrow> P"
  shows "365 * (y + 1) + a' - b' + c' = 365 * y + a - b + c + (if P \<and> (\<not> Q \<or> R) then 366 else 365)"
  unfolding assms(1-3) using assms(4,5) by (cases P; cases Q; cases R) simp_all

lemma mod_eq_0_trans:
  fixes x :: int
  assumes "k dvd m" shows "x mod m = 0 \<longrightarrow> x mod k = 0"
  using assms dvd_trans mod_eq_0_iff_dvd by blast

lemma year_start_step: "year_start (y + 1) = year_start y + year_days y"
proof -
  have "(y + 1) mod 400 = 0 \<longrightarrow> (y + 1) mod 100 = 0" "(y + 1) mod 100 = 0 \<longrightarrow> (y + 1) mod 4 = 0"
    by (rule mod_eq_0_trans, simp)+
  then show ?thesis
    unfolding year_start_def year_days_def leap_def
    by (intro count_leaps div_step) simp_all
qed

definition month_day :: "int \<Rightarrow> int \<times> int" where
  "month_day doy =
     (let mp = (5 * doy + 2) div 153; day = doy - (153 * mp + 2) div 5 + 1
      in (if mp < 10 then mp + 3 else mp - 9, day))"

text \<open>The day a year in March-based numbering and a day of that year stand for.\<close>

definition date_of :: "int \<Rightarrow> int \<Rightarrow> int \<times> int \<times> int" where
  "date_of y doy = (case month_day doy of (m, d) \<Rightarrow> (if m \<le> 2 then y + 1 else y, m, d))"

lemma civil_decompose:
  assumes "n + 719468 = era * 146097 + year_start y + doy" and "0 \<le> y" "y \<le> 399"
    and "0 \<le> doy" "doy < year_days y"
  shows "civil_from_days n = date_of (y + era * 400) doy"
proof -
  have up: "year_start (y + 1) \<le> year_start 400"
    and lo: "year_start 0 \<le> year_start y"
  proof -
    have "year_start a \<le> year_start b" if "a \<le> b" for a b
      using that
    proof (induction b rule: int_ge_induct)
      case (step i)
      then show ?case using year_start_step [of i] by (auto simp: year_days_def split: if_splits)
    qed simp
    with assms(2,3) show "year_start (y + 1) \<le> year_start 400" "year_start 0 \<le> year_start y" by simp_all
  qed
  let ?doe = "year_start y + doy"
  have "year_start 400 = 146097" "year_start 0 = 0" by (simp_all add: year_start_def)
  with up lo assms(4,5) have doe: "0 \<le> ?doe" "?doe < 146097" using year_start_step [of y] by simp_all
  have e: "(n + 719468) div 146097 = era" "(n + 719468) mod 146097 = ?doe"
  proof -
    have "n + 719468 = ?doe + era * 146097" using assms(1) by simp
    with doe show "(n + 719468) div 146097 = era" "(n + 719468) mod 146097 = ?doe" by simp_all
  qed
  have yoe: "(?doe - ?doe div 1460 + ?doe div 36524 - ?doe div 146096) div 365 = y"
    using year_of_unique [of y ?doe] assms year_start_step [of y] by (simp add: year_of_def)
  have "y div 400 = 0" using assms(2,3) by simp
  then have doy: "?doe - (365 * y + y div 4 - y div 100) = doy" by (simp add: year_start_def)
  show ?thesis
    unfolding civil_from_days_def Let_def e yoe doy
    by (auto simp: date_of_def month_day_def Let_def)
qed

lemma decompose_ex:
  obtains era y doy where "n + 719468 = era * 146097 + year_start y + doy" "0 \<le> y" "y \<le> 399"
    "0 \<le> doy" "doy < year_days y"
proof -
  let ?doe = "(n + 719468) mod 146097"
  have doe: "0 \<le> ?doe" "?doe < 146097" by simp_all
  have "\<exists>y doy. ?doe = year_start y + doy \<and> 0 \<le> y \<and> y \<le> k \<and> 0 \<le> doy \<and> doy < year_days y"
    if "0 \<le> k" "?doe < year_start (k + 1)" for k
    using that
  proof (induction k rule: int_ge_induct)
    case base
    then show ?case using doe(1) by (intro exI [of _ 0] exI [of _ ?doe]) (simp add: year_start_def year_days_def leap_def)
  next
    case (step k)
    show ?case
    proof (cases "?doe < year_start (k + 1)")
      case True with step show ?thesis by fastforce
    next
      case False
      with step(1,3) year_start_step [of "k + 1"] show ?thesis
        by (intro exI [of _ "k + 1"] exI [of _ "?doe - year_start (k + 1)"]) simp
    qed
  qed
  from this [of 399] doe(2) obtain y doy where
    y: "?doe = year_start y + doy" "0 \<le> y" "y \<le> 399" "0 \<le> doy" "doy < year_days y"
    by (auto simp: year_start_def)
  have "n + 719468 = (n + 719468) div 146097 * 146097 + ?doe" by simp
  with y show ?thesis by (intro that [of "(n + 719468) div 146097" y doy]) simp_all
qed

text \<open>The months of a year that starts in March, one day after another.\<close>

lemma month_table:
  "\<forall>doy\<in>set [0..364]. case month_day doy of (m, d) \<Rightarrow>
     month_day (doy + 1) =
       (if d < (if m = 2 then 29 else if m \<in> {4, 6, 9, 11} then 30 else 31) then (m, d + 1)
        else (if m < 12 then m + 1 else 1, 1))"
  by code_simp

lemma month_ends: "month_day 0 = (3, 1)" "month_day 364 = (2, 28)" "month_day 365 = (2, 29)"
  by (simp_all add: month_day_def)

lemma month_short:
  "\<forall>doy\<in>set [0..363]. case month_day doy of (m, d) \<Rightarrow> (m = 2 \<longrightarrow> d < 28) \<and> 1 \<le> m \<and> m \<le> 12 \<and> (m = 12 \<or> d < 31 \<or> m \<noteq> 2)"
  by code_simp

lemma leap_era: "leap (y + era * 400) = leap y"
proof -
  have "(y + era * 400) mod 400 = y mod 400" by simp
  moreover have "(y + era * 400) mod 100 = y mod 100"
    using mod_mult_self1 [of y "era * 4" 100] by (simp add: ac_simps)
  moreover have "(y + era * 400) mod 4 = y mod 4"
    using mod_mult_self1 [of y "era * 100" 4] by (simp add: ac_simps)
  ultimately show ?thesis by (simp only: leap_def)
qed

lemma next_day_before_end:
  assumes "0 \<le> doy" "doy \<le> 363"
  shows "date_of y (doy + 1) = next_day (date_of y doy)"
proof -
  obtain m d where md: "month_day doy = (m, d)" by (cases "month_day doy")
  have in1: "doy \<in> set [0..364]" and in2: "doy \<in> set [0..363]" using assms by auto
  from bspec [OF month_table in1] md have t: "month_day (doy + 1) =
      (if d < (if m = 2 then 29 else if m \<in> {4, 6, 9, 11} then 30 else 31) then (m, d + 1)
       else (if m < 12 then m + 1 else 1, 1))" by simp
  from bspec [OF month_short in2] md have r: "m = 2 \<longrightarrow> d < 28" "1 \<le> m" "m \<le> 12" by auto
  show ?thesis
  proof (cases "m = 2")
    case True
    with t r md show ?thesis by (simp add: date_of_def next_day_def month_length_def)
  next
    case False
    with t r md show ?thesis by (auto simp: date_of_def next_day_def month_length_def)
  qed
qed

lemma next_day_last:
  assumes "leap (y + 1) = leap (y' + 1)"
  shows "date_of (y' + 1) 0 = next_day (date_of y' (year_days y - 1))"
    and "leap (y + 1) \<Longrightarrow> date_of y' 365 = next_day (date_of y' 364)"
  using assms by (auto simp: date_of_def next_day_def month_length_def month_ends year_days_def)

section \<open>Properties\<close>

text \<open>the date arithmetic is the Gregorian calendar: day 0 is 1 January 1970 and the day after any
day is the next calendar day, with 29 February in exactly the leap years.\<close>

theorem civil_next_day:
  "civil_from_days 0 = (1970, 1, 1) \<and> civil_from_days (n + 1) = next_day (civil_from_days n)"
proof
  show "civil_from_days 0 = (1970, 1, 1)" by code_simp
  obtain era y doy where d: "n + 719468 = era * 146097 + year_start y + doy" "0 \<le> y" "y \<le> 399"
    "0 \<le> doy" "doy < year_days y" by (rule decompose_ex)
  let ?y = "y + era * 400"
  have here: "civil_from_days n = date_of ?y doy" by (rule civil_decompose [OF d])
  have leap: "leap (y + 1) = leap (?y + 1)" using leap_era [of "y + 1" era] by (simp add: ac_simps)
  show "civil_from_days (n + 1) = next_day (civil_from_days n)"
  proof (cases "doy + 1 < year_days y")
    case True
    have "civil_from_days (n + 1) = date_of ?y (doy + 1)"
      by (rule civil_decompose) (use d True in auto)
    moreover have "date_of ?y (doy + 1) = next_day (date_of ?y doy)"
    proof (cases "doy \<le> 363")
      case False
      with True have "doy = 364" "leap (y + 1)" by (auto simp: year_days_def split: if_splits)
      with next_day_last(2) [OF leap] show ?thesis by simp
    qed (use next_day_before_end d(4) in blast)
    ultimately show ?thesis using here by simp
  next
    case False
    with d(5) have doy: "doy = year_days y - 1" by simp
    have "civil_from_days (n + 1) = date_of (?y + 1) 0"
    proof (cases "y = 399")
      case True
      have "civil_from_days (n + 1) = date_of (0 + (era + 1) * 400) 0"
        by (rule civil_decompose)
          (use d(1) doy True in \<open>simp_all add: year_start_def year_days_def leap_def\<close>)
      with True show ?thesis by (simp add: algebra_simps)
    next
      case False
      have "0 < year_days (y + 1)" by (simp add: year_days_def)
      have "civil_from_days (n + 1) = date_of ((y + 1) + era * 400) 0"
        by (rule civil_decompose)
          (use d doy False year_start_step [of y] \<open>0 < year_days (y + 1)\<close> in simp_all)
      then show ?thesis by (simp add: ac_simps)
    qed
    with next_day_last(1) [OF leap] here doy show ?thesis by simp
  qed
qed

text \<open>the daemon's timestamps and the log file's are the same text: the two separate
implementations agree on every second, whatever the milliseconds.\<close>

theorem format_utc_agree: "log_format_utc (seconds * 1000 + ms mod 1000) = runtime_format_utc seconds"
proof -
  have "(seconds * 1000 + ms mod 1000) div 1000 = seconds"
    using div_mult_self3 [of 1000 seconds "ms mod 1000"] by simp
  then show ?thesis
    by (simp only: log_format_utc_def runtime_format_utc_def civil_from_days_def Let_def)
qed

end
