(* ===== verification/Runtime_Facts.thy ===== *)
theory Runtime_Facts
  imports Failover Net
begin

text \<open>
  What the daemon observes about its sessions: \<open>crates/oxidom/src/daemon/runtime.rs\<close>
  (\<open>RuntimeFacts\<close>), with \<open>reconnect_delay\<close>, \<open>watchdog_policy\<close> and
  \<open>Confirmation\<close> of \<open>crates/oxidom/src/daemon.rs\<close>, the two setting enumerations of
  \<open>crates/oxidom-core/src/config.rs\<close> and \<open>ProbeOutcome\<close> of
  \<open>crates/oxidom-core/src/probe.rs\<close>.

  Instants and durations are nanoseconds. A retry episode is a token: the lemmas show that a
  scheduled retry is claimed at most once, that only its own generation can claim or cancel it,
  and that what is shown to a user is the rounded-up truth. Measurements, details of internal
  failures and the diagnostic context are opaque here and are type parameters.
\<close>

datatype ('m, 'd) probe_outcome = Reachable 'm | Unreachable | Timeout | NoNetwork | Internal 'd

datatype latency_method = Icmp | Tcp | HttpHead | HttpGet

datatype watchdog_mode = WatchdogOff | Conservative | Aggressive

record 'c confirmation =
  cf_generation :: nat
  cf_core :: "nat option"
  cf_spawn_seq :: nat
  cf_context :: "'c option"
  cf_inbound :: "(ipv4 \<times> nat \<times> latency_method) option"

definition active_probe_interval :: nat where
  "active_probe_interval = secs 30"

definition watchdog_policy :: "watchdog_mode \<Rightarrow> (nat \<times> nat \<times> nat) option" where
  "watchdog_policy mode =
     (case mode of
        WatchdogOff \<Rightarrow> None
      | Conservative \<Rightarrow> Some (secs 60, secs 8, 5)
      | Aggressive \<Rightarrow> Some (active_probe_interval, secs 3, 3))"

definition reconnect_delay :: "nat \<Rightarrow> nat" where
  "reconnect_delay attempt = secs (min (2 ^ min attempt 5) 30)"

text \<open>The seconds of the delay, for all attempt numbers.\<close>

lemma reconnect_delay_bounds:
  "secs 1 \<le> reconnect_delay n" "reconnect_delay n \<le> secs 30" "5 \<le> n \<Longrightarrow> reconnect_delay n = secs 30"
proof -
  have "(1 :: nat) \<le> 2 ^ min n 5" by simp
  then show "secs 1 \<le> reconnect_delay n" "reconnect_delay n \<le> secs 30"
    by (auto simp: reconnect_delay_def secs_def min_def)
  show "5 \<le> n \<Longrightarrow> reconnect_delay n = secs 30" by (simp add: reconnect_delay_def min_def)
qed

lemma reconnect_delay_mono: "m \<le> n \<Longrightarrow> reconnect_delay m \<le> reconnect_delay n"
proof -
  assume "m \<le> n"
  then have "(2 :: nat) ^ min m 5 \<le> 2 ^ min n 5" by (intro power_increasing) auto
  then have "min (2 ^ min m 5) 30 \<le> min (2 ^ min n 5 :: nat) 30" by (rule min.mono) simp
  then show ?thesis by (simp add: reconnect_delay_def secs_def)
qed

section \<open>Facts\<close>

record runtime_health =
  rh_outcome :: string
  rh_source :: string
  rh_measured_at :: string

record retry_episode =
  re_generation :: nat
  re_ordinal :: nat
  re_deadline :: "nat option"
  re_retry_allowed :: bool

record 'c runtime_facts =
  rf_health :: "string \<rightharpoonup> 'c confirmation \<times> runtime_health"
  rf_retry :: "string \<rightharpoonup> retry_episode"

record runtime_retry =
  rr_state :: string
  rr_ordinal :: nat
  rr_remaining_ms :: "nat option"

definition facts_new :: "'c runtime_facts" where
  "facts_new = \<lparr>rf_health = Map.empty, rf_retry = Map.empty\<rparr>"

definition facts_reset :: "string \<Rightarrow> 'c runtime_facts \<Rightarrow> 'c runtime_facts" where
  "facts_reset profile f =
     f\<lparr>rf_health := (rf_health f)(profile := None), rf_retry := (rf_retry f)(profile := None)\<rparr>"

definition facts_clear :: "'c runtime_facts \<Rightarrow> 'c runtime_facts" where
  "facts_clear f = f\<lparr>rf_health := Map.empty, rf_retry := Map.empty\<rparr>"

definition clear_health :: "string \<Rightarrow> 'c runtime_facts \<Rightarrow> 'c runtime_facts" where
  "clear_health profile f = f\<lparr>rf_health := (rf_health f)(profile := None)\<rparr>"

definition outcome_name :: "('m, 'd) probe_outcome \<Rightarrow> string" where
  "outcome_name outcome =
     (case outcome of
        Reachable _ \<Rightarrow> ''reachable''
      | Unreachable \<Rightarrow> ''unreachable''
      | Timeout \<Rightarrow> ''timeout''
      | NoNetwork \<Rightarrow> ''no_network''
      | Internal _ \<Rightarrow> ''internal'')"

definition observe ::
  "string \<Rightarrow> 'c confirmation \<Rightarrow> ('m, 'd) probe_outcome \<Rightarrow> string \<Rightarrow> string \<Rightarrow> 'c runtime_facts \<Rightarrow> 'c runtime_facts" where
  "observe profile subject outcome source measured_at f =
     f\<lparr>rf_health := (rf_health f)(profile \<mapsto>
         (subject, \<lparr>rh_outcome = outcome_name outcome, rh_source = source, rh_measured_at = measured_at\<rparr>))\<rparr>"

definition same_subject :: "'c confirmation \<Rightarrow> 'c confirmation \<Rightarrow> bool" where
  "same_subject a b =
     ((cf_generation a, cf_core a, cf_spawn_seq a) = (cf_generation b, cf_core b, cf_spawn_seq b))"

definition health :: "'c runtime_facts \<Rightarrow> string \<Rightarrow> 'c confirmation option \<Rightarrow> runtime_health option" where
  "health f profile subject =
     (case subject of
        None \<Rightarrow> None
      | Some s \<Rightarrow>
          (case rf_health f profile of
             None \<Rightarrow> None
           | Some (captured, h) \<Rightarrow> if same_subject captured s then Some h else None))"

definition backoff :: "string \<Rightarrow> nat \<Rightarrow> nat \<Rightarrow> nat \<Rightarrow> 'c runtime_facts \<Rightarrow> 'c runtime_facts" where
  "backoff profile generation ordinal now f =
     f\<lparr>rf_retry := (rf_retry f)(profile \<mapsto>
         \<lparr>re_generation = generation, re_ordinal = ordinal,
          re_deadline = Some (now + reconnect_delay ordinal), re_retry_allowed = True\<rparr>)\<rparr>"

definition attempting :: "string \<Rightarrow> nat \<Rightarrow> 'c runtime_facts \<Rightarrow> bool \<times> 'c runtime_facts" where
  "attempting profile generation f =
     (case rf_retry f profile of
        None \<Rightarrow> (False, f)
      | Some e \<Rightarrow>
          if re_generation e = generation \<and> re_deadline e \<noteq> None \<and> re_retry_allowed e
          then (True, f\<lparr>rf_retry := (rf_retry f)(profile \<mapsto> e\<lparr>re_deadline := None\<rparr>)\<rparr>)
          else (False, f))"

definition has_retry :: "'c runtime_facts \<Rightarrow> string \<Rightarrow> nat \<Rightarrow> bool" where
  "has_retry f profile generation =
     (case rf_retry f profile of None \<Rightarrow> False | Some e \<Rightarrow> re_generation e = generation)"

definition retry_allowed :: "'c runtime_facts \<Rightarrow> string \<Rightarrow> nat \<Rightarrow> bool" where
  "retry_allowed f profile generation =
     (case rf_retry f profile of None \<Rightarrow> False
      | Some e \<Rightarrow> re_generation e = generation \<and> re_retry_allowed e)"

definition disable_attempt :: "string \<Rightarrow> nat \<Rightarrow> 'c runtime_facts \<Rightarrow> bool \<times> 'c runtime_facts" where
  "disable_attempt profile generation f =
     (case rf_retry f profile of
        None \<Rightarrow> (False, f)
      | Some e \<Rightarrow>
          if re_generation e = generation \<and> re_deadline e = None
          then (True, f\<lparr>rf_retry := (rf_retry f)(profile \<mapsto> e\<lparr>re_retry_allowed := False\<rparr>)\<rparr>)
          else (False, f))"

definition idle :: "string \<Rightarrow> nat \<Rightarrow> 'c runtime_facts \<Rightarrow> 'c runtime_facts" where
  "idle profile generation f =
     (if has_retry f profile generation then f\<lparr>rf_retry := (rf_retry f)(profile := None)\<rparr> else f)"

text \<open>\<open>saturating_duration_since\<close> is truncated subtraction.\<close>

definition retry_wait :: "'c runtime_facts \<Rightarrow> string \<Rightarrow> nat \<Rightarrow> nat \<Rightarrow> nat option" where
  "retry_wait f profile generation now =
     (case rf_retry f profile of
        None \<Rightarrow> None
      | Some e \<Rightarrow>
          if re_generation e = generation then map_option (\<lambda>deadline. deadline - now) (re_deadline e)
          else None)"

definition remaining_ms :: "nat \<Rightarrow> nat \<Rightarrow> nat" where
  "remaining_ms deadline now = saturate u64_max (div_ceil (deadline - now) 1000000)"

definition retry_view :: "'c runtime_facts \<Rightarrow> string \<Rightarrow> nat option \<Rightarrow> nat \<Rightarrow> runtime_retry" where
  "retry_view f profile generation now =
     (case (case rf_retry f profile of
              None \<Rightarrow> None
            | Some e \<Rightarrow> if Some (re_generation e) = generation then Some e else None) of
        Some e \<Rightarrow>
          \<lparr>rr_state = (if re_deadline e \<noteq> None then ''backoff'' else ''attempting''),
           rr_ordinal = re_ordinal e,
           rr_remaining_ms = map_option (\<lambda>deadline. remaining_ms deadline now) (re_deadline e)\<rparr>
      | None \<Rightarrow> \<lparr>rr_state = ''idle'', rr_ordinal = 0, rr_remaining_ms = None\<rparr>)"

datatype session_status = StDisconnected | StConnecting | StConnected | StError string

definition phase :: "session_status \<Rightarrow> bool \<Rightarrow> string" where
  "phase status confirmation_pending =
     (case status of
        StDisconnected \<Rightarrow> ''stopped''
      | StConnecting \<Rightarrow> ''starting''
      | StConnected \<Rightarrow> (if confirmation_pending then ''verifying'' else ''running'')
      | StError _ \<Rightarrow> ''failed'')"

section \<open>Runs\<close>

datatype retry_op =
    RReset string
  | RClear
  | RBackoff string nat nat nat
  | RAttempting string nat
  | RDisable string nat
  | RIdle string nat

text \<open>One call: whether a retry of which profile was claimed by it, and the facts after it.\<close>

fun retry_step :: "retry_op \<Rightarrow> 'c runtime_facts \<Rightarrow> string option \<times> 'c runtime_facts" where
  "retry_step (RReset p) f = (None, facts_reset p f)"
| "retry_step RClear f = (None, facts_clear f)"
| "retry_step (RBackoff p g n now) f = (None, backoff p g n now f)"
| "retry_step (RAttempting p g) f =
     (let (claimed, f') = attempting p g f in (if claimed then Some p else None, f'))"
| "retry_step (RDisable p g) f = (None, snd (disable_attempt p g f))"
| "retry_step (RIdle p g) f = (None, idle p g f)"

fun retry_run :: "retry_op list \<Rightarrow> 'c runtime_facts \<Rightarrow> string option list \<times> 'c runtime_facts" where
  "retry_run [] f = ([], f)"
| "retry_run (op # ops) f =
     (let (c, f') = retry_step op f; (cs, f'') = retry_run ops f' in (c # cs, f''))"

fun op_profile :: "retry_op \<Rightarrow> string option" where
  "op_profile (RReset p) = Some p"
| "op_profile RClear = None"
| "op_profile (RBackoff p _ _ _) = Some p"
| "op_profile (RAttempting p _) = Some p"
| "op_profile (RDisable p _) = Some p"
| "op_profile (RIdle p _) = Some p"

definition schedules :: "string \<Rightarrow> retry_op \<Rightarrow> bool" where
  "schedules p op = (case op of RBackoff q _ _ _ \<Rightarrow> q = p | _ \<Rightarrow> False)"

definition claimable :: "'c runtime_facts \<Rightarrow> string \<Rightarrow> bool" where
  "claimable f p =
     (case rf_retry f p of None \<Rightarrow> False | Some e \<Rightarrow> re_deadline e \<noteq> None \<and> re_retry_allowed e)"

lemmas retry_defs = facts_reset_def facts_clear_def backoff_def attempting_def disable_attempt_def
  idle_def has_retry_def claimable_def

lemma step_not_claimable:
  "\<not> schedules p op \<Longrightarrow> \<not> claimable f p \<Longrightarrow>
   \<not> claimable (snd (retry_step op f)) p \<and> fst (retry_step op f) \<noteq> Some p"
  by (cases op) (auto simp: retry_defs schedules_def Let_def split: option.splits prod.splits if_splits)

lemma step_claims:
  "\<not> schedules p op \<Longrightarrow> fst (retry_step op f) = Some p \<Longrightarrow> \<not> claimable (snd (retry_step op f)) p"
  by (cases op) (auto simp: retry_defs schedules_def Let_def split: option.splits prod.splits if_splits)

lemma run_not_claimable:
  "\<forall>op\<in>set ops. \<not> schedules p op \<Longrightarrow> \<not> claimable f p \<Longrightarrow> count_list (fst (retry_run ops f)) (Some p) = 0"
proof (induction ops arbitrary: f)
  case (Cons op ops)
  with step_not_claimable [of p op f] show ?case by (simp add: Let_def split_beta)
qed simp

section \<open>Properties\<close>

text \<open>a scheduled retry is claimed at most once: in any sequence of calls in which
that profile is not scheduled anew, at most one call of \<open>attempting\<close> for it succeeds, so
two workers never start the same retry.\<close>

theorem retry_claimed_once:
  assumes "\<forall>op\<in>set ops. \<not> schedules p op"
  shows "count_list (fst (retry_run ops f)) (Some p) \<le> 1"
  using assms
proof (induction ops arbitrary: f)
  case (Cons op ops)
  show ?case
  proof (cases "fst (retry_step op f) = Some p")
    case True
    with step_claims [of p op f] Cons.prems run_not_claimable [of ops p "snd (retry_step op f)"]
    show ?thesis by (simp add: Let_def split_beta)
  next
    case False
    with Cons show ?thesis by (simp add: Let_def split_beta)
  qed
qed simp

text \<open>a stale worker is powerless: claiming, disabling or idling with a generation other than the
scheduled one, and any call for another profile, leave the profile's episode exactly as it is.\<close>

theorem retry_stale_generation:
  assumes "rf_retry f p = Some e"
    and "op \<in> {RAttempting p g, RDisable p g, RIdle p g} \<and> g \<noteq> re_generation e
      \<or> (\<exists>q. op_profile op = Some q \<and> q \<noteq> p)"
  shows "rf_retry (snd (retry_step op f)) p = Some e \<and> fst (retry_step op f) \<noteq> Some p"
  using assms
  by (cases op) (auto simp: retry_defs Let_def split: option.splits prod.splits if_splits)

text \<open>the countdown shown is the truth rounded up: a retry that is still ahead never shows 0 ms,
an expired one always does, and up to the \<open>u64\<close> ceiling the shown milliseconds cover the rest
of the wait with less than one millisecond to spare; the state and the countdown agree with what the
worker waits for.\<close>

theorem retry_view_truth:
  shows "(remaining_ms deadline now = 0 \<longleftrightarrow> deadline \<le> now)
    \<and> (deadline - now \<le> u64_max * 1000000 \<longrightarrow>
         deadline - now \<le> remaining_ms deadline now * 1000000
         \<and> remaining_ms deadline now * 1000000 < deadline - now + 1000000)
    \<and> (rr_state (retry_view f p (Some g) now) = ''backoff'' \<longleftrightarrow> retry_wait f p g now \<noteq> None)
    \<and> (retry_allowed f p g \<longrightarrow> rr_state (retry_view f p (Some g) now) \<noteq> ''idle'')"
proof (intro conjI)
  let ?d = "deadline - now"
  have b: "?d \<le> div_ceil ?d 1000000 * 1000000" "div_ceil ?d 1000000 * 1000000 < ?d + 1000000"
    using div_ceil_bounds [of 1000000 ?d] by simp_all
  have z: "div_ceil ?d 1000000 = 0 \<longleftrightarrow> ?d = 0"
    using b by (cases "div_ceil ?d 1000000 = 0") auto
  then show "remaining_ms deadline now = 0 \<longleftrightarrow> deadline \<le> now"
    by (auto simp: remaining_ms_def saturate_def u64_max_def)
  show "?d \<le> u64_max * 1000000 \<longrightarrow> ?d \<le> remaining_ms deadline now * 1000000
      \<and> remaining_ms deadline now * 1000000 < ?d + 1000000"
  proof
    assume "?d \<le> u64_max * 1000000"
    with b(2) have "div_ceil ?d 1000000 * 1000000 < (u64_max + 1) * 1000000" by simp
    then have "div_ceil ?d 1000000 \<le> u64_max" by simp
    with b show "?d \<le> remaining_ms deadline now * 1000000
        \<and> remaining_ms deadline now * 1000000 < ?d + 1000000"
      by (simp add: remaining_ms_def saturate_def)
  qed
  show "rr_state (retry_view f p (Some g) now) = ''backoff'' \<longleftrightarrow> retry_wait f p g now \<noteq> None"
    by (auto simp: retry_view_def retry_wait_def split: option.splits if_splits)
  show "retry_allowed f p g \<longrightarrow> rr_state (retry_view f p (Some g) now) \<noteq> ''idle''"
    by (auto simp: retry_view_def retry_allowed_def split: option.splits if_splits)
qed

text \<open>a reading belongs to the connection that was measured: it is shown only to the same
generation, core and start of the profile it was taken for, and not after a reset.\<close>

theorem health_belongs:
  shows "health (observe p subject outcome source at f) q (Some s) =
      (if q = p then (if same_subject subject s
        then Some \<lparr>rh_outcome = outcome_name outcome, rh_source = source, rh_measured_at = at\<rparr> else None)
       else health f q (Some s))
    \<and> health (facts_reset p f) p (Some s) = None \<and> health f p None = None"
  by (auto simp: health_def observe_def facts_reset_def)

section \<open>Witnesses\<close>

definition sample_facts :: "unit runtime_facts" where
  "sample_facts = backoff ''work'' 1 0 0 facts_new"

theorem retry_claimed_once_witness:
  "count_list (fst (retry_run [RAttempting ''work'' 1, RAttempting ''work'' 1] sample_facts)) (Some ''work'') \<le> 1"
  by (rule retry_claimed_once) (simp add: schedules_def)

theorem retry_stale_generation_witness:
  "rf_retry (snd (retry_step (RIdle ''work'' 2) sample_facts)) ''work'' \<noteq> None"
proof -
  obtain e where e: "rf_retry sample_facts ''work'' = Some e" and g: "re_generation e = 1"
    by (simp add: sample_facts_def backoff_def)
  from retry_stale_generation [OF e, of "RIdle ''work'' 2" 2] g show ?thesis by simp
qed

theorem retry_view_truth_witness: "remaining_ms 1 0 * 1000000 < 1 + 1000000"
  using retry_view_truth [of 1 0 sample_facts "''work''" 1] by (simp add: u64_max_def)

end
