(* ===== verification/Connection.thy ===== *)
theory Connection
  imports Model
begin

text \<open>
  What a session is connected to: \<open>SessionSelection\<close> with its fingerprint of
  \<open>crates/oxidom-core/src/engine.rs\<close>, and \<open>ConnectionTarget\<close>, \<open>ConnectionOrigin\<close> and
  \<open>ConfirmationEnd\<close> of \<open>crates/oxidom/src/daemon.rs\<close>. A selection is the part of a
  target a running core is recognised by.
\<close>

section \<open>Selections\<close>

definition pool_fingerprint :: "string list \<Rightarrow> u64" where
  "pool_fingerprint members = stable_hash (join [char_of (0 :: nat)] members)"

datatype session_selection =
    SelServer string
  | SelPool (sel_members: "string list") (sel_strategy: string) (sel_fingerprint: u64)

definition selection_pool :: "string list \<Rightarrow> string \<Rightarrow> session_selection" where
  "selection_pool members strategy = SelPool members strategy (pool_fingerprint members)"

fun selection_server_id :: "session_selection \<Rightarrow> string option" where
  "selection_server_id (SelServer i) = Some i"
| "selection_server_id (SelPool _ _ _) = None"

section \<open>Targets\<close>

datatype connection_target =
    TargetServer string
  | TargetPool (tp_members: "string list") (tp_name: string) (tp_strategy: string)
      (tp_expected: nat) (tp_probe_interval: string) (tp_api_port: nat)

fun target_selection :: "connection_target \<Rightarrow> session_selection" where
  "target_selection (TargetServer i) = SelServer i"
| "target_selection (TargetPool members _ strategy _ _ _) = selection_pool members strategy"

fun target_server_id :: "connection_target \<Rightarrow> string option" where
  "target_server_id (TargetServer i) = Some i"
| "target_server_id (TargetPool _ _ _ _ _ _) = None"

definition probe_label :: "connection_target \<Rightarrow> string \<Rightarrow> string" where
  "probe_label target profile =
     (case target_server_id target of Some i \<Rightarrow> i | None \<Rightarrow> ''pool:'' @ profile)"

datatype connection_origin = Explicit | Reconnect | FailoverOrigin

datatype confirmation_end =
    Measured | InboundNotReady | Superseded | CoreStopped | PoolWindowExhausted

lemma target_selection_server [simp]:
  "selection_server_id (target_selection target) = target_server_id target"
  by (cases target) (simp_all add: selection_pool_def)

end
