(* ===== verification/Probe_Queue.thy ===== *)
theory Probe_Queue
  imports Connection "HOL-Library.AList"
begin

text \<open>
  The probe pipeline of the daemon: \<open>ProbeTarget\<close>, \<open>ProbeJob\<close> and \<open>ProbeQueue\<close> of
  \<open>crates/oxidom/src/daemon.rs\<close>.

  The map of running jobs is an association list keyed by token (the order the hash map would
  give is not specified, and only \<open>snapshot\<close> shows one). The search for an unused token is a
  loop that would not end if all \<open>2 ^ 64 - 1\<close> tokens were taken; it is a partial function, and
  the lemmas show that it returns for every smaller number of jobs.
\<close>

section \<open>Data\<close>

datatype probe_target = Direct string | Proxied string

record probe_job =
  pj_token :: u64
  pj_target :: probe_target
  pj_server_id :: string
  pj_generation :: "nat option"

record probe_queue =
  qu_next_token :: u64
  qu_running :: "(u64 \<times> probe_job) list"
  qu_queued :: "probe_job list"

definition queue_new :: probe_queue where
  "queue_new = \<lparr>qu_next_token = 0, qu_running = [], qu_queued = []\<rparr>"

definition max_concurrent_probes :: nat where
  "max_concurrent_probes = 8"

section \<open>Operations\<close>

definition holds :: "probe_queue \<Rightarrow> probe_target \<Rightarrow> bool" where
  "holds q target =
     (list_ex (\<lambda>(_, job). pj_target job = target) (qu_running q)
      \<or> list_ex (\<lambda>job. pj_target job = target) (qu_queued q))"

definition tokens :: "probe_queue \<Rightarrow> u64 list" where
  "tokens q = map fst (qu_running q) @ map pj_token (qu_queued q)"

partial_function (option) next_free :: "u64 \<Rightarrow> u64 list \<Rightarrow> u64 option" where
  "next_free last_token used =
     (let t = last_token + 1
      in if t \<noteq> 0 \<and> t \<notin> set used then Some t else next_free t used)"

definition new_job ::
  "probe_target \<Rightarrow> string \<Rightarrow> nat option \<Rightarrow> probe_queue \<Rightarrow> (probe_job \<times> probe_queue) option" where
  "new_job target server_id generation q =
     map_option (\<lambda>t.
       (\<lparr>pj_token = t, pj_target = target, pj_server_id = server_id, pj_generation = generation\<rparr>,
        q\<lparr>qu_next_token := t\<rparr>)) (next_free (qu_next_token q) (tokens q))"

definition enqueue ::
  "probe_target \<Rightarrow> string \<Rightarrow> nat option \<Rightarrow> probe_queue \<Rightarrow> (bool \<times> probe_queue) option" where
  "enqueue target server_id generation q =
     (if holds q target then Some (False, q)
      else map_option (\<lambda>(job, q'). (True, q'\<lparr>qu_queued := qu_queued q' @ [job]\<rparr>))
             (new_job target server_id generation q))"

definition start_next :: "probe_queue \<Rightarrow> probe_job option \<times> probe_queue" where
  "start_next q =
     (if max_concurrent_probes \<le> length (qu_running q) then (None, q)
      else case qu_queued q of
        [] \<Rightarrow> (None, q)
      | job # rest \<Rightarrow>
          (Some job, q\<lparr>qu_queued := rest, qu_running := AList.update (pj_token job) job (qu_running q)\<rparr>))"

definition start_now ::
  "string \<Rightarrow> string \<Rightarrow> nat option \<Rightarrow> probe_queue \<Rightarrow> (probe_job \<times> probe_queue) option" where
  "start_now profile server_id generation q =
     (let target = Proxied profile;
          q' = q\<lparr>qu_queued := filter (\<lambda>job. pj_target job \<noteq> target) (qu_queued q)\<rparr>
      in map_option (\<lambda>(job, q''). (job, q''\<lparr>qu_running := AList.update (pj_token job) job (qu_running q'')\<rparr>))
           (new_job target server_id generation q'))"

definition finish :: "u64 \<Rightarrow> probe_queue \<Rightarrow> probe_queue" where
  "finish token q = q\<lparr>qu_running := AList.delete token (qu_running q)\<rparr>"

definition snapshot :: "probe_queue \<Rightarrow> string list \<times> string list" where
  "snapshot q = (map (\<lambda>(_, job). pj_server_id job) (qu_running q), map pj_server_id (qu_queued q))"

definition cancelled_by :: "string set \<Rightarrow> probe_job \<Rightarrow> bool" where
  "cancelled_by servers job =
     ((case pj_target job of Direct _ \<Rightarrow> True | Proxied _ \<Rightarrow> False) \<and> pj_server_id job \<in> servers)"

definition cancel_direct :: "string set \<Rightarrow> probe_queue \<Rightarrow> probe_job list \<times> probe_queue" where
  "cancel_direct servers q =
     (filter (cancelled_by servers) (qu_queued q),
      q\<lparr>qu_queued := filter (\<lambda>job. \<not> cancelled_by servers job) (qu_queued q)\<rparr>)"

definition backed_by :: "string set \<Rightarrow> string set \<Rightarrow> probe_job \<Rightarrow> bool" where
  "backed_by servers profiles job =
     (case pj_target job of
        Direct _ \<Rightarrow> pj_server_id job \<in> servers
      | Proxied profile \<Rightarrow>
          profile \<in> profiles
          \<and> (pj_server_id job = ''pool:'' @ profile \<or> pj_server_id job \<in> servers))"

definition retain_alive :: "string set \<Rightarrow> string set \<Rightarrow> probe_queue \<Rightarrow> probe_queue" where
  "retain_alive servers profiles q = q\<lparr>qu_queued := filter (backed_by servers profiles) (qu_queued q)\<rparr>"

section \<open>Calls\<close>

datatype queue_op =
    Enqueue probe_target string "nat option"
  | StartNext
  | StartNow string string "nat option"
  | Finish u64
  | CancelDirect "string set"
  | RetainAlive "string set" "string set"

fun queue_step :: "queue_op \<Rightarrow> probe_queue \<Rightarrow> probe_queue option" where
  "queue_step (Enqueue target server_id generation) q = map_option snd (enqueue target server_id generation q)"
| "queue_step StartNext q = Some (snd (start_next q))"
| "queue_step (StartNow profile server_id generation) q = map_option snd (start_now profile server_id generation q)"
| "queue_step (Finish token) q = Some (finish token q)"
| "queue_step (CancelDirect servers) q = Some (snd (cancel_direct servers q))"
| "queue_step (RetainAlive servers profiles) q = Some (retain_alive servers profiles q)"

inductive queue_reachable :: "probe_queue \<Rightarrow> bool" where
  start: "queue_reachable queue_new"
| step: "queue_reachable q \<Longrightarrow> queue_step call q = Some q' \<Longrightarrow> queue_reachable q'"

section \<open>Tokens\<close>

lemma next_free_steps:
  assumes "\<And>j. j < k \<Longrightarrow> last_token + 1 + of_nat j \<in> insert 0 (set used)"
    and "last_token + 1 + of_nat k \<notin> insert 0 (set used)"
  shows "next_free last_token used = Some (last_token + 1 + of_nat k)"
  using assms
proof (induction k arbitrary: last_token)
  case 0
  then show ?case by (subst next_free.simps) (simp add: Let_def)
next
  case (Suc k)
  have "last_token + 1 \<in> insert 0 (set used)" using Suc.prems(1) [of 0] by simp
  then have "next_free last_token used = next_free (last_token + 1) used"
    by (subst next_free.simps) (auto simp: Let_def)
  also have "\<dots> = Some (last_token + 1 + 1 + of_nat k)"
  proof (rule Suc.IH)
    show "last_token + 1 + 1 + of_nat j \<in> insert 0 (set used)" if "j < k" for j
      using Suc.prems(1) [of "Suc j"] that by (simp add: add.assoc)
    show "last_token + 1 + 1 + of_nat k \<notin> insert 0 (set used)"
      using Suc.prems(2) by (simp add: add.assoc)
  qed
  finally show ?case by (simp add: add.assoc)
qed

lemma next_free_spec:
  assumes "next_free last_token used = Some t"
  shows "t \<noteq> 0 \<and> t \<notin> set used"
  using _ assms
proof (rule next_free.raw_induct [where P = "\<lambda>_ used t. t \<noteq> 0 \<and> t \<notin> set used"])
  fix rec last_token used t
  assume "\<And>l u w. rec l u = Some w \<Longrightarrow> w \<noteq> 0 \<and> w \<notin> set u"
    and "(let t = last_token + 1 in if t \<noteq> 0 \<and> t \<notin> set used then Some t else rec t used) = Some t"
  then show "t \<noteq> 0 \<and> t \<notin> set used"
    by (cases "last_token + 1 \<noteq> 0 \<and> last_token + 1 \<notin> set used") (auto simp: Let_def)
qed

text \<open>Fewer jobs than tokens: the search returns.\<close>

lemma next_free_total:
  assumes "length used < 2 ^ 64 - 1"
  shows "\<exists>t. next_free last_token used = Some t"
proof -
  let ?bad = "insert (0 :: u64) (set used)"
  have "card ?bad \<le> Suc (card (set used))" by (simp add: card_insert_if)
  also have "\<dots> \<le> Suc (length used)" by (simp add: card_length)
  also have "\<dots> < CARD(u64)" using assms by (simp add: card_word)
  finally have "?bad \<noteq> UNIV" by auto
  then obtain w where w: "w \<notin> ?bad" by auto
  have "\<exists>k. last_token + 1 + of_nat k \<notin> ?bad"
    using w by (intro exI [of _ "unat (w - (last_token + 1))"]) simp
  from this [THEN exists_least_iff [THEN iffD1]] obtain k where
    "last_token + 1 + of_nat k \<notin> ?bad" "\<forall>j<k. last_token + 1 + of_nat j \<in> ?bad" by blast
  then show ?thesis using next_free_steps by blast
qed

section \<open>The invariant\<close>

definition targets_running :: "probe_queue \<Rightarrow> probe_target list" where
  "targets_running q = map (\<lambda>(_, job). pj_target job) (qu_running q)"

lemma targets_running_simps [simp]:
  "targets_running (q\<lparr>qu_queued := jobs\<rparr>) = targets_running q"
  "targets_running (q\<lparr>qu_next_token := t\<rparr>) = targets_running q"
  "targets_running (q'\<lparr>qu_running := qu_running q @ [(t, job)]\<rparr>) = targets_running q @ [pj_target job]"
  "length (targets_running q) = length (qu_running q)"
  by (simp_all add: targets_running_def)

definition is_direct :: "probe_target \<Rightarrow> bool" where
  "is_direct target = (case target of Direct _ \<Rightarrow> True | Proxied _ \<Rightarrow> False)"

definition queue_ok :: "probe_queue \<Rightarrow> bool" where
  "queue_ok q =
     (distinct (tokens q) \<and> 0 \<notin> set (tokens q)
      \<and> (\<forall>(token, job)\<in>set (qu_running q). pj_token job = token)
      \<and> distinct (map pj_target (qu_queued q))
      \<and> set (map pj_target (qu_queued q)) \<inter> set (targets_running q) = {}
      \<and> distinct (filter is_direct (targets_running q))
      \<and> length (filter is_direct (targets_running q)) \<le> max_concurrent_probes)"

lemma queue_ok_new: "queue_ok queue_new"
  by (simp add: queue_ok_def queue_new_def tokens_def targets_running_def)

lemma update_fresh: "k \<notin> fst ` set xs \<Longrightarrow> AList.update k v xs = xs @ [(k, v)]"
  by (induction xs) auto

lemma holds_iff:
  "holds q target \<longleftrightarrow> target \<in> set (targets_running q) \<or> target \<in> pj_target ` set (qu_queued q)"
  by (auto simp: holds_def targets_running_def list_ex_iff split: prod.splits)

lemma new_job_spec:
  "new_job target server_id generation q = Some (job, q') \<longleftrightarrow>
   (\<exists>t. next_free (qu_next_token q) (tokens q) = Some t
      \<and> job = \<lparr>pj_token = t, pj_target = target, pj_server_id = server_id, pj_generation = generation\<rparr>
      \<and> q' = q\<lparr>qu_next_token := t\<rparr>)"
  by (auto simp: new_job_def)

text \<open>Dropping queued jobs keeps everything.\<close>

lemma queue_ok_filter: "queue_ok q \<Longrightarrow> queue_ok (q\<lparr>qu_queued := filter P (qu_queued q)\<rparr>)"
  by (auto simp: queue_ok_def tokens_def distinct_map_filter)

lemma queue_ok_enqueue [preserve]:
  assumes "queue_ok q" and "enqueue target server_id generation q = Some (b, q')"
  shows "queue_ok q'"
proof (cases "holds q target")
  case False
  with assms(2) obtain t where t: "next_free (qu_next_token q) (tokens q) = Some t"
    and q': "q' = q\<lparr>qu_next_token := t,
      qu_queued := qu_queued q @ [\<lparr>pj_token = t, pj_target = target, pj_server_id = server_id,
        pj_generation = generation\<rparr>]\<rparr>"
    by (auto simp: enqueue_def new_job_def)
  from next_free_spec [OF t] False assms(1) show ?thesis
    by (auto simp: q' queue_ok_def tokens_def holds_iff)
qed (use assms in \<open>simp add: enqueue_def\<close>)

lemma queue_ok_start_next [preserve]:
  assumes "queue_ok q"
  shows "queue_ok (snd (start_next q))"
proof (cases "max_concurrent_probes \<le> length (qu_running q) \<or> qu_queued q = []")
  case False
  then obtain job rest where j: "qu_queued q = job # rest" and l: "length (qu_running q) < max_concurrent_probes"
    by (auto simp: neq_Nil_conv)
  have f: "pj_token job \<notin> fst ` set (qu_running q)"
    using assms j by (auto simp: queue_ok_def tokens_def)
  have "length (filter is_direct (targets_running q)) \<le> length (qu_running q)"
    by (metis length_filter_le targets_running_simps(4))
  with l assms show ?thesis
    by (auto simp: start_next_def j update_fresh [OF f] queue_ok_def tokens_def split: if_splits)
qed (use assms in \<open>auto simp: start_next_def\<close>)

lemma queue_ok_start_now [preserve]:
  assumes "queue_ok q" and "start_now profile server_id generation q = Some (job, q')"
  shows "queue_ok q'"
proof -
  let ?q = "q\<lparr>qu_queued := filter (\<lambda>job. pj_target job \<noteq> Proxied profile) (qu_queued q)\<rparr>"
  from assms(2) obtain t where t: "next_free (qu_next_token ?q) (tokens ?q) = Some t"
    and job: "job = \<lparr>pj_token = t, pj_target = Proxied profile, pj_server_id = server_id,
      pj_generation = generation\<rparr>"
    and q': "q' = ?q\<lparr>qu_next_token := t, qu_running := AList.update t job (qu_running q)\<rparr>"
    by (auto simp: start_now_def new_job_def Let_def)
  have ok: "queue_ok ?q" using assms(1) by (rule queue_ok_filter)
  have f: "t \<noteq> 0" "t \<notin> set (tokens ?q)" using next_free_spec [OF t] by auto
  then have "t \<notin> fst ` set (qu_running q)" by (auto simp: tokens_def)
  from update_fresh [OF this, of job] f ok show ?thesis
    by (auto simp: q' queue_ok_def tokens_def job is_direct_def)
qed

lemma set_delete: "set (AList.delete k xs) = {(a, b) \<in> set xs. a \<noteq> k}"
  by (auto simp: AList.delete_eq)

lemma queue_ok_finish [preserve]:
  assumes "queue_ok q"
  shows "queue_ok (finish token q)"
proof -
  let ?rest = "AList.delete token (qu_running q)"
  have d: "?rest = filter (\<lambda>(k, _). k \<noteq> token) (qu_running q)"
    by (auto simp: AList.delete_eq case_prod_unfold intro: filter_cong)
  have t: "targets_running (finish token q) = map (\<lambda>(_, job). pj_target job) ?rest"
    by (simp add: targets_running_def finish_def)
  have sub: "set (targets_running (finish token q)) \<subseteq> set (targets_running q)"
    unfolding t d by (force simp: targets_running_def)
  have dist: "distinct (filter is_direct (map (\<lambda>(_, job). pj_target job) (filter P xs)))
      \<and> length (filter is_direct (map (\<lambda>(_, job). pj_target job) (filter P xs)))
        \<le> length (filter is_direct (map (\<lambda>(_, job). pj_target job) xs))"
    if "distinct (filter is_direct (map (\<lambda>(_, job). pj_target job) xs))" for P and xs :: "(u64 \<times> probe_job) list"
    using that by (induction xs) auto
  have "distinct (filter is_direct (targets_running (finish token q)))
      \<and> length (filter is_direct (targets_running (finish token q))) \<le> max_concurrent_probes"
  proof -
    from assms have a: "distinct (filter is_direct (map (\<lambda>(_, job). pj_target job) (qu_running q)))"
      "length (filter is_direct (map (\<lambda>(_, job). pj_target job) (qu_running q))) \<le> max_concurrent_probes"
      unfolding queue_ok_def targets_running_def by blast+
    show ?thesis unfolding t d
      using dist [OF a(1), of "\<lambda>(k, _). k \<noteq> token"] a(2) by (meson le_trans)
  qed
  then show ?thesis
    using assms sub unfolding queue_ok_def
    by (auto simp: finish_def d tokens_def distinct_map_filter)
qed

lemma queue_ok_step: "queue_ok q \<Longrightarrow> queue_step call q = Some q' \<Longrightarrow> queue_ok q'"
  by (cases call) (auto simp: cancel_direct_def retain_alive_def intro: preserve queue_ok_filter)

lemma queue_reachable_ok: "queue_reachable q \<Longrightarrow> queue_ok q"
  by (induction rule: queue_reachable.induct) (auto intro: queue_ok_new queue_ok_step)

section \<open>Properties\<close>

text \<open>C39: the pipeline never confuses two measurements. In every reachable queue the tokens of all
jobs, running and waiting, are different and not zero; no target waits twice or waits while it is
being measured; no server is measured directly twice at once; and at most eight direct probes run.\<close>

theorem probe_queue_invariant:
  assumes "queue_reachable q"
  shows "distinct (tokens q) \<and> 0 \<notin> set (tokens q)
    \<and> distinct (map pj_target (qu_queued q))
    \<and> (\<forall>job\<in>set (qu_queued q). pj_target job \<notin> set (targets_running q))
    \<and> distinct (filter is_direct (targets_running q))
    \<and> length (filter is_direct (targets_running q)) \<le> 8"
  using queue_reachable_ok [OF assms] by (auto simp: queue_ok_def max_concurrent_probes_def)

text \<open>no measurement gets lost. A waiting job leaves the queue only by being the first one when a
slot is free (and then it runs), by the confirmation of its own profile, by being cancelled as a
direct probe of a named server, or because its server or profile is gone; a running job leaves
only through its own token, so a superseded worker that ends late never frees its successor's
slot.\<close>

theorem probe_queue_keeps:
  assumes "queue_reachable q" and "queue_step call q = Some q'"
  shows "(\<forall>job\<in>set (qu_queued q). job \<in> set (qu_queued q')
        \<or> (call = StartNext \<and> job = hd (qu_queued q) \<and> (pj_token job, job) \<in> set (qu_running q'))
        \<or> (\<exists>profile s g. call = StartNow profile s g \<and> pj_target job = Proxied profile)
        \<or> (\<exists>servers. call = CancelDirect servers \<and> is_direct (pj_target job) \<and> pj_server_id job \<in> servers)
        \<or> (\<exists>servers profiles. call = RetainAlive servers profiles \<and> \<not> backed_by servers profiles job))
    \<and> (\<forall>(token, job)\<in>set (qu_running q). (token, job) \<in> set (qu_running q') \<or> call = Finish token)"
proof -
  have ok: "queue_ok q" using assms(1) by (rule queue_reachable_ok)
  show ?thesis
  proof (cases call)
    case (Enqueue target server_id generation)
    with assms(2) show ?thesis
      by (auto simp: enqueue_def new_job_def split: if_splits)
  next
    case StartNext
    show ?thesis
    proof (cases "max_concurrent_probes \<le> length (qu_running q) \<or> qu_queued q = []")
      case True
      with StartNext assms(2) show ?thesis by (auto simp: start_next_def)
    next
      case False
      then obtain job rest where j: "qu_queued q = job # rest" by (auto simp: neq_Nil_conv)
      then have "pj_token job \<notin> fst ` set (qu_running q)" using ok by (auto simp: queue_ok_def tokens_def)
      from update_fresh [OF this] False StartNext assms(2) j show ?thesis
        by (auto simp: start_next_def)
    qed
  next
    case (StartNow profile server_id generation)
    with assms(2) obtain t job where t: "next_free (qu_next_token q)
        (tokens (q\<lparr>qu_queued := filter (\<lambda>job. pj_target job \<noteq> Proxied profile) (qu_queued q)\<rparr>)) = Some t"
      and q': "qu_running q' = AList.update t job (qu_running q)"
        "qu_queued q' = filter (\<lambda>job. pj_target job \<noteq> Proxied profile) (qu_queued q)"
      by (auto simp: start_now_def new_job_def Let_def)
    from next_free_spec [OF t] have "t \<notin> fst ` set (qu_running q)" by (auto simp: tokens_def)
    from update_fresh [OF this, of job] q' StartNow show ?thesis by auto
  qed (use assms(2) in \<open>auto simp: finish_def set_delete cancel_direct_def retain_alive_def cancelled_by_def
        is_direct_def split: probe_target.splits\<close>)
qed

text \<open>C40: the search for a token ends: with fewer than \<open>2 ^ 64 - 1\<close> jobs every call returns, so a
confirmation always gets its slot at once, past the queue and past the cap.\<close>

theorem start_now_returns:
  assumes "length (qu_running q) + length (qu_queued q) < 2 ^ 64 - 1"
  shows "\<exists>job q'. start_now profile server_id generation q = Some (job, q')
    \<and> pj_target job = Proxied profile \<and> pj_generation job = generation
    \<and> (pj_token job, job) \<in> set (qu_running q')
    \<and> pj_token job \<notin> fst ` set (qu_running q)"
proof -
  let ?q = "q\<lparr>qu_queued := filter (\<lambda>job. pj_target job \<noteq> Proxied profile) (qu_queued q)\<rparr>"
  have "length (tokens ?q) < 2 ^ 64 - 1"
    using assms length_filter_le [of "\<lambda>job. pj_target job \<noteq> Proxied profile" "qu_queued q"]
    by (simp add: tokens_def del: length_filter_le)
  from next_free_total [OF this] obtain t where t: "next_free (qu_next_token q) (tokens ?q) = Some t" by auto
  from next_free_spec [OF t] have f: "t \<notin> fst ` set (qu_running q)" by (auto simp: tokens_def)
  with t show ?thesis
    by (simp add: start_now_def new_job_def Let_def update_fresh)
qed

section \<open>Witnesses\<close>

definition sample_queue :: probe_queue where
  "sample_queue =
     \<lparr>qu_next_token = 1, qu_running = [],
      qu_queued = [\<lparr>pj_token = 1, pj_target = Direct ''a'', pj_server_id = ''a'', pj_generation = None\<rparr>]\<rparr>"

lemma sample_queue_reachable: "queue_reachable sample_queue"
proof -
  have "next_free 0 [] = Some (0 + 1 + of_nat 0)" by (rule next_free_steps) simp_all
  then have "queue_step (Enqueue (Direct ''a'') ''a'' None) queue_new = Some sample_queue"
    by (simp add: enqueue_def new_job_def holds_def queue_new_def tokens_def sample_queue_def)
  with queue_reachable.start show ?thesis by (rule queue_reachable.step)
qed

theorem probe_queue_invariant_witness: "distinct (tokens sample_queue)"
  using probe_queue_invariant [OF sample_queue_reachable] by blast

theorem probe_queue_keeps_witness:
  "qu_queued (snd (start_next sample_queue)) = []
   \<and> (1, hd (qu_queued sample_queue)) \<in> set (qu_running (snd (start_next sample_queue)))"
  using probe_queue_keeps [OF sample_queue_reachable, of StartNext "snd (start_next sample_queue)"]
  by (simp add: sample_queue_def start_next_def max_concurrent_probes_def)

theorem start_now_returns_witness:
  "\<exists>job q'. start_now ''work'' ''b'' (Some 7) sample_queue = Some (job, q')
     \<and> (pj_token job, job) \<in> set (qu_running q')"
proof -
  have "length (qu_running sample_queue) + length (qu_queued sample_queue) < 2 ^ 64 - 1"
    by (simp add: sample_queue_def)
  from start_now_returns [OF this] show ?thesis by blast
qed

end
