(* ===== verification/Complaints.thy ===== *)
theory Complaints
  imports Runtime_Facts Connection Pool
begin

text \<open>
  What a failed measurement says: \<open>ProbeFailure\<close>, \<open>ProbeDetail\<close> and \<open>LatencyReading\<close> of
  \<open>crates/oxidom-core/src/ipc.rs\<close>; the classification of a core's own words in
  \<open>crates/oxidom-core/src/probe.rs\<close>; and, of \<open>crates/oxidom/src/daemon.rs\<close> and
  \<open>daemon/failover.rs\<close>, the explanation of a confirmation that failed and the decision
  whether it counts against a server.

  Texts are UTF-8 bytes, so the dash of the messages is three of them. \<open>lower\<close> is the
  Unicode \<open>to_lowercase\<close>.
\<close>

section \<open>Failures and readings\<close>

datatype probe_route = RouteDirect | RouteProxied

datatype probe_failure = FailUnreachable | FailTimeout | FailNoNetwork | FailUnknown

datatype probe_detail =
    NoCore | CertificateRejected | InsecureTlsUnsupported | ConfigRefused | GeoAssetsMissing
  | Cancelled | OtherDetail

record latency_reading =
  lr_value :: "nat option"
  lr_measured_at :: nat
  lr_route :: probe_route
  lr_method :: latency_method
  lr_failure :: "probe_failure option"
  lr_detail :: "probe_detail option"

fun failure_message :: "probe_failure \<Rightarrow> string" where
  "failure_message FailUnreachable = ''the server did not answer''"
| "failure_message FailTimeout = ''the check ran out of time''"
| "failure_message FailNoNetwork = ''this machine has no network''"
| "failure_message FailUnknown = ''the check could not run on this machine''"

fun detail_message :: "probe_detail \<Rightarrow> string" where
  "detail_message NoCore = ''no Xray core, so nothing could be measured''"
| "detail_message CertificateRejected = ''the server's certificate was rejected''"
| "detail_message InsecureTlsUnsupported = ''the server asks for unverified TLS, which this core removed''"
| "detail_message ConfigRefused = ''the core refused the generated config''"
| "detail_message GeoAssetsMissing =
     ''the core has no geo data (geoip.dat, geosite.dat), so it refused the routing rules''"
| "detail_message Cancelled = ''the check was stopped before it ran''"
| "detail_message OtherDetail = ''the check could not run on this machine''"

definition message_with :: "probe_failure \<Rightarrow> probe_detail option \<Rightarrow> string" where
  "message_with failure detail =
     (case (failure, detail) of
        (FailUnknown, Some d) \<Rightarrow> detail_message d
      | _ \<Rightarrow> failure_message failure)"

definition reading_ok :: "nat \<Rightarrow> nat \<Rightarrow> probe_route \<Rightarrow> latency_method \<Rightarrow> latency_reading" where
  "reading_ok now value route how =
     \<lparr>lr_value = Some value, lr_measured_at = now, lr_route = route, lr_method = how,
      lr_failure = None, lr_detail = None\<rparr>"

definition reading_failed :: "nat \<Rightarrow> probe_failure \<Rightarrow> probe_route \<Rightarrow> latency_method \<Rightarrow> latency_reading" where
  "reading_failed now failure route how =
     \<lparr>lr_value = None, lr_measured_at = now, lr_route = route, lr_method = how,
      lr_failure = Some failure, lr_detail = None\<rparr>"

definition reading_failed_locally ::
  "nat \<Rightarrow> probe_failure \<Rightarrow> probe_detail \<Rightarrow> probe_route \<Rightarrow> latency_method \<Rightarrow> latency_reading" where
  "reading_failed_locally now failure detail route how =
     (reading_failed now failure route how)\<lparr>lr_detail := Some detail\<rparr>"

definition wire_failure :: "('m, probe_detail) probe_outcome \<Rightarrow> probe_failure" where
  "wire_failure outcome =
     (case outcome of
        probe_outcome.Unreachable \<Rightarrow> FailUnreachable
      | probe_outcome.Timeout \<Rightarrow> FailTimeout
      | probe_outcome.NoNetwork \<Rightarrow> FailNoNetwork
      | probe_outcome.Internal _ \<Rightarrow> FailUnknown
      | probe_outcome.Reachable _ \<Rightarrow> FailUnknown)"

definition pool_probe_method :: "latency_method \<Rightarrow> string \<times> latency_method" where
  "pool_probe_method requested =
     (if requested = HttpHead then (''HEAD'', HttpHead) else (''GET'', HttpGet))"

definition known_state :: "(string \<rightharpoonup> latency_reading) \<Rightarrow> string \<Rightarrow> known" where
  "known_state readings server_id =
     (case readings server_id of
        None \<Rightarrow> known.Unmeasured
      | Some reading \<Rightarrow>
          if lr_route reading \<noteq> RouteDirect then known.Unmeasured
          else case (lr_value reading, lr_failure reading) of
            (Some ms, _) \<Rightarrow> known.Reachable ms
          | (None, Some FailUnreachable) \<Rightarrow> known.Unreachable
          | (None, Some FailTimeout) \<Rightarrow> known.Unreachable
          | (None, _) \<Rightarrow> known.Unmeasured)"

section \<open>The core's own words\<close>

definition classify_complaint :: "(string \<Rightarrow> string) \<Rightarrow> string \<Rightarrow> probe_detail option" where
  "classify_complaint lower complaint =
     (let l = lower complaint
      in if contains_str l ''allowinsecure'' then Some InsecureTlsUnsupported
         else if contains_str l ''certificate'' \<or> contains_str l ''x509'' then Some CertificateRejected
         else if contains_str l ''geoip.dat'' \<or> contains_str l ''geosite.dat'' then Some GeoAssetsMissing
         else if contains_str l ''failed to start'' \<or> contains_str l ''failed to build'' then Some ConfigRefused
         else None)"

text \<open>The line of a dead probe core that is worth a log entry.\<close>

definition complaint_line :: "(string \<Rightarrow> string) \<Rightarrow> string \<Rightarrow> string option" where
  "complaint_line lower output =
     (let ls = map trim (text_lines output)
      in case List.find (\<lambda>l. classify_complaint lower l \<noteq> None) ls of
           Some l \<Rightarrow> if l \<noteq> [] then Some l else None
         | None \<Rightarrow> List.find (\<lambda>l. l \<noteq> []) (rev ls))"

definition unsupported_protocol_markers :: "string list" where
  "unsupported_protocol_markers =
     [''unknown protocol'', ''Failed to build Hysteria config'', ''unknown transport protocol'']"

definition core_rejected_the_protocol :: "string list \<Rightarrow> bool" where
  "core_rejected_the_protocol logs =
     list_ex (\<lambda>line. list_ex (contains_str line) unsupported_protocol_markers) logs"

definition outbound_reason :: "string \<Rightarrow> string option" where
  "outbound_reason line =
     (let l = lower_ascii line
      in if contains_str l ''connection reset by peer''
         then Some ''the server reset the connection during the handshake''
         else if contains_str l ''connection refused'' then Some ''the server refused the connection''
         else if contains_str l ''handshake timeout'' \<or> contains_str l ''tls handshake''
         then Some ''the TLS/REALITY handshake timed out''
         else if contains_str l ''context deadline exceeded'' \<or> contains_str l ''i/o timeout''
         then Some ''the outbound connection to the server timed out''
         else if contains_str l ''no such host'' \<or> contains_str l ''Temporary failure in name resolution''
         then Some ''the server's hostname could not be resolved''
         else if contains_str l ''failed to process outbound traffic'' \<or> contains_str l ''failed to dial''
                 \<or> contains_str l ''failed to handler mux client''
         then Some ''the core could not establish an outbound connection''
         else None)"

definition core_outbound_failure :: "string list \<Rightarrow> string option" where
  "core_outbound_failure logs = find_map outbound_reason (rev logs)"

definition observatory_source :: string where
  "observatory_source = ''app/observatory/burst''"

definition observatory_tag :: "string \<Rightarrow> string option" where
  "observatory_tag line =
     (if \<not> contains_str line observatory_source \<or> \<not> contains_str line ''error ping'' then None
      else case split_str '' with '' line of
        _ # tail # _ \<Rightarrow>
          (let tag = trim (hd (split_on CHR '':'' tail)) in if tag = [] then None else Some tag)
      | _ \<Rightarrow> None)"

definition observatory_failures :: "string list \<Rightarrow> nat" where
  "observatory_failures logs = length (remdups (List.map_filter observatory_tag logs))"

section \<open>Explaining a confirmation that failed\<close>

definition em_dash :: string where
  "em_dash = [CHR '' '', CHR 0xE2, CHR 0x80, CHR 0x94, CHR '' '']"

definition hysteria2_core_hint :: string where
  "hysteria2_core_hint =
     ''hysteria2 needs Xray 26.1 or newer, which is where the native '' @ [CHR 0x22] @ ''hysteria'' @ [CHR 0x22]
     @ '' protocol landed; an older core exits immediately instead of connecting''"

definition pool_confirm_window :: nat where
  "pool_confirm_window = 20"

definition real_delay_timeout :: nat where
  "real_delay_timeout = 6"

definition check_failed :: string where
  "check_failed = ''active server did not pass its latency check''"

definition unsupported_text :: string where
  "unsupported_text = ''the core does not support this server's protocol'' @ em_dash @ hysteria2_core_hint"

definition no_inbound_text :: string where
  "no_inbound_text = ''the local SOCKS inbound never came up'' @ em_dash @ ''the core is not carrying traffic''"

definition single_server_confirmation_failure ::
  "string list \<Rightarrow> ('m, probe_detail) probe_outcome option \<Rightarrow> latency_method \<Rightarrow> string" where
  "single_server_confirmation_failure logs outcome configured =
     (case core_outbound_failure logs of
        Some reason \<Rightarrow> check_failed @ em_dash @ reason
      | None \<Rightarrow>
          let note = (case configured of
                        Icmp \<Rightarrow> '' (ICMP checks only whether the host answers ping, not whether the proxy carries traffic)''
                      | Tcp \<Rightarrow> '' (TCP checks only whether the port accepts a connection, not whether the proxy carries traffic)''
                      | _ \<Rightarrow> [])
          in case outcome of
               Some probe_outcome.NoNetwork \<Rightarrow> check_failed @ em_dash @ failure_message FailNoNetwork
             | Some (probe_outcome.Internal detail) \<Rightarrow> check_failed @ em_dash @ detail_message detail
             | Some probe_outcome.Timeout \<Rightarrow>
                 check_failed @ em_dash @ ''the request through the tunnel timed out after ''
                 @ show_nat real_delay_timeout @ ''s'' @ note
             | Some probe_outcome.Unreachable \<Rightarrow>
                 check_failed @ em_dash @ ''the tunnel closed the connection without carrying the request'' @ note
             | _ \<Rightarrow> check_failed)"

definition pool_seen :: "nat \<Rightarrow> nat option \<Rightarrow> nat \<Rightarrow> string" where
  "pool_seen failed rotating members =
     (if 0 < failed
      then ''its health check could not be reached through '' @ show_nat failed @ '' of '' @ show_nat members
           @ '' nodes'' @ em_dash @ ''the address is [core] pool_probe_url''
      else case rotating of
        Some live \<Rightarrow> show_nat live @ '' of '' @ show_nat members @ '' nodes were in rotation''
      | None \<Rightarrow> ''none of its '' @ show_nat members @ '' nodes answered'')"

definition confirmation_failure ::
  "(string \<Rightarrow> string) \<Rightarrow> connection_target \<Rightarrow> bool \<Rightarrow> string list \<Rightarrow> nat option
     \<Rightarrow> ('m, probe_detail) probe_outcome option \<Rightarrow> latency_method \<Rightarrow> string" where
  "confirmation_failure lower target inbound_ready logs rotating outcome configured =
     (if core_rejected_the_protocol logs
      then unsupported_text
      else case find_map (classify_complaint lower) logs of
        Some detail \<Rightarrow> detail_message detail
      | None \<Rightarrow>
          if \<not> inbound_ready
          then no_inbound_text
          else case target of
            TargetServer _ \<Rightarrow> single_server_confirmation_failure logs outcome configured
          | TargetPool members _ _ _ _ _ \<Rightarrow>
              ''the pool carried no traffic within '' @ show_nat pool_confirm_window @ ''s'' @ em_dash
              @ pool_seen (observatory_failures logs) rotating (length members))"

section \<open>Whose fault it was\<close>

definition local_complaint :: "(string \<Rightarrow> string) \<Rightarrow> string list \<Rightarrow> bool" where
  "local_complaint lower logs =
     (core_rejected_the_protocol logs \<or> list_ex (\<lambda>line. classify_complaint lower line \<noteq> None) logs)"

definition eligible_confirmation ::
  "(string \<Rightarrow> string) \<Rightarrow> confirmation_end \<Rightarrow> ('m, probe_detail) probe_outcome option \<Rightarrow> string list \<Rightarrow> bool" where
  "eligible_confirmation lower end_state outcome logs =
     (end_state = Measured
      \<and> (case outcome of
           Some probe_outcome.Timeout \<Rightarrow> True
         | Some probe_outcome.Unreachable \<Rightarrow> True
         | _ \<Rightarrow> False)
      \<and> \<not> local_complaint lower logs)"

section \<open>The machine's own network\<close>

text \<open>\<open>u32::from_str_radix(flags, 16)\<close> with the bit \<open>RTF_UP\<close>, which is 1.\<close>

definition hex_value :: "char \<Rightarrow> nat" where
  "hex_value c = (if is_ascii_digit c then ord c - 48 else ord (to_ascii_lowercase c) - 87)"

definition parse_hex_u32 :: "string \<Rightarrow> nat option" where
  "parse_hex_u32 s =
     (let t = (case s of c # r \<Rightarrow> if c = CHR ''+'' then r else s | [] \<Rightarrow> s);
          n = foldl (\<lambda>acc c. 16 * acc + hex_value c) 0 t
      in if t \<noteq> [] \<and> list_all is_ascii_hexdigit t \<and> n \<le> u32_max then Some n else None)"

definition default_route_flags :: "string list \<Rightarrow> string option" where
  "default_route_flags columns =
     (case columns of
        _ # destination # third # flags # rest \<Rightarrow>
          if destination = ''00000000'' then Some flags
          else (case columns of
            d # prefix # _ # _ # _ # _ # _ # _ # flags6 # _ \<Rightarrow>
              if length d = 32 \<and> list_all (\<lambda>c. c = CHR ''0'') d \<and> prefix = ''00'' then Some flags6 else None
          | _ \<Rightarrow> None)
      | _ \<Rightarrow> None)"

definition has_default_route :: "string \<Rightarrow> bool" where
  "has_default_route table =
     list_ex (\<lambda>line.
       case default_route_flags (text_words line) of
         None \<Rightarrow> False
       | Some flags \<Rightarrow> (case parse_hex_u32 flags of None \<Rightarrow> False | Some n \<Rightarrow> odd n)) (text_lines table)"

definition default_route_present :: "string option list \<Rightarrow> bool" where
  "default_route_present tables =
     (list_ex (\<lambda>t. case t of None \<Rightarrow> False | Some table \<Rightarrow> has_default_route table) tables
      \<or> list_all (\<lambda>t. t = None) tables)"

definition dns_failure :: "string option list \<Rightarrow> ('m, 'd) probe_outcome" where
  "dns_failure tables =
     (if default_route_present tables then probe_outcome.Unreachable else probe_outcome.NoNetwork)"

section \<open>Lemmas\<close>

lemma lower_not_upper: "\<not> is_ascii_uppercase (to_ascii_lowercase c)"
  using ord_to_ascii_lowercase [of c] by (auto simp: is_ascii_uppercase_def split: if_splits)

lemma lower_ascii_not_upper: "c \<in> set (lower_ascii s) \<Longrightarrow> \<not> is_ascii_uppercase c"
  by (auto simp: lower_not_upper)

lemma contains_str_set: "contains_str s p \<Longrightarrow> set p \<subseteq> set s"
  by (auto simp: contains_str_iff)

lemma find_map_in: "find_map f xs = Some y \<Longrightarrow> y \<in> {y. \<exists>x. f x = Some y}"
  using find_map_SomeD by fastforce

definition outbound_reasons :: "string list" where
  "outbound_reasons =
     [''the server reset the connection during the handshake'', ''the server refused the connection'',
      ''the TLS/REALITY handshake timed out'', ''the outbound connection to the server timed out'',
      ''the server's hostname could not be resolved'', ''the core could not establish an outbound connection'']"

lemma outbound_reason_fixed: "outbound_reason line = Some r \<Longrightarrow> r \<in> set outbound_reasons"
  by (auto simp: outbound_reason_def outbound_reasons_def Let_def split: if_splits)

lemma core_outbound_failure_fixed: "core_outbound_failure logs = Some r \<Longrightarrow> r \<in> set outbound_reasons"
  unfolding core_outbound_failure_def by (auto dest!: find_map_SomeD outbound_reason_fixed)

lemma find_map_ex_iff: "find_map f xs = None \<longleftrightarrow> \<not> list_ex (\<lambda>x. f x \<noteq> None) xs"
  by (auto simp: find_map_None_iff list_ex_iff)

section \<open>Properties\<close>

text \<open>a host name that does not resolve is only recognised in one of its two spellings: the search
for the C library's \<open>Temporary failure in name resolution\<close> looks for a capital letter in a
line that has just been put in lower case, so it matches no line at all, and a log whose only
complaint is that one is not explained.\<close>

theorem name_resolution_never_recognised:
  "\<not> contains_str (lower_ascii line) ''Temporary failure in name resolution''
   \<and> core_outbound_failure [''lookup example.org: Temporary failure in name resolution''] = None"
proof
  have "is_ascii_uppercase CHR ''T''" by code_simp
  then show "\<not> contains_str (lower_ascii line) ''Temporary failure in name resolution''"
    by (auto dest!: contains_str_set dest: lower_ascii_not_upper)
  show "core_outbound_failure [''lookup example.org: Temporary failure in name resolution''] = None"
    by code_simp
qed

text \<open>what the user is told never repeats a line of the core: whatever the core wrote, the
explanation of a failed single-server confirmation is one of finitely many fixed sentences, the
same for every server, so no address or credential of a log line can reach it.\<close>

theorem confirmation_failure_fixed_texts:
  "finite {confirmation_failure lower (TargetServer i) ready logs rotating (outcome :: ('m, probe_detail) probe_outcome option) configured
           | lower i ready logs rotating outcome configured. True}"
proof -
  define F where "F =
    {unsupported_text, no_inbound_text}
    \<union> range detail_message
    \<union> (\<lambda>r. check_failed @ em_dash @ r) ` set outbound_reasons
    \<union> (\<lambda>configured. single_server_confirmation_failure [] (None :: ('m, probe_detail) probe_outcome option) configured) ` UNIV
    \<union> (\<lambda>configured. single_server_confirmation_failure [] (Some probe_outcome.NoNetwork :: ('m, probe_detail) probe_outcome option) configured) ` UNIV
    \<union> (\<lambda>configured. single_server_confirmation_failure [] (Some probe_outcome.Timeout :: ('m, probe_detail) probe_outcome option) configured) ` UNIV
    \<union> (\<lambda>configured. single_server_confirmation_failure [] (Some probe_outcome.Unreachable :: ('m, probe_detail) probe_outcome option) configured) ` UNIV
    \<union> (\<lambda>detail. check_failed @ em_dash @ detail_message detail) ` UNIV"
  have details: "UNIV = {NoCore, CertificateRejected, InsecureTlsUnsupported, ConfigRefused, GeoAssetsMissing,
      Cancelled, OtherDetail}" by (auto intro: probe_detail.exhaust)
  have methods: "UNIV = {Icmp, Tcp, HttpHead, HttpGet}" by (auto intro: latency_method.exhaust)
  have "finite (UNIV :: probe_detail set)" unfolding details by simp
  moreover have "finite (UNIV :: latency_method set)" unfolding methods by simp
  ultimately have fin: "finite F" unfolding F_def by simp
  have single: "single_server_confirmation_failure logs outcome configured \<in> F"
    for logs and outcome :: "('m, probe_detail) probe_outcome option" and configured
  proof (cases "core_outbound_failure logs")
    case None
    then have e: "single_server_confirmation_failure logs outcome configured
        = single_server_confirmation_failure [] outcome configured"
      by (simp add: single_server_confirmation_failure_def core_outbound_failure_def)
    show ?thesis
    proof (cases outcome)
      case (Some result)
      then show ?thesis unfolding e F_def
        by (cases result) (auto simp: single_server_confirmation_failure_def core_outbound_failure_def)
    next
      case None
      then show ?thesis unfolding e F_def by blast
    qed
  next
    case (Some r)
    then show ?thesis using core_outbound_failure_fixed [OF Some]
      by (auto simp: single_server_confirmation_failure_def F_def)
  qed
  have "confirmation_failure lower (TargetServer i) ready logs rotating outcome configured \<in> F"
    for lower i ready logs rotating configured and outcome :: "('m, probe_detail) probe_outcome option"
    using single by (auto simp: confirmation_failure_def F_def split: option.splits)
  then show ?thesis by (intro finite_subset [OF _ fin]) auto
qed

text \<open>the verdict agrees with the explanation. When a confirmation counts against the server, the
user of a single-server session is told that the server did not pass its check; when the core's own
words blame this machine or its configuration, the explanation says so and the confirmation does
not count.\<close>

theorem verdict_matches_explanation:
  fixes outcome :: "('m, probe_detail) probe_outcome option"
  shows "(eligible_confirmation lower end_state outcome logs \<longrightarrow>
      (\<exists>rest. confirmation_failure lower (TargetServer i) True logs rotating outcome configured = check_failed @ rest))
    \<and> (local_complaint lower logs \<longrightarrow>
      \<not> eligible_confirmation lower end_state outcome logs
      \<and> confirmation_failure lower target ready logs rotating outcome configured
        \<in> insert unsupported_text (range detail_message))"
proof
  show "eligible_confirmation lower end_state outcome logs \<longrightarrow>
      (\<exists>rest. confirmation_failure lower (TargetServer i) True logs rotating outcome configured = check_failed @ rest)"
  proof
    assume "eligible_confirmation lower end_state outcome logs"
    then have "\<not> core_rejected_the_protocol logs" "find_map (classify_complaint lower) logs = None"
      by (auto simp: eligible_confirmation_def local_complaint_def find_map_ex_iff)
    then show "\<exists>rest. confirmation_failure lower (TargetServer i) True logs rotating outcome configured = check_failed @ rest"
      by (auto simp: confirmation_failure_def single_server_confirmation_failure_def Let_def
          split: option.splits probe_outcome.splits)
  qed
  show "local_complaint lower logs \<longrightarrow>
      \<not> eligible_confirmation lower end_state outcome logs
      \<and> confirmation_failure lower target ready logs rotating outcome configured
        \<in> insert unsupported_text (range detail_message)"
    by (auto simp: eligible_confirmation_def local_complaint_def confirmation_failure_def
        find_map_ex_iff split: option.splits)
qed

section \<open>Witnesses\<close>

theorem verdict_matches_explanation_witness:
  "\<exists>rest. confirmation_failure lower_ascii (TargetServer ''1'') True []
     None (Some probe_outcome.Timeout :: (nat, probe_detail) probe_outcome option) HttpGet = check_failed @ rest"
proof -
  have "eligible_confirmation lower_ascii Measured (Some probe_outcome.Timeout :: (nat, probe_detail) probe_outcome option) []"
    by (simp add: eligible_confirmation_def local_complaint_def core_rejected_the_protocol_def)
  then show ?thesis using verdict_matches_explanation by blast
qed

end
