(* ===== verification/Activations.thy ===== *)
theory Activations
  imports Profile Alias Complaints
begin

text \<open>
  The daemon's saved grants and their recovery: \<open>Snapshot\<close>, \<open>Entry\<close> and
  \<open>Activations\<close> of \<open>crates/oxidom/src/daemon/failover.rs\<close>, with the two decisions taken
  under the engine lock, \<open>failover_failure_locked\<close> and \<open>admit_failover_locked\<close>, and one
  round of the worker \<open>run_failover\<close>.

  Instants are nanoseconds. What these operations read of the engine is its catalog of servers and
  the machine-wide setting \<open>on_core_exit\<close>; whether a generation is current is an argument. The
  outer option of an operation is the panic of \<open>Activation::next\<close>, which the lemmas exclude.
\<close>

section \<open>Grants\<close>

record 'j engine_view =
  ev_servers :: "'j server list"
  ev_on_core_exit :: on_core_exit

record grant =
  gr_initial :: string
  gr_select :: profile_select
  gr_policy :: policy
  gr_activation :: activation
  gr_envelope :: "tun_envelope option"

datatype grant_error =
    GrantPool | GrantPolicy failover_error | GrantNoServer | GrantEnvelope envelope_error
  | GrantProfile profile_error | GrantAmbiguous

definition effective_on_core_exit :: "'j engine_view \<Rightarrow> profile \<Rightarrow> on_core_exit" where
  "effective_on_core_exit view p =
     (case pr_on_core_exit p of Some e \<Rightarrow> e | None \<Rightarrow> ev_on_core_exit view)"

definition grant_new ::
  "'j engine_view \<Rightarrow> profile \<Rightarrow> connection_target \<Rightarrow> grant_error + grant option" where
  "grant_new view p target =
     (case pr_failover p of
        None \<Rightarrow> Inr None
      | Some policy \<Rightarrow>
          if \<not> pol_enabled policy then Inr None
          else
            ensure (ps_pool (pr_select p) = None) GrantPool
              (and_then (lift_err GrantPolicy (policy_validate_candidates policy (ev_servers view))) (\<lambda>_.
                or_bail (target_server_id target) GrantNoServer (\<lambda>initial.
                  and_then
                    (if pi_enable (pr_interface p)
                     then and_then (lift_err GrantEnvelope
                            (envelope_new (filter (\<lambda>s. srv_id s \<in> set (pol_members policy)) (ev_servers view))
                               (pr_interface p) (effective_on_core_exit view p)))
                            (\<lambda>e. Inr (Some e))
                     else Inr None)
                    (\<lambda>envelope. and_then (lift_err GrantPolicy (activation_new policy initial)) (\<lambda>activation.
                       Inr (Some \<lparr>gr_initial = initial, gr_select = pr_select p, gr_policy = policy,
                                  gr_activation = activation, gr_envelope = envelope\<rparr>)))))))"

definition grant_matches :: "'j engine_view \<Rightarrow> grant \<Rightarrow> profile \<Rightarrow> bool" where
  "grant_matches view g p =
     (pr_select p = gr_select g \<and> pr_failover p = Some (gr_policy g)
      \<and> (case gr_envelope g of
           Some envelope \<Rightarrow> is_ok (validate_interface envelope (pr_interface p) (effective_on_core_exit view p))
         | None \<Rightarrow> \<not> pi_enable (pr_interface p)))"

definition catalog_is_current :: "'j engine_view \<Rightarrow> grant \<Rightarrow> bool" where
  "catalog_is_current view g =
     (is_ok (policy_validate_candidates (gr_policy g) (ev_servers view))
      \<and> (case gr_envelope g of
           None \<Rightarrow> True
         | Some envelope \<Rightarrow> is_ok (validate_candidates envelope (ev_servers view))))"

definition validate_saved ::
  "'k json \<Rightarrow> (string \<Rightarrow> bool) \<Rightarrow> (string \<Rightarrow> string) \<Rightarrow> 'j engine_view \<Rightarrow> string \<Rightarrow> profile \<Rightarrow> grant_error + unit" where
  "validate_saved J usable lower view name p =
     and_then (lift_err GrantProfile (profile_validate J usable name p)) (\<lambda>_.
       if (case pr_failover p of None \<Rightarrow> False | Some policy \<Rightarrow> pol_enabled policy)
       then (case handle_resolve lower (ev_servers view) (ps_server (pr_select p)) of
               One server \<Rightarrow> and_then (grant_new view p (TargetServer (srv_id server))) (\<lambda>_. Inr ())
             | _ \<Rightarrow> Inl GrantAmbiguous)
       else Inr ())"

section \<open>Entries\<close>

record 'c entry =
  en_generation :: nat
  en_grant :: grant
  en_subject :: "'c confirmation option"
  en_current :: string
  en_automatic :: bool
  en_worker :: bool
  en_ordinal :: nat
  en_backoff :: nat
  en_disarmed :: bool
  en_confirming :: bool

type_synonym 'c activations = "string \<rightharpoonup> 'c entry"

abbreviation en_activation :: "'c entry \<Rightarrow> activation" where
  "en_activation e \<equiv> gr_activation (en_grant e)"

definition with_activation :: "activation \<Rightarrow> 'c entry \<Rightarrow> 'c entry" where
  "with_activation a e = e\<lparr>en_grant := (en_grant e)\<lparr>gr_activation := a\<rparr>\<rparr>"

text \<open>\<open>entry.disarmed = true; entry.snapshot.activation.disarm();\<close>\<close>

definition revoke :: "'c entry \<Rightarrow> 'c entry" where
  "revoke e = with_activation (disarm (en_activation e)) (e\<lparr>en_disarmed := True\<rparr>)"

definition entry_matches :: "'c entry \<Rightarrow> connection_target \<Rightarrow> 'c confirmation \<Rightarrow> bool" where
  "entry_matches e target subject =
     (en_generation e = cf_generation subject \<and> target_server_id target = Some (en_current e)
      \<and> (case en_subject e of
           None \<Rightarrow> False
         | Some held_subject \<Rightarrow>
             (cf_generation held_subject, cf_core held_subject, cf_spawn_seq held_subject)
               = (cf_generation subject, cf_core subject, cf_spawn_seq subject)))"

definition at_entry :: "string \<Rightarrow> ('c entry \<Rightarrow> 'c entry) \<Rightarrow> 'c activations \<Rightarrow> 'c activations" where
  "at_entry profile f es = es(profile := map_option f (es profile))"

definition install :: "string \<Rightarrow> nat \<Rightarrow> grant \<Rightarrow> nat \<Rightarrow> 'c activations \<Rightarrow> 'c activations" where
  "install profile generation g now es =
     es(profile \<mapsto>
       \<lparr>en_generation = generation, en_grant = g, en_subject = None, en_current = gr_initial g,
        en_automatic = False, en_worker = False, en_ordinal = 0, en_backoff = now,
        en_disarmed = False, en_confirming = False\<rparr>)"

definition remove_entry :: "string \<Rightarrow> 'c activations \<Rightarrow> 'c activations" where
  "remove_entry profile es = es(profile := None)"

definition clear_entries :: "'c activations \<Rightarrow> 'c activations" where
  "clear_entries es = Map.empty"

definition owns :: "'c activations \<Rightarrow> string \<Rightarrow> nat \<Rightarrow> bool" where
  "owns es profile generation =
     (case es profile of None \<Rightarrow> False | Some e \<Rightarrow> en_generation e = generation)"

definition armed :: "'c activations \<Rightarrow> string \<Rightarrow> bool" where
  "armed es profile = (case es profile of None \<Rightarrow> False | Some e \<Rightarrow> \<not> en_disarmed e)"

definition disarm_entry :: "string \<Rightarrow> 'c activations \<Rightarrow> 'c activations" where
  "disarm_entry profile = at_entry profile revoke"

definition reconcile_profile ::
  "'j engine_view \<Rightarrow> string \<Rightarrow> profile \<Rightarrow> 'c activations \<Rightarrow> 'c activations" where
  "reconcile_profile view name p =
     at_entry name (\<lambda>e. if grant_matches view (en_grant e) p then e else revoke e)"

definition reconcile_catalog :: "'j engine_view \<Rightarrow> 'c activations \<Rightarrow> 'c activations" where
  "reconcile_catalog view es =
     (\<lambda>profile. map_option (\<lambda>e. if catalog_is_current view (en_grant e) then e else revoke e) (es profile))"

definition bind_entry ::
  "string \<Rightarrow> connection_target \<Rightarrow> 'c confirmation \<Rightarrow> 'c activations \<Rightarrow> 'c activations" where
  "bind_entry profile target subject =
     at_entry profile (\<lambda>e.
       if en_generation e = cf_generation subject
       then e\<lparr>en_subject := Some subject,
              en_current := (case target_server_id target of Some i \<Rightarrow> i | None \<Rightarrow> []),
              en_confirming := True\<rparr>
       else e)"

text \<open>The result of \<open>confirm_success\<close> is ignored: an error leaves the activation as it is.\<close>

definition confirmed :: "activation \<Rightarrow> string \<Rightarrow> activation" where
  "confirmed a i = (case confirm_success a i of Inr a' \<Rightarrow> a' | Inl _ \<Rightarrow> a)"

definition success ::
  "string \<Rightarrow> connection_target \<Rightarrow> 'c confirmation \<Rightarrow> 'c activations \<Rightarrow> 'c activations" where
  "success profile target subject =
     at_entry profile (\<lambda>e.
       if \<not> entry_matches e target subject then e
       else let e' = e\<lparr>en_confirming := False\<rparr>
            in if en_automatic e'
               then (with_activation (confirmed (en_activation e') (en_current e')) e')
                      \<lparr>en_automatic := False, en_ordinal := 0\<rparr>
               else e')"

definition rebind_death ::
  "string \<Rightarrow> connection_target \<Rightarrow> 'c confirmation \<Rightarrow> 'c activations \<Rightarrow> 'c activations" where
  "rebind_death profile target subject =
     at_entry profile (\<lambda>e.
       if en_generation e = cf_generation subject \<and> target_server_id target = Some (en_current e)
       then e\<lparr>en_subject := Some subject\<rparr> else e)"

section \<open>What clients see\<close>

record runtime_failover =
  rt_state :: string
  rt_members :: "string list"
  rt_current :: string
  rt_next :: "string option"
  rt_attempts :: nat
  rt_max_attempts :: nat
  rt_cooldown_secs :: nat

definition of_generation :: "'c activations \<Rightarrow> string \<Rightarrow> nat option \<Rightarrow> 'c entry option" where
  "of_generation es profile generation =
     (case es profile of
        None \<Rightarrow> None
      | Some e \<Rightarrow> if Some (en_generation e) = generation then Some e else None)"

definition act_progress ::
  "'c activations \<Rightarrow> string \<Rightarrow> nat option \<Rightarrow> nat \<Rightarrow> runtime_failover option option" where
  "act_progress es profile generation now =
     (case of_generation es profile generation of
        None \<Rightarrow> Some None
      | Some e \<Rightarrow>
          map_option (\<lambda>decision.
            let (attempts, upcoming) = progress (en_activation e)
            in Some \<lparr>rt_state = (case decision of
                        Idle \<Rightarrow> ''armed'' | Disarmed \<Rightarrow> ''disarmed'' | Exhausted \<Rightarrow> ''exhausted''
                      | _ \<Rightarrow> ''recovering''),
                     rt_members = pol_members (gr_policy (en_grant e)), rt_current = en_current e,
                     rt_next = upcoming, rt_attempts = attempts,
                     rt_max_attempts = pol_max_attempts (gr_policy (en_grant e)),
                     rt_cooldown_secs = pol_cooldown_secs (gr_policy (en_grant e))\<rparr>)
            (act_next (en_activation e) now (en_backoff e)))"

definition act_retry ::
  "'c activations \<Rightarrow> string \<Rightarrow> nat option \<Rightarrow> nat \<Rightarrow> runtime_retry option option" where
  "act_retry es profile generation now =
     (case of_generation es profile generation of
        None \<Rightarrow> Some None
      | Some e \<Rightarrow>
          map_option (\<lambda>decision.
            let ordinal = (case decision of
                  Wait _ \<Rightarrow> en_ordinal e | Attempt _ \<Rightarrow> en_ordinal e
                | Idle \<Rightarrow> 0 | Disarmed \<Rightarrow> 0
                | _ \<Rightarrow> en_ordinal e - 1);
                (state, remaining) = (case decision of
                  Wait deadline \<Rightarrow> (''backoff'', Some (remaining_ms deadline now))
                | Attempt _ \<Rightarrow> (''backoff'', Some 0)
                | InFlight \<Rightarrow> (''attempting'', None)
                | Exhausted \<Rightarrow> (''exhausted'', None)
                | _ \<Rightarrow> (''idle'', None))
            in Some \<lparr>rr_state = state, rr_ordinal = ordinal, rr_remaining_ms = remaining\<rparr>)
            (act_next (en_activation e) now (en_backoff e)))"

section \<open>Decisions under the engine lock\<close>

text \<open>The answer, whether a worker is started, and the entries.\<close>

definition failure_locked ::
  "bool \<Rightarrow> string \<Rightarrow> connection_target \<Rightarrow> 'c confirmation \<Rightarrow> bool \<Rightarrow> bool \<Rightarrow> nat \<Rightarrow> 'c activations
     \<Rightarrow> bool \<times> bool \<times> 'c activations" where
  "failure_locked generation_current profile target subject eligible core_death now es =
     (case es profile of
        None \<Rightarrow> (False, False, es)
      | Some e \<Rightarrow>
          if en_generation e \<noteq> cf_generation subject then (False, False, es)
          else if \<not> generation_current \<or> \<not> entry_matches e target subject \<or> en_disarmed e then (True, False, es)
          else if core_death \<and> en_confirming e then (True, False, es)
          else
            let e1 = e\<lparr>en_confirming := False\<rparr>
            in if \<not> eligible then (True, False, es(profile \<mapsto> revoke e1))
               else
                 case (if en_automatic e1
                       then (case attempt_failed (en_activation e1) (en_current e1) of
                               Inl _ \<Rightarrow> None
                             | Inr a \<Rightarrow> Some ((with_activation a e1)\<lparr>en_automatic := False\<rparr>))
                       else (case begin_episode (en_activation e1) (en_current e1) of
                               Inl _ \<Rightarrow> None
                             | Inr a \<Rightarrow> Some (with_activation a e1))) of
                   None \<Rightarrow> (True, False, es(profile \<mapsto> e1))
                 | Some e2 \<Rightarrow>
                     let e3 = e2\<lparr>en_backoff := now + reconnect_delay (en_ordinal e2)\<rparr>
                     in if en_worker e3 then (True, False, es(profile \<mapsto> e3))
                        else (True, True, es(profile \<mapsto> e3\<lparr>en_worker := True\<rparr>)))"

text \<open>\<open>loaded\<close> is the saved profile as it is read at this moment, if it can be read.\<close>

definition admit_locked ::
  "'k json \<Rightarrow> (string \<Rightarrow> bool) \<Rightarrow> 'j engine_view \<Rightarrow> profile option \<Rightarrow> string \<Rightarrow> connection_target
     \<Rightarrow> nat \<Rightarrow> nat \<Rightarrow> 'c activations \<Rightarrow> (bool \<times> 'c activations) option" where
  "admit_locked J usable view loaded profile target generation now es =
     (case es profile of
        None \<Rightarrow> Some (False, es)
      | Some e \<Rightarrow>
          if en_generation e \<noteq> generation \<or> en_disarmed e then Some (False, es)
          else if \<not> ((case loaded of
                        None \<Rightarrow> False
                      | Some p \<Rightarrow> is_ok (profile_validate J usable ''activation'' p)
                                  \<and> grant_matches view (en_grant e) p)
                     \<and> catalog_is_current view (en_grant e))
          then Some (False, es(profile \<mapsto> revoke e))
          else case target_server_id target of
            None \<Rightarrow> Some (False, es)
          | Some i \<Rightarrow>
              map_option (\<lambda>r. case r of
                  Inl _ \<Rightarrow> (False, es)
                | Inr a \<Rightarrow>
                    (True, es(profile \<mapsto>
                       (with_activation a e)\<lparr>en_automatic := True, en_current := i, en_subject := None,
                          en_ordinal := en_ordinal e + 1\<rparr>)))
                (admit (en_activation e) i now (en_backoff e)))"

datatype worker_action = WorkerExit | WorkerAttempt string | WorkerWait

text \<open>One round of \<open>run_failover\<close> up to what it does next.\<close>

definition worker_round ::
  "bool \<Rightarrow> string \<Rightarrow> nat \<Rightarrow> nat \<Rightarrow> 'c activations \<Rightarrow> (worker_action \<times> 'c activations) option" where
  "worker_round generation_current profile generation now es =
     (case es profile of
        None \<Rightarrow> Some (WorkerExit, es)
      | Some e \<Rightarrow>
          if en_generation e \<noteq> generation \<or> \<not> generation_current then Some (WorkerExit, es)
          else
            map_option (\<lambda>decision. case decision of
                Attempt i \<Rightarrow> (WorkerAttempt i, es)
              | Wait _ \<Rightarrow> (WorkerWait, es)
              | InFlight \<Rightarrow> (WorkerWait, es)
              | _ \<Rightarrow> (WorkerExit, es(profile \<mapsto> e\<lparr>en_worker := False\<rparr>)))
              (act_next (en_activation e) now (en_backoff e)))"

end
