(* ===== verification/Recovery.thy ===== *)
theory Recovery
  imports Activations
begin

text \<open>
  The recovery of the daemon as a transition system: the grants of \<open>Activations\<close>, the connect
  generations of \<open>crates/oxidom/src/daemon.rs\<close> (\<open>next_connect_generation\<close>,
  \<open>generation_is_current\<close>, \<open>invalidate_generation\<close>), the observations they reset, and the worker threads of
  \<open>daemon/failover.rs\<close>. Every step is one critical section under the engine lock; the steps
  interleave freely, time passes between them, and the catalog, the configuration and the saved
  profile may be different at every step.

  The lemmas show that no recoverable grant is ever left without its worker, that there is never a
  second one, and that a revoked grant never starts a server again.
\<close>

section \<open>State\<close>

datatype worker = NoWorker | Polling | Holding string

record 'c system =
  sy_entries :: "'c activations"
  sy_generations :: "string \<rightharpoonup> nat"
  sy_last :: nat
  sy_now :: nat
  sy_closed :: bool
  sy_facts :: "'c runtime_facts"
  sy_workers :: "string \<times> nat \<Rightarrow> worker"

definition generation_is_current :: "'c system \<Rightarrow> string \<Rightarrow> nat \<Rightarrow> bool" where
  "generation_is_current s profile generation =
     (\<not> sy_closed s \<and> sy_generations s profile = Some generation)"

definition next_connect_generation :: "string \<Rightarrow> 'c system \<Rightarrow> nat \<times> 'c system" where
  "next_connect_generation profile s =
     (let generation = sy_last s + 1
      in (generation,
          s\<lparr>sy_entries := remove_entry profile (sy_entries s), sy_last := generation,
            sy_generations := (sy_generations s)(profile \<mapsto> generation),
            sy_facts := facts_reset profile (sy_facts s)\<rparr>))"

definition invalidate_generation :: "string \<Rightarrow> 'c system \<Rightarrow> 'c system" where
  "invalidate_generation profile s =
     s\<lparr>sy_entries := remove_entry profile (sy_entries s),
       sy_generations := (sy_generations s)(profile := None),
       sy_facts := facts_reset profile (sy_facts s)\<rparr>"

definition invalidate_all_generations :: "'c system \<Rightarrow> 'c system" where
  "invalidate_all_generations s =
     s\<lparr>sy_entries := clear_entries (sy_entries s), sy_generations := Map.empty,
       sy_facts := facts_clear (sy_facts s)\<rparr>"

definition map_entries :: "('c activations \<Rightarrow> 'c activations) \<Rightarrow> 'c system \<Rightarrow> 'c system" where
  "map_entries f s = s\<lparr>sy_entries := f (sy_entries s)\<rparr>"

definition initial_system :: "'c system" where
  "initial_system =
     \<lparr>sy_entries = Map.empty, sy_generations = Map.empty, sy_last = 0, sy_now = 0, sy_closed = False,
      sy_facts = facts_new, sy_workers = (\<lambda>_. NoWorker)\<rparr>"

section \<open>Steps\<close>

text \<open>
  What a worker holding a candidate does in \<open>start_connection_target_captured\<close>: give up when its
  generation is no longer current; revoke the grant when the local helper cannot be restored; ask
  for admission; and, once admitted, bind the subject of the start, which revokes the grant when
  the core does not start. \<open>Ok(None)\<close> ends the worker, everything else returns to polling.
\<close>

definition worker_start ::
  "'j json \<Rightarrow> (string \<Rightarrow> bool) \<Rightarrow> 'j engine_view \<Rightarrow> profile option \<Rightarrow> bool \<Rightarrow> bool \<Rightarrow> 'c confirmation
     \<Rightarrow> string \<Rightarrow> nat \<Rightarrow> string \<Rightarrow> 'c system \<Rightarrow> (worker \<times> 'c activations) option" where
  "worker_start J usable view loaded helper_ready started subject profile generation i s =
     (if \<not> generation_is_current s profile generation then Some (NoWorker, sy_entries s)
      else if \<not> helper_ready then Some (NoWorker, disarm_entry profile (sy_entries s))
      else
        map_option (\<lambda>(accepted, es).
            if \<not> accepted then (NoWorker, es)
            else
              let es' = bind_entry profile (TargetServer i) subject es
              in (Polling, if started then es' else disarm_entry profile es'))
          (admit_locked J usable view loaded profile (TargetServer i) generation (sy_now s) (sy_entries s)))"

inductive system_step :: "'j json \<Rightarrow> (string \<Rightarrow> bool) \<Rightarrow> 'c system \<Rightarrow> 'c system \<Rightarrow> bool"
  for J :: "'j json" and usable :: "string \<Rightarrow> bool" where
  tick: "sy_now s \<le> now \<Longrightarrow> system_step J usable s (s\<lparr>sy_now := now\<rparr>)"
| close: "system_step J usable s (s\<lparr>sy_closed := True\<rparr>)"
| claim: "next_connect_generation profile s = (generation, s') \<Longrightarrow> system_step J usable s s'"
| claim_grant: "next_connect_generation profile s = (generation, s') \<Longrightarrow>
    grant_new (view :: 'j engine_view) p target = Inr (Some g) \<Longrightarrow>
    system_step J usable s (map_entries (install profile generation g (sy_now s)) s')"
| invalidate: "system_step J usable s (invalidate_generation profile s)"
| invalidate_all: "system_step J usable s (invalidate_all_generations s)"
| disarm: "system_step J usable s (map_entries (disarm_entry profile) s)"
| saved: "system_step J usable s (map_entries (reconcile_profile (view :: 'j engine_view) profile p) s)"
| catalog: "system_step J usable s (map_entries (reconcile_catalog (view :: 'j engine_view)) s)"
| first_start: "sy_entries s profile = Some e \<Longrightarrow> en_subject e = None \<Longrightarrow>
    target_server_id target = Some (gr_initial (en_grant e)) \<Longrightarrow>
    system_step J usable s (map_entries
      ((if started then id else disarm_entry profile) \<circ> bind_entry profile target subject) s)"
| succeeded: "system_step J usable s (map_entries (success profile target subject) s)"
| died: "system_step J usable s (map_entries (rebind_death profile target subject) s)"
| failed: "failure_locked (generation_is_current s profile (cf_generation subject)) profile target subject
      eligible core_death (sy_now s) (sy_entries s) = (handled, spawn, es) \<Longrightarrow>
    system_step J usable s (s\<lparr>sy_entries := es,
      sy_workers := (if spawn then (sy_workers s)((profile, cf_generation subject) := Polling) else sy_workers s)\<rparr>)"
| polled: "sy_workers s (profile, generation) = Polling \<Longrightarrow>
    worker_round (generation_is_current s profile generation) profile generation (sy_now s) (sy_entries s)
      = Some (action, es) \<Longrightarrow>
    system_step J usable s (s\<lparr>sy_entries := es,
      sy_workers := (sy_workers s)((profile, generation) :=
        (case action of WorkerExit \<Rightarrow> NoWorker | WorkerWait \<Rightarrow> Polling | WorkerAttempt i \<Rightarrow> Holding i))\<rparr>)"
| started: "sy_workers s (profile, generation) = Holding i \<Longrightarrow> cf_generation subject = generation \<Longrightarrow>
    worker_start J usable view loaded helper_ready started subject profile generation i s = Some (w, es) \<Longrightarrow>
    system_step J usable s (s\<lparr>sy_entries := es, sy_workers := (sy_workers s)((profile, generation) := w)\<rparr>)"

inductive reachable_system :: "'j json \<Rightarrow> (string \<Rightarrow> bool) \<Rightarrow> 'c system \<Rightarrow> bool"
  for J :: "'j json" and usable :: "string \<Rightarrow> bool" where
  initial: "reachable_system J usable initial_system"
| step: "reachable_system J usable s \<Longrightarrow> system_step J usable s s' \<Longrightarrow> reachable_system J usable s'"

section \<open>The invariant\<close>

definition exhausted :: "activation \<Rightarrow> bool" where
  "exhausted a = (pol_max_attempts (act_policy a) \<le> act_attempts a \<or> list_all (\<lambda>seen. seen) (act_visited a))"

definition activation_ok :: "policy \<Rightarrow> activation \<Rightarrow> bool" where
  "activation_ok p a = (\<exists>calls. act_inv p calls a)"

definition entry_ok :: "'c entry \<Rightarrow> bool" where
  "entry_ok e =
     (activation_ok (gr_policy (en_grant e)) (en_activation e)
      \<and> (en_disarmed e \<longleftrightarrow> \<not> act_armed (en_activation e))
      \<and> (en_automatic e \<longleftrightarrow> act_in_flight (en_activation e))
      \<and> en_current e = pol_members (gr_policy (en_grant e)) ! act_current (en_activation e)
      \<and> (en_subject e = None \<longrightarrow> en_current e = gr_initial (en_grant e)))"

definition worker_ok :: "nat \<Rightarrow> 'c entry \<Rightarrow> worker \<Rightarrow> bool" where
  "worker_ok now e w =
     ((w \<noteq> NoWorker \<longrightarrow> en_worker e)
      \<and> (\<not> en_disarmed e \<longrightarrow>
           (en_worker e \<longrightarrow> w \<noteq> NoWorker)
           \<and> (\<forall>i. w = Holding i \<longrightarrow> act_next (en_activation e) now (en_backoff e) = Some (Attempt i))
           \<and> (act_episode (en_activation e) \<and> \<not> en_worker e \<longrightarrow>
                \<not> act_in_flight (en_activation e) \<and> exhausted (en_activation e))))"

definition system_ok :: "'c system \<Rightarrow> bool" where
  "system_ok s =
     ((\<forall>profile e. sy_entries s profile = Some e \<longrightarrow>
         entry_ok e \<and> sy_generations s profile = Some (en_generation e)
         \<and> (\<not> sy_closed s \<longrightarrow> worker_ok (sy_now s) e (sy_workers s (profile, en_generation e))))
      \<and> (\<forall>profile generation. sy_generations s profile = Some generation \<longrightarrow> generation \<le> sy_last s)
      \<and> (\<forall>profile generation. sy_workers s (profile, generation) \<noteq> NoWorker \<longrightarrow> generation \<le> sy_last s))"

lemma with_activation_simps [simp]:
  "en_activation (with_activation a e) = a"
  "gr_policy (en_grant (with_activation a e)) = gr_policy (en_grant e)"
  "gr_initial (en_grant (with_activation a e)) = gr_initial (en_grant e)"
  "en_generation (with_activation a e) = en_generation e"
  "en_subject (with_activation a e) = en_subject e"
  "en_current (with_activation a e) = en_current e"
  "en_automatic (with_activation a e) = en_automatic e"
  "en_worker (with_activation a e) = en_worker e"
  "en_ordinal (with_activation a e) = en_ordinal e"
  "en_backoff (with_activation a e) = en_backoff e"
  "en_disarmed (with_activation a e) = en_disarmed e"
  "en_confirming (with_activation a e) = en_confirming e"
  by (simp_all add: with_activation_def)

lemma activation_ok_policy: "activation_ok p a \<Longrightarrow> act_policy a = p"
  by (auto simp: activation_ok_def dest: act_inv_policy)

text \<open>The rule every step on one entry goes by.\<close>

lemma system_ok_entry:
  assumes "system_ok s" and "sy_entries s profile = Some e"
    and "en_generation e' = en_generation e" and "entry_ok e'"
    and "\<not> sy_closed s \<Longrightarrow> worker_ok (sy_now s) e' w"
  shows "system_ok (s\<lparr>sy_entries := (sy_entries s)(profile \<mapsto> e'),
      sy_workers := (sy_workers s)((profile, en_generation e) := w)\<rparr>)"
proof -
  have "en_generation e \<le> sy_last s" using assms(1,2) unfolding system_ok_def by blast
  then show ?thesis using assms unfolding system_ok_def by auto
qed

section \<open>Operations on one entry\<close>

lemma activation_ok_disarm: "activation_ok p a \<Longrightarrow> activation_ok p (disarm a)"
  by (auto simp: activation_ok_def intro: disarm_inv)

lemma revoke_simps [simp]: "en_generation (revoke e) = en_generation e" "en_disarmed (revoke e)"
  by (simp_all add: revoke_def)

lemma revoke_ok:
  assumes "entry_ok e"
  shows "entry_ok (revoke e)" and "worker_ok now e w \<Longrightarrow> worker_ok now (revoke e) w"
    and "en_generation (revoke e) = en_generation e" and "en_disarmed (revoke e)"
  using assms by (auto simp: entry_ok_def worker_ok_def revoke_def activation_ok_disarm)
     (auto simp: disarm_def)

definition bound :: "connection_target \<Rightarrow> 'c confirmation \<Rightarrow> 'c entry \<Rightarrow> 'c entry" where
  "bound target subject e =
     (if en_generation e = cf_generation subject
      then e\<lparr>en_subject := Some subject,
             en_current := (case target_server_id target of Some i \<Rightarrow> i | None \<Rightarrow> []),
             en_confirming := True\<rparr>
      else e)"

lemma bound_ok:
  assumes "entry_ok e" and "target_server_id target = Some (en_current e)"
  shows "entry_ok (bound target subject e)" and "worker_ok now e w \<Longrightarrow> worker_ok now (bound target subject e) w"
    and "en_generation (bound target subject e) = en_generation e"
  using assms by (auto simp: entry_ok_def worker_ok_def bound_def)

text \<open>An answer of \<open>next\<close> about a candidate stays while the activation does, whatever time passes.\<close>

lemma attempt_later:
  "act_next a now until = Some (Attempt i) \<Longrightarrow> now \<le> later \<Longrightarrow> act_next a later until = Some (Attempt i)"
  by (auto simp: act_next_def Let_def split: if_splits option.splits)

lemma worker_ok_later: "worker_ok now e w \<Longrightarrow> now \<le> later \<Longrightarrow> worker_ok later e w"
  unfolding worker_ok_def using attempt_later by blast

lemma attempt_facts:
  "act_next a now until = Some (Attempt i) \<Longrightarrow> act_episode a \<and> \<not> act_in_flight a \<and> act_armed a \<and> \<not> exhausted a"
  by (auto simp: act_next_def Let_def exhausted_def split: if_splits)

definition succeeded_entry :: "connection_target \<Rightarrow> 'c confirmation \<Rightarrow> 'c entry \<Rightarrow> 'c entry" where
  "succeeded_entry target subject e =
     (if \<not> entry_matches e target subject then e
      else let e' = e\<lparr>en_confirming := False\<rparr>
           in if en_automatic e'
              then (with_activation (confirmed (en_activation e') (en_current e')) e')
                     \<lparr>en_automatic := False, en_ordinal := 0\<rparr>
              else e')"

lemma confirm_success_in_flight:
  assumes "activation_ok p a" and "act_in_flight a" and "i = pol_members p ! act_current a"
  shows "confirm_success a i = Inr (confirmed a i) \<and> activation_ok p (confirmed a i)
    \<and> \<not> act_in_flight (confirmed a i) \<and> \<not> act_episode (confirmed a i)
    \<and> act_armed (confirmed a i) = act_armed a \<and> act_current (confirmed a i) = act_current a"
proof -
  have c: "confirm_success a i = Inr (a\<lparr>act_in_flight := False, act_episode := False, act_attempts := 0,
      act_visited := map (\<lambda>_. False) (act_visited a)\<rparr>)"
    using assms activation_ok_policy [OF assms(1)]
    by (simp add: confirm_success_def check_in_flight_def)
  from assms(1) obtain calls where "act_inv p calls a" by (auto simp: activation_ok_def)
  from confirm_inv [OF this c] show ?thesis by (auto simp: confirmed_def c activation_ok_def)
qed

lemma succeeded_ok:
  assumes "entry_ok e"
  shows "entry_ok (succeeded_entry target subject e)
    \<and> (worker_ok now e w \<longrightarrow> worker_ok now (succeeded_entry target subject e) w)
    \<and> en_generation (succeeded_entry target subject e) = en_generation e"
proof (cases "entry_matches e target subject \<and> en_automatic e")
  case True
  then have "act_in_flight (en_activation e)" using assms by (simp add: entry_ok_def)
  from confirm_success_in_flight [OF _ this, of "gr_policy (en_grant e)" "en_current e"] assms True
  have c: "activation_ok (gr_policy (en_grant e)) (confirmed (en_activation e) (en_current e))"
    "\<not> act_in_flight (confirmed (en_activation e) (en_current e))"
    "\<not> act_episode (confirmed (en_activation e) (en_current e))"
    "act_armed (confirmed (en_activation e) (en_current e)) = act_armed (en_activation e)"
    "act_current (confirmed (en_activation e) (en_current e)) = act_current (en_activation e)"
    by (simp_all add: entry_ok_def)
  let ?e = "succeeded_entry target subject e"
  have e': "?e = (with_activation (confirmed (en_activation e) (en_current e)) (e\<lparr>en_confirming := False\<rparr>))
      \<lparr>en_automatic := False, en_ordinal := 0\<rparr>"
    using True by (simp add: succeeded_entry_def)
  have f: "en_activation ?e = confirmed (en_activation e) (en_current e)" "en_worker ?e = en_worker e"
    "en_disarmed ?e = en_disarmed e" "en_automatic ?e = False" "en_generation ?e = en_generation e"
    "en_current ?e = en_current e" "en_subject ?e = en_subject e"
    "gr_policy (en_grant ?e) = gr_policy (en_grant e)" "gr_initial (en_grant ?e) = gr_initial (en_grant e)"
    unfolding e' by (simp_all add: with_activation_def)
  have "worker_ok now ?e w" if ok: "worker_ok now e w"
  proof -
    have "w \<noteq> Holding i" if "\<not> en_disarmed e" for i
      using ok that attempt_facts [of "en_activation e" now "en_backoff e" i]
        \<open>act_in_flight (en_activation e)\<close> unfolding worker_ok_def by metis
    with ok c(3) show ?thesis unfolding worker_ok_def f by blast
  qed
  moreover have "entry_ok ?e" using assms c unfolding entry_ok_def f by metis
  ultimately show ?thesis using f(5) by blast
qed (use assms in \<open>auto simp: succeeded_entry_def entry_ok_def worker_ok_def Let_def\<close>)

definition died_entry :: "connection_target \<Rightarrow> 'c confirmation \<Rightarrow> 'c entry \<Rightarrow> 'c entry" where
  "died_entry target subject e =
     (if en_generation e = cf_generation subject \<and> target_server_id target = Some (en_current e)
      then e\<lparr>en_subject := Some subject\<rparr> else e)"

lemma died_ok:
  assumes "entry_ok e"
  shows "entry_ok (died_entry target subject e)
    \<and> (worker_ok now e w \<longrightarrow> worker_ok now (died_entry target subject e) w)
    \<and> en_generation (died_entry target subject e) = en_generation e"
  using assms by (auto simp: died_entry_def entry_ok_def worker_ok_def)

text \<open>What a failure does to the entry it is about, and whether a worker is started.\<close>

definition failed_entry :: "bool \<Rightarrow> nat \<Rightarrow> 'c entry \<Rightarrow> bool \<times> 'c entry" where
  "failed_entry eligible now e =
     (let e1 = e\<lparr>en_confirming := False\<rparr>
      in if \<not> eligible then (False, revoke e1)
         else
           case (if en_automatic e1
                 then (case attempt_failed (en_activation e1) (en_current e1) of
                         Inl _ \<Rightarrow> None
                       | Inr a \<Rightarrow> Some ((with_activation a e1)\<lparr>en_automatic := False\<rparr>))
                 else (case begin_episode (en_activation e1) (en_current e1) of
                         Inl _ \<Rightarrow> None
                       | Inr a \<Rightarrow> Some (with_activation a e1))) of
             None \<Rightarrow> (False, e1)
           | Some e2 \<Rightarrow>
               let e3 = e2\<lparr>en_backoff := now + reconnect_delay (en_ordinal e2)\<rparr>
               in (\<not> en_worker e3, e3\<lparr>en_worker := True\<rparr>))"

lemma failure_locked_cases:
  assumes "failure_locked current profile target subject eligible core_death now es = (handled, spawn, es')"
  shows "(es' = es \<and> \<not> spawn)
    \<or> (\<exists>e e'. es profile = Some e \<and> en_generation e = cf_generation subject \<and> \<not> en_disarmed e \<and> current
         \<and> failed_entry eligible now e = (spawn, e') \<and> es' = es(profile \<mapsto> e'))"
proof (cases "es profile")
  case None
  with assms show ?thesis by (simp add: failure_locked_def)
next
  case (Some e)
  show ?thesis
  proof (cases "en_generation e \<noteq> cf_generation subject \<or> \<not> current \<or> \<not> entry_matches e target subject
      \<or> en_disarmed e \<or> core_death \<and> en_confirming e")
    case True
    with assms Some show ?thesis by (auto simp: failure_locked_def split: if_splits)
  next
    case False
    then have "failed_entry eligible now e = (spawn, the (es' profile)) \<and> es' = es(profile \<mapsto> the (es' profile))"
      using assms Some
      by (auto simp: failure_locked_def failed_entry_def Let_def fun_upd_idem_iff
          split: if_splits sum.splits option.splits)
    with Some False show ?thesis by blast
  qed
qed

lemma failed_ok:
  assumes ok: "entry_ok e" and w: "worker_ok now e w" and live: "\<not> en_disarmed e"
    and f: "failed_entry eligible now e = (spawn, e')"
  shows "entry_ok e' \<and> en_generation e' = en_generation e
    \<and> worker_ok now e' (if spawn then Polling else w) \<and> (spawn \<longrightarrow> w = NoWorker)"
proof -
  let ?a = "en_activation e" and ?i = "en_current e"
  have dropped: "entry_ok (e\<lparr>en_confirming := False\<rparr>) \<and> worker_ok now (e\<lparr>en_confirming := False\<rparr>) w"
    using ok w by (auto simp: entry_ok_def worker_ok_def)
  have spawned: "\<not> en_worker e \<Longrightarrow> w = NoWorker" using w live by (auto simp: worker_ok_def)
  have keep: "entry_ok e' \<and> en_generation e' = en_generation e
      \<and> worker_ok now e' (if spawn then Polling else w) \<and> (spawn \<longrightarrow> w = NoWorker)"
    if a: "activation_ok (gr_policy (en_grant e)) a" "\<not> act_in_flight a" "act_armed a"
        "act_current a = act_current ?a"
      and h: "\<And>i. w \<noteq> Holding i"
      and e': "spawn \<longleftrightarrow> \<not> en_worker e"
        "e' = (with_activation a (e\<lparr>en_confirming := False\<rparr>))
          \<lparr>en_automatic := False, en_backoff := now + reconnect_delay (en_ordinal e), en_worker := True\<rparr>" for a
  proof -
    have f: "en_activation e' = a" "en_worker e'" "en_disarmed e' = en_disarmed e" "\<not> en_automatic e'"
      "en_current e' = en_current e" "en_generation e' = en_generation e" "en_subject e' = en_subject e"
      "gr_policy (en_grant e') = gr_policy (en_grant e)" "gr_initial (en_grant e') = gr_initial (en_grant e)"
      unfolding e' by (simp_all add: with_activation_def)
    have "entry_ok e'" using ok a live unfolding entry_ok_def f by (metis f(4))
    moreover have "worker_ok now e' (if spawn then Polling else w)"
      using w live h f(2) e'(1) unfolding worker_ok_def f by (cases w) auto
    ultimately show ?thesis using f(6) spawned e'(1) by blast
  qed
  show ?thesis
  proof (cases eligible)
    case False
    with f dropped revoke_ok [of "e\<lparr>en_confirming := False\<rparr>"] show ?thesis
      by (auto simp: failed_entry_def)
  next
    case True
    show ?thesis
    proof (cases "en_automatic e")
      case auto: True
      then have fl: "act_in_flight ?a" using ok by (simp add: entry_ok_def)
      then have h: "w \<noteq> Holding i" for i
        using w live attempt_facts [of ?a now "en_backoff e" i] unfolding worker_ok_def by metis
      have pol: "act_policy ?a = gr_policy (en_grant e)" using ok activation_ok_policy by (auto simp: entry_ok_def)
      then have af: "attempt_failed ?a ?i = Inr (?a\<lparr>act_in_flight := False\<rparr>)"
        using ok fl by (simp add: attempt_failed_def check_in_flight_def entry_ok_def)
      obtain calls where "act_inv (gr_policy (en_grant e)) calls ?a"
        using ok by (auto simp: entry_ok_def activation_ok_def)
      from failed_inv [OF this af] have "activation_ok (gr_policy (en_grant e)) (?a\<lparr>act_in_flight := False\<rparr>)"
        by (auto simp: activation_ok_def)
      then show ?thesis
        using True auto f af ok live h
        by (intro keep [of "?a\<lparr>act_in_flight := False\<rparr>"])
           (auto simp: failed_entry_def Let_def entry_ok_def with_activation_def)
    next
      case auto: False
      then have fl: "\<not> act_in_flight ?a" using ok by (simp add: entry_ok_def)
      show ?thesis
      proof (cases "begin_episode ?a ?i")
        case (Inl err)
        with True auto f dropped show ?thesis by (auto simp: failed_entry_def)
      next
        case (Inr a)
        then have b: "\<not> act_episode ?a" "a = ?a\<lparr>act_visited := (act_visited ?a)[act_current ?a := True], act_episode := True\<rparr>"
          by (auto simp: begin_episode_def)
        have h: "w \<noteq> Holding i" for i
          using w live b(1) attempt_facts [of ?a now "en_backoff e" i] unfolding worker_ok_def by metis
        obtain calls where "act_inv (gr_policy (en_grant e)) calls ?a"
          using ok by (auto simp: entry_ok_def activation_ok_def)
        from begin_inv [OF this Inr] have "activation_ok (gr_policy (en_grant e)) a"
          by (auto simp: activation_ok_def)
        then show ?thesis
          using True auto f Inr ok live h b fl
          by (intro keep [of a]) (auto simp: failed_entry_def Let_def entry_ok_def with_activation_def)
      qed
    qed
  qed
qed

text \<open>A worker that holds a candidate is admitted, unless the grant is revoked.\<close>

lemma held_admits:
  assumes "activation_ok p a" and n: "act_next a now until = Some (Attempt i)"
  shows "\<exists>a'. admit a i now until = Some (Inr a') \<and> activation_ok p a' \<and> act_in_flight a'
    \<and> act_armed a' = act_armed a \<and> pol_members p ! act_current a' = i"
proof -
  from assms(1) obtain calls where inv: "act_inv p calls a" by (auto simp: activation_ok_def)
  from inv_attempt [OF inv n] obtain k where k: "position (\<lambda>m. m = i) (pol_members p) = Some k" by auto
  note pol = act_inv_policy [OF inv]
  define a' where "a' = a\<lparr>act_current := k, act_visited := (act_visited a)[k := True],
      act_attempts := act_attempts a + 1, act_in_flight := True,
      act_cooldown_until := Some (now + secs (pol_cooldown_secs p))\<rparr>"
  have ad: "admit a i now until = Some (Inr a')"
    using n k pol by (simp add: admit_def a'_def)
  have "pol_members p ! k = i" using position_SomeD [OF k] by simp
  with ad admit_inv [OF inv ad] show ?thesis
    by (auto simp: activation_ok_def a'_def)
qed

definition admitted_entry :: "activation \<Rightarrow> string \<Rightarrow> 'c entry \<Rightarrow> 'c entry" where
  "admitted_entry a i e =
     (with_activation a e)\<lparr>en_automatic := True, en_current := i, en_subject := None,
        en_ordinal := en_ordinal e + 1\<rparr>"

lemma admit_locked_cases:
  assumes "admit_locked J usable view loaded profile (TargetServer i) generation now es = Some (accepted, es')"
    and "es profile = Some e" and "en_generation e = generation" and "\<not> en_disarmed e"
    and "entry_ok e" and "act_next (en_activation e) now (en_backoff e) = Some (Attempt i)"
  shows "(\<not> accepted \<and> es' = es(profile \<mapsto> revoke e))
    \<or> (accepted \<and> (\<exists>a. admit (en_activation e) i now (en_backoff e) = Some (Inr a)
         \<and> es' = es(profile \<mapsto> admitted_entry a i e)))"
proof -
  have "activation_ok (gr_policy (en_grant e)) (en_activation e)" using assms(5) by (simp add: entry_ok_def)
  from held_admits [OF this assms(6)] obtain a where "admit (en_activation e) i now (en_backoff e) = Some (Inr a)"
    by blast
  with assms(1-4) show ?thesis
    by (auto simp: admit_locked_def admitted_entry_def split: if_splits)
qed

lemma started_ok:
  assumes ok: "entry_ok e" and live: "\<not> en_disarmed e" and worker: "en_worker e"
    and n: "act_next (en_activation e) now (en_backoff e) = Some (Attempt i)"
    and a: "admit (en_activation e) i now (en_backoff e) = Some (Inr a)"
    and g: "cf_generation subject = en_generation e"
  shows "entry_ok (bound (TargetServer i) subject (admitted_entry a i e))
    \<and> worker_ok now (bound (TargetServer i) subject (admitted_entry a i e)) Polling
    \<and> en_generation (bound (TargetServer i) subject (admitted_entry a i e)) = en_generation e"
proof -
  have "activation_ok (gr_policy (en_grant e)) (en_activation e)" using ok by (simp add: entry_ok_def)
  from held_admits [OF this n] a have "activation_ok (gr_policy (en_grant e)) a" "act_in_flight a"
    "act_armed a = act_armed (en_activation e)" "pol_members (gr_policy (en_grant e)) ! act_current a = i"
    by auto
  with ok live worker g show ?thesis
    by (auto simp: bound_def admitted_entry_def entry_ok_def worker_ok_def with_activation_def)
qed

lemma polled_ok:
  assumes "worker_round current profile generation now es = Some (action, es')"
    and ok: "\<And>e. es profile = Some e \<Longrightarrow> en_generation e = generation \<Longrightarrow> entry_ok e \<and> worker_ok now e Polling"
  shows "(es' = es \<and> (\<forall>e. es profile = Some e \<and> en_generation e = generation \<and> current \<longrightarrow>
        worker_ok now e (case action of WorkerExit \<Rightarrow> NoWorker | WorkerWait \<Rightarrow> Polling | WorkerAttempt i \<Rightarrow> Holding i)))
    \<or> (action = WorkerExit \<and> (\<exists>e. es profile = Some e \<and> en_generation e = generation
         \<and> entry_ok (e\<lparr>en_worker := False\<rparr>) \<and> worker_ok now (e\<lparr>en_worker := False\<rparr>) NoWorker
         \<and> es' = es(profile \<mapsto> e\<lparr>en_worker := False\<rparr>)))"
proof (cases "es profile")
  case None
  with assms show ?thesis by (auto simp: worker_round_def)
next
  case (Some e)
  show ?thesis
  proof (cases "en_generation e \<noteq> generation \<or> \<not> current")
    case True
    with assms Some show ?thesis by (auto simp: worker_round_def)
  next
    case False
    then have e: "entry_ok e" "worker_ok now e Polling" using ok Some by auto
    let ?a = "en_activation e"
    have idle: "d \<in> {Idle, Exhausted, Disarmed} \<Longrightarrow> act_next ?a now (en_backoff e) = Some d \<Longrightarrow>
        \<not> en_disarmed e \<Longrightarrow> act_episode ?a \<Longrightarrow> \<not> act_in_flight ?a \<and> exhausted ?a" for d
      using e(1) by (auto simp: act_next_def exhausted_def entry_ok_def Let_def split: if_splits option.splits)
    from assms(1) Some False obtain d where d: "act_next ?a now (en_backoff e) = Some d"
      by (auto simp: worker_round_def)
    have upd: "entry_ok (e\<lparr>en_worker := False\<rparr>)" using e(1) by (auto simp: entry_ok_def)
    show ?thesis
      using assms(1) Some False d e(2) idle [OF _ d] upd
      by (cases d) (auto simp: worker_round_def worker_ok_def)
  qed
qed

section \<open>The invariant holds\<close>

lemma system_ok_initial: "system_ok initial_system"
  by (simp add: system_ok_def initial_system_def)

text \<open>Steps that only drop entries or change the clock.\<close>

lemma system_ok_tick: "system_ok s \<Longrightarrow> sy_now s \<le> now \<Longrightarrow> system_ok (s\<lparr>sy_now := now\<rparr>)"
  unfolding system_ok_def using worker_ok_later by simp blast

lemma system_ok_close: "system_ok s \<Longrightarrow> system_ok (s\<lparr>sy_closed := True\<rparr>)"
  by (simp add: system_ok_def)

lemma system_ok_claim:
  assumes "system_ok s" and "next_connect_generation profile s = (generation, s')"
  shows "system_ok s'" and "sy_entries s' profile = None" and "sy_workers s' (profile, generation) = NoWorker"
    and "sy_generations s' profile = Some generation" and "sy_last s' = generation" and "sy_now s' = sy_now s"
proof -
  have s': "generation = sy_last s + 1"
    "s' = s\<lparr>sy_entries := (sy_entries s)(profile := None), sy_last := sy_last s + 1,
            sy_generations := (sy_generations s)(profile \<mapsto> sy_last s + 1),
            sy_facts := facts_reset profile (sy_facts s)\<rparr>"
    using assms(2) by (auto simp: next_connect_generation_def remove_entry_def Let_def)
  show "system_ok s'" using assms(1) unfolding system_ok_def s' by (auto simp: le_SucI)
  have "sy_workers s (profile, sy_last s + 1) = NoWorker"
    using assms(1) unfolding system_ok_def by (metis add_le_same_cancel1 not_one_le_zero)
  then show "sy_workers s' (profile, generation) = NoWorker" by (simp add: s')
qed (use assms(2) in \<open>auto simp: next_connect_generation_def remove_entry_def Let_def\<close>)

lemma activation_new_shape:
  "activation_new p i = Inr a \<Longrightarrow> act_armed a \<and> \<not> act_in_flight a \<and> \<not> act_episode a
    \<and> i = pol_members p ! act_current a"
  by (auto simp: activation_new_def and_then_Inr_iff or_bail_Inr_iff dest!: position_SomeD)

lemma grant_new_ok:
  assumes "grant_new view p target = Inr (Some g)"
  shows "activation_ok (gr_policy g) (gr_activation g)
    \<and> act_armed (gr_activation g) \<and> \<not> act_in_flight (gr_activation g) \<and> \<not> act_episode (gr_activation g)
    \<and> gr_initial g = pol_members (gr_policy g) ! act_current (gr_activation g)
    \<and> target_server_id target = Some (gr_initial g) \<and> pr_failover p = Some (gr_policy g)"
proof -
  from assms have n: "activation_new (gr_policy g) (gr_initial g) = Inr (gr_activation g)"
    and t: "target_server_id target = Some (gr_initial g)" "pr_failover p = Some (gr_policy g)"
    by (auto simp: grant_new_def and_then_Inr_iff or_bail_Inr_iff split: option.splits if_splits)
  from start_inv [OF n] have "activation_ok (gr_policy g) (gr_activation g)" by (auto simp: activation_ok_def)
  with activation_new_shape [OF n] t show ?thesis by blast
qed

lemma system_ok_install:
  assumes "system_ok s" and "sy_entries s profile = None" and "sy_workers s (profile, generation) = NoWorker"
    and "sy_generations s profile = Some generation" and g: "grant_new view p target = Inr (Some g)"
  shows "system_ok (map_entries (install profile generation g now) s)"
proof -
  let ?e = "\<lparr>en_generation = generation, en_grant = g, en_subject = None, en_current = gr_initial g,
        en_automatic = False, en_worker = False, en_ordinal = 0, en_backoff = now,
        en_disarmed = False, en_confirming = False\<rparr>"
  have "entry_ok ?e \<and> worker_ok (sy_now s) ?e NoWorker"
    using grant_new_ok [OF g] by (auto simp: entry_ok_def worker_ok_def)
  with assms(1,3,4) show ?thesis
    unfolding system_ok_def map_entries_def install_def by auto
qed

text \<open>Steps that change entries one by one and leave the workers alone.\<close>

lemma system_ok_entries:
  assumes "system_ok s"
    and "\<And>profile e'. es profile = Some e' \<Longrightarrow>
      \<exists>e. sy_entries s profile = Some e \<and> en_generation e' = en_generation e
        \<and> (entry_ok e \<longrightarrow> entry_ok e')
        \<and> (\<forall>w. entry_ok e \<and> worker_ok (sy_now s) e w \<longrightarrow> worker_ok (sy_now s) e' w)"
  shows "system_ok (s\<lparr>sy_entries := es\<rparr>)"
  using assms unfolding system_ok_def by simp (metis (no_types, lifting))

lemma system_ok_at_entry:
  assumes "system_ok s"
    and "\<And>e. sy_entries s profile = Some e \<Longrightarrow> entry_ok e \<Longrightarrow>
      entry_ok (f e) \<and> en_generation (f e) = en_generation e
      \<and> (\<forall>w. worker_ok (sy_now s) e w \<longrightarrow> worker_ok (sy_now s) (f e) w)"
  shows "system_ok (map_entries (at_entry profile f) s)"
proof -
  have ok: "entry_ok e" if "sy_entries s p = Some e" for p e
    using assms(1) that unfolding system_ok_def by blast
  show ?thesis
    unfolding map_entries_def
    by (rule system_ok_entries [OF assms(1)])
       (use assms(2) ok in \<open>auto simp: at_entry_def split: if_splits\<close>)
qed

lemma revoke_keeps:
  "entry_ok e \<Longrightarrow> entry_ok (revoke e) \<and> en_generation (revoke e) = en_generation e
    \<and> (\<forall>w. worker_ok now e w \<longrightarrow> worker_ok now (revoke e) w)"
  using revoke_ok by blast

lemma system_ok_disarm: "system_ok s \<Longrightarrow> system_ok (map_entries (disarm_entry profile) s)"
  unfolding disarm_entry_def by (erule system_ok_at_entry) (erule revoke_keeps)

lemma system_ok_saved: "system_ok s \<Longrightarrow> system_ok (map_entries (reconcile_profile view profile p) s)"
  unfolding reconcile_profile_def by (erule system_ok_at_entry) (simp add: revoke_keeps)

lemma system_ok_catalog: "system_ok s \<Longrightarrow> system_ok (map_entries (reconcile_catalog view) s)"
  unfolding map_entries_def
  by (rule system_ok_entries) (auto simp: reconcile_catalog_def revoke_ok split: if_splits)

lemma bind_entry_bound: "bind_entry profile target subject = at_entry profile (bound target subject)"
  unfolding bind_entry_def by (rule arg_cong [where f = "at_entry profile"]) (simp add: bound_def fun_eq_iff)

lemma success_succeeded: "success profile target subject = at_entry profile (succeeded_entry target subject)"
  unfolding success_def by (rule arg_cong [where f = "at_entry profile"]) (simp add: succeeded_entry_def fun_eq_iff)

lemma rebind_death_died: "rebind_death profile target subject = at_entry profile (died_entry target subject)"
  unfolding rebind_death_def by (rule arg_cong [where f = "at_entry profile"]) (simp add: died_entry_def fun_eq_iff)

lemma system_okD:
  assumes "system_ok s"
  shows "sy_workers s (profile, generation) \<noteq> NoWorker \<Longrightarrow> generation \<le> sy_last s"
    and "sy_entries s profile = Some e \<Longrightarrow> entry_ok e"
    and "sy_entries s profile = Some e \<Longrightarrow> sy_generations s profile = Some (en_generation e)"
    and "sy_entries s profile = Some e \<Longrightarrow> \<not> sy_closed s \<Longrightarrow>
      worker_ok (sy_now s) e (sy_workers s (profile, en_generation e))"
  using assms unfolding system_ok_def by blast+

lemma system_ok_step:
  assumes "system_step J usable s s'" and "system_ok s"
  shows "system_ok s'"
  using assms(1)
proof cases
  case (tick now)
  with assms(2) show ?thesis by (simp add: system_ok_tick)
next
  case close
  with assms(2) show ?thesis by (simp add: system_ok_close)
next
  case (claim profile generation)
  from system_ok_claim(1) [OF assms(2) this] show ?thesis .
next
  case (claim_grant profile generation s1 view p target g)
  note c = system_ok_claim [OF assms(2) claim_grant(2)]
  show ?thesis
    unfolding claim_grant(1) using c claim_grant(3) by (intro system_ok_install)
next
  case (invalidate profile)
  with assms(2) show ?thesis by (auto simp: invalidate_generation_def remove_entry_def system_ok_def)
next
  case invalidate_all
  with assms(2) show ?thesis by (auto simp: invalidate_all_generations_def clear_entries_def system_ok_def)
next
  case (disarm profile)
  with assms(2) show ?thesis by (simp add: system_ok_disarm)
next
  case (saved view profile p)
  with assms(2) show ?thesis by (simp add: system_ok_saved)
next
  case (catalog view)
  with assms(2) show ?thesis by (simp add: system_ok_catalog)
next
  case (first_start profile e target started subject)
  have "system_ok (map_entries (bind_entry profile target subject) s)"
    unfolding bind_entry_bound
  proof (rule system_ok_at_entry [OF assms(2)])
    fix e' assume "sy_entries s profile = Some e'" and ok: "entry_ok e'"
    with first_start have "target_server_id target = Some (en_current e')" by (auto simp: entry_ok_def)
    from bound_ok [OF ok this, where subject = subject] show "entry_ok (bound target subject e')
      \<and> en_generation (bound target subject e') = en_generation e'
      \<and> (\<forall>w. worker_ok (sy_now s) e' w \<longrightarrow> worker_ok (sy_now s) (bound target subject e') w)" by blast
  qed
  from this system_ok_disarm [OF this, of profile] show ?thesis
    unfolding first_start(1) by (cases started) (simp_all add: map_entries_def)
next
  case (succeeded profile target subject)
  have "system_ok (map_entries (success profile target subject) s)"
    unfolding success_succeeded by (rule system_ok_at_entry [OF assms(2)]) (use succeeded_ok in blast)
  with succeeded show ?thesis by simp
next
  case (died profile target subject)
  have "system_ok (map_entries (rebind_death profile target subject) s)"
    unfolding rebind_death_died by (rule system_ok_at_entry [OF assms(2)]) (use died_ok in blast)
  with died show ?thesis by simp
next
  case (failed profile subject target eligible core_death handled spawn es)
  from failure_locked_cases [OF failed(2)] show ?thesis
  proof
    assume "es = sy_entries s \<and> \<not> spawn"
    with assms(2) failed(1) show ?thesis by simp
  next
    assume "\<exists>e e'. sy_entries s profile = Some e \<and> en_generation e = cf_generation subject \<and> \<not> en_disarmed e
         \<and> generation_is_current s profile (cf_generation subject)
         \<and> failed_entry eligible (sy_now s) e = (spawn, e') \<and> es = (sy_entries s)(profile \<mapsto> e')"
    then obtain e e' where e: "sy_entries s profile = Some e" "en_generation e = cf_generation subject"
      "\<not> en_disarmed e" "\<not> sy_closed s" "failed_entry eligible (sy_now s) e = (spawn, e')"
      "es = (sy_entries s)(profile \<mapsto> e')" by (auto simp: generation_is_current_def)
    let ?w = "sy_workers s (profile, cf_generation subject)"
    have "entry_ok e" "worker_ok (sy_now s) e ?w"
      using system_okD(2,4) [OF assms(2) e(1)] e(2,4) by auto
    from failed_ok [OF this e(3,5)] have f: "entry_ok e'" "en_generation e' = en_generation e"
      "worker_ok (sy_now s) e' (if spawn then Polling else ?w)" by auto
    from system_ok_entry [OF assms(2) e(1) f(2,1), of "if spawn then Polling else ?w"] f(3)
    show ?thesis unfolding failed(1) e(6) e(2) by (cases spawn) auto
  qed
next
  case (polled profile generation action es)
  let ?w = "case action of WorkerExit \<Rightarrow> NoWorker | WorkerWait \<Rightarrow> Polling | WorkerAttempt i \<Rightarrow> Holding i"
  have le: "generation \<le> sy_last s" using system_okD(1) [OF assms(2), of profile generation] polled(2) by simp
  show ?thesis
  proof (cases "sy_closed s")
    case True
    then have "action = WorkerExit \<and> es = sy_entries s"
      using polled(3) by (auto simp: worker_round_def generation_is_current_def split: option.splits)
    with assms(2) True polled(1) show ?thesis by (simp add: system_ok_def)
  next
    case False
    have ok: "entry_ok e \<and> worker_ok (sy_now s) e Polling"
      if "sy_entries s profile = Some e" "en_generation e = generation" for e
      using system_okD(2,4) [OF assms(2) that(1)] polled(2) that(2) False by auto
    have cur: "generation_is_current s profile generation"
      if "sy_entries s profile = Some e" "en_generation e = generation" for e
      using system_okD(3) [OF assms(2) that(1)] that(2) False by (simp add: generation_is_current_def)
    from polled_ok [OF polled(3) ok] show ?thesis
    proof
      assume a: "es = sy_entries s \<and> (\<forall>e. sy_entries s profile = Some e \<and> en_generation e = generation
        \<and> generation_is_current s profile generation \<longrightarrow> worker_ok (sy_now s) e ?w)"
      then have "worker_ok (sy_now s) e ?w" if "sy_entries s profile = Some e" "en_generation e = generation" for e
        using that cur by blast
      with assms(2) le a show ?thesis unfolding polled(1) system_ok_def by (auto split: if_splits)
    next
      assume "action = WorkerExit \<and> (\<exists>e. sy_entries s profile = Some e \<and> en_generation e = generation
         \<and> entry_ok (e\<lparr>en_worker := False\<rparr>) \<and> worker_ok (sy_now s) (e\<lparr>en_worker := False\<rparr>) NoWorker
         \<and> es = (sy_entries s)(profile \<mapsto> e\<lparr>en_worker := False\<rparr>))"
      then obtain e where e: "action = WorkerExit" "sy_entries s profile = Some e" "en_generation e = generation"
        "entry_ok (e\<lparr>en_worker := False\<rparr>)" "worker_ok (sy_now s) (e\<lparr>en_worker := False\<rparr>) NoWorker"
        "es = (sy_entries s)(profile \<mapsto> e\<lparr>en_worker := False\<rparr>)" by blast
      from system_ok_entry [OF assms(2) e(2) _ e(4) e(5)] e(3) show ?thesis
        unfolding polled(1) e(1,6) by simp
    qed
  qed
next
  case (started profile generation i subject view loaded helper_ready began w es)
  let ?g = generation
  have le: "?g \<le> sy_last s" using system_okD(1) [OF assms(2), of profile generation] started(2) by simp
  have settle: ?thesis if same: "es = sy_entries s" "w = NoWorker"
    and gone: "\<And>e. \<not> sy_closed s \<Longrightarrow> sy_entries s profile = Some e \<Longrightarrow> en_generation e = ?g \<Longrightarrow>
      worker_ok (sy_now s) e NoWorker"
    using assms(2) gone unfolding started(1) same system_ok_def by (auto split: if_splits)
  have gone: "worker_ok (sy_now s) e NoWorker" if "entry_ok e" "en_disarmed e" for e
    using that by (simp add: worker_ok_def)
  show ?thesis
  proof (cases "generation_is_current s profile ?g")
    case False
    have "en_generation e \<noteq> ?g" if "\<not> sy_closed s" "sy_entries s profile = Some e" for e
      using system_okD(3) [OF assms(2) that(2)] that(1) False by (auto simp: generation_is_current_def)
    with False started(4) show ?thesis by (intro settle) (auto simp: worker_start_def)
  next
    case cur: True
    then have up: "\<not> sy_closed s" by (simp add: generation_is_current_def)
    show ?thesis
    proof (cases "sy_entries s profile")
      case None
      with cur started(4) show ?thesis
        by (intro settle) (auto simp: worker_start_def admit_locked_def disarm_entry_def at_entry_def fun_upd_idem
            split: if_splits)
    next
      case (Some e)
      then have ge: "en_generation e = ?g" and ok: "entry_ok e" and wk: "worker_ok (sy_now s) e (Holding i)"
        using system_okD(2-4) [OF assms(2) Some] cur up started(2) by (auto simp: generation_is_current_def)
      have revoked: ?thesis if "es = (sy_entries s)(profile \<mapsto> revoke e)" "w = NoWorker"
        using system_ok_entry [OF assms(2) Some, of "revoke e" NoWorker] revoke_ok [OF ok]
          gone [OF revoke_ok(1) [OF ok] revoke_simps(2)] that ge unfolding started(1) by simp
      show ?thesis
      proof (cases "helper_ready \<and> \<not> en_disarmed e")
        case False
        then show ?thesis
        proof (cases helper_ready)
          case True
          with False have "en_disarmed e" by simp
          with True cur Some ge started(4) ok gone show ?thesis
            by (intro settle) (auto simp: worker_start_def admit_locked_def)
        next
          case False
          with cur Some started(4) show ?thesis
            by (intro revoked) (auto simp: worker_start_def disarm_entry_def at_entry_def)
        qed
      next
        case live: True
        then have n: "act_next (en_activation e) (sy_now s) (en_backoff e) = Some (Attempt i)" and ew: "en_worker e"
          using wk by (auto simp: worker_ok_def)
        from cur live started(4) obtain accepted es1 where
          adm: "admit_locked J usable view loaded profile (TargetServer i) generation (sy_now s) (sy_entries s)
            = Some (accepted, es1)"
          and res: "(w, es) = (if \<not> accepted then (NoWorker, es1)
            else (Polling, if began then bind_entry profile (TargetServer i) subject es1
                  else disarm_entry profile (bind_entry profile (TargetServer i) subject es1)))"
          by (auto simp: worker_start_def Let_def split: if_splits)
        from admit_locked_cases [OF adm Some ge _ ok n] live
        consider (no) "\<not> accepted" "es1 = (sy_entries s)(profile \<mapsto> revoke e)"
          | (yes) a where accepted "admit (en_activation e) i (sy_now s) (en_backoff e) = Some (Inr a)"
            "es1 = (sy_entries s)(profile \<mapsto> admitted_entry a i e)" by blast
        then show ?thesis
        proof cases
          case no
          with res show ?thesis by (intro revoked) auto
        next
          case acc: (yes a)
          define b where "b = bound (TargetServer i) subject (admitted_entry a i e)"
          have "cf_generation subject = en_generation e" using started(3) ge by simp
          from started_ok [OF ok _ ew n acc(2) this] live have b: "entry_ok b" "worker_ok (sy_now s) b Polling"
            "en_generation b = en_generation e" by (auto simp: b_def)
          have es: "w = Polling" "es = (sy_entries s)(profile \<mapsto> if began then b else revoke b)"
            using res acc by (auto simp: bind_entry_bound disarm_entry_def at_entry_def b_def)
          from system_ok_entry [OF assms(2) Some, of "if began then b else revoke b" Polling] b revoke_ok(1,2) [OF b(1)]
          show ?thesis unfolding started(1) es ge by (cases began) (auto simp: ge)
        qed
      qed
    qed
  qed
qed

lemma reachable_ok: "reachable_system J usable s \<Longrightarrow> system_ok s"
  by (induction rule: reachable_system.induct) (auto intro: system_ok_initial system_ok_step)

section \<open>A revoked grant stays revoked\<close>

definition revoked_at :: "string \<Rightarrow> nat \<Rightarrow> 'c system \<Rightarrow> bool" where
  "revoked_at profile generation s =
     (generation \<le> sy_last s
      \<and> (\<forall>e. sy_entries s profile = Some e \<and> en_generation e = generation \<longrightarrow> en_disarmed e))"

lemma revoked_at_entry:
  assumes "revoked_at profile generation s"
    and "\<And>e. en_generation (f e) = en_generation e \<and> (en_disarmed e \<longrightarrow> en_disarmed (f e))"
  shows "revoked_at profile generation (map_entries (at_entry p f) s)"
  using assms by (auto simp: revoked_at_def map_entries_def at_entry_def)

lemma kept_flag:
  "en_generation (bound target subject e) = en_generation e"
  "en_disarmed (bound target subject e) = en_disarmed e"
  "en_generation (succeeded_entry target subject e) = en_generation e"
  "en_disarmed (succeeded_entry target subject e) = en_disarmed e"
  "en_generation (died_entry target subject e) = en_generation e"
  "en_disarmed (died_entry target subject e) = en_disarmed e"
  by (simp_all add: bound_def succeeded_entry_def died_entry_def Let_def)

lemma revoked_at_disarm: "revoked_at profile generation s \<Longrightarrow> revoked_at profile generation (map_entries (disarm_entry p) s)"
  unfolding disarm_entry_def by (erule revoked_at_entry) simp

lemma revoked_at_claim:
  "revoked_at profile generation s \<Longrightarrow> next_connect_generation p s = (g, s') \<Longrightarrow>
   revoked_at profile generation s' \<and> sy_last s' = g \<and> generation < g"
  by (auto simp: revoked_at_def next_connect_generation_def remove_entry_def Let_def split: if_splits)

text \<open>What an admission or a round of the worker can make of the entries.\<close>

lemma admit_locked_entries:
  assumes "admit_locked J usable view loaded p target g now es = Some (accepted, es')"
  shows "es' = es \<or> (\<exists>e. es p = Some e \<and> (es' = es(p \<mapsto> revoke e)
    \<or> (\<exists>a i. es' = es(p \<mapsto> admitted_entry a i e) \<and> \<not> en_disarmed e)))"
proof (cases "es p")
  case (Some e)
  show ?thesis
  proof (cases "en_generation e \<noteq> g \<or> en_disarmed e \<or> \<not> ((case loaded of None \<Rightarrow> False
      | Some pr \<Rightarrow> is_ok (profile_validate J usable ''activation'' pr) \<and> grant_matches view (en_grant e) pr)
      \<and> catalog_is_current view (en_grant e)) \<or> target_server_id target = None")
    case True
    with assms Some show ?thesis by (auto simp: admit_locked_def split: if_splits)
  next
    case False
    then obtain i where i: "target_server_id target = Some i" by auto
    with assms Some False obtain r where r: "admit (en_activation e) i now (en_backoff e) = Some r"
      by (auto simp: admit_locked_def)
    show ?thesis
    proof (cases r)
      case (Inl x)
      with assms Some False i r show ?thesis by (auto simp: admit_locked_def)
    next
      case (Inr a)
      with assms Some False i r have "es' = es(p \<mapsto> admitted_entry a i e) \<and> \<not> en_disarmed e"
        by (auto simp: admit_locked_def admitted_entry_def)
      with Some show ?thesis by blast
    qed
  qed
qed (use assms in \<open>simp add: admit_locked_def\<close>)

lemma worker_round_entries:
  assumes "worker_round current p g now es = Some (action, es')"
  shows "es' = es \<or> (\<exists>e. es p = Some e \<and> es' = es(p \<mapsto> e\<lparr>en_worker := False\<rparr>))"
proof (cases "es p")
  case (Some e)
  show ?thesis
  proof (cases "en_generation e \<noteq> g \<or> \<not> current")
    case False
    with assms Some obtain d where d: "act_next (en_activation e) now (en_backoff e) = Some d"
      by (auto simp: worker_round_def)
    with assms Some False show ?thesis by (cases d) (auto simp: worker_round_def)
  qed (use assms Some in \<open>auto simp: worker_round_def\<close>)
qed (use assms in \<open>simp add: worker_round_def\<close>)

lemma admit_locked_flag:
  assumes "admit_locked J usable view loaded p target g now es = Some (accepted, es')"
    and "es' profile = Some e'"
  shows "\<exists>e. es profile = Some e \<and> en_generation e' = en_generation e \<and> (en_disarmed e \<longrightarrow> en_disarmed e')"
  using admit_locked_entries [OF assms(1)] assms(2)
  by (auto simp: admitted_entry_def split: if_splits)

lemma revoked_at_step:
  assumes "system_step J usable s s'" and r: "revoked_at profile generation s"
  shows "revoked_at profile generation s'"
  using assms(1)
proof cases
  case (claim p g)
  from revoked_at_claim [OF r this] show ?thesis by simp
next
  case (claim_grant p g s1 view pr target gr)
  from revoked_at_claim [OF r claim_grant(2)] show ?thesis
    by (auto simp: claim_grant(1) revoked_at_def map_entries_def install_def)
next
  case (disarm p)
  with r show ?thesis by (simp add: revoked_at_disarm)
next
  case (saved view p pr)
  with r show ?thesis unfolding reconcile_profile_def saved by (intro revoked_at_entry) auto
next
  case (catalog view)
  with r show ?thesis by (auto simp: revoked_at_def map_entries_def reconcile_catalog_def split: if_splits)
next
  case (first_start p e target began subject)
  have "revoked_at profile generation (map_entries (bind_entry p target subject) s)"
    unfolding bind_entry_bound using r by (rule revoked_at_entry) (simp add: kept_flag)
  from this revoked_at_disarm [OF this, of p] show ?thesis
    unfolding first_start(1) by (cases began) (simp_all add: map_entries_def)
next
  case (succeeded p target subject)
  with r show ?thesis unfolding success_succeeded by (auto intro!: revoked_at_entry simp: kept_flag)
next
  case (died p target subject)
  with r show ?thesis unfolding rebind_death_died by (auto intro!: revoked_at_entry simp: kept_flag)
next
  case (failed p subject target eligible core_death handled spawn es)
  have "en_generation (snd (failed_entry eligible (sy_now s) e)) = en_generation e" for e :: "'b entry"
    by (auto simp: failed_entry_def Let_def split: option.splits sum.splits if_splits)
  with failure_locked_cases [OF failed(2)] r show ?thesis
    unfolding failed(1) revoked_at_def by (auto split: if_splits) (metis snd_conv)+
next
  case (polled p g action es)
  have "\<exists>e. sy_entries s profile = Some e \<and> en_generation e' = en_generation e \<and> en_disarmed e' = en_disarmed e"
    if "es profile = Some e'" for e'
    using worker_round_entries [OF polled(3)] that by (auto split: if_splits)
  with r show ?thesis unfolding polled(1) revoked_at_def by fastforce
next
  case (started p g i subject view loaded helper_ready began w es)
  have "\<exists>e. sy_entries s profile = Some e \<and> en_generation e' = en_generation e \<and> (en_disarmed e \<longrightarrow> en_disarmed e')"
    if e': "es profile = Some e'" for e'
  proof -
    from started(4) consider (keep) "es = sy_entries s" | (helper) "es = disarm_entry p (sy_entries s)"
      | (adm) accepted es1 where "admit_locked J usable view loaded p (TargetServer i) g (sy_now s) (sy_entries s) = Some (accepted, es1)"
        "es \<in> {es1, bind_entry p (TargetServer i) subject es1, disarm_entry p (bind_entry p (TargetServer i) subject es1)}"
      by (auto simp: worker_start_def Let_def split: if_splits)
    then show ?thesis
    proof cases
      case (adm accepted es1)
      from adm(2) e' obtain e1 where "es1 profile = Some e1" "en_generation e' = en_generation e1"
        "en_disarmed e1 \<longrightarrow> en_disarmed e'"
        by (auto simp: bind_entry_bound disarm_entry_def at_entry_def kept_flag split: if_splits)
      with admit_locked_flag [OF adm(1)] show ?thesis by metis
    qed (use e' in \<open>auto simp: disarm_entry_def at_entry_def split: if_splits\<close>)
  qed
  with r show ?thesis unfolding started(1) revoked_at_def by fastforce
qed (use r in \<open>auto simp: revoked_at_def invalidate_generation_def remove_entry_def
      invalidate_all_generations_def clear_entries_def\<close>)

section \<open>Properties\<close>

text \<open>C26: no tunnel is stranded and none is recovered twice. In every reachable state a grant that has
not been revoked belongs to the current connection of its profile, and whenever its recovery still
has something to do (to wait, to try a candidate, or to learn the result of one) exactly its own
worker is running; a failure starts a worker only where none is running; and no reader or worker
ever meets a panic.\<close>

theorem recovery_never_stranded:
  assumes "reachable_system J usable s" and "sy_entries s profile = Some e"
    and "\<not> en_disarmed e" and "\<not> sy_closed s"
  shows "generation_is_current s profile (en_generation e)
    \<and> (\<exists>d. act_next (en_activation e) (sy_now s) (en_backoff e) = Some d
        \<and> (d \<notin> {Idle, Exhausted, Disarmed} \<longrightarrow> sy_workers s (profile, en_generation e) \<noteq> NoWorker))
    \<and> act_progress (sy_entries s) profile generation (sy_now s) \<noteq> None
    \<and> act_retry (sy_entries s) profile generation (sy_now s) \<noteq> None
    \<and> (\<forall>subject target eligible core_death handled es.
          cf_generation subject = en_generation e \<longrightarrow>
          failure_locked True profile target subject eligible core_death (sy_now s) (sy_entries s) = (handled, True, es) \<longrightarrow>
          sy_workers s (profile, en_generation e) = NoWorker)"
proof -
  have ok: "system_ok s" using assms(1) by (rule reachable_ok)
  note d = system_okD [OF ok]
  have e: "entry_ok e" and w: "worker_ok (sy_now s) e (sy_workers s (profile, en_generation e))"
    using d(2,4) assms by blast+
  obtain calls where inv: "act_inv (gr_policy (en_grant e)) calls (en_activation e)"
    using e by (auto simp: entry_ok_def activation_ok_def)
  from inv_next_total [OF inv] obtain dec where n: "act_next (en_activation e) (sy_now s) (en_backoff e) = Some dec"
    by blast
  have "sy_workers s (profile, en_generation e) \<noteq> NoWorker" if "dec \<notin> {Idle, Exhausted, Disarmed}"
  proof -
    have "act_episode (en_activation e) \<or> act_in_flight (en_activation e)" "\<not> exhausted (en_activation e) \<or> act_in_flight (en_activation e)"
      using n that by (auto simp: act_next_def exhausted_def Let_def split: if_splits)
    moreover have "act_in_flight (en_activation e) \<longrightarrow> act_episode (en_activation e)"
      using inv by (simp add: act_inv_def Let_def)
    ultimately have "en_worker e" using w assms(3) unfolding worker_ok_def by blast
    then show ?thesis using w assms(3) unfolding worker_ok_def by blast
  qed
  moreover have "generation_is_current s profile (en_generation e)"
    using d(3) [OF assms(2)] assms(4) by (simp add: generation_is_current_def)
  moreover have "sy_workers s (profile, en_generation e) = NoWorker"
    if "cf_generation subject = en_generation e"
      "failure_locked True profile target subject eligible core_death (sy_now s) (sy_entries s) = (handled, True, es)"
    for subject :: "'b confirmation" and target eligible core_death handled es
    using failure_locked_cases [OF that(2)] failed_ok [OF e w assms(3)] assms(2) by auto
  ultimately show ?thesis
    using n assms(2)
    by (auto simp: act_progress_def act_retry_def of_generation_def split_beta split: option.splits)
qed

text \<open>C28: a revoked grant never starts anything again. Once a grant has been disarmed (by the user, by
an edit of the profile or the catalog, by a local failure), then after any further steps the same
connection's grant is still disarmed, its worker gets no candidate and every admission for it is
refused.\<close>

theorem revocation_is_final:
  assumes "reachable_system J usable s" and "sy_entries s profile = Some e" and "en_disarmed e"
    and "(system_step J usable)\<^sup>*\<^sup>* s s'"
    and "sy_entries s' profile = Some e'" and "en_generation e' = en_generation e"
  shows "en_disarmed e'
    \<and> act_next (en_activation e') now (en_backoff e') = Some Disarmed
    \<and> admit_locked J usable view loaded profile target (en_generation e) now (sy_entries s') = Some (False, sy_entries s')"
proof -
  have ok: "system_ok s" using assms(1) by (rule reachable_ok)
  have "en_generation e \<le> sy_last s" using ok assms(2) unfolding system_ok_def by blast
  then have "revoked_at profile (en_generation e) s"
    using assms(2,3) by (simp add: revoked_at_def)
  with assms(4) have "revoked_at profile (en_generation e) s' \<and> system_ok s'"
    by (induction rule: rtranclp_induct) (use ok in \<open>auto intro: revoked_at_step system_ok_step\<close>)
  then have "en_disarmed e'" "entry_ok e'" using assms(5,6) system_okD(2) by (auto simp: revoked_at_def)
  then show ?thesis
    using assms(5,6) by (auto simp: admit_locked_def act_next_def entry_ok_def)
qed


section \<open>Witnesses\<close>

text \<open>A run: a grant for three servers is installed and started, and its first server fails.\<close>

definition no_json :: "unit json" where
  "no_json = \<lparr>js_parse = (\<lambda>_. None), js_object = (\<lambda>_. None), js_array = (\<lambda>_. None), js_str = (\<lambda>_. None)\<rparr>"

definition sample_view :: "unit engine_view" where
  "sample_view =
     \<lparr>ev_servers = map (\<lambda>i. sample_server i (Ipv4 203 0 113 7)) [''1'', ''2'', ''3''], ev_on_core_exit = Hold\<rparr>"

definition granted_profile :: profile where
  "granted_profile =
     profile_default\<lparr>pr_select := \<lparr>ps_server = ''1'', ps_pool = None\<rparr>, pr_failover := Some sample_policy\<rparr>"

definition sample_grant :: grant where
  "sample_grant =
     \<lparr>gr_initial = ''1'', gr_select = \<lparr>ps_server = ''1'', ps_pool = None\<rparr>, gr_policy = sample_policy,
      gr_activation = sample_start, gr_envelope = None\<rparr>"

definition sample_subject :: "unit confirmation" where
  "sample_subject = \<lparr>cf_generation = 1, cf_core = None, cf_spawn_seq = 1, cf_context = None, cf_inbound = None\<rparr>"

definition sample_entry :: "unit entry" where
  "sample_entry =
     \<lparr>en_generation = 1, en_grant = sample_grant, en_subject = None, en_current = ''1'',
      en_automatic = False, en_worker = False, en_ordinal = 0, en_backoff = 0,
      en_disarmed = False, en_confirming = False\<rparr>"

definition sample_system :: "unit entry \<Rightarrow> worker \<Rightarrow> nat \<Rightarrow> unit system" where
  "sample_system e w now =
     \<lparr>sy_entries = [''work'' \<mapsto> e], sy_generations = [''work'' \<mapsto> 1], sy_last = 1, sy_now = now,
      sy_closed = False, sy_facts = facts_new, sy_workers = (\<lambda>_. NoWorker)((''work'', 1) := w)\<rparr>"

definition failed_sample :: "unit entry" where
  "failed_sample = sample_entry\<lparr>en_subject := Some sample_subject, en_worker := True, en_backoff := secs 1,
     en_grant := sample_grant\<lparr>gr_activation := sample_failed\<rparr>\<rparr>"

lemma sample_policy_valid: "policy_validate sample_policy = Inr ()" "pol_enabled sample_policy"
  using sample_start_new by (auto simp: activation_new_def and_then_Inr_iff)

lemma sample_catalog_valid: "policy_validate_candidates sample_policy (ev_servers sample_view) = Inr ()"
  by (simp add: policy_validate_candidates_def sample_policy_valid)
     (simp add: sample_policy_def sample_view_def Envelope.sample_server_def)

lemma sample_grant_new: "grant_new sample_view granted_profile (TargetServer ''1'') = Inr (Some sample_grant)"
  by (simp add: grant_new_def granted_profile_def profile_default_def sample_policy_valid sample_catalog_valid
      lift_err_def sample_start_new sample_grant_def)

lemma sample_installed: "reachable_system no_json (\<lambda>_. True) (sample_system sample_entry NoWorker 0)"
proof -
  let ?s = "snd (next_connect_generation ''work'' initial_system)"
  have "next_connect_generation ''work'' initial_system = (1, ?s)"
    by (simp add: next_connect_generation_def Let_def initial_system_def)
  note claimed = system_step.claim_grant [OF this sample_grant_new, where J = no_json and usable = "\<lambda>_. True"]
  have "system_step no_json (\<lambda>_. True) initial_system (sample_system sample_entry NoWorker 0)"
    using claimed
    by (simp add: next_connect_generation_def Let_def initial_system_def map_entries_def install_def
        remove_entry_def sample_system_def sample_entry_def sample_grant_def fun_upd_idem
        facts_reset_def facts_new_def)
  with reachable_system.initial show ?thesis by (rule reachable_system.step)
qed

lemma sample_bound:
  "reachable_system no_json (\<lambda>_. True)
     (sample_system (sample_entry\<lparr>en_subject := Some sample_subject, en_confirming := True\<rparr>) NoWorker 0)"
proof -
  have "system_step no_json (\<lambda>_. True) (sample_system sample_entry NoWorker 0)
    (map_entries ((if True then id else disarm_entry ''work'') \<circ> bind_entry ''work'' (TargetServer ''1'') sample_subject)
      (sample_system sample_entry NoWorker 0))"
    by (rule system_step.first_start [where e = sample_entry])
       (simp_all add: sample_system_def sample_entry_def sample_grant_def)
  from reachable_system.step [OF sample_installed this] show ?thesis
    by (simp add: map_entries_def bind_entry_def at_entry_def sample_system_def sample_entry_def sample_subject_def)
qed

lemma sample_failed_reachable: "reachable_system no_json (\<lambda>_. True) (sample_system failed_sample Polling 0)"
proof -
  let ?e = "sample_entry\<lparr>en_subject := Some sample_subject, en_confirming := True\<rparr>"
  let ?s = "sample_system ?e NoWorker 0"
  have b: "begin_episode sample_start ''1'' = Inr sample_failed"
    by (simp add: begin_episode_def sample_start_def sample_failed_def sample_policy_def)
  have "failure_locked (generation_is_current ?s ''work'' (cf_generation sample_subject)) ''work'' (TargetServer ''1'')
      sample_subject True False (sy_now ?s) (sy_entries ?s) = (True, True, [''work'' \<mapsto> failed_sample])"
    by (simp add: failure_locked_def generation_is_current_def sample_system_def sample_entry_def
        sample_subject_def entry_matches_def sample_grant_def b with_activation_def failed_sample_def
        reconnect_delay_def Let_def)
  from reachable_system.step [OF sample_bound system_step.failed [OF this]] show ?thesis
    by (simp add: sample_system_def sample_subject_def)
qed

theorem recovery_never_stranded_witness:
  "sy_workers (sample_system failed_sample Polling 0) (''work'', 1) \<noteq> NoWorker
   \<and> act_next (en_activation failed_sample) 0 (en_backoff failed_sample) \<notin> {Some Idle, Some Exhausted, Some Disarmed, None}"
proof -
  have "act_next (en_activation failed_sample) 0 (en_backoff failed_sample) = Some (Wait (secs 1))"
    by (simp add: failed_sample_def act_next_def sample_failed_def sample_grant_def sample_entry_def
        sample_start_def sample_policy_def secs_def Let_def)
  then show ?thesis
    using recovery_never_stranded [OF sample_failed_reachable, of "''work''" failed_sample]
    by (simp add: sample_system_def failed_sample_def sample_entry_def)
qed

theorem revocation_is_final_witness:
  "act_next (en_activation (revoke sample_entry)) 5 0 = Some Disarmed"
proof -
  let ?s = "sample_system (revoke sample_entry) NoWorker 0"
  have "reachable_system no_json (\<lambda>_. True) ?s"
    using reachable_system.step [OF sample_installed system_step.disarm [of no_json "\<lambda>_. True" _ "''work''"]]
    by (simp add: map_entries_def disarm_entry_def at_entry_def sample_system_def)
  from revocation_is_final [OF this, where profile = "''work''" and e = "revoke sample_entry" and s' = ?s
      and e' = "revoke sample_entry" and now = 5 and view = sample_view and loaded = None and target = "TargetServer ''1''"]
  have "en_disarmed (revoke sample_entry)
    \<and> act_next (en_activation (revoke sample_entry)) 5 (en_backoff (revoke sample_entry)) = Some Disarmed"
    by (simp add: sample_system_def sample_entry_def revoke_def with_activation_def)
  then show ?thesis by (simp add: sample_entry_def revoke_def with_activation_def)
qed


end
