(* ===== verification/Json.thy ===== *)
theory Json
  imports Rust_Text "HOL-Library.List_Lexorder"
begin

text \<open>
  JSON values as the program builds and reads them with \<open>serde_json\<close>: \<open>Value\<close> with its
  accessors, \<open>pointer\<close>, the assignment \<open>v["a"]["b"] = w\<close>, and the two generic functions of
  \<open>crates/oxidom-core/src/xray/config.rs\<close>, \<open>merge_patch\<close> and \<open>trim_obj\<close>.

  An object is the list of its entries in the order of the keys (serde_json's map is a
  \<open>BTreeMap\<close> here: the feature \<open>preserve_order\<close> is off). A number is one of
  serde_json's three kinds; a float is its bit pattern and is only stored.
\<close>

section \<open>Values\<close>

datatype json_number = PosInt nat | NegInt int | Float u64

datatype jv =
    JNull
  | JBool bool
  | JNum json_number
  | JStr string
  | JArr "jv list"
  | JObj "(string \<times> jv) list"

type_synonym entries = "(string \<times> jv) list"

fun as_object :: "jv \<Rightarrow> entries option" where
  "as_object (JObj m) = Some m"
| "as_object _ = None"

fun as_array :: "jv \<Rightarrow> jv list option" where
  "as_array (JArr xs) = Some xs"
| "as_array _ = None"

fun as_str :: "jv \<Rightarrow> string option" where
  "as_str (JStr s) = Some s"
| "as_str _ = None"

fun as_bool :: "jv \<Rightarrow> bool option" where
  "as_bool (JBool b) = Some b"
| "as_bool _ = None"

fun as_u64 :: "jv \<Rightarrow> nat option" where
  "as_u64 (JNum (PosInt n)) = Some n"
| "as_u64 _ = None"

definition jnat :: "nat \<Rightarrow> jv" where
  "jnat n = JNum (PosInt n)"

definition jint :: "int \<Rightarrow> jv" where
  "jint i = (if 0 \<le> i then jnat (nat i) else JNum (NegInt i))"

fun jopt :: "jv option \<Rightarrow> jv" where
  "jopt None = JNull"
| "jopt (Some v) = v"

abbreviation jstr_opt :: "string option \<Rightarrow> jv" where
  "jstr_opt s \<equiv> jopt (map_option JStr s)"

definition jstrs :: "string list \<Rightarrow> jv" where
  "jstrs ss = JArr (map JStr ss)"

section \<open>Objects\<close>

text \<open>\<open>Map::insert\<close> and \<open>Map::remove\<close>.\<close>

fun jins :: "string \<Rightarrow> jv \<Rightarrow> entries \<Rightarrow> entries" where
  "jins k v [] = [(k, v)]"
| "jins k v ((k', v') # m) =
     (if k = k' then (k, v) # m else if k < k' then (k, v) # (k', v') # m else (k', v') # jins k v m)"

definition jdel :: "string \<Rightarrow> entries \<Rightarrow> entries" where
  "jdel k m = filter (\<lambda>(k', _). k' \<noteq> k) m"

text \<open>\<open>json!({ k: v, ... })\<close>.\<close>

definition jobj :: "(string \<times> jv) list \<Rightarrow> jv" where
  "jobj kvs = JObj (foldl (\<lambda>m (k, v). jins k v m) [] kvs)"

text \<open>\<open>Value::get\<close>, by key and by index.\<close>

definition jget :: "string \<Rightarrow> jv \<Rightarrow> jv option" where
  "jget k v = (case as_object v of None \<Rightarrow> None | Some m \<Rightarrow> map_of m k)"

definition jat :: "nat \<Rightarrow> jv \<Rightarrow> jv option" where
  "jat i v =
     (case as_array v of None \<Rightarrow> None | Some xs \<Rightarrow> if i < length xs then Some (xs ! i) else None)"

text \<open>\<open>Value::pointer\<close>: tokens between slashes, with \<open>~1\<close> and \<open>~0\<close> unescaped.\<close>

fun unescape_token :: "string \<Rightarrow> string" where
  "unescape_token (c # d # s) =
     (if c = CHR ''~'' \<and> d = CHR ''1'' then CHR ''/'' # unescape_token s
      else if c = CHR ''~'' \<and> d = CHR ''0'' then CHR ''~'' # unescape_token s
      else c # unescape_token (d # s))"
| "unescape_token s = s"

definition parse_index :: "string \<Rightarrow> nat option" where
  "parse_index s =
     (if starts_with s ''+'' \<or> (starts_with s ''0'' \<and> length s \<noteq> 1) then None else parse_u64 s)"

definition pointer_step :: "jv \<Rightarrow> string \<Rightarrow> jv option" where
  "pointer_step v token =
     (case v of
        JObj m \<Rightarrow> map_of m token
      | JArr xs \<Rightarrow> (case parse_index token of None \<Rightarrow> None | Some i \<Rightarrow> jat i v)
      | _ \<Rightarrow> None)"

fun pointer_path :: "jv \<Rightarrow> string list \<Rightarrow> jv option" where
  "pointer_path v [] = Some v"
| "pointer_path v (t # ts) = (case pointer_step v t of None \<Rightarrow> None | Some w \<Rightarrow> pointer_path w ts)"

definition pointer :: "string \<Rightarrow> jv \<Rightarrow> jv option" where
  "pointer ptr v =
     (case ptr of
        [] \<Rightarrow> Some v
      | c # rest \<Rightarrow>
          if c = CHR ''/'' then pointer_path v (map unescape_token (split_on CHR ''/'' rest)) else None)"

text \<open>
  \<open>v["a"]["b"] = w\<close>: objects are entered and a missing key or a null becomes an object on the
  way; \<open>None\<close> is the panic of indexing anything else.
\<close>

fun jassign :: "string list \<Rightarrow> jv \<Rightarrow> jv \<Rightarrow> jv option" where
  "jassign [] w v = Some w"
| "jassign (k # ks) w v =
     (case v of
        JNull \<Rightarrow> map_option (\<lambda>x. JObj [(k, x)]) (jassign ks w JNull)
      | JObj m \<Rightarrow>
          map_option (\<lambda>x. JObj (jins k x m))
            (jassign ks w (case map_of m k of None \<Rightarrow> JNull | Some x \<Rightarrow> x))
      | _ \<Rightarrow> None)"

text \<open>The same on a value that is known to be an object or null.\<close>

definition jput :: "string \<Rightarrow> jv \<Rightarrow> jv \<Rightarrow> jv" where
  "jput k w v = (case v of JObj m \<Rightarrow> JObj (jins k w m) | JNull \<Rightarrow> JObj [(k, w)] | _ \<Rightarrow> v)"

section \<open>Merging and trimming\<close>

text \<open>\<open>merge_patch\<close>: \<open>base\<close> is the value that is changed in place.\<close>

definition slots_of :: "jv \<Rightarrow> entries" where
  "slots_of base = (case base of JObj m \<Rightarrow> m | _ \<Rightarrow> [])"

fun merge_patch :: "jv \<Rightarrow> jv \<Rightarrow> jv" and merge_entries :: "entries \<Rightarrow> entries \<Rightarrow> entries" where
  "merge_patch base (JObj p) = JObj (merge_entries (slots_of base) p)"
| "merge_patch base JNull = JNull"
| "merge_patch base (JBool b) = JBool b"
| "merge_patch base (JNum n) = JNum n"
| "merge_patch base (JStr s) = JStr s"
| "merge_patch base (JArr xs) = JArr xs"
| "merge_entries slots [] = slots"
| "merge_entries slots ((k, v) # p) =
     merge_entries
       (if v = JNull then jdel k slots
        else case map_of slots k of
          Some slot \<Rightarrow> jins k (merge_patch slot v) slots
        | None \<Rightarrow> jins k v slots) p"

fun trim_obj :: "jv \<Rightarrow> jv" and trim_entries :: "entries \<Rightarrow> entries" where
  "trim_obj (JObj m) = JObj (trim_entries m)"
| "trim_obj JNull = JNull"
| "trim_obj (JBool b) = JBool b"
| "trim_obj (JNum n) = JNum n"
| "trim_obj (JStr s) = JStr s"
| "trim_obj (JArr xs) = JArr xs"
| "trim_entries [] = []"
| "trim_entries ((k, v) # m) = (if v = JNull then trim_entries m else (k, trim_obj v) # trim_entries m)"

section \<open>Lemmas\<close>

lemma map_of_jins [simp]: "map_of (jins k v m) = (map_of m)(k \<mapsto> v)"
  by (induction m) (auto simp: fun_eq_iff)

lemma map_of_jdel [simp]: "map_of (jdel k m) = (map_of m)(k := None)"
  by (induction m) (auto simp: jdel_def fun_eq_iff)

lemma keys_jins: "fst ` set (jins k v m) = insert k (fst ` set m)"
  by (simp flip: dom_map_of_conv_image_fst)

lemma keys_jdel: "fst ` set (jdel k m) = fst ` set m - {k}"
  by (auto simp: jdel_def)

lemma jget_JObj [simp]: "jget k (JObj m) = map_of m k"
  by (simp add: jget_def)

lemma jget_simps [simp]:
  "jget k JNull = None" "jget k (JBool b) = None" "jget k (JNum n) = None" "jget k (JStr s) = None"
  "jget k (JArr xs) = None"
  by (simp_all add: jget_def)

lemma jget_SomeD: "jget k v = Some w \<Longrightarrow> \<exists>m. v = JObj m \<and> map_of m k = Some w"
  by (cases v) auto

lemma map_of_foldl_jins: "map_of (foldl (\<lambda>m (k, v). jins k v m) m kvs) k = map_of (rev kvs @ m) k"
  by (induction kvs arbitrary: m) (auto simp: map_add_def split: option.splits)

lemma jget_jobj: "jget k (jobj kvs) = map_of (rev kvs) k"
  by (simp add: jobj_def map_of_foldl_jins)

lemma as_object_jobj: "\<exists>m. as_object (jobj kvs) = Some m \<and> (\<forall>k. map_of m k = map_of (rev kvs) k)"
  by (simp add: jobj_def map_of_foldl_jins)

lemma jobj_JObj: "\<exists>m. jobj kvs = JObj m"
  by (simp add: jobj_def)

lemma jget_jput [simp]:
  "as_object v = Some m \<Longrightarrow> jget k (jput k' w v) = (if k = k' then Some w else jget k v)"
  by (cases v) (auto simp: jput_def)

lemma jassign_one: "as_object v = Some m \<Longrightarrow> jassign [k] w v = Some (jput k w v)"
  by (cases v) (simp_all add: jput_def)

lemma jassign_keeps:
  "jassign (k' # ks) w v = Some v' \<Longrightarrow> k \<noteq> k' \<Longrightarrow> jget k v' = jget k v"
  by (cases v) auto

lemma jassign_object: "jassign (k # ks) w v = Some v' \<Longrightarrow> \<exists>m. v' = JObj m"
  by (cases v) auto

text \<open>No null is left among the entries of a trimmed object, at any depth of objects.\<close>

lemma trim_entries_nonnull: "(k, v) \<in> set (trim_entries m) \<Longrightarrow> v \<noteq> JNull"
proof (induction m)
  case (Cons e m)
  obtain k' v' where e: "e = (k', v')" by (cases e)
  have "trim_obj v' \<noteq> JNull" if "v' \<noteq> JNull" using that by (cases v') simp_all
  with Cons e show ?case by (auto split: if_splits)
qed simp

lemma map_of_trim:
  "distinct (map fst m) \<Longrightarrow>
   map_of (trim_entries m) k =
     (case map_of m k of None \<Rightarrow> None | Some v \<Rightarrow> if v = JNull then None else Some (trim_obj v))"
proof (induction m)
  case (Cons e m)
  obtain k' v' where e: "e = (k', v')" by (cases e)
  have n: "map_of m k' = None" using Cons.prems e by (auto simp: map_of_eq_None_iff)
  show ?case
  proof (cases "k = k'")
    case True
    with Cons n e show ?thesis by (auto split: if_splits)
  next
    case False
    with Cons e show ?thesis by (auto split: if_splits)
  qed
qed simp

section \<open>Well-formed objects\<close>

text \<open>Keys are in order and occur once.\<close>

fun jwf :: "jv \<Rightarrow> bool" and jwf_entries :: "entries \<Rightarrow> bool" and jwf_list :: "jv list \<Rightarrow> bool" where
  "jwf (JObj m) = (sorted_wrt (<) (map fst m) \<and> jwf_entries m)"
| "jwf (JArr xs) = jwf_list xs"
| "jwf JNull = True"
| "jwf (JBool b) = True"
| "jwf (JNum n) = True"
| "jwf (JStr s) = True"
| "jwf_entries [] = True"
| "jwf_entries ((k, v) # m) = (jwf v \<and> jwf_entries m)"
| "jwf_list [] = True"
| "jwf_list (v # vs) = (jwf v \<and> jwf_list vs)"

abbreviation keys_sorted :: "entries \<Rightarrow> bool" where
  "keys_sorted m \<equiv> sorted_wrt (<) (map fst m)"

lemma jwf_entries_iff: "jwf_entries m \<longleftrightarrow> (\<forall>(k, v) \<in> set m. jwf v)"
  by (induction m) auto

lemma keys_sorted_distinct: "keys_sorted m \<Longrightarrow> distinct (map fst m)"
  using strict_sorted_iff by blast

lemma keys_sorted_jins: "keys_sorted m \<Longrightarrow> keys_sorted (jins k v m)"
proof (induction m)
  case (Cons e m)
  obtain k' v' where e: "e = (k', v')" by (cases e)
  show ?case
  proof (cases "k < k'")
    case True
    with Cons e show ?thesis by (auto dest: less_trans)
  next
    case False
    then consider "k = k'" | "k' < k" "k \<noteq> k'" by fastforce
    then show ?thesis
    proof cases
      case 1
      with Cons.prems e show ?thesis by simp
    next
      case 2
      moreover have "set (map fst (jins k v m)) = insert k (set (map fst m))"
        using keys_jins [of k v m] by simp
      ultimately show ?thesis using Cons e False by auto
    qed
  qed
qed simp

lemma keys_sorted_jdel: "keys_sorted m \<Longrightarrow> keys_sorted (jdel k m)"
  unfolding jdel_def by (induction m) (auto split: if_splits)

lemma entries_eqI:
  assumes "keys_sorted m" and "keys_sorted m'" and "map_of m = map_of m'"
  shows "m = m'"
proof -
  have d: "distinct (map fst m)" "distinct (map fst m')" using assms(1,2) by (auto intro: keys_sorted_distinct)
  have "set m = set m'" using map_of_inject_set [OF d] assms(3) by simp
  moreover have "sorted (map fst m)" "sorted (map fst m')"
    using assms(1,2) strict_sorted_imp_sorted by blast+
  moreover have "inj_on fst (set m \<union> set m')"
    using d \<open>set m = set m'\<close> by (simp add: distinct_map)
  ultimately show ?thesis using d map_sorted_distinct_set_unique by blast
qed

lemma keys_trim: "fst ` set (trim_entries m) \<subseteq> fst ` set m"
proof (induction m)
  case (Cons e m)
  then show ?case by (cases e) (simp, blast)
qed simp

lemma keys_sorted_trim: "keys_sorted m \<Longrightarrow> keys_sorted (trim_entries m)"
proof (induction m)
  case (Cons e m)
  obtain k v where e: "e = (k, v)" by (cases e)
  have "\<forall>a\<in>set (map fst (trim_entries m)). k < a" using keys_trim [of m] Cons.prems e by fastforce
  with Cons e show ?case by simp
qed simp

lemma trim_entries_eqI:
  assumes "keys_sorted m" and "keys_sorted m'"
    and "\<And>k. (case map_of m k of None \<Rightarrow> None | Some v \<Rightarrow> if v = JNull then None else Some (trim_obj v))
       = (case map_of m' k of None \<Rightarrow> None | Some v \<Rightarrow> if v = JNull then None else Some (trim_obj v))"
  shows "trim_entries m = trim_entries m'"
  using assms map_of_trim [OF keys_sorted_distinct [OF assms(1)]] map_of_trim [OF keys_sorted_distinct [OF assms(2)]]
  by (intro entries_eqI keys_sorted_trim) (simp_all add: fun_eq_iff)

section \<open>RFC 7396\<close>

text \<open>The algorithm of the RFC: a key that is not in the target is merged into a fresh target.\<close>

fun rfc_merge :: "jv \<Rightarrow> jv \<Rightarrow> jv" and rfc_entries :: "entries \<Rightarrow> entries \<Rightarrow> entries" where
  "rfc_merge base (JObj p) = JObj (rfc_entries (slots_of base) p)"
| "rfc_merge base JNull = JNull"
| "rfc_merge base (JBool b) = JBool b"
| "rfc_merge base (JNum n) = JNum n"
| "rfc_merge base (JStr s) = JStr s"
| "rfc_merge base (JArr xs) = JArr xs"
| "rfc_entries slots [] = slots"
| "rfc_entries slots ((k, v) # p) =
     rfc_entries
       (if v = JNull then jdel k slots
        else jins k (rfc_merge (case map_of slots k of Some slot \<Rightarrow> slot | None \<Rightarrow> JNull) v) slots) p"

lemma map_of_merge_entries:
  "distinct (map fst p) \<Longrightarrow>
   map_of (merge_entries slots p) k =
     (case map_of p k of
        None \<Rightarrow> map_of slots k
      | Some v \<Rightarrow> if v = JNull then None
          else Some (case map_of slots k of Some slot \<Rightarrow> merge_patch slot v | None \<Rightarrow> v))"
proof (induction p arbitrary: slots)
  case (Cons e p)
  obtain k' v where e: "e = (k', v)" by (cases e)
  have n: "map_of p k' = None" using Cons.prems e by (auto simp: map_of_eq_None_iff)
  show ?case
    by (cases "k = k'") (use Cons e n in \<open>auto split: option.splits\<close>)
qed simp

lemma map_of_rfc_entries:
  "distinct (map fst p) \<Longrightarrow>
   map_of (rfc_entries slots p) k =
     (case map_of p k of
        None \<Rightarrow> map_of slots k
      | Some v \<Rightarrow> if v = JNull then None
          else Some (rfc_merge (case map_of slots k of Some slot \<Rightarrow> slot | None \<Rightarrow> JNull) v))"
proof (induction p arbitrary: slots)
  case (Cons e p)
  obtain k' v where e: "e = (k', v)" by (cases e)
  have n: "map_of p k' = None" using Cons.prems e by (auto simp: map_of_eq_None_iff)
  show ?case
    by (cases "k = k'") (use Cons e n in \<open>auto split: option.splits\<close>)
qed simp

lemma keys_sorted_merge: "keys_sorted slots \<Longrightarrow> keys_sorted (merge_entries slots p)"
proof (induction p arbitrary: slots)
  case (Cons e p)
  obtain k v where e: "e = (k, v)" by (cases e)
  show ?case
    unfolding e merge_entries.simps
    by (rule Cons.IH) (use Cons.prems in \<open>auto intro: keys_sorted_jins keys_sorted_jdel split: option.splits\<close>)
qed simp

lemma keys_sorted_rfc: "keys_sorted slots \<Longrightarrow> keys_sorted (rfc_entries slots p)"
proof (induction p arbitrary: slots)
  case (Cons e p)
  obtain k v where e: "e = (k, v)" by (cases e)
  show ?case
    unfolding e rfc_entries.simps
    by (rule Cons.IH) (use Cons.prems in \<open>auto intro: keys_sorted_jins keys_sorted_jdel split: option.splits\<close>)
qed simp

lemma jwf_sorted: "jwf v \<Longrightarrow> keys_sorted (slots_of v)"
  by (cases v) (simp_all add: slots_of_def)

lemma jwf_entryD: "jwf (JObj m) \<Longrightarrow> map_of m k = Some v \<Longrightarrow> jwf v"
  by (auto simp: jwf_entries_iff dest!: map_of_SomeD)

lemma jwf_slotD: "jwf b \<Longrightarrow> map_of (slots_of b) k = Some v \<Longrightarrow> jwf v"
  by (cases b) (auto simp: slots_of_def simp del: jwf.simps intro: jwf_entryD)

lemma size_map_of: "map_of m k = Some v \<Longrightarrow> size v < size (JObj m)"
  by (induction m) (auto split: if_splits)

text \<open>A fresh target gets the value with its nulls removed.\<close>

lemma rfc_fresh: "jwf v \<Longrightarrow> rfc_merge JNull v = trim_obj v"
proof (induction "size v" arbitrary: v rule: less_induct)
  case less
  show ?case
  proof (cases v)
    case (JObj p)
    have s: "keys_sorted p" using less.prems JObj by simp
    have "map_of (rfc_entries [] p) k = map_of (trim_entries p) k" for k
    proof (cases "map_of p k")
      case None
      then show ?thesis
        by (simp add: map_of_rfc_entries [OF keys_sorted_distinct [OF s]] map_of_trim [OF keys_sorted_distinct [OF s]])
    next
      case (Some w)
      then have "rfc_merge JNull w = trim_obj w"
        using less.hyps [of w] less.prems JObj jwf_entryD [of p k w] size_map_of [of p k w] by blast
      with Some show ?thesis
        by (simp add: map_of_rfc_entries [OF keys_sorted_distinct [OF s]] map_of_trim [OF keys_sorted_distinct [OF s]])
    qed
    then have "rfc_entries [] p = trim_entries p"
      by (intro entries_eqI keys_sorted_rfc keys_sorted_trim s) (auto simp: fun_eq_iff)
    then show ?thesis by (simp add: JObj slots_of_def)
  qed simp_all
qed

lemma trim_obj_null_iff: "trim_obj v = JNull \<longleftrightarrow> v = JNull"
  by (cases v) simp_all

lemma trim_idem: "jwf v \<Longrightarrow> trim_obj (trim_obj v) = trim_obj v"
proof (induction "size v" arbitrary: v rule: less_induct)
  case less
  show ?case
  proof (cases v)
    case (JObj p)
    have s: "keys_sorted p" using less.prems JObj by simp
    have "trim_entries (trim_entries p) = trim_entries p"
    proof (rule trim_entries_eqI)
      fix k
      show "(case map_of (trim_entries p) k of None \<Rightarrow> None | Some v \<Rightarrow> if v = JNull then None else Some (trim_obj v))
        = (case map_of p k of None \<Rightarrow> None | Some v \<Rightarrow> if v = JNull then None else Some (trim_obj v))"
        using less.hyps less.prems JObj jwf_entryD [of p k] size_map_of [of p k]
        by (auto simp: map_of_trim [OF keys_sorted_distinct [OF s]] trim_obj_null_iff split: option.splits)
    qed (use s in \<open>auto intro: keys_sorted_trim\<close>)
    then show ?thesis by (simp add: JObj)
  qed simp_all
qed

lemma rfc_null_iff: "rfc_merge b v = JNull \<longleftrightarrow> v = JNull"
  by (cases v) simp_all

lemma merge_null_iff: "merge_patch b v = JNull \<longleftrightarrow> v = JNull"
  by (cases v) simp_all

section \<open>Values stay well formed\<close>

named_theorems json_wf \<open>well-formedness of the values the program builds\<close>

lemma jwf_list_iff [simp]: "jwf_list xs \<longleftrightarrow> (\<forall>x \<in> set xs. jwf x)"
  by (induction xs) auto

lemma jwf_jins [json_wf]: "jwf (JObj m) \<Longrightarrow> jwf v \<Longrightarrow> jwf (JObj (jins k v m))"
proof -
  assume m: "jwf (JObj m)" and v: "jwf v"
  have "jwf_entries (jins k v m)" using m v by (induction m) (auto simp: sorted_wrt_append)
  with m show ?thesis by (simp add: keys_sorted_jins)
qed

lemma jwf_jdel [json_wf]: "jwf (JObj m) \<Longrightarrow> jwf (JObj (jdel k m))"
proof -
  have "set (jdel k m) \<subseteq> set m" by (auto simp: jdel_def)
  then show "jwf (JObj m) \<Longrightarrow> jwf (JObj (jdel k m))" by (auto simp: keys_sorted_jdel jwf_entries_iff)
qed

lemma jwf_jobj_list: "list_all (\<lambda>(k, v). jwf v) kvs \<Longrightarrow> jwf (jobj kvs)"
proof -
  have "jwf (JObj m) \<Longrightarrow> list_all (\<lambda>(k, v). jwf v) kvs \<Longrightarrow> jwf (JObj (foldl (\<lambda>m (k, v). jins k v m) m kvs))" for m
    by (induction kvs arbitrary: m) (auto intro: jwf_jins simp del: jwf.simps)
  from this [of "[]"] show "list_all (\<lambda>(k, v). jwf v) kvs \<Longrightarrow> jwf (jobj kvs)" by (simp add: jobj_def)
qed

lemma jwf_jobj [json_wf]: "(\<And>k v. (k, v) \<in> set kvs \<Longrightarrow> jwf v) \<Longrightarrow> jwf (jobj kvs)"
  by (rule jwf_jobj_list) (auto simp: list_all_iff)

lemma jwf_leaves [simp]: "jwf (jstrs ss)" "jwf (jnat n)" "jwf (jint i)" "jwf (jstr_opt t)"
  by (cases t; auto simp: jstrs_def jnat_def jint_def)+

lemma jwf_jopt [simp]: "jwf (jopt v) \<longleftrightarrow> pred_option jwf v"
  by (cases v) simp_all

lemma jwf_jput [json_wf]: "jwf v \<Longrightarrow> jwf w \<Longrightarrow> jwf (jput k w v)"
  by (cases v) (auto simp: jput_def simp del: jwf.simps(1) intro: jwf_jins, simp)

lemma jwf_jget: "jwf v \<Longrightarrow> jget k v = Some w \<Longrightarrow> jwf w"
  by (cases v) (auto simp: jget_def simp del: jwf.simps intro: jwf_entryD)

lemma jwf_jassign [json_wf]: "jwf v \<Longrightarrow> jwf w \<Longrightarrow> jassign ks w v = Some v' \<Longrightarrow> jwf v'"
proof (induction ks w v arbitrary: v' rule: jassign.induct)
  case (2 k ks w v)
  show ?case
  proof (cases v)
    case (JObj m)
    then have "jwf (case map_of m k of None \<Rightarrow> JNull | Some x \<Rightarrow> x)"
      using 2(3) jwf_entryD [of m k] by (auto split: option.splits simp del: jwf.simps(1))
    with 2 JObj show ?thesis by (auto intro!: jwf_jins simp del: jwf.simps(1))
  qed (use 2 in auto)
qed simp

lemma jwf_trim [json_wf]: "jwf v \<Longrightarrow> jwf (trim_obj v)"
proof (induction "size v" arbitrary: v rule: less_induct)
  case less
  show ?case
  proof (cases v)
    case (JObj m)
    have "(k, x) \<in> set (trim_entries m) \<Longrightarrow> jwf x" for k x
    proof -
      assume "(k, x) \<in> set (trim_entries m)"
      moreover have d: "distinct (map fst m)" "keys_sorted (trim_entries m)"
        using less.prems JObj by (auto intro: keys_sorted_distinct keys_sorted_trim)
      ultimately have "map_of (trim_entries m) k = Some x"
        by (simp add: keys_sorted_distinct map_of_eq_Some_iff)
      then obtain y where "map_of m k = Some y" "x = trim_obj y"
        by (auto simp: map_of_trim [OF d(1)] split: option.splits if_splits)
      with less JObj size_map_of [of m k y] jwf_entryD [of m k y] show "jwf x" by simp
    qed
    with JObj less.prems show ?thesis by (auto simp: jwf_entries_iff keys_sorted_trim)
  qed (use less.prems in auto)
qed

lemma jwf_merge:
  "jwf base \<Longrightarrow> jwf patch \<Longrightarrow> jwf (merge_patch base patch)"
  "jwf (JObj slots) \<Longrightarrow> jwf_entries p \<Longrightarrow> jwf (JObj (merge_entries slots p))"
proof (induction base patch and slots p rule: merge_patch_merge_entries.induct)
  case (1 base p)
  then show ?case by (cases base) (auto simp: slots_of_def)
next
  case (8 slots k v p)
  have "jwf (JObj (if v = JNull then jdel k slots
      else case map_of slots k of Some slot \<Rightarrow> jins k (merge_patch slot v) slots | None \<Rightarrow> jins k v slots))"
    using 8 jwf_entryD [OF 8(3)] by (auto split: option.splits simp del: jwf.simps(1) intro: jwf_jins jwf_jdel)
  with 8 show ?case by (simp del: jwf.simps(1))
qed auto

lemmas jwf_merge_patch [json_wf] = jwf_merge(1)

text \<open>\<open>merge_patch\<close> is the merge of RFC 7396 up to nulls: for well-formed values the result and
the result of the RFC's algorithm differ at most in entries whose value is null.\<close>

theorem merge_patch_up_to_nulls:
  assumes "jwf base" and "jwf patch"
  shows "trim_obj (merge_patch base patch) = trim_obj (rfc_merge base patch)"
  using assms
proof (induction "size patch" arbitrary: base patch rule: less_induct)
  case less
  show ?case
  proof (cases patch)
    case (JObj p)
    let ?s = "slots_of base"
    have s: "keys_sorted p" using less.prems JObj by simp
    have d: "distinct (map fst p)" using s by (rule keys_sorted_distinct)
    have "trim_entries (merge_entries ?s p) = trim_entries (rfc_entries ?s p)"
    proof (rule trim_entries_eqI)
      fix k
      have "trim_obj (case map_of ?s k of Some slot \<Rightarrow> merge_patch slot v | None \<Rightarrow> v)
          = trim_obj (rfc_merge (case map_of ?s k of Some slot \<Rightarrow> slot | None \<Rightarrow> JNull) v)"
        if "map_of p k = Some v" for v
        using that less JObj jwf_entryD [of p k v] size_map_of [of p k v] jwf_slotD [of base k]
        by (auto simp: rfc_fresh trim_idem split: option.splits)
      then show "(case map_of (merge_entries ?s p) k of None \<Rightarrow> None
            | Some v \<Rightarrow> if v = JNull then None else Some (trim_obj v))
        = (case map_of (rfc_entries ?s p) k of None \<Rightarrow> None
            | Some v \<Rightarrow> if v = JNull then None else Some (trim_obj v))"
        by (auto simp: map_of_merge_entries [OF d] map_of_rfc_entries [OF d] merge_null_iff rfc_null_iff
            split: option.splits)
    qed (use jwf_sorted [OF less.prems(1)] in \<open>auto intro: keys_sorted_merge keys_sorted_rfc\<close>)
    then show ?thesis by (simp add: JObj)
  qed simp_all
qed

theorem merge_patch_up_to_nulls_witness:
  "trim_obj (merge_patch (JObj [(''mux'', JNull)]) (JObj [(''mux'', JObj [(''enabled'', JBool True)])]))
   = JObj [(''mux'', JObj [(''enabled'', JBool True)])]"
  using merge_patch_up_to_nulls [of "JObj [(''mux'', JNull)]" "JObj [(''mux'', JObj [(''enabled'', JBool True)])]"]
  by (simp add: slots_of_def)

text \<open>and they do differ: a nested null under a key the target does not have is copied into the
result, where the RFC (which the code's comment names) drops it.\<close>

theorem merge_patch_keeps_nested_null:
  "merge_patch (JObj []) (JObj [(k, JObj [(j, JNull)])]) = JObj [(k, JObj [(j, JNull)])]
   \<and> rfc_merge (JObj []) (JObj [(k, JObj [(j, JNull)])]) = JObj [(k, JObj [])]"
  by (simp add: slots_of_def jdel_def)

end
