(* ===== verification/Xray_Config.thy ===== *)
theory Xray_Config
  imports Json Model Core_Options Routing Net
begin

text \<open>
  The Xray configuration a session runs: \<open>crates/oxidom-core/src/xray/config.rs\<close>. The program
  hands the core one JSON document; what it says about outbounds, balancers and routing rules
  decides which traffic leaves through a server and which leaves in the clear.

  The result is \<open>Inl GenPanic\<close> where the code would panic: an assignment
  \<open>v["a"]["b"] = w\<close> into a value that is neither an object nor null. Addresses are shown by
  \<open>show_ipv4\<close>; the views of \<open>serde_json\<close> that the routing block is read with are
  \<open>jv_views\<close>.
\<close>

section \<open>Constants\<close>

definition selectable_tag_prefix :: string where "selectable_tag_prefix = ''s-''"
definition balancer_tag :: string where "balancer_tag = ''pool''"
definition dialer_tag :: string where "dialer_tag = ''dialer''"

definition balancer_strategies :: "string list" where
  "balancer_strategies = [''random'', ''roundRobin'', ''leastPing'', ''leastLoad'']"

definition jv_views :: "jv json" where
  "jv_views = \<lparr>js_parse = (\<lambda>_. None), js_object = as_object, js_array = as_array, js_str = as_str\<rparr>"

datatype gen_error = GenPanic | NoMembers | DuplicateTag string | CompositeMember string

section \<open>Streams\<close>

definition xhttp_mode :: "jv stream_settings \<Rightarrow> string" where
  "xhttp_mode s =
     (case ss_xhttp_mode s of
        Some mode \<Rightarrow>
          if mode \<in> {''auto'', ''packet-up'', ''stream-up'', ''stream-one''} then mode else ''auto''
      | None \<Rightarrow> ''auto'')"

text \<open>\<open>trim_start_matches('/')\<close>.\<close>

fun trim_start_slashes :: "string \<Rightarrow> string" where
  "trim_start_slashes [] = []"
| "trim_start_slashes (c # s) = (if c = CHR ''/'' then trim_start_slashes s else c # s)"

definition comma_items :: "string \<Rightarrow> string list" where
  "comma_items s = filter (\<lambda>item. item \<noteq> []) (map trim (split_on CHR '','' s))"

text \<open>The block of the transport, with the key it is stored under.\<close>

definition network_block :: "jv stream_settings \<Rightarrow> (string \<times> jv) option" where
  "network_block s =
     (let n = ss_network s
      in if n = ''ws'' then Some (''wsSettings'', trim_obj (jobj
            [(''path'', jstr_opt (ss_path s)),
             (''headers'', jopt (map_option (\<lambda>h. jobj [(''Host'', JStr h)]) (ss_host s)))]))
         else if n = ''httpupgrade'' then Some (''httpupgradeSettings'', trim_obj (jobj
            [(''path'', jstr_opt (ss_path s)), (''host'', jstr_opt (ss_host s))]))
         else if n = ''kcp'' \<or> n = ''mkcp'' then Some (''kcpSettings'', trim_obj (jobj
            [(''seed'', jstr_opt (ss_path s)),
             (''header'', jopt (map_option (\<lambda>t. jobj [(''type'', JStr t)]) (ss_header_type s)))]))
         else if n = ''grpc'' then Some (''grpcSettings'', trim_obj (jobj
            [(''serviceName'', jstr_opt (map_option trim_start_slashes (or_else (ss_service_name s) (ss_path s)))),
             (''authority'', jstr_opt (ss_grpc_authority s)),
             (''multiMode'', if ss_grpc_multi_mode s then JBool True else JNull)]))
         else if n = ''xhttp'' \<or> n = ''splithttp'' then Some (''xhttpSettings'', trim_obj (jobj
            [(''path'', jstr_opt (ss_path s)), (''host'', jstr_opt (ss_host s)),
             (''mode'', JStr (xhttp_mode s)), (''extra'', jopt (ss_xhttp_extra s))]))
         else if n = ''h2'' \<or> n = ''http'' then Some (''httpSettings'', trim_obj (jobj
            [(''path'', jstr_opt (ss_path s)),
             (''host'', jopt (map_option (\<lambda>h. jstrs [h]) (ss_host s)))]))
         else if (n = ''tcp'' \<or> n = ''raw'') \<and> ss_header_type s = Some ''http'' then
           (let request = trim_obj (jobj
                  [(''path'', jopt (map_option (\<lambda>p. jstrs (comma_items p)) (ss_path s))),
                   (''headers'', jopt (map_option (\<lambda>h. jobj [(''Host'', jstrs (comma_items h))]) (ss_host s)))]);
                header = jobj [(''type'', JStr ''http'')]
            in Some (''tcpSettings'', jobj [(''header'',
                 if as_object request \<noteq> None \<and> as_object request \<noteq> Some []
                 then jput ''request'' request header else header)]))
         else None)"

definition security_block :: "jv stream_settings \<Rightarrow> (string \<times> jv) list" where
  "security_block s =
     (if ss_security s = ''tls'' then
        [(''security'', JStr ''tls''),
         (''tlsSettings'', trim_obj (jobj
            [(''serverName'', jstr_opt (ss_sni s)), (''alpn'', jopt (map_option jstrs (ss_alpn s))),
             (''fingerprint'', jstr_opt (ss_fingerprint s)),
             (''pinnedPeerCertSha256'', jstr_opt (ss_pin_sha256 s)),
             (''echConfigList'', jstr_opt (ss_ech s)),
             (''verifyPeerCertByName'', jstr_opt (ss_verify_peer_cert_by_name s))]))]
      else if ss_security s = ''reality'' then
        [(''security'', JStr ''reality''),
         (''realitySettings'', trim_obj (jobj
            [(''serverName'', jstr_opt (ss_sni s)), (''fingerprint'', jstr_opt (ss_fingerprint s)),
             (''publicKey'', jstr_opt (ss_public_key s)), (''shortId'', jstr_opt (ss_short_id s)),
             (''spiderX'', jstr_opt (ss_spider_x s)),
             (''mldsa65Verify'', jstr_opt (ss_mldsa65_verify s))]))]
      else [])"

definition network_name :: "string \<Rightarrow> string" where
  "network_name n = (if n = [] \<or> n = ''raw'' then ''tcp'' else if n = ''mkcp'' then ''kcp'' else n)"

definition stream_settings_json :: "jv stream_settings \<Rightarrow> jv" where
  "stream_settings_json s =
     foldl (\<lambda>v (k, w). jput k w v) (jobj [(''network'', JStr (network_name (ss_network s)))])
       ((case network_block s of None \<Rightarrow> [] | Some b \<Rightarrow> [b]) @ security_block s)"

definition hysteria2_stream :: "string \<Rightarrow> hysteria2_settings \<Rightarrow> nat \<Rightarrow> jv" where
  "hysteria2_stream auth s port =
     (let udp_hop = (if h2_port_hop s = [] then None
            else Some (trim_obj (jobj
              [(''ports'', jstrs (show_nat port # map port_range_to_xray (h2_port_hop s))),
               (''interval'', jopt (map_option jnat (h2_hop_interval_secs s)))])));
          mbps = (\<lambda>n. JStr (show_nat n @ '' mbps''));
          v = jobj
            [(''network'', JStr ''hysteria''), (''security'', JStr ''tls''),
             (''tlsSettings'', trim_obj (jobj
                [(''serverName'', jstr_opt (h2_sni s)), (''alpn'', jopt (map_option jstrs (h2_alpn s))),
                 (''pinnedPeerCertSha256'', jstr_opt (h2_pin_sha256 s))])),
             (''hysteriaSettings'', trim_obj (jobj
                [(''version'', jnat 2), (''auth'', JStr auth),
                 (''up'', jopt (map_option mbps (h2_up_mbps s))),
                 (''down'', jopt (map_option mbps (h2_down_mbps s))),
                 (''congestion'', jstr_opt (h2_congestion s)),
                 (''udpIdleTimeout'', jopt (map_option jnat (h2_udp_idle_timeout_secs s))),
                 (''udpHop'', jopt udp_hop)]))]
      in case h2_obfs s of
           Some obfs \<Rightarrow>
             if eq_ignore_ascii_case (ho_kind obfs) ''salamander''
             then jput ''finalmask''
                    (jobj [(''type'', JStr ''salamander''),
                           (''settings'', jobj [(''password'', JStr (ho_password obfs))])]) v
             else v
         | None \<Rightarrow> v)"

section \<open>Outbounds\<close>

definition socks_http_server :: "string \<Rightarrow> nat \<Rightarrow> string option \<Rightarrow> string option \<Rightarrow> jv" where
  "socks_http_server addr port user pass =
     (let server = jobj [(''address'', JStr addr), (''port'', jnat port)]
      in if user \<noteq> None \<or> pass \<noteq> None
         then jput ''users''
                (JArr [jobj [(''user'', JStr (unwrap_or user [])), (''pass'', JStr (unwrap_or pass []))]]) server
         else server)"

definition protocol_outbound :: "string \<Rightarrow> nat \<Rightarrow> string \<Rightarrow> jv outbound_spec \<Rightarrow> jv option" where
  "protocol_outbound addr port tag spec =
     (case spec of
        Vless uuid encryption s \<Rightarrow> Some (jobj
          [(''tag'', JStr tag), (''protocol'', JStr ''vless''),
           (''settings'', jobj [(''vnext'', JArr [jobj
              [(''address'', JStr addr), (''port'', jnat port),
               (''users'', JArr [trim_obj (jobj [(''id'', JStr uuid), (''encryption'', JStr encryption),
                                                 (''flow'', jstr_opt (ss_flow s))])])]])]),
           (''streamSettings'', stream_settings_json s)])
      | Vmess uuid alter_id security s \<Rightarrow> Some (jobj
          [(''tag'', JStr tag), (''protocol'', JStr ''vmess''),
           (''settings'', jobj [(''vnext'', JArr [jobj
              [(''address'', JStr addr), (''port'', jnat port),
               (''users'', JArr [jobj [(''id'', JStr uuid), (''alterId'', jnat alter_id),
                                       (''security'', JStr security)]])]])]),
           (''streamSettings'', stream_settings_json s)])
      | Trojan password s \<Rightarrow> Some (jobj
          [(''tag'', JStr tag), (''protocol'', JStr ''trojan''),
           (''settings'', jobj [(''servers'', JArr [trim_obj (jobj
              [(''address'', JStr addr), (''port'', jnat port), (''password'', JStr password),
               (''flow'', jstr_opt (ss_flow s))])])]),
           (''streamSettings'', stream_settings_json s)])
      | Shadowsocks cipher password \<Rightarrow> Some (jobj
          [(''tag'', JStr tag), (''protocol'', JStr ''shadowsocks''),
           (''settings'', jobj [(''servers'', JArr [jobj
              [(''address'', JStr addr), (''port'', jnat port), (''method'', JStr cipher),
               (''password'', JStr password)]])])])
      | Socks user pass \<Rightarrow> Some (jobj
          [(''tag'', JStr tag), (''protocol'', JStr ''socks''),
           (''settings'', jobj [(''servers'', JArr [socks_http_server addr port user pass])])])
      | Http user pass \<Rightarrow> Some (jobj
          [(''tag'', JStr tag), (''protocol'', JStr ''http''),
           (''settings'', jobj [(''servers'', JArr [socks_http_server addr port user pass])])])
      | Hysteria2 auth settings \<Rightarrow> Some (jobj
          [(''tag'', JStr tag), (''protocol'', JStr ''hysteria''),
           (''settings'', jobj [(''version'', jnat 2), (''address'', JStr addr), (''port'', jnat port)]),
           (''streamSettings'', hysteria2_stream auth settings port)])
      | XrayProfile _ _ _ _ \<Rightarrow> None)"

definition outbound_tagged :: "jv server \<Rightarrow> string \<Rightarrow> jv option" where
  "outbound_tagged server tag =
     map_option (\<lambda>value. case srv_outbound_patch server of
         Some patch \<Rightarrow> merge_patch value patch
       | None \<Rightarrow> value)
       (protocol_outbound (srv_address server) (srv_port server) tag (srv_spec server))"

section \<open>The settings of the core\<close>

definition mux_block :: "resolved_mux \<Rightarrow> jv" where
  "mux_block mux = trim_obj (jobj
     [(''enabled'', JBool True), (''concurrency'', jopt (map_option jint (rm_concurrency mux))),
      (''xudpConcurrency'', jopt (map_option jint (rm_xudp_concurrency mux))),
      (''xudpProxyUDP443'', jopt (map_option (\<lambda>mode. JStr (xudp_mode_as_xray mode)) (rm_xudp_proxy_udp_443 mux)))])"

definition dialer_outbound :: "resolved_dialer \<Rightarrow> jv" where
  "dialer_outbound dialer =
     (let noises = map (\<lambda>n. jobj [(''type'', JStr (noise_kind_as_xray (no_kind n))),
                                  (''packet'', JStr (no_packet n)), (''delay'', JStr (no_delay n))])
                     (rd_noises dialer);
          fragment = map_option (\<lambda>f. jobj [(''packets'', JStr (rfr_packets f)), (''length'', JStr (rfr_length f)),
                                           (''interval'', JStr (rfr_interval f))]) (rd_fragment dialer)
      in jobj
        [(''tag'', JStr dialer_tag), (''protocol'', JStr ''freedom''),
         (''settings'', trim_obj (jobj
            [(''fragment'', jopt fragment),
             (''noises'', if noises = [] then JNull else JArr noises)]))])"

definition dns_block :: "resolved_dns \<Rightarrow> jv" where
  "dns_block dns = jobj
     [(''servers'', JArr
        ((case rdns_direct_server dns of
            Some direct \<Rightarrow> [jobj [(''address'', JStr direct), (''domains'', jstrs [''geosite:private'']),
                                  (''skipFallback'', JBool True)]]
          | None \<Rightarrow> []) @ [JStr (rdns_server dns)])),
      (''queryStrategy'', JStr (query_strategy_as_xray (rdns_query_strategy dns)))]"

definition sniffing_block :: "'j resolved_core \<Rightarrow> jv" where
  "sniffing_block core =
     (let s = rc_sniffing core;
          base = jobj [(''enabled'', JBool (rs_enabled s)),
                       (''destOverride'', jstrs (map dest_override_as_xray (rs_dest_override s)))]
      in if rs_route_only s then jput ''routeOnly'' (JBool True) base else base)"

text \<open>\<open>None\<close> is a panic.\<close>

definition apply_outbound_core :: "'j resolved_core \<Rightarrow> jv \<Rightarrow> jv option" where
  "apply_outbound_core core outbound =
     (let is_hysteria = (Option.bind (jget ''protocol'' outbound) as_str = Some ''hysteria'')
      in Option.bind
           (case rc_mux core of
              Some mux \<Rightarrow>
                if \<not> is_hysteria \<and> (case jget ''mux'' outbound of None \<Rightarrow> True | Some v \<Rightarrow> v = JNull)
                then jassign [''mux''] (mux_block mux) outbound else Some outbound
            | None \<Rightarrow> Some outbound)
           (\<lambda>outbound.
             if rc_dialer core \<noteq> None
             then jassign [''streamSettings'', ''sockopt'', ''dialerProxy''] (JStr dialer_tag) outbound
             else Some outbound))"

section \<open>The document\<close>

definition inbound_base :: "ipv4 \<Rightarrow> string \<Rightarrow> nat \<Rightarrow> string \<Rightarrow> (string \<times> jv) list" where
  "inbound_base bind tag port name =
     [(''tag'', JStr tag), (''listen'', JStr (show_ipv4 bind)), (''port'', jnat port),
      (''protocol'', JStr name)]"

text \<open>The outbounds that follow the proxies; they are neither multiplexed nor dialed through.\<close>

definition tail_outbounds :: "'j resolved_core \<Rightarrow> jv list" where
  "tail_outbounds core =
     (case rc_dialer core of Some d \<Rightarrow> [dialer_outbound d] | None \<Rightarrow> [])
     @ [jobj [(''protocol'', JStr ''freedom''), (''tag'', JStr ''direct'')],
        jobj [(''protocol'', JStr ''blackhole''), (''tag'', JStr ''block'')]]"

definition scaffold ::
  "ipv4 \<Rightarrow> nat \<Rightarrow> nat \<Rightarrow> jv list \<Rightarrow> 'j resolved_core \<Rightarrow> jv option" where
  "scaffold bind socks_port http_port proxy_outbounds core =
     map_option (\<lambda>proxies.
         let outbounds = proxies @ tail_outbounds core;
             config = jobj
               [(''log'', jobj [(''loglevel'', JStr (log_level_as_xray (rc_log_level core)))]),
                (''inbounds'', JArr
                   [jobj (inbound_base bind ''socks-in'' socks_port ''socks''
                      @ [(''settings'', jobj [(''auth'', JStr ''noauth''), (''udp'', JBool True)]),
                         (''sniffing'', sniffing_block core)]),
                    jobj (inbound_base bind ''http-in'' http_port ''http''
                      @ [(''sniffing'', sniffing_block core)])]),
                (''outbounds'', JArr outbounds),
                (''routing'', jobj [(''domainStrategy'', JStr (domain_strategy_as_xray (rc_domain_strategy core)))])]
         in (case rc_dns core of Some dns \<Rightarrow> jput ''dns'' (dns_block dns) config | None \<Rightarrow> config))
       (those (map (apply_outbound_core core) proxy_outbounds))"

text \<open>
  \<open>install_rules\<close>. The routing object is updated in place; the caller's config always has one.
\<close>

definition retarget_rule :: "jv \<Rightarrow> jv" where
  "retarget_rule rule =
     (case rule of
        JObj m \<Rightarrow>
          if Option.bind (map_of m ''outboundTag'') as_str = Some ''proxy''
          then JObj (jins ''balancerTag'' (JStr balancer_tag) (jdel ''outboundTag'' m))
          else rule
      | _ \<Rightarrow> rule)"

definition install_rules :: "jv resolved_core \<Rightarrow> jv option \<Rightarrow> jv list \<Rightarrow> jv option \<Rightarrow> jv \<Rightarrow> jv option" where
  "install_rules core api built_in balancer config =
     (let (profile_rules, rest) =
            (case rc_routing core of None \<Rightarrow> ([], []) | Some block \<Rightarrow> routing_parts jv_views block);
          profile_rules = (if balancer \<noteq> None then map retarget_rule profile_rules else profile_rules);
          config = foldl (\<lambda>c (key, value). Option.bind c (jassign [''routing'', key] value)) (Some config) rest;
          rules = (case api of Some r \<Rightarrow> [r] | None \<Rightarrow> []) @ profile_rules @ built_in
                  @ (case balancer of Some r \<Rightarrow> [r] | None \<Rightarrow> [])
      in Option.bind config (jassign [''routing'', ''rules''] (JArr rules)))"

definition private_rule :: jv where
  "private_rule = jobj [(''type'', JStr ''field''), (''ip'', jstrs [''geoip:private'']),
                        (''outboundTag'', JStr ''direct'')]"

definition catch_all_rule :: jv where
  "catch_all_rule = jobj [(''type'', JStr ''field''), (''network'', JStr ''tcp,udp''),
                          (''balancerTag'', JStr balancer_tag)]"

definition api_rule :: jv where
  "api_rule = jobj [(''type'', JStr ''field''), (''inboundTag'', jstrs [''api-in'']),
                    (''outboundTag'', JStr ''api'')]"

definition namespace_outbounds :: "jv list \<Rightarrow> jv list" where
  "namespace_outbounds outbounds =
     map (\<lambda>(index, outbound). case outbound of
         JObj m \<Rightarrow> JObj (jins ''tag'' (JStr (selectable_tag_prefix @ show_nat index)) m)
       | _ \<Rightarrow> outbound)
       (enumerate 0 outbounds)"

definition import_strategy :: "jv list \<Rightarrow> string \<Rightarrow> jv" where
  "import_strategy balancers tag =
     (let chosen = or_else
            (List.find (\<lambda>b. Option.bind (jget ''tag'' b) as_str = Some tag) balancers)
            (case balancers of [] \<Rightarrow> None | b # _ \<Rightarrow> Some b);
          name = unwrap_or
            (filter_opt (\<lambda>n. n \<in> set balancer_strategies)
              (Option.bind (Option.bind chosen (pointer ''/strategy/type'')) as_str)) ''random'';
          strategy = jobj [(''type'', JStr name)]
      in if name = ''leastLoad''
         then jput ''settings''
                (jobj [(''expected'', jnat (max 1 (unwrap_or
                   (Option.bind (Option.bind chosen (pointer ''/strategy/settings/expected'')) as_u64) 1)))])
                strategy
         else strategy)"

definition balancers_value :: "jv \<Rightarrow> jv" where
  "balancers_value strategy =
     JArr [jobj [(''tag'', JStr balancer_tag), (''selector'', jstrs [selectable_tag_prefix]),
                 (''strategy'', strategy)]]"

definition observatory :: "string \<Rightarrow> string \<Rightarrow> jv" where
  "observatory destination interval = jobj
     [(''subjectSelector'', jstrs [selectable_tag_prefix]),
      (''pingConfig'', jobj
         [(''destination'', JStr destination), (''interval'', JStr interval),
          (''timeout'', JStr ''3s''), (''sampling'', jnat 3)])]"

definition generate :: "jv server \<Rightarrow> ipv4 \<Rightarrow> nat \<Rightarrow> nat \<Rightarrow> jv resolved_core \<Rightarrow> gen_error + jv" where
  "generate server bind socks_port http_port core =
     (case srv_spec server of
        XrayProfile proxy_outbounds balancers burst_observatory tag \<Rightarrow>
          or_bail (scaffold bind socks_port http_port (namespace_outbounds proxy_outbounds) core) GenPanic (\<lambda>config.
          or_bail (install_rules core None [private_rule] (Some catch_all_rule) config) GenPanic (\<lambda>config.
            let strategy = import_strategy balancers tag;
                needs_observatory = (burst_observatory \<noteq> None
                  \<or> Option.bind (jget ''type'' strategy) as_str \<in> {Some ''leastPing'', Some ''leastLoad''})
            in or_bail (jassign [''routing'', ''balancers''] (balancers_value strategy) config) GenPanic (\<lambda>config.
                 if needs_observatory
                 then or_bail (jassign [''burstObservatory''] (observatory (rc_pool_probe core) ''5m'') config)
                        GenPanic Inr
                 else Inr config)))
      | _ \<Rightarrow>
          or_bail (outbound_tagged server ''proxy'') GenPanic (\<lambda>outbound.
          or_bail (scaffold bind socks_port http_port [outbound] core) GenPanic (\<lambda>config.
          or_bail (install_rules core None [private_rule] None config) GenPanic Inr)))"

record pool_spec =
  pp_members :: "jv server list"
  pp_strategy :: string
  pp_expected :: nat
  pp_probe_interval :: string

definition member_tag :: "jv server \<Rightarrow> string" where
  "member_tag server = selectable_tag_prefix @ unwrap_or (srv_alias server) (srv_id server)"

text \<open>The loop over the members: the tags already seen and the outbounds so far.\<close>

fun pool_outbounds :: "string list \<Rightarrow> jv server list \<Rightarrow> gen_error + jv list" where
  "pool_outbounds seen [] = Inr []"
| "pool_outbounds seen (server # servers) =
     (let tag = member_tag server
      in ensure (tag \<notin> set seen) (DuplicateTag tag)
           (or_bail (outbound_tagged server tag) (CompositeMember (srv_name server)) (\<lambda>outbound.
             and_then (pool_outbounds (tag # seen) servers) (\<lambda>rest. Inr (outbound # rest)))))"

definition generate_pool ::
  "pool_spec \<Rightarrow> ipv4 \<Rightarrow> nat \<Rightarrow> nat \<Rightarrow> nat \<Rightarrow> jv resolved_core \<Rightarrow> gen_error + jv" where
  "generate_pool spec bind socks_port http_port api_port core =
     ensure (pp_members spec \<noteq> []) NoMembers
       (and_then (pool_outbounds [] (pp_members spec)) (\<lambda>outbounds.
        or_bail (scaffold bind socks_port http_port outbounds core) GenPanic (\<lambda>config.
        or_bail (Option.bind (jget ''inbounds'' config) as_array) GenPanic (\<lambda>inbounds.
          let config = jput ''inbounds'' (JArr (inbounds @
                 [jobj (inbound_base bind ''api-in'' api_port ''dokodemo-door''
                    @ [(''settings'', jobj [(''address'', JStr ''127.0.0.1'')])])])) config;
              strategy = jobj [(''type'', JStr (pp_strategy spec))];
              strategy = (if pp_strategy spec = ''leastLoad''
                then jput ''settings'' (jobj [(''expected'', jnat (max 1 (pp_expected spec)))]) strategy
                else strategy)
          in or_bail (jassign [''routing'', ''balancers''] (balancers_value strategy) config) GenPanic (\<lambda>config.
             or_bail (install_rules core (Some api_rule) [private_rule] (Some catch_all_rule) config) GenPanic (\<lambda>config.
             or_bail (jassign [''burstObservatory'']
                        (observatory (rc_pool_probe core) (pp_probe_interval spec)) config) GenPanic (\<lambda>config.
             or_bail (jassign [''api''] (jobj [(''tag'', JStr ''api''), (''services'', jstrs [''RoutingService''])])
                        config) GenPanic Inr)))))))"

end
