(* ===== verification/Xray_Routes.thy ===== *)
theory Xray_Routes
  imports Xray_Config
begin

text \<open>
  What the generated configuration does: the core's documented reading of a document
  (\<open>xray_route\<close>) and the theorems about the documents of \<open>Xray_Config\<close>. Every builder keeps
  \<open>config_ok\<close>, which names the outbounds of the document; the routing list and the balancers are
  followed through \<open>install_rules\<close>, so that a connection's way out is computed and not assumed.
  The user's routing block enters only as one that \<open>Routing\<close> accepted.
\<close>

section \<open>What the core does with the document\<close>

text \<open>
  Xray's documented reading: the first rule that matches a connection decides, by naming an
  outbound or a balancer (a tag named by both keys is the outbound's); a balancer chooses among
  the outbounds whose tag starts with one of its selectors; a connection no rule matches leaves
  through the first outbound. Which conditions a connection meets is the argument
  \<open>matches\<close>. The result lists the tags the connection can leave through.
\<close>

definition jtag :: "string \<Rightarrow> jv \<Rightarrow> string option" where
  "jtag k v = Option.bind (jget k v) as_str"

definition config_outbounds :: "jv \<Rightarrow> jv list" where
  "config_outbounds c = unwrap_or (Option.bind (jget ''outbounds'' c) as_array) []"

definition config_tags :: "jv \<Rightarrow> string list" where
  "config_tags c = List.map_filter (jtag ''tag'') (config_outbounds c)"

definition routing_list :: "string \<Rightarrow> jv \<Rightarrow> jv list" where
  "routing_list k c = unwrap_or (Option.bind (Option.bind (jget ''routing'' c) (jget k)) as_array) []"

definition selected :: "string list \<Rightarrow> string list \<Rightarrow> string list" where
  "selected selectors tags = filter (\<lambda>t. list_ex (starts_with t) selectors) tags"

definition balancer_targets :: "jv \<Rightarrow> string \<Rightarrow> string list" where
  "balancer_targets c name =
     (case List.find (\<lambda>b. jtag ''tag'' b = Some name) (routing_list ''balancers'' c) of
        None \<Rightarrow> []
      | Some b \<Rightarrow> selected (List.map_filter as_str (unwrap_or (Option.bind (jget ''selector'' b) as_array) []))
                    (config_tags c))"

definition rule_targets :: "jv \<Rightarrow> jv \<Rightarrow> string list" where
  "rule_targets c rule =
     (case jtag ''outboundTag'' rule of
        Some t \<Rightarrow> [t]
      | None \<Rightarrow> (case jtag ''balancerTag'' rule of Some b \<Rightarrow> balancer_targets c b | None \<Rightarrow> []))"

definition xray_route :: "(jv \<Rightarrow> bool) \<Rightarrow> jv \<Rightarrow> string list" where
  "xray_route matches c =
     (case List.find matches (routing_list ''rules'' c) of
        Some rule \<Rightarrow> rule_targets c rule
      | None \<Rightarrow> take 1 (config_tags c))"

section \<open>Lemmas: outbounds\<close>

lemma apply_outbound_core_tag:
  assumes "apply_outbound_core core v = Some v'"
  shows "jget ''tag'' v' = jget ''tag'' v"
proof -
  from assms obtain w where w:
    "(case rc_mux core of
        Some mux \<Rightarrow>
          if \<not> (Option.bind (jget ''protocol'' v) as_str = Some ''hysteria'')
              \<and> (case jget ''mux'' v of None \<Rightarrow> True | Some x \<Rightarrow> x = JNull)
          then jassign [''mux''] (mux_block mux) v else Some v
      | None \<Rightarrow> Some v) = Some w"
    "(if rc_dialer core \<noteq> None
      then jassign [''streamSettings'', ''sockopt'', ''dialerProxy''] (JStr dialer_tag) w else Some w) = Some v'"
    unfolding apply_outbound_core_def Let_def by (auto simp: bind_eq_Some_conv)
  have "jget ''tag'' w = jget ''tag'' v"
    using w(1) jassign_keeps [of "''mux''" "[]" _ v w "''tag''"] by (auto split: option.splits if_splits)
  moreover have "jget ''tag'' v' = jget ''tag'' w"
    using w(2) jassign_keeps [of "''streamSettings''" "[''sockopt'', ''dialerProxy'']" _ w v' "''tag''"]
    by (auto split: if_splits)
  ultimately show ?thesis by simp
qed

lemma those_map_Some:
  "those (map f xs) = Some ys \<longleftrightarrow> list_all2 (\<lambda>x y. f x = Some y) xs ys"
  by (induction xs arbitrary: ys) (auto simp: list_all2_Cons1 split: option.splits)

definition tags_of :: "jv list \<Rightarrow> string list" where
  "tags_of outs = List.map_filter (jtag ''tag'') outs"

lemma tags_of_Nil [simp]: "tags_of [] = []"
  by (simp add: tags_of_def)

lemma tags_of_append: "tags_of (xs @ ys) = tags_of xs @ tags_of ys"
  by (simp add: tags_of_def List.map_filter_def)

lemma tags_of_applied:
  "list_all2 (\<lambda>x y. apply_outbound_core core x = Some y) xs ys \<Longrightarrow> tags_of ys = tags_of xs"
proof (induction rule: list_all2_induct)
  case (Cons x xs y ys)
  then show ?case
    using apply_outbound_core_tag [of core x y]
    by (simp add: tags_of_def List.map_filter_simps jtag_def split: option.splits)
qed (simp add: tags_of_def)

definition extra_tags :: "'j resolved_core \<Rightarrow> string list" where
  "extra_tags core = (if rc_dialer core \<noteq> None then [dialer_tag] else []) @ [''direct'', ''block'']"

lemma extra_tags_unselected: "selected [selectable_tag_prefix] (extra_tags core) = []"
  by (simp add: selected_def extra_tags_def selectable_tag_prefix_def dialer_tag_def)

text \<open>The facts about a configuration every builder keeps.\<close>

definition config_ok :: "string list \<Rightarrow> jv \<Rightarrow> bool" where
  "config_ok tags c =
     (\<exists>m outs r ins. c = JObj m \<and> map_of m ''outbounds'' = Some (JArr outs) \<and> tags_of outs = tags
        \<and> map_of m ''routing'' = Some (JObj r) \<and> map_of m ''inbounds'' = Some (JArr ins))"

lemma config_ok_tags: "config_ok tags c \<Longrightarrow> config_tags c = tags"
  by (auto simp: config_ok_def config_tags_def config_outbounds_def tags_of_def unwrap_or_def)

lemma tags_of_dialer: "tags_of [dialer_outbound d] = [dialer_tag]"
  by (simp add: tags_of_def dialer_outbound_def List.map_filter_simps jtag_def jget_jobj Let_def)

lemma tags_of_builtin:
  "tags_of [jobj [(''protocol'', JStr ''freedom''), (''tag'', JStr ''direct'')],
            jobj [(''protocol'', JStr ''blackhole''), (''tag'', JStr ''block'')]] = [''direct'', ''block'']"
  by (simp add: tags_of_def List.map_filter_simps jtag_def jget_jobj)

lemma scaffold_ok:
  assumes "scaffold bind sp hp outs core = Some c"
  shows "config_ok (tags_of outs @ extra_tags core) c \<and> routing_list ''balancers'' c = []"
proof -
  from assms obtain proxies where p: "those (map (apply_outbound_core core) outs) = Some proxies"
    by (auto simp: scaffold_def)
  then have t: "tags_of proxies = tags_of outs" by (simp add: those_map_Some tags_of_applied)
  have e: "tags_of (tail_outbounds core) = extra_tags core"
    by (simp add: tail_outbounds_def tags_of_append tags_of_dialer tags_of_builtin extra_tags_def split: option.splits)
  show ?thesis
    using assms p t e
    by (auto simp: scaffold_def Let_def config_ok_def routing_list_def jput_def jobj_def map_of_foldl_jins
        tags_of_append unwrap_or_def split: option.splits)
qed

lemma jassign_top:
  assumes "config_ok tags c" and "k \<notin> {''outbounds'', ''routing'', ''inbounds''}"
  shows "\<exists>c'. jassign [k] w c = Some c' \<and> config_ok tags c' \<and> (\<forall>k'. k' \<noteq> k \<longrightarrow> jget k' c' = jget k' c)"
  using assms by (auto simp: config_ok_def)

lemma jassign_routing:
  assumes "config_ok tags c"
  shows "\<exists>c' r. jget ''routing'' c = Some (JObj r)
    \<and> jassign [''routing'', k] w c = Some c' \<and> config_ok tags c'
    \<and> jget ''routing'' c' = Some (JObj (jins k w r))"
  using assms by (auto simp: config_ok_def)

lemma routing_list_cong:
  "jget ''routing'' c' = jget ''routing'' c \<Longrightarrow> routing_list k c' = routing_list k c"
  by (simp add: routing_list_def)

definition profile_block :: "jv resolved_core \<Rightarrow> jv list \<times> entries" where
  "profile_block core = (case rc_routing core of None \<Rightarrow> ([], []) | Some block \<Rightarrow> routing_parts jv_views block)"

definition profile_rules :: "jv resolved_core \<Rightarrow> bool \<Rightarrow> jv list" where
  "profile_rules core balanced =
     (if balanced then map retarget_rule (fst (profile_block core)) else fst (profile_block core))"

definition routing_of :: "jv \<Rightarrow> entries" where
  "routing_of c = unwrap_or (Option.bind (jget ''routing'' c) as_object) []"

lemma routing_list_of: "config_ok tags c \<Longrightarrow>
    routing_list k c = unwrap_or (Option.bind (map_of (routing_of c) k) as_array) []"
  by (auto simp: config_ok_def routing_list_def routing_of_def unwrap_or_def)

lemma jassign_routing_step:
  assumes "config_ok tags c"
  shows "\<exists>c'. jassign [''routing'', k] w c = Some c' \<and> config_ok tags c'
    \<and> routing_of c' = jins k w (routing_of c) \<and> (\<forall>k'. k' \<noteq> ''routing'' \<longrightarrow> jget k' c' = jget k' c)"
proof -
  from assms obtain m r where "c = JObj m" "map_of m ''routing'' = Some (JObj r)"
    by (auto simp: config_ok_def)
  moreover define c' where "c' = JObj (jins ''routing'' (JObj (jins k w r)) m)"
  ultimately have "jassign [''routing'', k] w c = Some c'" "routing_of c' = jins k w (routing_of c)"
    "\<forall>k'. k' \<noteq> ''routing'' \<longrightarrow> jget k' c' = jget k' c"
    by (simp_all add: routing_of_def unwrap_or_def)
  moreover have "config_ok tags c'"
    using assms \<open>c = JObj m\<close> by (auto simp: config_ok_def c'_def)
  ultimately show ?thesis by blast
qed

lemma fold_routing:
  "config_ok tags c \<Longrightarrow>
   \<exists>c'. foldl (\<lambda>c (key, value). Option.bind c (jassign [''routing'', key] value)) (Some c) rest = Some c'
     \<and> config_ok tags c' \<and> routing_of c' = foldl (\<lambda>m (k, v). jins k v m) (routing_of c) rest
     \<and> (\<forall>k. k \<noteq> ''routing'' \<longrightarrow> jget k c' = jget k c)"
proof (induction rest arbitrary: c)
  case (Cons e rest)
  obtain k v where e: "e = (k, v)" by (cases e)
  obtain c1 where c1: "jassign [''routing'', k] v c = Some c1" "config_ok tags c1"
    "routing_of c1 = jins k v (routing_of c)" "\<forall>k'. k' \<noteq> ''routing'' \<longrightarrow> jget k' c1 = jget k' c"
    using jassign_routing_step [OF Cons.prems, of k v] by blast
  from Cons.IH [OF c1(2)] obtain c2 where
    "foldl (\<lambda>c (key, value). Option.bind c (jassign [''routing'', key] value)) (Some c1) rest = Some c2"
    "config_ok tags c2" "routing_of c2 = foldl (\<lambda>m (k, v). jins k v m) (routing_of c1) rest"
    "\<forall>k. k \<noteq> ''routing'' \<longrightarrow> jget k c2 = jget k c1" by blast
  with c1 e show ?case by (simp del: jassign.simps)
qed simp

lemma install_rules_eq:
  "install_rules core api built_in balancer c =
     Option.bind
       (foldl (\<lambda>c (key, value). Option.bind c (jassign [''routing'', key] value)) (Some c)
         (snd (profile_block core)))
       (jassign [''routing'', ''rules'']
         (JArr ((case api of Some r \<Rightarrow> [r] | None \<Rightarrow> []) @ profile_rules core (balancer \<noteq> None) @ built_in
           @ (case balancer of Some r \<Rightarrow> [r] | None \<Rightarrow> []))))"
  unfolding install_rules_def profile_block_def profile_rules_def Let_def split_beta by (rule refl)

lemma install_rules_ok:
  assumes "config_ok tags c"
  shows "\<exists>c'. install_rules core api built_in balancer c = Some c' \<and> config_ok tags c'
    \<and> routing_list ''rules'' c' = (case api of Some r \<Rightarrow> [r] | None \<Rightarrow> [])
           @ profile_rules core (balancer \<noteq> None) @ built_in @ (case balancer of Some r \<Rightarrow> [r] | None \<Rightarrow> [])
    \<and> (\<forall>k. k \<noteq> ''routing'' \<longrightarrow> jget k c' = jget k c)
    \<and> (\<forall>k. k \<notin> insert ''rules'' (fst ` set (snd (profile_block core))) \<longrightarrow> routing_list k c' = routing_list k c)"
proof -
  let ?rest = "snd (profile_block core)"
  let ?rules = "(case api of Some r \<Rightarrow> [r] | None \<Rightarrow> []) @ profile_rules core (balancer \<noteq> None) @ built_in
    @ (case balancer of Some r \<Rightarrow> [r] | None \<Rightarrow> [])"
  obtain c1 where c1: "foldl (\<lambda>c (key, value). Option.bind c (jassign [''routing'', key] value)) (Some c) ?rest = Some c1"
    "config_ok tags c1" "routing_of c1 = foldl (\<lambda>m (k, v). jins k v m) (routing_of c) ?rest"
    "\<forall>k. k \<noteq> ''routing'' \<longrightarrow> jget k c1 = jget k c"
    using fold_routing [OF assms] by blast
  obtain c2 where c2: "jassign [''routing'', ''rules''] (JArr ?rules) c1 = Some c2" "config_ok tags c2"
    "routing_of c2 = jins ''rules'' (JArr ?rules) (routing_of c1)"
    "\<forall>k'. k' \<noteq> ''routing'' \<longrightarrow> jget k' c2 = jget k' c1"
    using jassign_routing_step [OF c1(2), of "''rules''" "JArr ?rules"] by blast
  have i: "install_rules core api built_in balancer c = Some c2"
    unfolding install_rules_eq c1(1) using c2(1) by (simp del: jassign.simps)
  have "routing_list k c2 = routing_list k c" if "k \<notin> insert ''rules'' (fst ` set ?rest)" for k
  proof -
    have "map_of (rev ?rest) k = None" using that by (simp add: map_of_eq_None_iff)
    then have "map_of (routing_of c1) k = map_of (routing_of c) k"
      by (simp add: c1(3) map_of_foldl_jins map_add_def)
    with that show ?thesis by (simp add: routing_list_of [OF c2(2)] routing_list_of [OF assms] c2(3))
  qed
  moreover have "routing_list ''rules'' c2 = ?rules"
    by (simp add: routing_list_of [OF c2(2)] c2(3) unwrap_or_def)
  moreover have "\<forall>k. k \<noteq> ''routing'' \<longrightarrow> jget k c2 = jget k c" using c1(4) c2(4) by simp
  ultimately show ?thesis using i c2(2) by blast
qed

definition routing_checked :: "(string \<Rightarrow> jv option) \<Rightarrow> shape \<Rightarrow> jv resolved_core \<Rightarrow> bool" where
  "routing_checked parse shape core =
     (\<forall>block. rc_routing core = Some block \<longrightarrow>
        (\<exists>raw. routing_validate (jv_views\<lparr>js_parse := parse\<rparr>) raw shape = Inr block))"

lemma jv_views_simps [simp]:
  "js_object (jv_views\<lparr>js_parse := parse\<rparr>) = as_object" "js_array (jv_views\<lparr>js_parse := parse\<rparr>) = as_array"
  "js_str (jv_views\<lparr>js_parse := parse\<rparr>) = as_str"
  "js_object jv_views = as_object" "js_array jv_views = as_array" "js_str jv_views = as_str"
  by (simp_all add: jv_views_def)

lemma routing_checked_block:
  assumes "routing_checked parse shape core"
  shows "fst ` set (snd (profile_block core)) \<inter> {''balancers'', ''domainStrategy'', ''rules''} = {}
    \<and> (\<forall>rule\<in>set (fst (profile_block core)). rule_ok jv_views shape rule)"
proof (cases "rc_routing core")
  case (Some block)
  with assms obtain raw where "routing_validate (jv_views\<lparr>js_parse := parse\<rparr>) raw shape = Inr block"
    by (auto simp: routing_checked_def)
  then obtain m rules where m: "as_object block = Some m" "map_of m ''balancers'' = None"
    "map_of m ''domainStrategy'' = None" "block_rules (jv_views\<lparr>js_parse := parse\<rparr>) m = Some rules"
    "\<forall>rule\<in>set rules. rule_ok (jv_views\<lparr>js_parse := parse\<rparr>) shape rule"
    unfolding routing_validate_iff by auto
  have "rule_ok (jv_views\<lparr>js_parse := parse\<rparr>) shape = rule_ok jv_views shape"
    by (rule ext) (simp add: rule_ok_def cong: option.case_cong)
  with m(5) have "\<forall>rule\<in>set rules. rule_ok jv_views shape rule" by simp
  moreover have "fst (routing_parts jv_views block) = rules"
    using m(1,4) by (auto simp: routing_parts_def block_rules_def split: option.splits)
  moreover have "fst ` set (snd (routing_parts jv_views block)) \<inter> {''balancers'', ''domainStrategy'', ''rules''} = {}"
    using m(1-3) by (auto simp: routing_parts_def map_of_eq_None_iff image_iff)
  ultimately show ?thesis using Some by (simp add: profile_block_def)
qed (simp add: profile_block_def)

lemma install_rules_checked:
  assumes "config_ok tags c" and "routing_checked parse shape core"
    and "install_rules core api built_in balancer c = Some c'"
  shows "config_ok tags c'"
    and "routing_list ''rules'' c' = (case api of Some r \<Rightarrow> [r] | None \<Rightarrow> [])
           @ profile_rules core (balancer \<noteq> None) @ built_in @ (case balancer of Some r \<Rightarrow> [r] | None \<Rightarrow> [])"
    and "routing_list ''balancers'' c' = routing_list ''balancers'' c"
proof -
  obtain c2 where c2: "install_rules core api built_in balancer c = Some c2" "config_ok tags c2"
    "routing_list ''rules'' c2 = (case api of Some r \<Rightarrow> [r] | None \<Rightarrow> [])
           @ profile_rules core (balancer \<noteq> None) @ built_in @ (case balancer of Some r \<Rightarrow> [r] | None \<Rightarrow> [])"
    "\<forall>k. k \<notin> insert ''rules'' (fst ` set (snd (profile_block core))) \<longrightarrow> routing_list k c2 = routing_list k c"
    using install_rules_ok [OF assms(1)] by blast
  have e: "c2 = c'" using assms(3) c2(1) by simp
  have n: "''balancers'' \<notin> insert ''rules'' (fst ` set (snd (profile_block core)))"
  proof
    assume "''balancers'' \<in> insert ''rules'' (fst ` set (snd (profile_block core)))"
    then have "''balancers'' \<in> fst ` set (snd (profile_block core))" by (rule insertE) simp_all
    with conjunct1 [OF routing_checked_block [OF assms(2)]] show False by blast
  qed
  have b: "routing_list ''balancers'' c2 = routing_list ''balancers'' c" using c2(4) [rule_format, OF n] .
  show "config_ok tags c'" using c2(2) unfolding e .
  show "routing_list ''rules'' c' = (case api of Some r \<Rightarrow> [r] | None \<Rightarrow> [])
           @ profile_rules core (balancer \<noteq> None) @ built_in @ (case balancer of Some r \<Rightarrow> [r] | None \<Rightarrow> [])"
    using c2(3) unfolding e .
  show "routing_list ''balancers'' c' = routing_list ''balancers'' c" using b unfolding e .
qed

section \<open>Lemmas: the generated documents\<close>

definition keeps_tag :: "jv \<Rightarrow> bool" where
  "keeps_tag patch = (case patch of JObj p \<Rightarrow> map_of p ''tag'' = None | _ \<Rightarrow> False)"

definition patch_keeps_tag :: "jv server \<Rightarrow> bool" where
  "patch_keeps_tag server =
     (case srv_outbound_patch server of Some patch \<Rightarrow> keeps_tag patch | None \<Rightarrow> True)"

lemma merge_entries_other: "map_of p k = None \<Longrightarrow> map_of (merge_entries slots p) k = map_of slots k"
  by (induction p arbitrary: slots) (auto split: if_splits option.splits)

lemma merge_patch_tag: "keeps_tag patch \<Longrightarrow> jget ''tag'' (merge_patch (JObj m) patch) = map_of m ''tag''"
  by (cases patch) (simp_all add: keeps_tag_def slots_of_def merge_entries_other)

lemma protocol_outbound_tag:
  "protocol_outbound addr port tag spec = Some v \<Longrightarrow> \<exists>m. v = JObj m \<and> map_of m ''tag'' = Some (JStr tag)"
  by (cases spec) (auto simp: protocol_outbound_def jobj_def map_of_foldl_jins simp del: foldl.simps)

lemma outbound_tagged_tag:
  assumes "outbound_tagged server tag = Some v"
    and "patch_keeps_tag server"
  shows "tags_of [v] = [tag]"
  using assms merge_patch_tag
  by (auto simp: outbound_tagged_def tags_of_def List.map_filter_simps jtag_def patch_keeps_tag_def
      dest!: protocol_outbound_tag split: option.splits)

lemma pool_outbounds_ok:
  "pool_outbounds seen members = Inr outs \<Longrightarrow>
   list_all patch_keeps_tag members \<Longrightarrow>
   tags_of outs = map member_tag members \<and> distinct (map member_tag members)
   \<and> set (map member_tag members) \<inter> set seen = {}"
proof (induction members arbitrary: seen outs)
  case (Cons m members)
  from Cons.prems(1) obtain v rest where v: "member_tag m \<notin> set seen"
    "outbound_tagged m (member_tag m) = Some v" "pool_outbounds (member_tag m # seen) members = Inr rest"
    "outs = v # rest"
    by (auto simp: Let_def or_bail_Inr_iff and_then_Inr_iff)
  have "tags_of [v] = [member_tag m]" using v(2) Cons.prems(2) by (intro outbound_tagged_tag) auto
  moreover have "tags_of rest = map member_tag members \<and> distinct (map member_tag members)
      \<and> set (map member_tag members) \<inter> set (member_tag m # seen) = {}"
    using Cons.prems(2) by (intro Cons.IH [OF v(3)]) auto
  ultimately show ?case using v tags_of_append [of "[v]" rest] by auto
qed simp

lemma selected_append: "selected ss (xs @ ys) = selected ss xs @ selected ss ys"
  by (simp add: selected_def)

lemma selected_all: "(\<And>t. t \<in> set ts \<Longrightarrow> starts_with t p) \<Longrightarrow> selected [p] ts = ts"
  by (simp add: selected_def)

lemma member_tag_selected: "starts_with (member_tag m) selectable_tag_prefix"
  by (simp add: member_tag_def starts_with_iff)

lemma pool_balancer_targets:
  assumes "config_ok (tags @ extra_tags core) c" and "routing_list ''balancers'' c = (case balancers_value strategy of JArr bs \<Rightarrow> bs | _ \<Rightarrow> [])"
    and "\<And>t. t \<in> set tags \<Longrightarrow> starts_with t selectable_tag_prefix"
  shows "balancer_targets c balancer_tag = tags"
proof -
  have "selected [selectable_tag_prefix] tags = tags" using assms(3) by (rule selected_all)
  then show ?thesis
    using config_ok_tags [OF assms(1)] assms(2) extra_tags_unselected [of core]
    by (simp add: balancer_targets_def balancers_value_def jtag_def jget_jobj jstrs_def unwrap_or_def
        List.map_filter_simps selected_append balancer_tag_def)
qed

lemma catch_all_targets: "rule_targets c catch_all_rule = balancer_targets c balancer_tag"
  by (simp add: rule_targets_def catch_all_rule_def jtag_def jget_jobj)

lemma find_append: "List.find P (xs @ ys) = (case List.find P xs of None \<Rightarrow> List.find P ys | Some x \<Rightarrow> Some x)"
  by (induction xs) auto

definition balancer_of :: "jv \<Rightarrow> jv list" where
  "balancer_of strategy =
     [jobj [(''tag'', JStr balancer_tag), (''selector'', jstrs [selectable_tag_prefix]), (''strategy'', strategy)]]"

lemma balancers_value_JArr: "balancers_value strategy = JArr (balancer_of strategy)"
  by (simp add: balancers_value_def balancer_of_def)

lemma pool_targets:
  assumes "config_ok (tags @ extra_tags core) c" and "routing_list ''balancers'' c = balancer_of strategy"
    and "\<And>t. t \<in> set tags \<Longrightarrow> starts_with t selectable_tag_prefix"
  shows "balancer_targets c balancer_tag = tags"
  using pool_balancer_targets [OF assms(1) _ assms(3)] assms(2) by (simp add: balancers_value_JArr)

lemma generate_pool_shape:
  assumes "generate_pool spec bind sp hp ap core = Inr c" and "routing_checked parse PoolShape core"
    and "list_all patch_keeps_tag (pp_members spec)"
  shows "\<exists>strategy. config_ok (map member_tag (pp_members spec) @ extra_tags core) c
    \<and> routing_list ''rules'' c = api_rule # profile_rules core True @ [private_rule, catch_all_rule]
    \<and> routing_list ''balancers'' c = balancer_of strategy"
proof -
  let ?tags = "map member_tag (pp_members spec) @ extra_tags core"
  from assms(1) obtain outs c0 ins c1 c2 c3 strategy where
    o: "pool_outbounds [] (pp_members spec) = Inr outs"
    and c0: "scaffold bind sp hp outs core = Some c0"
    and c1: "c1 = jput ''inbounds'' (JArr ins) c0"
    and c2: "jassign [''routing'', ''balancers''] (balancers_value strategy) c1 = Some c2"
    and c3: "install_rules core (Some api_rule) [private_rule] (Some catch_all_rule) c2 = Some c3"
    and c4: "\<exists>w c4. jassign [''burstObservatory''] w c3 = Some c4 \<and> (\<exists>w. jassign [''api''] w c4 = Some c)"
    unfolding generate_pool_def Let_def ensure_Inr_iff and_then_Inr_iff or_bail_Inr_iff
    by (elim conjE exE) (rule that, assumption, assumption, rule refl, assumption, assumption, blast)
  have "tags_of outs = map member_tag (pp_members spec)" using pool_outbounds_ok [OF o assms(3)] by blast
  then have k0: "config_ok ?tags c0" using scaffold_ok [OF c0] by simp
  then have k1: "config_ok ?tags c1" unfolding c1 by (auto simp: config_ok_def jput_def)
  from jassign_routing_step [OF k1, of "''balancers''" "balancers_value strategy"] c2
  have k2: "config_ok ?tags c2" "routing_of c2 = jins ''balancers'' (balancers_value strategy) (routing_of c1)"
    by auto
  then have b2: "routing_list ''balancers'' c2 = balancer_of strategy"
    by (simp add: routing_list_of [OF k2(1)] balancers_value_JArr unwrap_or_def)
  have k3: "config_ok ?tags c3"
    "routing_list ''rules'' c3 = api_rule # profile_rules core True @ [private_rule, catch_all_rule]"
    "routing_list ''balancers'' c3 = balancer_of strategy"
    using install_rules_checked [OF k2(1) assms(2) c3] b2 by simp_all
  from c4 obtain w c4 w' where c4: "jassign [''burstObservatory''] w c3 = Some c4" "jassign [''api''] w' c4 = Some c"
    by blast
  have k4: "config_ok ?tags c4" "jget ''routing'' c4 = jget ''routing'' c3"
    using jassign_top [OF k3(1), of "''burstObservatory''" w] c4(1) by auto
  have k5: "config_ok ?tags c" "jget ''routing'' c = jget ''routing'' c4"
    using jassign_top [OF k4(1), of "''api''" w'] c4(2) by auto
  have "routing_list k c = routing_list k c3" for k using k4(2) k5(2) by (intro routing_list_cong) simp
  with k3 k5(1) show ?thesis by auto
qed


text \<open>An imported profile: the outbounds are objects, which is what the importer keeps.\<close>

definition imported_tags :: "nat \<Rightarrow> string list" where
  "imported_tags n = map (\<lambda>i. selectable_tag_prefix @ show_nat i) [0..<n]"

lemma tags_of_enumerate:
  "list_all (\<lambda>v. as_object v \<noteq> None) outs \<Longrightarrow>
   tags_of (map (\<lambda>(index, outbound). case outbound of
         JObj m \<Rightarrow> JObj (jins ''tag'' (JStr (selectable_tag_prefix @ show_nat index)) m)
       | _ \<Rightarrow> outbound) (enumerate n outs))
   = map (\<lambda>i. selectable_tag_prefix @ show_nat i) [n..<n + length outs]"
proof (induction outs arbitrary: n)
  case (Cons v outs)
  then obtain m where v: "v = JObj m" by (cases v) auto
  have "tags_of [JObj (jins ''tag'' (JStr (selectable_tag_prefix @ show_nat n)) m)]
      = [selectable_tag_prefix @ show_nat n]"
    by (simp add: tags_of_def List.map_filter_simps jtag_def)
  moreover have "[n..<n + length (v # outs)] = n # [Suc n..<Suc n + length outs]"
    by (simp add: upt_conv_Cons del: upt_Suc)
  ultimately show ?case
    using Cons.IH [of "Suc n"] Cons.prems v
      tags_of_append [of "[JObj (jins ''tag'' (JStr (selectable_tag_prefix @ show_nat n)) m)]"]
    by (simp del: show_nat.simps upt_Suc)
qed simp

lemma namespaced_tags:
  "list_all (\<lambda>v. as_object v \<noteq> None) outs \<Longrightarrow> tags_of (namespace_outbounds outs) = imported_tags (length outs)"
  using tags_of_enumerate [of outs 0] by (simp add: namespace_outbounds_def imported_tags_def)

lemma generate_imported_shape:
  assumes "generate server bind sp hp core = Inr c" and "routing_checked parse SingleServer core"
    and "srv_spec server = XrayProfile outs balancers burst tag" and "list_all (\<lambda>v. as_object v \<noteq> None) outs"
  shows "config_ok (imported_tags (length outs) @ extra_tags core) c
    \<and> routing_list ''rules'' c = profile_rules core True @ [private_rule, catch_all_rule]
    \<and> routing_list ''balancers'' c = balancer_of (import_strategy balancers tag)"
proof -
  let ?tags = "imported_tags (length outs) @ extra_tags core"
  from assms(1,3) obtain c0 c1 c2 where
    c0: "scaffold bind sp hp (namespace_outbounds outs) core = Some c0"
    and c1: "install_rules core None [private_rule] (Some catch_all_rule) c0 = Some c1"
    and c2: "jassign [''routing'', ''balancers''] (balancers_value (import_strategy balancers tag)) c1 = Some c2"
    and c3: "c = c2 \<or> (\<exists>w. jassign [''burstObservatory''] w c2 = Some c)"
    by (auto simp: generate_def Let_def or_bail_Inr_iff simp del: jassign.simps split: if_splits)
  have k0: "config_ok ?tags c0" using scaffold_ok [OF c0] namespaced_tags [OF assms(4)] by simp
  have k1: "config_ok ?tags c1" "routing_list ''rules'' c1 = profile_rules core True @ [private_rule, catch_all_rule]"
    using install_rules_checked [OF k0 assms(2) c1] by simp_all
  from jassign_routing_step [OF k1(1), of "''balancers''" "balancers_value (import_strategy balancers tag)"] c2
  have k2: "config_ok ?tags c2"
    "routing_of c2 = jins ''balancers'' (balancers_value (import_strategy balancers tag)) (routing_of c1)"
    by auto
  have b2: "routing_list ''balancers'' c2 = balancer_of (import_strategy balancers tag)"
    "routing_list ''rules'' c2 = routing_list ''rules'' c1"
    by (simp_all add: routing_list_of [OF k2(1)] routing_list_of [OF k1(1)] k2(2) balancers_value_JArr unwrap_or_def)
  have "config_ok ?tags c \<and> jget ''routing'' c = jget ''routing'' c2"
    using c3
  proof
    assume "\<exists>w. jassign [''burstObservatory''] w c2 = Some c"
    then obtain w where "jassign [''burstObservatory''] w c2 = Some c" by blast
    then show ?thesis using jassign_top [OF k2(1), of "''burstObservatory''" w] by auto
  qed (use k2 in simp)
  with b2 k1(2) show ?thesis using routing_list_cong [of c c2] by simp
qed

text \<open>C2: an imported Xray profile cannot route the tunnel into the clear. Whatever its balancers,
selectors, tags, observatory and outbounds say, a connection that meets no rule of the user's
profile and is not for a private address is balanced over exactly the imported proxies, under tags
the program gave them, and never over the direct, the blocking or the dialing outbound.\<close>

theorem imported_profile_stays_in_tunnel:
  assumes "generate server bind sp hp core = Inr c" and "routing_checked parse SingleServer core"
    and "srv_spec server = XrayProfile outs balancers burst tag" and "list_all (\<lambda>v. as_object v \<noteq> None) outs"
    and "\<And>r. r \<in> set (profile_rules core True) \<Longrightarrow> \<not> matches r"
    and "\<not> matches private_rule" and "matches catch_all_rule"
  shows "xray_route matches c = imported_tags (length outs)
    \<and> set (xray_route matches c) \<inter> {''direct'', ''block'', dialer_tag} = {}"
proof -
  have s: "config_ok (imported_tags (length outs) @ extra_tags core) c"
    "routing_list ''rules'' c = profile_rules core True @ [private_rule, catch_all_rule]"
    "routing_list ''balancers'' c = balancer_of (import_strategy balancers tag)"
    using generate_imported_shape [OF assms(1-4)] by simp_all
  have "List.find matches (profile_rules core True) = None"
    using assms(5) by (simp add: find_None_iff_set)
  then have "List.find matches (routing_list ''rules'' c) = Some catch_all_rule"
    using s(2) assms(6,7) by (simp add: find_append)
  moreover have "balancer_targets c balancer_tag = imported_tags (length outs)"
    using s(1,3) by (rule pool_targets) (auto simp: imported_tags_def starts_with_iff)
  ultimately have "xray_route matches c = imported_tags (length outs)"
    by (simp add: xray_route_def catch_all_targets)
  then show ?thesis
    by (auto simp: imported_tags_def selectable_tag_prefix_def dialer_tag_def)
qed

text \<open>A session on one server.\<close>

lemma generate_single:
  assumes "\<And>outs balancers burst tag. srv_spec server \<noteq> XrayProfile outs balancers burst tag"
  shows "generate server bind sp hp core =
    or_bail (outbound_tagged server ''proxy'') GenPanic (\<lambda>outbound.
      or_bail (scaffold bind sp hp [outbound] core) GenPanic (\<lambda>config.
      or_bail (install_rules core None [private_rule] None config) GenPanic Inr))"
  using assms by (simp add: generate_def split: outbound_spec.splits)

lemma generate_single_shape:
  assumes "generate server bind sp hp core = Inr c" and "routing_checked parse SingleServer core"
    and "\<And>outs balancers burst tag. srv_spec server \<noteq> XrayProfile outs balancers burst tag"
    and "patch_keeps_tag server"
  shows "config_ok (''proxy'' # extra_tags core) c
    \<and> routing_list ''rules'' c = profile_rules core False @ [private_rule]"
proof -
  from assms(1) obtain v c0 where v: "outbound_tagged server ''proxy'' = Some v"
    and c0: "scaffold bind sp hp [v] core = Some c0"
    and c1: "install_rules core None [private_rule] None c0 = Some c"
    unfolding generate_single [OF assms(3)] by (auto simp: or_bail_Inr_iff)
  have k0: "config_ok (''proxy'' # extra_tags core) c0"
    using scaffold_ok [OF c0] outbound_tagged_tag [OF v assms(4)] by simp
  show ?thesis using install_rules_checked [OF k0 assms(2) c1] by simp
qed


section \<open>When a configuration can be built\<close>

definition object_or_null :: "jv option \<Rightarrow> bool" where
  "object_or_null v = (case v of None \<Rightarrow> True | Some JNull \<Rightarrow> True | Some (JObj _) \<Rightarrow> True | Some _ \<Rightarrow> False)"

text \<open>An outbound the dialer can be attached to.\<close>

definition dialable :: "jv \<Rightarrow> bool" where
  "dialable v =
     (as_object v \<noteq> None \<and> object_or_null (jget ''streamSettings'' v)
      \<and> object_or_null (Option.bind (jget ''streamSettings'' v) (jget ''sockopt'')))"

lemma jassign_dialer:
  "as_object v \<noteq> None \<Longrightarrow>
   (jassign [''streamSettings'', ''sockopt'', ''dialerProxy''] w v = None) = (\<not> dialable v)"
  by (cases v) (auto simp: dialable_def object_or_null_def split: option.splits jv.splits)

lemma dialable_mux: "as_object v = Some m \<Longrightarrow> dialable (jput ''mux'' w v) = dialable v"
  by (cases v) (auto simp: dialable_def jput_def)

lemma apply_outbound_core_None_iff:
  assumes "as_object v \<noteq> None"
  shows "apply_outbound_core core v = None \<longleftrightarrow> rc_dialer core \<noteq> None \<and> \<not> dialable v"
proof -
  from assms obtain m where m: "as_object v = Some m" by blast
  let ?w = "\<lambda>mux. jput ''mux'' (mux_block mux) v"
  have o: "as_object (?w mux) \<noteq> None" for mux using m by (cases v) (simp_all add: jput_def)
  have d: "dialable (?w mux) = dialable v" for mux using dialable_mux [OF m] .
  show ?thesis
    using jassign_dialer [OF assms] jassign_dialer [OF o] d
    by (auto simp: apply_outbound_core_def Let_def jassign_one [OF m] simp del: jassign.simps split: option.splits)
qed

lemma scaffold_None_iff:
  assumes "list_all (\<lambda>v. as_object v \<noteq> None) outs"
  shows "scaffold bind sp hp outs core = None \<longleftrightarrow> rc_dialer core \<noteq> None \<and> \<not> list_all dialable outs"
proof -
  have "those (map (apply_outbound_core core) outs) = None
      \<longleftrightarrow> rc_dialer core \<noteq> None \<and> \<not> list_all dialable outs"
    using assms
  proof (induction outs)
    case (Cons v outs)
    then show ?case
      using apply_outbound_core_None_iff [of v core] by (cases "apply_outbound_core core v") auto
  qed simp
  then show ?thesis by (simp add: scaffold_def Let_def)
qed

lemma foldl_jput_object: "\<exists>m. foldl (\<lambda>v (k, w). jput k w v) (JObj m0) kvs = JObj m"
  by (induction kvs arbitrary: m0) (auto simp: jput_def)

lemma foldl_jput_get:
  "k \<notin> fst ` set kvs \<Longrightarrow> jget k (foldl (\<lambda>v (k, w). jput k w v) (JObj m) kvs) = map_of m k"
proof (induction kvs arbitrary: m)
  case (Cons e kvs)
  then show ?case by (cases e) (auto simp: jput_def)
qed simp

lemma network_block_key: "network_block s = Some (k, w) \<Longrightarrow> k \<noteq> ''sockopt''"
  by (auto simp: network_block_def Let_def split: if_splits)

lemma security_block_keys: "''sockopt'' \<notin> fst ` set (security_block s)"
  by (cases "ss_security s = ''tls''"; cases "ss_security s = ''reality''") (simp_all add: security_block_def)

lemma jobj_without: "k \<notin> fst ` set kvs \<Longrightarrow> \<exists>m. jobj kvs = JObj m \<and> map_of m k = None"
proof -
  assume k: "k \<notin> fst ` set kvs"
  obtain m where m: "as_object (jobj kvs) = Some m" "map_of m k = map_of (rev kvs) k"
    using as_object_jobj [of kvs] by blast
  from m(1) have "jobj kvs = JObj m" by (cases "jobj kvs") simp_all
  moreover have "map_of (rev kvs) k = None" using k by (simp add: map_of_eq_None_iff)
  ultimately show ?thesis using m(2) by simp
qed

lemma stream_settings_object:
  "\<exists>m. stream_settings_json s = JObj m \<and> map_of m ''sockopt'' = None"
proof -
  let ?kvs = "(case network_block s of None \<Rightarrow> [] | Some b \<Rightarrow> [b]) @ security_block s"
  obtain m0 where m0: "jobj [(''network'', JStr (network_name (ss_network s)))] = JObj m0"
    "map_of m0 ''sockopt'' = None"
    by (simp add: jobj_def)
  obtain m where m: "stream_settings_json s = JObj m"
    using foldl_jput_object [of m0 ?kvs] by (auto simp: stream_settings_json_def m0(1))
  have "''sockopt'' \<notin> fst ` set ?kvs"
    using security_block_keys [of s] network_block_key [of s] by (cases "network_block s") (auto simp del: set_append)
  then have "jget ''sockopt'' (stream_settings_json s) = None"
    using foldl_jput_get [of "''sockopt''" ?kvs m0] m0 by (simp add: stream_settings_json_def del: foldl_append set_append)
  with m show ?thesis by simp
qed

lemma hysteria2_stream_object:
  "\<exists>m. hysteria2_stream auth s port = JObj m \<and> map_of m ''sockopt'' = None"
proof -
  let ?ok = "\<lambda>v. \<exists>m. v = JObj m \<and> map_of m ''sockopt'' = None"
  have base: "?ok (jobj [(''network'', a), (''security'', b), (''tlsSettings'', c), (''hysteriaSettings'', d)])" for a b c d
    by (rule jobj_without) simp
  have put: "?ok (jput ''finalmask'' w v)" if "?ok v" for w v
    using that by (auto simp: jput_def)
  show ?thesis
    unfolding hysteria2_stream_def Let_def using base put by (auto split: option.splits)
qed

lemma protocol_outbound_dialable:
  assumes "protocol_outbound addr port tag spec = Some v"
  shows "dialable v"
proof -
  have o: "as_object v \<noteq> None" using protocol_outbound_tag [OF assms] by auto
  have s: "jget ''streamSettings'' v \<in> {None} \<union> (Some ` {JObj m | m. map_of m ''sockopt'' = None})"
  proof (cases spec)
    case (Hysteria2 auth settings)
    then show ?thesis
      using assms hysteria2_stream_object [of auth settings port] by (auto simp: protocol_outbound_def jget_jobj)
  qed (use assms stream_settings_object in \<open>auto simp: protocol_outbound_def jget_jobj\<close>)
  then show ?thesis using o by (auto simp: dialable_def object_or_null_def)
qed

lemma outbound_tagged_None_iff:
  "outbound_tagged server tag = None \<longleftrightarrow> (\<exists>outs balancers burst t. srv_spec server = XrayProfile outs balancers burst t)"
  by (cases "srv_spec server") (auto simp: outbound_tagged_def protocol_outbound_def)

lemma outbound_tagged_dialable:
  "outbound_tagged server tag = Some v \<Longrightarrow> srv_outbound_patch server = None \<Longrightarrow> dialable v"
  by (auto simp: outbound_tagged_def dest: protocol_outbound_dialable)

lemma generate_single_ok:
  assumes "srv_outbound_patch server = None"
    and "\<And>outs balancers burst tag. srv_spec server \<noteq> XrayProfile outs balancers burst tag"
  shows "\<exists>c. generate server bind sp hp core = Inr c"
proof -
  obtain v where v: "outbound_tagged server ''proxy'' = Some v"
    using outbound_tagged_None_iff [of server "''proxy''"] assms(2) by (cases "outbound_tagged server ''proxy''") auto
  have d: "dialable v" using outbound_tagged_dialable [OF v assms(1)] .
  then have o: "list_all (\<lambda>v. as_object v \<noteq> None) [v]" by (simp add: dialable_def)
  obtain c0 where c0: "scaffold bind sp hp [v] core = Some c0"
    using scaffold_None_iff [OF o, of bind sp hp core] d by (cases "scaffold bind sp hp [v] core") auto
  obtain c where "install_rules core None [private_rule] None c0 = Some c"
    using install_rules_ok [OF conjunct1 [OF scaffold_ok [OF c0]], of core None "[private_rule]" None] by blast
  with v c0 show ?thesis by (simp add: generate_single [OF assms(2)])
qed

text \<open>a single server without a patch always gets a configuration: whatever the settings of the core
and the profile's routing block are, building it neither panics nor fails.\<close>

theorem generate_total:
  assumes "srv_outbound_patch server = None" and "outbound_tagged server [] \<noteq> None"
  shows "is_ok (generate server bind sp hp core)"
proof -
  have "\<And>outs balancers burst tag. srv_spec server \<noteq> XrayProfile outs balancers burst tag"
    using assms(2) by (auto simp: outbound_tagged_None_iff)
  from generate_single_ok [OF assms(1) this] show ?thesis by (auto simp: is_ok_iff)
qed

lemma imported_ok_or_panic:
  assumes "srv_spec server = XrayProfile outs balancers burst tag" and "list_all (\<lambda>v. as_object v \<noteq> None) outs"
  shows "(if rc_dialer core \<noteq> None \<and> \<not> list_all dialable outs
          then generate server bind sp hp core = Inl GenPanic
          else is_ok (generate server bind sp hp core))"
proof -
  let ?outs = "namespace_outbounds outs"
  have "dialable (JObj (jins ''tag'' w m)) = dialable (JObj m)" for w m by (simp add: dialable_def)
  then have "list_all dialable (map (\<lambda>(i, v). case v of
      JObj m \<Rightarrow> JObj (jins ''tag'' (JStr (selectable_tag_prefix @ show_nat i)) m) | _ \<Rightarrow> v) (enumerate n outs))
    = list_all dialable outs \<and> list_all (\<lambda>v. as_object v \<noteq> None) (map (\<lambda>(i, v). case v of
      JObj m \<Rightarrow> JObj (jins ''tag'' (JStr (selectable_tag_prefix @ show_nat i)) m) | _ \<Rightarrow> v) (enumerate n outs))" for n
    using assms(2)
  proof (induction outs arbitrary: n)
    case (Cons v outs)
    then obtain m where "v = JObj m" by (cases v) auto
    with Cons show ?case by simp
  qed simp
  then have n: "list_all dialable ?outs = list_all dialable outs" "list_all (\<lambda>v. as_object v \<noteq> None) ?outs"
    by (simp_all add: namespace_outbounds_def)
  have total: "\<exists>c. generate server bind sp hp core = Inr c" if "scaffold bind sp hp ?outs core = Some c0" for c0
  proof -
    have k0: "config_ok (tags_of ?outs @ extra_tags core) c0" using scaffold_ok [OF that] by blast
    obtain c1 where c1: "install_rules core None [private_rule] (Some catch_all_rule) c0 = Some c1"
      "config_ok (tags_of ?outs @ extra_tags core) c1"
      using install_rules_ok [OF k0, of core None "[private_rule]" "Some catch_all_rule"] by blast
    obtain c2 where c2: "jassign [''routing'', ''balancers''] (balancers_value (import_strategy balancers tag)) c1 = Some c2"
      "config_ok (tags_of ?outs @ extra_tags core) c2"
      using jassign_routing_step [OF c1(2), of "''balancers''" "balancers_value (import_strategy balancers tag)"] by blast
    obtain c3 where "jassign [''burstObservatory''] (observatory (rc_pool_probe core) ''5m'') c2 = Some c3"
      using jassign_top [OF c2(2), of "''burstObservatory''" "observatory (rc_pool_probe core) ''5m''"] by auto
    with that c1(1) c2(1) show ?thesis
      by (simp add: generate_def assms(1) Let_def del: jassign.simps)
  qed
  show ?thesis
  proof (cases "scaffold bind sp hp ?outs core")
    case None
    then have "generate server bind sp hp core = Inl GenPanic" using assms(1) by (simp add: generate_def)
    with None show ?thesis using scaffold_None_iff [OF n(2), of bind sp hp core] n(1) by simp
  next
    case (Some c0)
    with scaffold_None_iff [OF n(2), of bind sp hp core] n(1) total [OF Some] show ?thesis
      by (auto simp: is_ok_iff)
  qed
qed

text \<open>C4: an imported profile does not. With fragmentation or noises configured the program panics,
instead of reporting an error, exactly when one of the provider's outbounds carries
\<open>streamSettings\<close>, or \<open>sockopt\<close> in it, that is neither an object nor null.\<close>

theorem imported_profile_panics:
  assumes "srv_spec server = XrayProfile outs balancers burst tag" and "list_all (\<lambda>v. as_object v \<noteq> None) outs"
  shows "generate server bind sp hp core = Inl GenPanic \<longleftrightarrow> rc_dialer core \<noteq> None \<and> \<not> list_all dialable outs"
  using imported_ok_or_panic [OF assms, of core bind sp hp] by (auto split: if_splits)

lemma pool_outbounds_ok_iff:
  "is_ok (pool_outbounds seen ms) \<longleftrightarrow>
     distinct (map member_tag ms) \<and> set (map member_tag ms) \<inter> set seen = {}
     \<and> list_all (\<lambda>m. outbound_tagged m (member_tag m) \<noteq> None) ms"
proof (induction ms arbitrary: seen)
  case (Cons m ms)
  show ?case
  proof (cases "outbound_tagged m (member_tag m)")
    case (Some v)
    have "is_ok (pool_outbounds seen (m # ms)) \<longleftrightarrow>
        member_tag m \<notin> set seen \<and> is_ok (pool_outbounds (member_tag m # seen) ms)"
      using Some by (cases "pool_outbounds (member_tag m # seen) ms") (simp_all add: Let_def)
    then show ?thesis using Cons [of "member_tag m # seen"] Some by auto
  qed (simp add: Let_def)
qed simp

lemma pool_outbounds_dialable:
  "pool_outbounds seen ms = Inr outs \<Longrightarrow> list_all (\<lambda>m. srv_outbound_patch m = None) ms \<Longrightarrow> list_all dialable outs"
  by (induction ms arbitrary: seen outs)
     (auto simp: Let_def or_bail_Inr_iff and_then_Inr_iff dest: outbound_tagged_dialable)

text \<open>After the scaffold nothing in the pool builder fails.\<close>

lemma generate_pool_rest:
  assumes "config_ok tags c0"
  shows "is_ok (or_bail (Option.bind (jget ''inbounds'' c0) as_array) GenPanic (\<lambda>inbounds.
     or_bail (jassign [''routing'', ''balancers''] w (jput ''inbounds'' (JArr (inbounds @ extra)) c0)) GenPanic (\<lambda>config.
     or_bail (install_rules core api built_in balancer config) GenPanic (\<lambda>config.
     or_bail (jassign [''burstObservatory''] w1 config) GenPanic (\<lambda>config.
     or_bail (jassign [''api''] w2 config) GenPanic Inr)))))"
proof -
  obtain ins where ins: "Option.bind (jget ''inbounds'' c0) as_array = Some ins"
    using assms by (auto simp: config_ok_def)
  let ?c1 = "jput ''inbounds'' (JArr (ins @ extra)) c0"
  have k1: "config_ok tags ?c1" using assms by (auto simp: config_ok_def jput_def)
  obtain c2 where c2: "jassign [''routing'', ''balancers''] w ?c1 = Some c2" "config_ok tags c2"
    using jassign_routing_step [OF k1, of "''balancers''" w] by blast
  obtain c3 where c3: "install_rules core api built_in balancer c2 = Some c3" "config_ok tags c3"
    using install_rules_ok [OF c2(2), of core api built_in balancer] by blast
  obtain c4 where c4: "jassign [''burstObservatory''] w1 c3 = Some c4" "config_ok tags c4"
    using jassign_top [OF c3(2), of "''burstObservatory''" w1] by auto
  obtain c5 where c5: "jassign [''api''] w2 c4 = Some c5"
    using jassign_top [OF c4(2), of "''api''" w2] by auto
  show ?thesis unfolding ins or_bail_Some c2(1) c3(1) c4(1) c5 by simp
qed

lemma generate_pool_ok_iff:
  assumes "list_all (\<lambda>m. srv_outbound_patch m = None) (pp_members spec)"
  shows "is_ok (generate_pool spec bind sp hp ap core) \<longleftrightarrow>
    pp_members spec \<noteq> [] \<and> distinct (map member_tag (pp_members spec))
    \<and> list_all (\<lambda>m. outbound_tagged m [] \<noteq> None) (pp_members spec)"
proof -
  let ?ms = "pp_members spec"
  have composite: "list_all (\<lambda>m. outbound_tagged m (member_tag m) \<noteq> None) ?ms
      = list_all (\<lambda>m. outbound_tagged m [] \<noteq> None) ?ms"
    by (simp add: outbound_tagged_None_iff)
  have "is_ok (generate_pool spec bind sp hp ap core) \<longleftrightarrow> ?ms \<noteq> [] \<and> is_ok (pool_outbounds [] ?ms)"
  proof (cases "?ms \<noteq> [] \<and> is_ok (pool_outbounds [] ?ms)")
    case True
    then obtain outs where outs: "pool_outbounds [] ?ms = Inr outs" by (auto simp: is_ok_iff)
    have d: "list_all dialable outs" using pool_outbounds_dialable [OF outs] assms by (simp add: list_all_iff)
    then have o: "list_all (\<lambda>v. as_object v \<noteq> None) outs" by (simp add: list_all_iff dialable_def)
    obtain c0 where c0: "scaffold bind sp hp outs core = Some c0"
      using scaffold_None_iff [OF o, of bind sp hp core] d by (cases "scaffold bind sp hp outs core") auto
    then have k0: "config_ok (tags_of outs @ extra_tags core) c0" using scaffold_ok by blast
    from generate_pool_rest [OF k0] True outs c0 show ?thesis
      by (simp add: generate_pool_def Let_def del: jassign.simps)
  next
    case False
    then have "\<nexists>outs. pool_outbounds [] ?ms = Inr outs \<and> ?ms \<noteq> []" by (auto simp: is_ok_iff)
    then have "\<not> is_ok (generate_pool spec bind sp hp ap core)"
      unfolding generate_pool_def is_ok_ensure is_ok_and_then by blast
    with False show ?thesis by blast
  qed
  then show ?thesis using pool_outbounds_ok_iff [of "[]" ?ms] composite by simp
qed

text \<open>a pool configuration exists exactly for a non-empty list of single servers with different
handles; nothing else about the members, the profile or the core can make it fail.\<close>

theorem generate_pool_total:
  assumes "list_all (\<lambda>m. srv_outbound_patch m = None) (pp_members spec)"
  shows "is_ok (generate_pool spec bind sp hp ap core) \<longleftrightarrow>
    pp_members spec \<noteq> [] \<and> distinct (map member_tag (pp_members spec))
    \<and> (\<forall>m\<in>set (pp_members spec). \<nexists>outs balancers burst tag. srv_spec m = XrayProfile outs balancers burst tag)"
  using generate_pool_ok_iff [OF assms, of bind sp hp ap core]
  by (simp add: outbound_tagged_None_iff list_all_iff)

section \<open>Witnesses\<close>

definition plain_core :: "jv resolved_core" where
  "plain_core =
     \<lparr>rc_log_level = LvWarning, rc_domain_strategy = AsIs,
      rc_sniffing = \<lparr>rs_enabled = True, rs_dest_override = [DestHttp, DestTls], rs_route_only = False\<rparr>,
      rc_mux = None, rc_dialer = None, rc_dns = None, rc_routing = None, rc_pool_probe = default_pool_probe\<rparr>"

definition noisy_core :: "jv resolved_core" where
  "noisy_core = plain_core\<lparr>rc_dialer :=
     Some \<lparr>rd_fragment = None,
           rd_noises = [\<lparr>no_kind = NoiseRand, no_packet = ''10-20'', no_delay = ''5''\<rparr>]\<rparr>\<rparr>"

definition node :: "string \<Rightarrow> jv outbound_spec \<Rightarrow> jv server" where
  "node name spec =
     \<lparr>srv_id = name, srv_name = name, srv_protocol = PShadowsocks, srv_address = ''192.0.2.7'', srv_port = 443,
      srv_transport_label = [], srv_country = None, srv_spec = spec, srv_link = None, srv_alias = Some name,
      srv_outbound_patch = None, srv_overrides = None, srv_latency_ms = None\<rparr>"

definition pair_pool :: pool_spec where
  "pair_pool =
     \<lparr>pp_members = [node ''a'' (Shadowsocks ''m'' ''p''), node ''b'' (Shadowsocks ''m'' ''p'')],
      pp_strategy = ''leastLoad'', pp_expected = 1, pp_probe_interval = ''30s''\<rparr>"

definition hostile :: "jv server" where
  "hostile = node ''h'' (XrayProfile
     [JObj [(''protocol'', JStr ''vless''), (''streamSettings'', JStr ''x''), (''tag'', JStr ''direct'')]]
     [JObj [(''selector'', JArr [JStr []]), (''tag'', JStr ''b'')]] None ''b'')"

lemma plain_checked: "routing_checked parse shape plain_core" "profile_rules plain_core balanced = []"
  by (simp_all add: routing_checked_def plain_core_def profile_rules_def profile_block_def)

lemma node_facts [simp]:
  "srv_outbound_patch (node n spec) = None" "srv_spec (node n spec) = spec" "patch_keeps_tag (node n spec)"
  "member_tag (node n spec) = ''s-'' @ n"
  by (simp_all add: node_def patch_keeps_tag_def member_tag_def unwrap_or_def selectable_tag_prefix_def)

definition hostile_outbound :: jv where
  "hostile_outbound =
     JObj [(''protocol'', JStr ''vless''), (''streamSettings'', JStr ''x''), (''tag'', JStr ''direct'')]"

lemma hostile_facts:
  "srv_spec hostile = XrayProfile [hostile_outbound]
     [JObj [(''selector'', JArr [JStr []]), (''tag'', JStr ''b'')]] None ''b''"
  "\<not> dialable hostile_outbound" "list_all (\<lambda>v. as_object v \<noteq> None) [hostile_outbound]"
  by (simp_all add: hostile_def hostile_outbound_def dialable_def object_or_null_def)

lemma rules_differ: "private_rule \<noteq> catch_all_rule" "api_rule \<noteq> catch_all_rule"
proof -
  have "jget ''balancerTag'' catch_all_rule \<noteq> None" "jget ''balancerTag'' private_rule = None"
    "jget ''balancerTag'' api_rule = None"
    by (simp_all add: private_rule_def catch_all_rule_def api_rule_def jget_jobj)
  then show "private_rule \<noteq> catch_all_rule" "api_rule \<noteq> catch_all_rule" by auto
qed


theorem imported_profile_stays_in_tunnel_witness:
  "\<exists>c. generate hostile localhost 1080 1081 plain_core = Inr c
    \<and> xray_route (\<lambda>r. r = catch_all_rule) c = [''s-0'']"
proof -
  have "is_ok (generate hostile localhost 1080 1081 plain_core)"
    using imported_ok_or_panic [OF hostile_facts(1,3), of plain_core localhost 1080 1081] by (simp add: plain_core_def)
  then obtain c where c: "generate hostile localhost 1080 1081 plain_core = Inr c" by (auto simp: is_ok_iff)
  have "xray_route (\<lambda>r. r = catch_all_rule) c = imported_tags (length [hostile_outbound])"
    using imported_profile_stays_in_tunnel [OF c _ hostile_facts(1,3), where matches = "\<lambda>r. r = catch_all_rule" and parse = "\<lambda>_. None"]
    by (simp add: plain_checked rules_differ)
  moreover have "show_nat 0 = ''0''" by code_simp
  ultimately show ?thesis
    using c by (simp add: imported_tags_def selectable_tag_prefix_def del: show_nat.simps)
qed


theorem generate_total_witness: "is_ok (generate (node ''a'' (Socks None None)) localhost 1080 1081 noisy_core)"
  by (rule generate_total) (simp_all add: outbound_tagged_None_iff del: not_None_eq)

theorem imported_profile_panics_witness: "generate hostile localhost 1080 1081 noisy_core = Inl GenPanic"
  by (rule iffD2 [OF imported_profile_panics [OF hostile_facts(1,3)]])
     (simp add: hostile_facts noisy_core_def)

theorem generate_pool_total_witness: "is_ok (generate_pool pair_pool localhost 1080 1081 1082 noisy_core)"
  by (subst generate_pool_total) (simp_all add: pair_pool_def)

end
