(* ===== verification/Importer.thy ===== *)
theory Importer
  imports Json Model Country Core_Options
begin

text \<open>
  Servers out of the configuration formats panels send: the JSON half of
  \<open>crates/oxidom-core/src/subscription_format.rs\<close> (full Xray configurations, sing-box
  documents and Clash documents, which are JSON values by the time they are read here) and
  \<open>identity_string\<close> of \<open>model.rs\<close>.

  Not in the repository, and so in the record \<open>'a import_env\<close>: the base64 decoder, the writer
  of share links that rests on the \<open>url\<close> crate, and serde's text of values and of outbounds.
  Share-link lists and the YAML reader are not modelled.
\<close>

section \<open>What the importer uses of other crates\<close>

record import_env =
  ie_base64 :: "string \<Rightarrow> nat list option"
  ie_link :: "jv server \<Rightarrow> string option"
  ie_print :: "jv \<Rightarrow> string option"
  ie_spec_value :: "jv outbound_spec \<Rightarrow> jv"
  ie_spec_text :: "jv outbound_spec \<Rightarrow> string option"

definition identity_from_serialized_spec :: "jv server \<Rightarrow> string option \<Rightarrow> string" where
  "identity_from_serialized_spec server serialized =
     unwrap_or serialized
       (srv_address server @ '':'' @ show_nat (srv_port server) @ '':'' @ srv_name server)"

definition identity_string :: "import_env \<Rightarrow> jv server \<Rightarrow> string" where
  "identity_string E server =
     (case srv_link server of
        Some link \<Rightarrow> link
      | None \<Rightarrow>
          let profile = (case srv_spec server of
                XrayProfile outs balancers burst tag \<Rightarrow> ie_print E (jobj
                  [(''name'', JStr (srv_name server)), (''proxy_outbounds'', JArr outs),
                   (''balancers'', JArr balancers), (''burst_observatory'', jopt burst),
                   (''balancer_tag'', JStr tag)])
              | _ \<Rightarrow> None);
              patched = (case srv_outbound_patch server of
                Some patch \<Rightarrow> ie_print E (jobj
                  [(''spec'', ie_spec_value E (srv_spec server)), (''outbound_patch'', patch)])
              | None \<Rightarrow> None)
          in case profile of
               Some identity \<Rightarrow> identity
             | None \<Rightarrow> (case patched of
                 Some identity \<Rightarrow> identity
               | None \<Rightarrow> identity_from_serialized_spec server (ie_spec_text E (srv_spec server))))"

section \<open>Reading values\<close>

definition string_at :: "jv \<Rightarrow> string \<Rightarrow> string option" where
  "string_at value key = Option.bind (jget key value) as_str"

definition u16_value :: "jv \<Rightarrow> nat option" where
  "u16_value value =
     or_else (filter_opt (\<lambda>n. n \<le> 65535) (as_u64 value)) (Option.bind (as_str value) parse_u16)"

definition u32_value :: "jv option \<Rightarrow> nat option" where
  "u32_value value = Option.bind value (\<lambda>v.
     or_else (filter_opt (\<lambda>n. n \<le> u32_max) (as_u64 v)) (Option.bind (as_str v) parse_u32))"

definition bool_value :: "jv option \<Rightarrow> bool option" where
  "bool_value value = Option.bind value (\<lambda>v.
     or_else (as_bool v) (Option.bind (as_str v) (\<lambda>s.
       if s = ''true'' \<or> s = ''1'' then Some True
       else if s = ''false'' \<or> s = ''0'' then Some False else None)))"

definition string_vec :: "jv option \<Rightarrow> string list option" where
  "string_vec value = Option.bind value (\<lambda>v.
     case as_array v of
       Some items \<Rightarrow> Some (List.map_filter as_str items)
     | None \<Rightarrow> map_option (\<lambda>s. map trim (split_on CHR '','' s)) (as_str v))"

definition first_string :: "jv \<Rightarrow> string option" where
  "first_string value =
     (case value of
        JStr s \<Rightarrow> Some s
      | JArr items \<Rightarrow> (case items of [] \<Rightarrow> None | i # _ \<Rightarrow> as_str i)
      | _ \<Rightarrow> None)"

text \<open>\<open>trim_end_matches('s')\<close>.\<close>

definition trim_end_s :: "string \<Rightarrow> string" where
  "trim_end_s s = rev (dropWhile (\<lambda>c. c = CHR ''s'') (rev s))"

definition seconds_value :: "jv option \<Rightarrow> nat option" where
  "seconds_value value = Option.bind value (\<lambda>v.
     or_else (u32_value (Some v))
       (Option.bind (as_str v) (\<lambda>s. parse_u32 (trim_end_s (trim s)))))"

definition bandwidth_value :: "jv option \<Rightarrow> nat option" where
  "bandwidth_value value = Option.bind value (\<lambda>v.
     case u32_value (Some v) of
       Some n \<Rightarrow> Some (max n 1)
     | None \<Rightarrow> Option.bind (as_str v) parse_bandwidth_mbps)"

text \<open>\<open>split([',', '/'])\<close>.\<close>

definition port_ranges :: "jv option \<Rightarrow> port_range list" where
  "port_ranges raw =
     List.map_filter port_range_parse
       (concat (map (\<lambda>item. concat (map (split_on CHR ''/'') (split_on CHR '','' item)))
         (unwrap_or (string_vec raw) [])))"

definition get_or_null :: "string \<Rightarrow> jv \<Rightarrow> jv" where
  "get_or_null key value = unwrap_or (jget key value) JNull"

section \<open>Protocols\<close>

definition protocol_from_name :: "string \<Rightarrow> protocol option" where
  "protocol_from_name name =
     (let n = lower_ascii name
      in if n = ''vless'' then Some PVless
         else if n = ''vmess'' then Some PVmess
         else if n = ''trojan'' then Some PTrojan
         else if n = ''shadowsocks'' \<or> n = ''ss'' then Some PShadowsocks
         else if n = ''socks'' \<or> n = ''socks5'' then Some PSocks
         else if n = ''http'' \<or> n = ''https'' then Some PHttp
         else if n = ''hysteria2'' \<or> n = ''hy2'' then Some PHysteria2
         else None)"

definition xray_outbound_protocol :: "jv \<Rightarrow> protocol option" where
  "xray_outbound_protocol outbound =
     Option.bind (Option.bind (jget ''protocol'' outbound) as_str) (\<lambda>raw.
       let name = lower_ascii raw
       in if name = ''hysteria''
          then (if u32_value (pointer ''/settings/version'' outbound) = Some 2 then Some PHysteria2 else None)
          else protocol_from_name name)"

definition finish_server ::
  "import_env \<Rightarrow> string \<Rightarrow> protocol \<Rightarrow> string \<Rightarrow> nat \<Rightarrow> jv outbound_spec \<Rightarrow> jv server" where
  "finish_server E name protocol address port spec =
     (let server = \<lparr>srv_id = [], srv_name = name, srv_protocol = protocol, srv_address = address,
            srv_port = port, srv_transport_label = transport_label protocol spec,
            srv_country = country_from_name name, srv_spec = spec, srv_link = None, srv_alias = None,
            srv_outbound_patch = None, srv_overrides = None, srv_latency_ms = None\<rparr>;
          linked = server\<lparr>srv_link := ie_link E server\<rparr>
      in linked\<lparr>srv_id := stable_id (identity_string E linked)\<rparr>)"

section \<open>Xray\<close>

definition plain_stream :: "string \<Rightarrow> string \<Rightarrow> jv stream_settings" where
  "plain_stream network security =
     \<lparr>ss_network = network, ss_security = security, ss_sni = None, ss_alpn = None,
      ss_fingerprint = None, ss_allow_insecure = False, ss_pin_sha256 = None, ss_public_key = None,
      ss_short_id = None, ss_spider_x = None, ss_path = None, ss_host = None, ss_service_name = None,
      ss_xhttp_mode = None, ss_xhttp_extra = None, ss_grpc_authority = None,
      ss_grpc_multi_mode = False, ss_header_type = None, ss_flow = None, ss_ech = None,
      ss_verify_peer_cert_by_name = None, ss_mldsa65_verify = None\<rparr>"

definition object_extra :: "jv \<Rightarrow> jv option" where
  "object_extra settings = filter_opt (\<lambda>v. as_object v \<noteq> None) (jget ''extra'' settings)"

definition xray_network_settings :: "string \<Rightarrow> jv \<Rightarrow> jv" where
  "xray_network_settings network value = unwrap_or
     (if network = ''ws'' then jget ''wsSettings'' value
      else if network = ''grpc'' then jget ''grpcSettings'' value
      else if network = ''xhttp'' \<or> network = ''splithttp'' then jget ''xhttpSettings'' value
      else if network = ''h2'' \<or> network = ''http'' then jget ''httpSettings'' value
      else if network = ''httpupgrade'' then jget ''httpupgradeSettings'' value
      else if network = ''kcp'' \<or> network = ''mkcp'' then jget ''kcpSettings'' value
      else if network = ''tcp'' \<or> network = ''raw''
      then or_else (jget ''tcpSettings'' value) (jget ''rawSettings'' value)
      else None) JNull"

definition stream_from_xray :: "import_env \<Rightarrow> jv option \<Rightarrow> jv stream_settings" where
  "stream_from_xray E settings =
     (case settings of
        None \<Rightarrow> plain_stream ''tcp'' ''none''
      | Some value \<Rightarrow>
          let network = unwrap_or (string_at value ''network'') ''tcp'';
              security = unwrap_or (string_at value ''security'') ''none'';
              tls = get_or_null (if security = ''reality'' then ''realitySettings'' else ''tlsSettings'') value;
              net = xray_network_settings network value
          in \<lparr>ss_network = network, ss_security = security,
              ss_sni = string_at tls ''serverName'', ss_alpn = string_vec (jget ''alpn'' tls),
              ss_fingerprint = string_at tls ''fingerprint'',
              ss_allow_insecure = unwrap_or (bool_value (jget ''allowInsecure'' tls)) False,
              ss_pin_sha256 = Option.bind
                (or_else (string_at tls ''pinnedPeerCertSha256'')
                   (Option.bind (pointer ''/pinnedPeerCertSha256/0'' tls) as_str))
                (normalize_pin_sha256 (ie_base64 E)),
              ss_public_key = or_else (string_at tls ''publicKey'') (string_at tls ''password''),
              ss_short_id = string_at tls ''shortId'', ss_spider_x = string_at tls ''spiderX'',
              ss_path = or_else (string_at net ''path'')
                (or_else (Option.bind (jget ''path'' net) first_string)
                (or_else (Option.bind (pointer ''/header/request/path'' net) first_string)
                   (string_at net ''seed''))),
              ss_host = or_else (string_at net ''host'')
                (or_else (Option.bind (jget ''host'' net) first_string)
                (or_else (Option.bind (pointer ''/headers/Host'' net) first_string)
                   (Option.bind (pointer ''/header/request/headers/Host'' net) first_string))),
              ss_service_name = string_at net ''serviceName'', ss_xhttp_mode = string_at net ''mode'',
              ss_xhttp_extra = object_extra net, ss_grpc_authority = string_at net ''authority'',
              ss_grpc_multi_mode = unwrap_or (bool_value (jget ''multiMode'' net)) False,
              ss_header_type = Option.bind (pointer ''/header/type'' net) as_str, ss_flow = None,
              ss_ech = string_at tls ''echConfigList'',
              ss_verify_peer_cert_by_name = string_at tls ''verifyPeerCertByName'',
              ss_mldsa65_verify = string_at tls ''mldsa65Verify''\<rparr>)"

text \<open>\<open>port_hop.remove(0)\<close> when it repeats the port.\<close>

definition drop_own_port :: "nat \<Rightarrow> port_range list \<Rightarrow> port_range list" where
  "drop_own_port port hop =
     (case hop of r # rest \<Rightarrow> if r = \<lparr>pr_start = port, pr_end = port\<rparr> then rest else hop | [] \<Rightarrow> [])"

definition hysteria2_from_xray :: "import_env \<Rightarrow> string \<Rightarrow> jv \<Rightarrow> jv server option" where
  "hysteria2_from_xray E name outbound =
     Option.bind (Option.bind (pointer ''/settings'' outbound) (\<lambda>s. string_at s ''address'')) (\<lambda>address.
     Option.bind (Option.bind (pointer ''/settings/port'' outbound) u16_value) (\<lambda>port.
     Option.bind (pointer ''/streamSettings/hysteriaSettings'' outbound) (\<lambda>hy.
       let tls = unwrap_or (pointer ''/streamSettings/tlsSettings'' outbound) JNull;
           mask = unwrap_or (pointer ''/streamSettings/finalmask'' outbound) JNull;
           settings = \<lparr>h2_sni = string_at tls ''serverName'', h2_alpn = string_vec (jget ''alpn'' tls),
             h2_allow_insecure = unwrap_or (bool_value (jget ''allowInsecure'' tls)) False,
             h2_pin_sha256 = Option.bind (string_at tls ''pinnedPeerCertSha256'')
               (normalize_pin_sha256 (ie_base64 E)),
             h2_obfs = map_option (\<lambda>kind. \<lparr>ho_kind = kind,
                 ho_password = unwrap_or (Option.bind (pointer ''/settings/password'' mask) as_str) []\<rparr>)
               (string_at mask ''type''),
             h2_up_mbps = bandwidth_value (jget ''up'' hy), h2_down_mbps = bandwidth_value (jget ''down'' hy),
             h2_port_hop = drop_own_port port (port_ranges (pointer ''/udpHop/ports'' hy)),
             h2_hop_interval_secs = seconds_value (pointer ''/udpHop/interval'' hy),
             h2_congestion = string_at hy ''congestion'',
             h2_udp_idle_timeout_secs = u32_value (jget ''udpIdleTimeout'' hy)\<rparr>
       in map_option (\<lambda>auth. finish_server E name PHysteria2 address port (Hysteria2 auth settings))
            (string_at hy ''auth''))))"

definition user_endpoint :: "jv \<Rightarrow> (jv \<times> jv) option" where
  "user_endpoint outbound =
     (case pointer ''/settings/vnext/0'' outbound of
        Some endpoint \<Rightarrow> map_option (\<lambda>user. (endpoint, user)) (pointer ''/users/0'' endpoint)
      | None \<Rightarrow> map_option (\<lambda>settings. (settings, settings)) (jget ''settings'' outbound))"

definition server_from_xray_outbound :: "import_env \<Rightarrow> string \<Rightarrow> jv \<Rightarrow> jv server option" where
  "server_from_xray_outbound E name outbound =
     Option.bind (xray_outbound_protocol outbound) (\<lambda>protocol.
       let s = stream_from_xray E (jget ''streamSettings'' outbound)
       in if protocol = PHysteria2 then hysteria2_from_xray E name outbound
          else if protocol = PVless \<or> protocol = PVmess then
            Option.bind (user_endpoint outbound) (\<lambda>(endpoint, user).
              let s = s\<lparr>ss_flow := string_at user ''flow''\<rparr>
              in Option.bind (string_at endpoint ''address'') (\<lambda>address.
                 Option.bind (Option.bind (jget ''port'' endpoint) u16_value) (\<lambda>port.
                 map_option (finish_server E name protocol address port)
                   (map_option (\<lambda>uuid.
                      if protocol = PVless
                      then Vless uuid (unwrap_or (string_at user ''encryption'') ''none'') s
                      else Vmess uuid (unwrap_or (u32_value (jget ''alterId'' user)) 0)
                             (unwrap_or (string_at user ''security'') ''auto'') s)
                     (string_at user ''id'')))))
          else
            Option.bind (pointer ''/settings/servers/0'' outbound) (\<lambda>endpoint.
              let s = (if protocol = PTrojan then s\<lparr>ss_flow := string_at endpoint ''flow''\<rparr> else s);
                  auth = pointer ''/users/0'' endpoint;
                  username = Option.bind auth (\<lambda>v. or_else (string_at v ''user'') (string_at v ''username''));
                  password = Option.bind auth (\<lambda>v. or_else (string_at v ''pass'') (string_at v ''password''))
              in Option.bind (string_at endpoint ''address'') (\<lambda>address.
                 Option.bind (Option.bind (jget ''port'' endpoint) u16_value) (\<lambda>port.
                 map_option (finish_server E name protocol address port)
                   (case protocol of
                      PTrojan \<Rightarrow> map_option (\<lambda>p. Trojan p s) (string_at endpoint ''password'')
                    | PShadowsocks \<Rightarrow> Option.bind (string_at endpoint ''method'') (\<lambda>m.
                        map_option (Shadowsocks m) (string_at endpoint ''password''))
                    | PSocks \<Rightarrow> Some (Socks username password)
                    | PHttp \<Rightarrow> Some (Http username password)
                    | _ \<Rightarrow> None)))))"

definition xray_profile_server ::
  "import_env \<Rightarrow> jv \<Rightarrow> string \<Rightarrow> jv list \<Rightarrow> jv list \<Rightarrow> string \<Rightarrow> jv server option" where
  "xray_profile_server E config name outs balancers tag =
     Option.bind (case outs of [] \<Rightarrow> None | o1 # _ \<Rightarrow> server_from_xray_outbound E name o1) (\<lambda>first.
       let server = \<lparr>srv_id = [], srv_name = name, srv_protocol = srv_protocol first,
             srv_address = srv_address first, srv_port = srv_port first,
             srv_transport_label = ''xray + balanced ('' @ show_nat (length outs) @ '')'',
             srv_country = country_from_name name,
             srv_spec = XrayProfile outs balancers
               (or_else (jget ''burstObservatory'' config) (jget ''observatory'' config)) tag,
             srv_link = None, srv_alias = None, srv_outbound_patch = None, srv_overrides = None,
             srv_latency_ms = None\<rparr>
       in Some (server\<lparr>srv_id := stable_id (identity_string E server)\<rparr>))"

definition middle_dot :: string where
  "middle_dot = [CHR '' '', CHR 0xC2, CHR 0xB7, CHR '' '']"

definition config_servers :: "import_env \<Rightarrow> jv \<Rightarrow> jv server list" where
  "config_servers E config =
     (case Option.bind (jget ''outbounds'' config) as_array of
        None \<Rightarrow> []
      | Some outbounds \<Rightarrow>
          let outs = filter (\<lambda>o1. xray_outbound_protocol o1 \<noteq> None) outbounds
          in if outs = [] then []
             else
               let name = unwrap_or (or_else (string_at config ''remarks'') (string_at config ''name''))
                     ''Imported Xray profile'';
                   balancers = unwrap_or (Option.bind (pointer ''/routing/balancers'' config) as_array) [];
                   route_tag = Option.bind (Option.bind (pointer ''/routing/rules'' config) as_array)
                     (\<lambda>rules. find_map (\<lambda>rule. string_at rule ''balancerTag'') (rev rules));
                   tag = or_else route_tag
                     (case balancers of [] \<Rightarrow> None | b # _ \<Rightarrow> string_at b ''tag'');
                   profile = (if 1 < length outs \<and> balancers \<noteq> []
                     then Option.bind tag (xray_profile_server E config name outs balancers) else None);
                   item_name = (\<lambda>index o1. if length outs = 1 then name
                     else name @ middle_dot @ unwrap_or (string_at o1 ''tag'') (show_nat (index + 1)))
               in case profile of
                    Some server \<Rightarrow> [server]
                  | None \<Rightarrow> List.map_filter (\<lambda>(index, o1). server_from_xray_outbound E (item_name index o1) o1)
                      (enumerate 0 outs))"

definition parse_xray_configs :: "import_env \<Rightarrow> jv list \<Rightarrow> jv server list" where
  "parse_xray_configs E configs = concat (map (config_servers E) configs)"

section \<open>sing-box\<close>

definition stream_from_sing_box :: "import_env \<Rightarrow> jv \<Rightarrow> jv stream_settings" where
  "stream_from_sing_box E outbound =
     (let tls = get_or_null ''tls'' outbound; reality = get_or_null ''reality'' tls;
          transport = get_or_null ''transport'' outbound;
          tls_enabled = unwrap_or (bool_value (jget ''enabled'' tls)) (tls \<noteq> JNull)
      in \<lparr>ss_network = unwrap_or (string_at transport ''type'') ''tcp'',
          ss_security = (if reality \<noteq> JNull then ''reality'' else if tls_enabled then ''tls'' else ''none''),
          ss_sni = string_at tls ''server_name'', ss_alpn = string_vec (jget ''alpn'' tls),
          ss_fingerprint = Option.bind (pointer ''/utls/fingerprint'' tls) as_str,
          ss_allow_insecure = unwrap_or (bool_value (jget ''insecure'' tls)) False,
          ss_pin_sha256 = Option.bind
            (or_else (string_at tls ''certificate_sha256'')
               (Option.bind (jget ''certificate_sha256'' tls) first_string))
            (normalize_pin_sha256 (ie_base64 E)),
          ss_public_key = string_at reality ''public_key'', ss_short_id = string_at reality ''short_id'',
          ss_spider_x = None, ss_path = string_at transport ''path'',
          ss_host = or_else (Option.bind (jget ''host'' transport) first_string)
            (Option.bind (pointer ''/headers/Host'' transport) first_string),
          ss_service_name = string_at transport ''service_name'', ss_xhttp_mode = string_at transport ''mode'',
          ss_xhttp_extra = object_extra transport, ss_grpc_authority = string_at transport ''authority'',
          ss_grpc_multi_mode = unwrap_or (bool_value (jget ''multi_mode'' transport)) False,
          ss_header_type = None, ss_flow = string_at outbound ''flow'', ss_ech = None,
          ss_verify_peer_cert_by_name = None, ss_mldsa65_verify = None\<rparr>)"

text \<open>A Hysteria2 port that is not a port: the start of the first hop range, or 443.\<close>

definition hop_port :: "nat option \<Rightarrow> port_range list \<Rightarrow> nat" where
  "hop_port port hop =
     unwrap_or (or_else port (case hop of [] \<Rightarrow> None | r # _ \<Rightarrow> Some (pr_start r))) 443"

definition hysteria2_from_sing_box :: "import_env \<Rightarrow> string \<Rightarrow> string \<Rightarrow> jv \<Rightarrow> jv server option" where
  "hysteria2_from_sing_box E name address outbound =
     (let tls = get_or_null ''tls'' outbound;
          obfs = Option.bind (jget ''obfs'' outbound) (\<lambda>o1.
            map_option (\<lambda>kind. \<lparr>ho_kind = kind, ho_password = unwrap_or (string_at o1 ''password'') []\<rparr>)
              (or_else (as_str o1) (string_at o1 ''type'')));
          settings = \<lparr>h2_sni = string_at tls ''server_name'', h2_alpn = string_vec (jget ''alpn'' tls),
            h2_allow_insecure = unwrap_or (bool_value (jget ''insecure'' tls)) False,
            h2_pin_sha256 = Option.bind
              (or_else (string_at tls ''certificate_sha256'')
                 (Option.bind (jget ''certificate_sha256'' tls) first_string))
              (normalize_pin_sha256 (ie_base64 E)),
            h2_obfs = obfs,
            h2_up_mbps = bandwidth_value (or_else (jget ''up_mbps'' outbound) (jget ''up'' outbound)),
            h2_down_mbps = bandwidth_value (or_else (jget ''down_mbps'' outbound) (jget ''down'' outbound)),
            h2_port_hop = port_ranges (jget ''server_ports'' outbound),
            h2_hop_interval_secs = seconds_value (jget ''hop_interval'' outbound),
            h2_congestion = None, h2_udp_idle_timeout_secs = None\<rparr>;
          port = hop_port (u16_value (get_or_null ''server_port'' outbound)) (h2_port_hop settings)
      in map_option (\<lambda>auth. finish_server E name PHysteria2 address port (Hysteria2 auth settings))
           (string_at outbound ''password''))"

definition server_from_sing_box :: "import_env \<Rightarrow> jv \<Rightarrow> jv server option" where
  "server_from_sing_box E outbound =
     Option.bind (Option.bind (Option.bind (jget ''type'' outbound) as_str) protocol_from_name) (\<lambda>protocol.
       let name = unwrap_or (string_at outbound ''tag'') (protocol_as_str protocol)
       in Option.bind (string_at outbound ''server'') (\<lambda>address.
            if protocol = PHysteria2 then hysteria2_from_sing_box E name address outbound
            else Option.bind (Option.bind (jget ''server_port'' outbound) u16_value) (\<lambda>port.
              let s = stream_from_sing_box E outbound; username = string_at outbound ''username'';
                  password = string_at outbound ''password''
              in map_option (finish_server E name protocol address port)
                   (case protocol of
                      PVless \<Rightarrow> map_option (\<lambda>u. Vless u ''none'' s) (string_at outbound ''uuid'')
                    | PVmess \<Rightarrow> map_option (\<lambda>u. Vmess u (unwrap_or (u32_value (jget ''alter_id'' outbound)) 0)
                        (unwrap_or (string_at outbound ''security'') ''auto'') s) (string_at outbound ''uuid'')
                    | PTrojan \<Rightarrow> map_option (\<lambda>p. Trojan p s) password
                    | PShadowsocks \<Rightarrow> Option.bind (string_at outbound ''method'') (\<lambda>m. map_option (Shadowsocks m) password)
                    | PSocks \<Rightarrow> Some (Socks username password)
                    | PHttp \<Rightarrow> Some (Http username password)
                    | PHysteria2 \<Rightarrow> None))))"

definition parse_sing_box :: "import_env \<Rightarrow> jv \<Rightarrow> jv server list" where
  "parse_sing_box E config =
     List.map_filter (server_from_sing_box E)
       (unwrap_or (Option.bind (jget ''outbounds'' config) as_array) [])"

section \<open>Clash\<close>

definition clash_network :: "string \<Rightarrow> jv \<Rightarrow> string \<times> string option" where
  "clash_network requested proxy =
     (if requested = ''http'' then (''tcp'', Some ''http'')
      else if requested = ''ws'' \<and> bool_value (pointer ''/ws-opts/v2ray-http-upgrade'' proxy) = Some True
      then (''httpupgrade'', None)
      else (requested, None))"

definition clash_options :: "string \<Rightarrow> jv \<Rightarrow> jv" where
  "clash_options requested proxy = unwrap_or
     (if requested = ''ws'' then jget ''ws-opts'' proxy
      else if requested = ''grpc'' then jget ''grpc-opts'' proxy
      else if requested = ''h2'' then jget ''h2-opts'' proxy
      else if requested = ''http'' then jget ''http-opts'' proxy
      else if requested = ''xhttp'' \<or> requested = ''splithttp'' then jget ''xhttp-opts'' proxy
      else None) JNull"

definition clash_path_host :: "string \<Rightarrow> jv \<Rightarrow> string option \<times> string option" where
  "clash_path_host requested options =
     (let header_host = Option.bind (pointer ''/headers/Host'' options) first_string
      in if requested = ''http'' then (Option.bind (jget ''path'' options) first_string, header_host)
         else if requested \<in> {''h2'', ''xhttp'', ''splithttp''}
         then (string_at options ''path'', or_else (Option.bind (jget ''host'' options) first_string) header_host)
         else (string_at options ''path'', header_host))"

definition stream_from_clash :: "import_env \<Rightarrow> jv \<Rightarrow> jv stream_settings" where
  "stream_from_clash E proxy =
     (let reality = get_or_null ''reality-opts'' proxy;
          requested = unwrap_or (string_at proxy ''network'') ''tcp'';
          tls = unwrap_or (bool_value (jget ''tls'' proxy)) False;
          (network, header_type) = clash_network requested proxy;
          options = clash_options requested proxy;
          (path, host) = clash_path_host requested options
      in \<lparr>ss_network = network,
          ss_security = (if reality \<noteq> JNull then ''reality'' else if tls then ''tls'' else ''none''),
          ss_sni = or_else (string_at proxy ''servername'') (string_at proxy ''sni''),
          ss_alpn = string_vec (jget ''alpn'' proxy), ss_fingerprint = string_at proxy ''client-fingerprint'',
          ss_allow_insecure = unwrap_or (bool_value (jget ''skip-cert-verify'' proxy)) False,
          ss_pin_sha256 = Option.bind (string_at proxy ''fingerprint'') (normalize_pin_sha256 (ie_base64 E)),
          ss_public_key = string_at reality ''public-key'', ss_short_id = string_at reality ''short-id'',
          ss_spider_x = None, ss_path = path, ss_host = host,
          ss_service_name = string_at options ''grpc-service-name'',
          ss_xhttp_mode = string_at options ''mode'', ss_xhttp_extra = object_extra options,
          ss_grpc_authority = string_at options ''grpc-authority'',
          ss_grpc_multi_mode = unwrap_or (bool_value (jget ''grpc-multi-mode'' options)) False,
          ss_header_type = header_type, ss_flow = string_at proxy ''flow'', ss_ech = None,
          ss_verify_peer_cert_by_name = None, ss_mldsa65_verify = None\<rparr>)"

definition hysteria2_from_clash :: "import_env \<Rightarrow> string \<Rightarrow> string \<Rightarrow> jv \<Rightarrow> jv server option" where
  "hysteria2_from_clash E name address proxy =
     (let settings = \<lparr>h2_sni = or_else (string_at proxy ''sni'') (string_at proxy ''servername''),
            h2_alpn = string_vec (jget ''alpn'' proxy),
            h2_allow_insecure = unwrap_or (bool_value (jget ''skip-cert-verify'' proxy)) False,
            h2_pin_sha256 = Option.bind (string_at proxy ''fingerprint'') (normalize_pin_sha256 (ie_base64 E)),
            h2_obfs = map_option (\<lambda>kind. \<lparr>ho_kind = kind,
                ho_password = unwrap_or (string_at proxy ''obfs-password'') []\<rparr>) (string_at proxy ''obfs''),
            h2_up_mbps = bandwidth_value (jget ''up'' proxy), h2_down_mbps = bandwidth_value (jget ''down'' proxy),
            h2_port_hop = port_ranges (jget ''ports'' proxy),
            h2_hop_interval_secs = seconds_value (jget ''hop-interval'' proxy),
            h2_congestion = None, h2_udp_idle_timeout_secs = None\<rparr>;
          port = hop_port (u16_value (get_or_null ''port'' proxy)) (h2_port_hop settings)
      in map_option (\<lambda>auth. finish_server E name PHysteria2 address port (Hysteria2 auth settings))
           (string_at proxy ''password''))"

definition server_from_clash :: "import_env \<Rightarrow> jv \<Rightarrow> jv server option" where
  "server_from_clash E proxy =
     Option.bind (Option.bind (Option.bind (jget ''type'' proxy) as_str) (\<lambda>t. protocol_from_name (lower_ascii t)))
       (\<lambda>protocol.
       let name = unwrap_or (string_at proxy ''name'') (protocol_as_str protocol)
       in Option.bind (string_at proxy ''server'') (\<lambda>address.
            if protocol = PHysteria2 then hysteria2_from_clash E name address proxy
            else Option.bind (Option.bind (jget ''port'' proxy) u16_value) (\<lambda>port.
              let s = stream_from_clash E proxy; username = string_at proxy ''username'';
                  password = string_at proxy ''password''
              in map_option (finish_server E name protocol address port)
                   (case protocol of
                      PVless \<Rightarrow> map_option (\<lambda>u. Vless u
                        (unwrap_or (filter_opt (\<lambda>e. e \<noteq> []) (string_at proxy ''encryption'')) ''none'') s)
                        (string_at proxy ''uuid'')
                    | PVmess \<Rightarrow> map_option (\<lambda>u. Vmess u
                        (unwrap_or (u32_value (or_else (jget ''alterId'' proxy) (jget ''alter-id'' proxy))) 0)
                        (unwrap_or (string_at proxy ''cipher'') ''auto'') s) (string_at proxy ''uuid'')
                    | PTrojan \<Rightarrow> map_option (\<lambda>p. Trojan p s) password
                    | PShadowsocks \<Rightarrow> Option.bind (string_at proxy ''cipher'') (\<lambda>m. map_option (Shadowsocks m) password)
                    | PSocks \<Rightarrow> Some (Socks username password)
                    | PHttp \<Rightarrow> Some (Http username password)
                    | PHysteria2 \<Rightarrow> None))))"

definition parse_clash :: "import_env \<Rightarrow> jv \<Rightarrow> jv server list" where
  "parse_clash E config =
     List.map_filter (server_from_clash E)
       (unwrap_or (Option.bind (jget ''proxies'' config) as_array) [])"

section \<open>A document\<close>

definition parse_json :: "import_env \<Rightarrow> jv \<Rightarrow> jv server list" where
  "parse_json E value =
     (case as_array value of
        Some configs \<Rightarrow> parse_xray_configs E configs
      | None \<Rightarrow>
          if as_object value = None then []
          else if Option.bind (jget ''proxies'' value) as_array \<noteq> None then parse_clash E value
          else (case Option.bind (jget ''outbounds'' value) as_array of
                  None \<Rightarrow> []
                | Some outbounds \<Rightarrow>
                    if list_ex (\<lambda>o1. jget ''protocol'' o1 \<noteq> None) outbounds
                    then parse_xray_configs E [value] else parse_sing_box E value))"

text \<open>What a document carries besides its servers (\<open>not_taken_from\<close>, on nested arrays too).\<close>

definition not_taken_here :: "jv \<Rightarrow> not_taken" where
  "not_taken_here value =
     (let entries = (\<lambda>p. unwrap_or (Option.bind (pointer p value) as_array) []);
          providers = Option.bind (jget ''rule-providers'' value) as_object;
          rule_sets = length (entries ''/route/rule_set'') + (case providers of None \<Rightarrow> 0 | Some m \<Rightarrow> length m);
          remote_set = list_ex (\<lambda>e. string_at e ''type'' = Some ''remote'') (entries ''/route/rule_set'');
          remote_provider = (case providers of None \<Rightarrow> False
            | Some m \<Rightarrow> list_ex (\<lambda>(_, e). string_at e ''type'' = Some ''http'') m)
      in \<lparr>nt_rules = length (entries ''/route/rules'') + length (entries ''/rules'')
            + length (entries ''/routing/rules''),
          nt_rule_sets = rule_sets,
          nt_own_source = (jget ''geox-url'' value \<noteq> None \<or> remote_set \<or> remote_provider)\<rparr>)"

definition not_taken_add :: "not_taken \<Rightarrow> not_taken \<Rightarrow> not_taken" where
  "not_taken_add a b =
     \<lparr>nt_rules = nt_rules a + nt_rules b, nt_rule_sets = nt_rule_sets a + nt_rule_sets b,
      nt_own_source = (nt_own_source a \<or> nt_own_source b)\<rparr>"

fun not_taken_from :: "jv \<Rightarrow> not_taken" and not_taken_all :: "jv list \<Rightarrow> not_taken" where
  "not_taken_from (JArr configs) = not_taken_all configs"
| "not_taken_from JNull = not_taken_here JNull"
| "not_taken_from (JBool b) = not_taken_here (JBool b)"
| "not_taken_from (JNum n) = not_taken_here (JNum n)"
| "not_taken_from (JStr s) = not_taken_here (JStr s)"
| "not_taken_from (JObj m) = not_taken_here (JObj m)"
| "not_taken_all [] = not_taken_default"
| "not_taken_all (c # cs) = not_taken_add (not_taken_from c) (not_taken_all cs)"

definition not_taken_is_empty :: "not_taken \<Rightarrow> bool" where
  "not_taken_is_empty n = (nt_rules n = 0 \<and> nt_rule_sets n = 0 \<and> \<not> nt_own_source n)"

definition counted :: "nat \<Rightarrow> string \<Rightarrow> string list" where
  "counted n what = (if n = 0 then [] else [show_nat n @ '' '' @ what @ (if n = 1 then [] else ''s'')])"

definition not_taken_summary :: "not_taken \<Rightarrow> string option" where
  "not_taken_summary n =
     (if not_taken_is_empty n then None
      else
        let parts = counted (nt_rules n) ''routing rule'' @ counted (nt_rule_sets n) ''rule set'';
            carried = (case parts of
                [] \<Rightarrow> ''its own source for rule or geo data''
              | [a] \<Rightarrow> a
              | [a, b] \<Rightarrow> a @ '' and '' @ b
              | _ \<Rightarrow> join '', '' parts);
            source = (if nt_own_source n \<and> parts \<noteq> [] then '', and its own source for that data'' else [])
        in Some (''carried '' @ carried @ source @ '', none of which oxidom applied''))"

end
