(* ===== verification/Import_Roundtrip.thy ===== *)
theory Import_Roundtrip
  imports Importer Xray_Config
begin

text \<open>
  Writing an outbound and reading it back: \<open>outbound_tagged\<close> of \<open>xray/config.rs\<close> against
  \<open>server_from_xray_outbound\<close> of \<open>subscription_format.rs\<close>. The two are written separately
  in the program; here the second is computed on the result of the first, and \<open>carried\<close> and
  \<open>carried_spec\<close> say exactly which fields the round trip keeps.
\<close>

section \<open>Reading built values\<close>

lemma keys_sorted_foldl: "keys_sorted m \<Longrightarrow> keys_sorted (foldl (\<lambda>m (k, v). jins k v m) m kvs)"
  by (induction kvs arbitrary: m) (auto intro: keys_sorted_jins)

lemma jget_trim_jobj [simp]:
  "jget k (trim_obj (jobj kvs)) =
     (case map_of (rev kvs) k of None \<Rightarrow> None | Some v \<Rightarrow> if v = JNull then None else Some (trim_obj v))"
proof -
  have "keys_sorted (foldl (\<lambda>m (k, v). jins k v m) [] kvs)" by (rule keys_sorted_foldl) simp
  from map_of_trim [OF keys_sorted_distinct [OF this]] show ?thesis
    by (simp add: jobj_def map_of_foldl_jins split: option.splits)
qed

definition is_obj :: "jv \<Rightarrow> bool" where
  "is_obj v = (as_object v \<noteq> None)"

lemma is_obj_simps [simp]:
  "is_obj (jobj kvs)" "is_obj (trim_obj (jobj kvs))" "is_obj v \<Longrightarrow> is_obj (jput k w v)"
  by (auto simp: is_obj_def jobj_def jput_def split: jv.splits)

lemma is_obj_put [simp]: "is_obj v \<Longrightarrow> jget k (jput k' w v) = (if k = k' then Some w else jget k v)"
  by (auto simp: is_obj_def)

lemma is_obj_not_null [simp]: "jobj kvs \<noteq> JNull" "trim_obj (jobj kvs) \<noteq> JNull"
  by (simp_all add: jobj_def)

lemma as_str_built [simp]:
  "as_str (jobj kvs) = None" "as_str (jstrs ss) = None" "as_str (trim_obj (jobj kvs)) = None"
  by (simp_all add: jobj_def jstrs_def)

lemma as_array_built [simp]:
  "as_array (jobj kvs) = None" "as_array (jstrs ss) = Some (map JStr ss)" "as_array (trim_obj (jobj kvs)) = None"
  by (simp_all add: jobj_def jstrs_def)

lemma trim_built [simp]: "trim_obj (jstrs ss) = jstrs ss" "trim_obj (jnat n) = jnat n"
  by (simp_all add: jstrs_def jnat_def)

lemma jstrs_not_null [simp]: "jstrs ss \<noteq> JNull" "jnat n \<noteq> JNull"
  by (simp_all add: jstrs_def jnat_def)

lemma as_u64_jnat [simp]: "as_u64 (jnat n) = Some n"
  by (simp add: jnat_def)

lemma pointer_step_obj: "is_obj v \<Longrightarrow> pointer_step v t = jget t v"
  by (cases v) (simp_all add: is_obj_def pointer_step_def)

lemma pointer_step_null [simp]: "pointer_step JNull t = None"
  by (simp add: pointer_step_def)

lemma pointer_step_array0: "pointer_step (JArr xs) ''0'' = (case xs of [] \<Rightarrow> None | x # _ \<Rightarrow> Some x)"
proof -
  have "parse_index ''0'' = Some 0"
    by (simp add: parse_index_def parse_u64_def parse_unsigned_def u64_max_def is_ascii_digit_def digit_value_def)
  then show ?thesis by (cases xs) (simp_all add: pointer_step_def jat_def)
qed

lemma pointer_paths:
  "pointer ''/headers/Host'' v = pointer_path v [''headers'', ''Host'']"
  "pointer ''/header/request/path'' v = pointer_path v [''header'', ''request'', ''path'']"
  "pointer ''/header/request/headers/Host'' v = pointer_path v [''header'', ''request'', ''headers'', ''Host'']"
  "pointer ''/header/type'' v = pointer_path v [''header'', ''type'']"
  "pointer ''/pinnedPeerCertSha256/0'' v = pointer_path v [''pinnedPeerCertSha256'', ''0'']"
  "pointer ''/settings/vnext/0'' v = pointer_path v [''settings'', ''vnext'', ''0'']"
  "pointer ''/settings/servers/0'' v = pointer_path v [''settings'', ''servers'', ''0'']"
  "pointer ''/users/0'' v = pointer_path v [''users'', ''0'']"
  "pointer ''/settings'' v = pointer_path v [''settings'']"
  "pointer ''/settings/port'' v = pointer_path v [''settings'', ''port'']"
  "pointer ''/settings/version'' v = pointer_path v [''settings'', ''version'']"
  "pointer ''/settings/password'' v = pointer_path v [''settings'', ''password'']"
  "pointer ''/streamSettings/hysteriaSettings'' v = pointer_path v [''streamSettings'', ''hysteriaSettings'']"
  "pointer ''/streamSettings/tlsSettings'' v = pointer_path v [''streamSettings'', ''tlsSettings'']"
  "pointer ''/streamSettings/finalmask'' v = pointer_path v [''streamSettings'', ''finalmask'']"
  "pointer ''/udpHop/ports'' v = pointer_path v [''udpHop'', ''ports'']"
  "pointer ''/udpHop/interval'' v = pointer_path v [''udpHop'', ''interval'']"
  by (simp_all add: pointer_def)

lemma string_vec_jstrs [simp]: "string_vec (Some (jstrs ss)) = Some ss"
proof -
  have "List.map_filter as_str (map JStr ss) = ss" by (induction ss) (simp_all add: List.map_filter_simps)
  then show ?thesis by (simp add: string_vec_def)
qed

lemma string_vec_map [simp]: "string_vec (map_option jstrs x) = x"
  by (cases x) (simp_all, simp add: string_vec_def)

lemma string_vec_None [simp]: "string_vec None = None"
  by (simp add: string_vec_def)

lemma unwrap_or_simps [simp]: "unwrap_or None d = d" "unwrap_or (Some x) d = x"
  by (simp_all add: unwrap_or_def)

section \<open>Streams\<close>

text \<open>What the transport block carries: path, host, service name, mode, extra, authority,
multi mode and header type, per kind of transport.\<close>

definition head_item :: "string option \<Rightarrow> string option" where
  "head_item s = Option.bind s (\<lambda>x. case comma_items x of [] \<Rightarrow> None | i # _ \<Rightarrow> Some i)"

definition bare :: "string \<Rightarrow> jv stream_settings" where
  "bare n = plain_stream (network_name n) ''none''"

definition carried_network :: "jv stream_settings \<Rightarrow> jv stream_settings" where
  "carried_network s =
     (let n = ss_network s; b = bare n
      in if n \<in> {''ws'', ''httpupgrade'', ''h2'', ''http''} then b\<lparr>ss_path := ss_path s, ss_host := ss_host s\<rparr>
         else if n \<in> {''kcp'', ''mkcp''} then b\<lparr>ss_path := ss_path s, ss_header_type := ss_header_type s\<rparr>
         else if n = ''grpc''
         then b\<lparr>ss_service_name := map_option trim_start_slashes (or_else (ss_service_name s) (ss_path s)),
                ss_grpc_authority := ss_grpc_authority s, ss_grpc_multi_mode := ss_grpc_multi_mode s\<rparr>
         else if n \<in> {''xhttp'', ''splithttp''}
         then b\<lparr>ss_path := ss_path s, ss_host := ss_host s, ss_xhttp_mode := Some (xhttp_mode s),
                ss_xhttp_extra := filter_opt is_obj (map_option trim_obj (ss_xhttp_extra s))\<rparr>
         else if n \<in> {''tcp'', ''raw''} \<and> ss_header_type s = Some ''http''
         then b\<lparr>ss_path := head_item (ss_path s), ss_host := head_item (ss_host s),
                ss_header_type := Some ''http''\<rparr>
         else b)"

definition carried :: "import_env \<Rightarrow> jv stream_settings \<Rightarrow> jv stream_settings" where
  "carried E s =
     (if ss_security s = ''tls'' then (carried_network s)\<lparr>ss_security := ''tls'', ss_sni := ss_sni s,
        ss_alpn := ss_alpn s, ss_fingerprint := ss_fingerprint s,
        ss_pin_sha256 := Option.bind (ss_pin_sha256 s) (normalize_pin_sha256 (ie_base64 E)),
        ss_ech := ss_ech s, ss_verify_peer_cert_by_name := ss_verify_peer_cert_by_name s\<rparr>
      else if ss_security s = ''reality'' then (carried_network s)\<lparr>ss_security := ''reality'', ss_sni := ss_sni s,
        ss_fingerprint := ss_fingerprint s, ss_public_key := ss_public_key s, ss_short_id := ss_short_id s,
        ss_spider_x := ss_spider_x s, ss_mldsa65_verify := ss_mldsa65_verify s\<rparr>
      else carried_network s)"

text \<open>The key a transport block is stored under, with the block.\<close>

lemma jget_string_opt [simp]:
  "(case map_option JStr x of None \<Rightarrow> JNull | Some v \<Rightarrow> v) = jstr_opt x"
  by (cases x) simp_all

lemma jopt_null_iff [simp]: "jopt v = JNull \<longleftrightarrow> v = None \<or> v = Some JNull"
  by (cases v) auto

lemma trim_jstr_opt [simp]: "trim_obj (jstr_opt x) = jstr_opt x"
  by (cases x) simp_all

definition tls_block :: "jv stream_settings \<Rightarrow> jv" where
  "tls_block s = trim_obj (jobj
     [(''serverName'', jstr_opt (ss_sni s)), (''alpn'', jopt (map_option jstrs (ss_alpn s))),
      (''fingerprint'', jstr_opt (ss_fingerprint s)), (''pinnedPeerCertSha256'', jstr_opt (ss_pin_sha256 s)),
      (''echConfigList'', jstr_opt (ss_ech s)),
      (''verifyPeerCertByName'', jstr_opt (ss_verify_peer_cert_by_name s))])"

definition reality_block :: "jv stream_settings \<Rightarrow> jv" where
  "reality_block s = trim_obj (jobj
     [(''serverName'', jstr_opt (ss_sni s)), (''fingerprint'', jstr_opt (ss_fingerprint s)),
      (''publicKey'', jstr_opt (ss_public_key s)), (''shortId'', jstr_opt (ss_short_id s)),
      (''spiderX'', jstr_opt (ss_spider_x s)), (''mldsa65Verify'', jstr_opt (ss_mldsa65_verify s))])"

lemma jget_jstr_opt: "(if x = None then None else Some (jstr_opt x)) = map_option JStr x"
  by (cases x) simp_all

lemma bind_as_str [simp]: "Option.bind (map_option JStr x) as_str = x"
  by (cases x) simp_all

lemma tls_fields:
  "jget ''serverName'' (tls_block s) = map_option JStr (ss_sni s)"
  "jget ''alpn'' (tls_block s) = map_option jstrs (ss_alpn s)"
  "jget ''fingerprint'' (tls_block s) = map_option JStr (ss_fingerprint s)"
  "jget ''pinnedPeerCertSha256'' (tls_block s) = map_option JStr (ss_pin_sha256 s)"
  "jget ''echConfigList'' (tls_block s) = map_option JStr (ss_ech s)"
  "jget ''verifyPeerCertByName'' (tls_block s) = map_option JStr (ss_verify_peer_cert_by_name s)"
  "jget ''allowInsecure'' (tls_block s) = None" "jget ''publicKey'' (tls_block s) = None"
  "jget ''password'' (tls_block s) = None" "jget ''shortId'' (tls_block s) = None"
  "jget ''spiderX'' (tls_block s) = None" "jget ''mldsa65Verify'' (tls_block s) = None" "is_obj (tls_block s)"
  by (auto simp: tls_block_def split: option.splits)

lemma reality_fields:
  "jget ''serverName'' (reality_block s) = map_option JStr (ss_sni s)"
  "jget ''fingerprint'' (reality_block s) = map_option JStr (ss_fingerprint s)"
  "jget ''publicKey'' (reality_block s) = map_option JStr (ss_public_key s)"
  "jget ''shortId'' (reality_block s) = map_option JStr (ss_short_id s)"
  "jget ''spiderX'' (reality_block s) = map_option JStr (ss_spider_x s)"
  "jget ''mldsa65Verify'' (reality_block s) = map_option JStr (ss_mldsa65_verify s)"
  "jget ''alpn'' (reality_block s) = None" "jget ''allowInsecure'' (reality_block s) = None"
  "jget ''pinnedPeerCertSha256'' (reality_block s) = None" "jget ''echConfigList'' (reality_block s) = None"
  "jget ''verifyPeerCertByName'' (reality_block s) = None" "jget ''password'' (reality_block s) = None"
  "is_obj (reality_block s)"
  by (auto simp: reality_block_def split: option.splits)

text \<open>What \<open>stream_from_xray\<close> reads out of a transport block.\<close>

definition read_transport :: "jv \<Rightarrow> jv stream_settings \<Rightarrow> jv stream_settings" where
  "read_transport net b = b\<lparr>
     ss_path := or_else (string_at net ''path'')
       (or_else (Option.bind (jget ''path'' net) first_string)
       (or_else (Option.bind (pointer_path net [''header'', ''request'', ''path'']) first_string)
          (string_at net ''seed''))),
     ss_host := or_else (string_at net ''host'')
       (or_else (Option.bind (jget ''host'' net) first_string)
       (or_else (Option.bind (pointer_path net [''headers'', ''Host'']) first_string)
          (Option.bind (pointer_path net [''header'', ''request'', ''headers'', ''Host'']) first_string))),
     ss_service_name := string_at net ''serviceName'', ss_xhttp_mode := string_at net ''mode'',
     ss_xhttp_extra := object_extra net, ss_grpc_authority := string_at net ''authority'',
     ss_grpc_multi_mode := unwrap_or (bool_value (jget ''multiMode'' net)) False,
     ss_header_type := Option.bind (pointer_path net [''header'', ''type'']) as_str\<rparr>"

lemma read_transport_null: "read_transport JNull (bare n) = bare n"
  by (simp add: read_transport_def bare_def plain_stream_def string_at_def object_extra_def filter_opt_def
      bool_value_def unwrap_or_def)

lemma first_string_simps [simp]:
  "first_string (JStr x) = Some x" "first_string (jobj kvs) = None"
  "first_string (jstrs ss) = (case ss of [] \<Rightarrow> None | x # _ \<Rightarrow> Some x)"
  by (auto simp: first_string_def jstrs_def jobj_def split: list.splits)

definition transport_of :: "jv stream_settings \<Rightarrow> jv" where
  "transport_of s = (case network_block s of None \<Rightarrow> JNull | Some (_, b) \<Rightarrow> b)"

lemma jget_header:
  "jget ''header'' (jput ''request'' r (jobj [(''type'', JStr ''http'')])) = None"
  "jget ''type'' (jobj [(''type'', JStr t)]) = Some (JStr t)"
  by (simp_all add: jget_jobj)

lemma object_extra_is_obj: "object_extra v = filter_opt is_obj (jget ''extra'' v)"
  unfolding object_extra_def by (rule arg_cong [where f = "\<lambda>p. filter_opt p (jget ''extra'' v)"]) (simp add: is_obj_def fun_eq_iff)

lemma is_obj_null [simp]: "\<not> is_obj JNull"
  by (simp add: is_obj_def)

lemmas transport_simps = transport_of_def network_block_def read_transport_def carried_network_def bare_def
  plain_stream_def network_name_def string_at_def object_extra_is_obj filter_opt_def bool_value_def pointer_step_obj
  jget_jobj

lemma transport_ws:
  "ss_network s = ''ws'' \<Longrightarrow> read_transport (transport_of s) (bare (ss_network s)) = carried_network s"
  by (cases "ss_path s"; cases "ss_host s"; simp add: transport_simps)

lemma transport_httpupgrade:
  "ss_network s = ''httpupgrade'' \<Longrightarrow> read_transport (transport_of s) (bare (ss_network s)) = carried_network s"
  by (cases "ss_path s"; cases "ss_host s"; simp add: transport_simps)

lemma transport_h2:
  "ss_network s = ''h2'' \<or> ss_network s = ''http'' \<Longrightarrow> read_transport (transport_of s) (bare (ss_network s)) = carried_network s"
  by (elim disjE; cases "ss_path s"; cases "ss_host s"; simp add: transport_simps)

lemma transport_kcp:
  "ss_network s = ''kcp'' \<or> ss_network s = ''mkcp'' \<Longrightarrow> read_transport (transport_of s) (bare (ss_network s)) = carried_network s"
  by (elim disjE; cases "ss_path s"; cases "ss_header_type s"; simp add: transport_simps)

lemma transport_grpc:
  "ss_network s = ''grpc'' \<Longrightarrow> read_transport (transport_of s) (bare (ss_network s)) = carried_network s"
  by (cases "or_else (ss_service_name s) (ss_path s)"; cases "ss_grpc_authority s"; cases "ss_grpc_multi_mode s";
      simp add: transport_simps)

lemma transport_xhttp:
  "ss_network s = ''xhttp'' \<or> ss_network s = ''splithttp'' \<Longrightarrow> read_transport (transport_of s) (bare (ss_network s)) = carried_network s"
  by (elim disjE; cases "ss_path s"; cases "ss_host s"; cases "ss_xhttp_extra s";
      simp add: transport_simps)

definition http_request :: "jv stream_settings \<Rightarrow> jv" where
  "http_request s = trim_obj (jobj
     [(''path'', jopt (map_option (\<lambda>p. jstrs (comma_items p)) (ss_path s))),
      (''headers'', jopt (map_option (\<lambda>h. jobj [(''Host'', jstrs (comma_items h))]) (ss_host s)))])"

lemma http_request_empty:
  "as_object (http_request s) \<noteq> None \<and> as_object (http_request s) \<noteq> Some []
   \<longleftrightarrow> ss_path s \<noteq> None \<or> ss_host s \<noteq> None"
proof (cases "ss_path s = None \<and> ss_host s = None")
  case True
  have "as_object (trim_obj (jobj [(''path'', JNull), (''headers'', JNull)])) = Some []" by code_simp
  with True show ?thesis by (simp add: http_request_def)
next
  case False
  then have "jget ''path'' (http_request s) \<noteq> None \<or> jget ''headers'' (http_request s) \<noteq> None"
    by (auto simp: http_request_def)
  then have "as_object (http_request s) \<noteq> Some []" "as_object (http_request s) \<noteq> None"
    by (auto simp: jget_def split: option.splits)
  with False show ?thesis by (simp only: simp_thms de_Morgan_conj)
qed

definition http_header :: "jv stream_settings \<Rightarrow> jv" where
  "http_header s =
     (let header = jobj [(''type'', JStr ''http'')]
      in if ss_path s \<noteq> None \<or> ss_host s \<noteq> None then jput ''request'' (http_request s) header else header)"

lemma http_header_facts:
  "is_obj (http_header s)" "is_obj (http_request s)" "jget ''type'' (http_header s) = Some (JStr ''http'')"
  "jget ''request'' (http_header s) = (if ss_path s \<noteq> None \<or> ss_host s \<noteq> None then Some (http_request s) else None)"
  by (auto simp: http_header_def http_request_def Let_def jget_jobj)

lemma http_request_fields:
  "jget ''path'' (http_request s) = map_option (\<lambda>p. jstrs (comma_items p)) (ss_path s)"
  "jget ''headers'' (http_request s) = map_option (\<lambda>h. trim_obj (jobj [(''Host'', jstrs (comma_items h))])) (ss_host s)"
  by (cases "ss_path s"; cases "ss_host s"; simp add: http_request_def)+

lemma transport_tcp:
  assumes "ss_network s = ''tcp'' \<or> ss_network s = ''raw''" "ss_header_type s = Some ''http''"
  shows "transport_of s = jobj [(''header'', http_header s)]"
proof -
  have "network_block s = Some (''tcpSettings'', jobj [(''header'',
      if as_object (http_request s) \<noteq> None \<and> as_object (http_request s) \<noteq> Some []
      then jput ''request'' (http_request s) (jobj [(''type'', JStr ''http'')])
      else jobj [(''type'', JStr ''http'')])])"
    using assms unfolding network_block_def http_request_def [symmetric] Let_def by (elim disjE) simp_all
  then show ?thesis
    unfolding http_request_empty by (simp add: transport_of_def http_header_def)
qed

lemma transport_http_header:
  assumes "ss_network s = ''tcp'' \<or> ss_network s = ''raw''" "ss_header_type s = Some ''http''"
  shows "read_transport (transport_of s) (bare (ss_network s)) = carried_network s"
  unfolding transport_tcp [OF assms] using assms
  by (elim disjE; cases "ss_path s"; cases "ss_host s";
      simp add: transport_simps http_header_facts http_request_fields head_item_def)

lemma if_Some_None: "(if c then Some x else y) = None \<longleftrightarrow> \<not> c \<and> y = None"
  by simp

lemma network_block_None:
  "network_block s = None \<longleftrightarrow>
     \<not> ss_network s = ''ws'' \<and> \<not> ss_network s = ''httpupgrade'' \<and> \<not> (ss_network s = ''kcp'' \<or> ss_network s = ''mkcp'')
     \<and> \<not> ss_network s = ''grpc'' \<and> \<not> (ss_network s = ''xhttp'' \<or> ss_network s = ''splithttp'')
     \<and> \<not> (ss_network s = ''h2'' \<or> ss_network s = ''http'')
     \<and> \<not> ((ss_network s = ''tcp'' \<or> ss_network s = ''raw'') \<and> ss_header_type s = Some ''http'')"
  unfolding network_block_def Let_def if_Some_None by (simp only: simp_thms)

lemma transport_none:
  assumes "network_block s = None"
  shows "read_transport (transport_of s) (bare (ss_network s)) = carried_network s"
proof -
  have "read_transport (transport_of s) (bare (ss_network s)) = bare (ss_network s)"
    using assms by (simp add: transport_of_def read_transport_null)
  also have "\<dots> = carried_network s"
    using assms unfolding network_block_None carried_network_def Let_def by (simp only: insert_iff empty_iff simp_thms de_Morgan_disj if_False)
  finally show ?thesis .
qed

lemma transport_read: "read_transport (transport_of s) (bare (ss_network s)) = carried_network s"
proof (cases "network_block s = None")
  case True
  then show ?thesis by (rule transport_none)
next
  case False
  then consider "ss_network s = ''ws''" | "ss_network s = ''httpupgrade''" | "ss_network s = ''h2'' \<or> ss_network s = ''http''"
    | "ss_network s = ''kcp'' \<or> ss_network s = ''mkcp''" | "ss_network s = ''grpc''"
    | "ss_network s = ''xhttp'' \<or> ss_network s = ''splithttp''"
    | "ss_network s = ''tcp'' \<or> ss_network s = ''raw''" "ss_header_type s = Some ''http''"
    unfolding network_block_None by argo
  then show ?thesis
  proof cases
    case 1 then show ?thesis by (rule transport_ws)
  next case 2 then show ?thesis by (rule transport_httpupgrade)
  next case 3 then show ?thesis by (rule transport_h2)
  next case 4 then show ?thesis by (rule transport_kcp)
  next case 5 then show ?thesis by (rule transport_grpc)
  next case 6 then show ?thesis by (rule transport_xhttp)
  next case 7 then show ?thesis by (rule transport_http_header)
  qed
qed

definition block_keys :: "string list" where
  "block_keys = [''wsSettings'', ''grpcSettings'', ''xhttpSettings'', ''httpSettings'', ''httpupgradeSettings'',
                 ''kcpSettings'', ''tcpSettings'']"

lemma network_block_shape:
  assumes "network_block s \<noteq> None"
  shows "\<exists>k. network_block s = Some (k, transport_of s) \<and> k \<in> set block_keys
           \<and> (\<forall>v w. jget k v = Some w \<longrightarrow> xray_network_settings (network_name (ss_network s)) v = w)"
proof -
  note shape = transport_of_def network_block_def network_name_def xray_network_settings_def block_keys_def Let_def
  from assms consider "ss_network s = ''ws''" | "ss_network s = ''httpupgrade''" | "ss_network s = ''h2''" | "ss_network s = ''http''"
    | "ss_network s = ''kcp''" | "ss_network s = ''mkcp''" | "ss_network s = ''grpc''"
    | "ss_network s = ''xhttp''" | "ss_network s = ''splithttp''"
    | "ss_network s = ''tcp''" "ss_header_type s = Some ''http''" | "ss_network s = ''raw''" "ss_header_type s = Some ''http''"
    unfolding network_block_None by argo
  then show ?thesis by cases (simp_all add: shape)
qed

lemma no_block_settings:
  assumes "\<forall>k \<in> set (''rawSettings'' # block_keys). jget k v = None"
  shows "xray_network_settings n v = JNull"
  using assms by (simp add: xray_network_settings_def block_keys_def)

lemma jget_foldl_jput:
  "is_obj w \<Longrightarrow> jget q (foldl (\<lambda>v (k, x). jput k x v) w kvs)
     = (case map_of (rev kvs) q of None \<Rightarrow> jget q w | Some x \<Rightarrow> Some x)"
proof (induction kvs arbitrary: w)
  case (Cons kv kvs)
  then show ?case by (cases kv) (auto simp: map_add_def split: option.splits)
qed simp

lemma security_block_get:
  "map_of (rev (security_block s)) q =
     (if ss_security s = ''tls'' then [''security'' \<mapsto> JStr ''tls'', ''tlsSettings'' \<mapsto> tls_block s] q
      else if ss_security s = ''reality'' then [''security'' \<mapsto> JStr ''reality'', ''realitySettings'' \<mapsto> reality_block s] q
      else None)"
  by (simp add: security_block_def tls_block_def reality_block_def)

lemma stream_json_fields:
  fixes s :: "jv stream_settings"
  defines "v \<equiv> stream_settings_json s"
  shows "jget ''network'' v = Some (JStr (network_name (ss_network s)))"
    "jget ''security'' v = (if ss_security s = ''tls'' \<or> ss_security s = ''reality'' then Some (JStr (ss_security s)) else None)"
    "jget ''tlsSettings'' v = (if ss_security s = ''tls'' then Some (tls_block s) else None)"
    "jget ''realitySettings'' v = (if ss_security s = ''reality'' then Some (reality_block s) else None)"
    "xray_network_settings (network_name (ss_network s)) v = transport_of s"
proof -
  let ?base = "jobj [(''network'', JStr (network_name (ss_network s)))]"
  have base: "is_obj ?base" "jget k ?base = (if k = ''network'' then Some (JStr (network_name (ss_network s))) else None)" for k
    by (simp_all add: jget_jobj)
  have get: "jget q v = (case map_of (rev (security_block s)) q of Some x \<Rightarrow> Some x
      | None \<Rightarrow> (case network_block s of Some (k, b) \<Rightarrow> if q = k then Some b else jget q ?base | None \<Rightarrow> jget q ?base))" for q
    unfolding v_def stream_settings_json_def jget_foldl_jput [OF base(1)]
    by (auto simp: map_add_def split: option.splits prod.splits)
  have keys: "(case network_block s of Some (k, b) \<Rightarrow> if q = k then Some b else jget q ?base | None \<Rightarrow> jget q ?base)
      = (if q = ''network'' then Some (JStr (network_name (ss_network s))) else None)"
    if "q \<notin> set block_keys" for q
    using network_block_shape [of s] that by (cases "network_block s") (auto simp: base(2))
  have off: "map_of (rev (security_block s)) q = None" if "q \<notin> {''security'', ''tlsSettings'', ''realitySettings''}" for q
    using that by (simp add: security_block_get)
  show "jget ''network'' v = Some (JStr (network_name (ss_network s)))"
    using keys [of "''network''"] off [of "''network''"] by (simp add: get block_keys_def)
  show "jget ''security'' v = (if ss_security s = ''tls'' \<or> ss_security s = ''reality'' then Some (JStr (ss_security s)) else None)"
    using keys [of "''security''"] by (simp add: get block_keys_def security_block_get)
  show "jget ''tlsSettings'' v = (if ss_security s = ''tls'' then Some (tls_block s) else None)"
    using keys [of "''tlsSettings''"] by (simp add: get block_keys_def security_block_get)
  show "jget ''realitySettings'' v = (if ss_security s = ''reality'' then Some (reality_block s) else None)"
    using keys [of "''realitySettings''"] by (simp add: get block_keys_def security_block_get)
  show "xray_network_settings (network_name (ss_network s)) v = transport_of s"
  proof (cases "network_block s = None")
    case True
    have "\<forall>k \<in> set (''rawSettings'' # block_keys). jget k v = None"
      using True by (auto simp: get off base(2) block_keys_def)
    with True show ?thesis by (simp add: no_block_settings transport_of_def)
  next
    case False
    from network_block_shape [OF this] obtain k where k: "network_block s = Some (k, transport_of s)" "k \<in> set block_keys"
      "\<And>v w. jget k v = Some w \<Longrightarrow> xray_network_settings (network_name (ss_network s)) v = w" by blast
    have "map_of (rev (security_block s)) k = None" by (rule off) (use k(2) in \<open>auto simp: block_keys_def\<close>)
    then have "jget k v = Some (transport_of s)" by (simp add: get k(1))
    then show ?thesis by (rule k(3))
  qed
qed

lemma bool_value_None [simp]: "bool_value None = None"
  by (simp add: bool_value_def)

lemma tls_pin_path: "ss_pin_sha256 s = None \<Longrightarrow> pointer_path (tls_block s) [''pinnedPeerCertSha256'', ''0''] = None"
  by (simp add: pointer_step_obj tls_fields)

lemma stream_roundtrip: "stream_from_xray E (Some (stream_settings_json s)) = carried E s"
proof -
  note doc = stream_json_fields [of s]
  let ?v = "stream_settings_json s"
  have network: "string_at ?v ''network'' = Some (network_name (ss_network s))"
    by (simp add: string_at_def doc)
  have security: "string_at ?v ''security'' =
      (if ss_security s = ''tls'' \<or> ss_security s = ''reality'' then Some (ss_security s) else None)"
    by (simp add: string_at_def doc)
  have null: "\<And>k. string_at JNull k = None" "\<And>k. jget k JNull = None"
    by (simp_all add: string_at_def)
  note unfold = stream_from_xray_def read_transport_def bare_def plain_stream_def carried_def get_or_null_def Let_def
  consider "ss_security s = ''tls''" | "ss_security s = ''reality''" | "ss_security s \<noteq> ''tls''" "ss_security s \<noteq> ''reality''"
    by blast
  then show ?thesis
  proof cases
    case 1
    then show ?thesis
      by (cases "ss_pin_sha256 s")
         (simp_all add: unfold transport_read [symmetric] network security doc tls_fields string_at_def pointer_paths tls_pin_path
            del: pointer_path.simps)
  next
    case 2
    then show ?thesis
      by (simp add: unfold transport_read [symmetric] network security doc reality_fields string_at_def pointer_paths pointer_step_obj)
  next
    case 3
    then show ?thesis
      by (simp add: unfold transport_read [symmetric] network security doc null pointer_paths)
  qed
qed

section \<open>Hysteria2\<close>

definition carried_hysteria2 :: "import_env \<Rightarrow> hysteria2_settings \<Rightarrow> hysteria2_settings" where
  "carried_hysteria2 E s = s\<lparr>h2_allow_insecure := False,
     h2_pin_sha256 := Option.bind (h2_pin_sha256 s) (normalize_pin_sha256 (ie_base64 E)),
     h2_obfs := (case h2_obfs s of
         Some obfs \<Rightarrow> if eq_ignore_ascii_case (ho_kind obfs) ''salamander'' then Some (obfs\<lparr>ho_kind := ''salamander''\<rparr>) else None
       | None \<Rightarrow> None),
     h2_up_mbps := map_option (max 1) (h2_up_mbps s), h2_down_mbps := map_option (max 1) (h2_down_mbps s),
     h2_hop_interval_secs := (if h2_port_hop s = [] then None else h2_hop_interval_secs s)\<rparr>"

definition hysteria2_ok :: "hysteria2_settings \<Rightarrow> bool" where
  "hysteria2_ok s = (list_all port_range_ok (h2_port_hop s)
     \<and> pred_option (\<lambda>n. n \<le> u32_max) (h2_up_mbps s) \<and> pred_option (\<lambda>n. n \<le> u32_max) (h2_down_mbps s)
     \<and> pred_option (\<lambda>n. n \<le> u32_max) (h2_hop_interval_secs s)
     \<and> pred_option (\<lambda>n. n \<le> u32_max) (h2_udp_idle_timeout_secs s))"

lemma split_on_absent: "d \<notin> set s \<Longrightarrow> split_on d s = [s]"
  by (induction s) auto

lemma range_separators:
  assumes "d = CHR '','' \<or> d = CHR ''/''"
  shows "d \<notin> set (port_range_to_xray r)"
proof -
  have "\<not> is_ascii_digit d" "d \<noteq> CHR ''-''" using assms by (auto simp: is_ascii_digit_def)
  then show ?thesis by (simp add: port_range_to_xray_def char_not_in_show_nat)
qed

lemma port_range_own: "port_range_to_xray \<lparr>pr_start = n, pr_end = n\<rparr> = show_nat n"
  by (simp add: port_range_to_xray_def)

lemma port_ranges_written:
  assumes "list_all port_range_ok rs"
  shows "port_ranges (Some (jstrs (map port_range_to_xray rs))) = rs"
proof -
  have pieces: "concat (map (split_on CHR ''/'') (split_on CHR '','' (port_range_to_xray r))) = [port_range_to_xray r]" for r
    by (simp add: split_on_absent range_separators)
  have "List.map_filter port_range_parse (map port_range_to_xray rs) = rs"
    using assms by (induction rs) (simp_all add: List.map_filter_simps port_range_parse_to_xray)
  then show ?thesis
    by (simp add: port_ranges_def pieces comp_def concat_map_singleton)
qed

lemma own_port_dropped:
  assumes "list_all port_range_ok rs" "0 < port" "port \<le> 65535"
  shows "drop_own_port port (port_ranges (Some (jstrs (show_nat port # map port_range_to_xray rs)))) = rs"
proof -
  have "port_range_ok \<lparr>pr_start = port, pr_end = port\<rparr>" using assms by (simp add: port_range_ok_def)
  with assms(1) port_ranges_written [of "\<lparr>pr_start = port, pr_end = port\<rparr> # rs"] show ?thesis
    by (simp add: port_range_own drop_own_port_def)
qed

lemma lower_ascii_digits: "list_all is_ascii_digit s \<Longrightarrow> lower_ascii s = s"
  by (induction s) (auto simp: to_ascii_lowercase_def is_ascii_digit_def is_ascii_uppercase_def)

lemma space_not_parsed: "CHR '' '' \<in> set s \<Longrightarrow> parse_unsigned m s = None"
proof -
  have "\<not> is_ascii_digit (CHR '' '')" by (simp add: is_ascii_digit_def)
  then show "CHR '' '' \<in> set s \<Longrightarrow> parse_unsigned m s = None"
    by (cases s) (auto simp: parse_unsigned_def Let_def list_all_iff simp del: is_ascii_digit_def)
qed

lemma take_digits: "list_all is_ascii_digit s \<Longrightarrow> take_while_digit (s @ '' mbps'') = s"
  by (induction s) (simp_all add: is_ascii_digit_def)

lemma bandwidth_written:
  assumes "n \<le> u32_max"
  shows "bandwidth_value (Some (JStr (show_nat n @ '' mbps''))) = Some (max 1 n)"
proof -
  let ?s = "show_nat n @ '' mbps''"
  have "parse_u32 ?s = None" unfolding parse_u32_def by (rule space_not_parsed) simp
  moreover have "trim ?s = ?s" by (rule trim_graphic) (simp add: digit_graphic, simp add: digit_graphic, simp add: is_ascii_graphic_def)
  moreover have "lower_ascii ?s = ?s"
    using lower_ascii_digits [OF show_nat_digits, of n] by (simp add: to_ascii_lowercase_def is_ascii_uppercase_def)
  moreover have "parse_u64 (show_nat n) = Some n"
    using assms unfolding parse_u64_def by (intro parse_show_nat) (simp add: u32_max_def u64_max_def)
  moreover have "trim '' mbps'' = ''mbps''" by code_simp
  ultimately show ?thesis
    using assms by (simp add: bandwidth_value_def u32_value_def filter_opt_def parse_bandwidth_mbps_def take_digits
        [OF show_nat_digits] clamp_mbps_def)
qed

definition hysteria2_tls :: "hysteria2_settings \<Rightarrow> jv" where
  "hysteria2_tls s = trim_obj (jobj
     [(''serverName'', jstr_opt (h2_sni s)), (''alpn'', jopt (map_option jstrs (h2_alpn s))),
      (''pinnedPeerCertSha256'', jstr_opt (h2_pin_sha256 s))])"

definition hop_block :: "hysteria2_settings \<Rightarrow> nat \<Rightarrow> jv option" where
  "hop_block s port = (if h2_port_hop s = [] then None
     else Some (trim_obj (jobj
       [(''ports'', jstrs (show_nat port # map port_range_to_xray (h2_port_hop s))),
        (''interval'', jopt (map_option jnat (h2_hop_interval_secs s)))])))"

definition mbps_text :: "nat \<Rightarrow> jv" where
  "mbps_text n = JStr (show_nat n @ '' mbps'')"

definition hysteria2_block :: "string \<Rightarrow> hysteria2_settings \<Rightarrow> nat \<Rightarrow> jv" where
  "hysteria2_block auth s port = trim_obj (jobj
     [(''version'', jnat 2), (''auth'', JStr auth),
      (''up'', jopt (map_option mbps_text (h2_up_mbps s))), (''down'', jopt (map_option mbps_text (h2_down_mbps s))),
      (''congestion'', jstr_opt (h2_congestion s)),
      (''udpIdleTimeout'', jopt (map_option jnat (h2_udp_idle_timeout_secs s))), (''udpHop'', jopt (hop_block s port))])"

lemma hop_block_fields:
  assumes "hop_block s port = Some b"
  shows "jget ''ports'' b = Some (jstrs (show_nat port # map port_range_to_xray (h2_port_hop s)))"
    and "jget ''interval'' b = map_option jnat (h2_hop_interval_secs s)"
    and "is_obj b" and "trim_obj b = b" and "b \<noteq> JNull" and "h2_port_hop s \<noteq> []"
proof -
  from assms have b: "b = trim_obj (jobj
       [(''ports'', jstrs (show_nat port # map port_range_to_xray (h2_port_hop s))),
        (''interval'', jopt (map_option jnat (h2_hop_interval_secs s)))])" "h2_port_hop s \<noteq> []"
    by (simp_all add: hop_block_def split: if_splits)
  then show "jget ''ports'' b = Some (jstrs (show_nat port # map port_range_to_xray (h2_port_hop s)))"
    "jget ''interval'' b = map_option jnat (h2_hop_interval_secs s)" "is_obj b" "b \<noteq> JNull" "h2_port_hop s \<noteq> []"
    by (cases "h2_hop_interval_secs s"; simp)+
  show "trim_obj b = b"
    unfolding b by (intro trim_idem jwf_jobj_list) (auto simp: option.pred_map option.pred_True comp_def)
qed

lemma trim_mbps [simp]: "trim_obj (mbps_text n) = mbps_text n" "mbps_text n \<noteq> JNull"
  by (simp_all add: mbps_text_def)

lemma hysteria2_block_fields:
  "jget ''auth'' (hysteria2_block auth s port) = Some (JStr auth)"
  "jget ''up'' (hysteria2_block auth s port) = map_option mbps_text (h2_up_mbps s)"
  "jget ''down'' (hysteria2_block auth s port) = map_option mbps_text (h2_down_mbps s)"
  "jget ''congestion'' (hysteria2_block auth s port) = map_option JStr (h2_congestion s)"
  "jget ''udpIdleTimeout'' (hysteria2_block auth s port) = map_option jnat (h2_udp_idle_timeout_secs s)"
  "jget ''udpHop'' (hysteria2_block auth s port) = hop_block s port" "is_obj (hysteria2_block auth s port)"
proof -
  have "(case hop_block s port of None \<Rightarrow> None | Some v \<Rightarrow> if v = JNull then None else Some (trim_obj v)) = hop_block s port"
    using hop_block_fields(4,5) [of s port] by (auto split: option.splits)
  then show "jget ''udpHop'' (hysteria2_block auth s port) = hop_block s port"
    by (cases "hop_block s port") (simp_all add: hysteria2_block_def hop_block_fields(4,5))
qed (auto simp: hysteria2_block_def split: option.splits)

lemma hysteria2_tls_fields:
  "jget ''serverName'' (hysteria2_tls s) = map_option JStr (h2_sni s)"
  "jget ''alpn'' (hysteria2_tls s) = map_option jstrs (h2_alpn s)"
  "jget ''pinnedPeerCertSha256'' (hysteria2_tls s) = map_option JStr (h2_pin_sha256 s)"
  "jget ''allowInsecure'' (hysteria2_tls s) = None" "is_obj (hysteria2_tls s)"
  by (auto simp: hysteria2_tls_def split: option.splits)

lemma hysteria2_stream_fields:
  "jget ''tlsSettings'' (hysteria2_stream auth s port) = Some (hysteria2_tls s)"
  "jget ''hysteriaSettings'' (hysteria2_stream auth s port) = Some (hysteria2_block auth s port)"
  "jget ''finalmask'' (hysteria2_stream auth s port) =
     (case h2_obfs s of
        Some obfs \<Rightarrow> if eq_ignore_ascii_case (ho_kind obfs) ''salamander''
          then Some (jobj [(''type'', JStr ''salamander''), (''settings'', jobj [(''password'', JStr (ho_password obfs))])])
          else None
      | None \<Rightarrow> None)" "is_obj (hysteria2_stream auth s port)"
  unfolding hysteria2_stream_def Let_def hop_block_def [symmetric] mbps_text_def [symmetric]
    hysteria2_tls_def [symmetric] hysteria2_block_def [symmetric]
  by (auto simp: jget_jobj split: option.splits)

lemma pointer_paths_below:
  "pointer ''/streamSettings/hysteriaSettings'' v = Option.bind (pointer_step v ''streamSettings'') (\<lambda>w. pointer_step w ''hysteriaSettings'')"
  by (simp add: pointer_paths split: option.splits)

lemma u32_jnat: "u32_value (map_option jnat n) = n" if "pred_option (\<lambda>n. n \<le> u32_max) n"
  using that by (cases n) (simp_all add: u32_value_def filter_opt_def)

lemma u16_jnat: "n \<le> 65535 \<Longrightarrow> u16_value (jnat n) = Some n"
  by (simp add: u16_value_def filter_opt_def)

lemma seconds_jnat: "seconds_value (map_option jnat n) = n" if "pred_option (\<lambda>n. n \<le> u32_max) n"
  using that by (cases n) (simp_all add: seconds_value_def u32_value_def filter_opt_def)

lemma bandwidth_mbps: "bandwidth_value (map_option mbps_text n) = map_option (max 1) n"
  if "pred_option (\<lambda>n. n \<le> u32_max) n"
  using that by (cases n) (simp_all add: bandwidth_written mbps_text_def, simp add: bandwidth_value_def)

lemma hop_read:
  assumes "hysteria2_ok s" "0 < port" "port \<le> 65535"
  shows "drop_own_port port (port_ranges (pointer ''/udpHop/ports'' (hysteria2_block auth s port))) = h2_port_hop s \<and> 
    seconds_value (pointer ''/udpHop/interval'' (hysteria2_block auth s port))
      = (if h2_port_hop s = [] then None else h2_hop_interval_secs s)"
proof -
  have path: "pointer_path (hysteria2_block auth s port) [''udpHop'', k] = Option.bind (hop_block s port) (jget k)" for k
    using hop_block_fields(3) [of s port]
    by (auto simp: pointer_step_obj hysteria2_block_fields split: option.splits)
  show ?thesis
  proof (cases "hop_block s port")
    case None
    then have "h2_port_hop s = []" by (simp add: hop_block_def split: if_splits)
    moreover have "port_ranges None = []" by (simp add: port_ranges_def List.map_filter_simps)
    ultimately show ?thesis
      unfolding pointer_paths path None by (simp_all add: drop_own_port_def seconds_value_def)
  next
    case (Some b)
    note b = hop_block_fields [OF Some]
    have "drop_own_port port (port_ranges (pointer ''/udpHop/ports'' (hysteria2_block auth s port))) = h2_port_hop s"
      unfolding pointer_paths path Some bind.bind_lunit b(1)
      by (rule own_port_dropped) (use assms in \<open>simp_all add: hysteria2_ok_def\<close>)
    moreover have "seconds_value (pointer ''/udpHop/interval'' (hysteria2_block auth s port))
        = (if h2_port_hop s = [] then None else h2_hop_interval_secs s)"
      unfolding pointer_paths path Some bind.bind_lunit b(2) using assms b(6)
      by (simp add: seconds_jnat hysteria2_ok_def)
    ultimately show ?thesis by blast
  qed
qed

lemma hysteria2_roundtrip:
  fixes auth addr tag :: string
  assumes ok: "hysteria2_ok s" "0 < port" "port \<le> 65535"
  defines "doc \<equiv> jobj [(''tag'', JStr tag), (''protocol'', JStr ''hysteria''),
     (''settings'', jobj [(''version'', jnat 2), (''address'', JStr addr), (''port'', jnat port)]),
     (''streamSettings'', hysteria2_stream auth s port)]"
  shows "hysteria2_from_xray E name doc
    = Some (finish_server E name PHysteria2 addr port (Hysteria2 auth (carried_hysteria2 E s)))"
proof -
  let ?b = "hysteria2_block auth s port"
  have settings: "pointer ''/settings'' doc = Some (jobj [(''version'', jnat 2), (''address'', JStr addr), (''port'', jnat port)])"
    and stream: "pointer_step doc ''streamSettings'' = Some (hysteria2_stream auth s port)"
    by (simp_all add: doc_def pointer_paths pointer_step_obj jget_jobj)
  have port: "pointer ''/settings/port'' doc = Some (jnat port)"
    by (simp add: doc_def pointer_paths pointer_step_obj jget_jobj)
  have hy: "pointer ''/streamSettings/hysteriaSettings'' doc = Some ?b"
    and tls: "pointer ''/streamSettings/tlsSettings'' doc = Some (hysteria2_tls s)"
    and mask: "pointer ''/streamSettings/finalmask'' doc = jget ''finalmask'' (hysteria2_stream auth s port)"
    by (simp_all add: pointer_paths stream pointer_step_obj hysteria2_stream_fields split: option.splits)
  let ?mask = "unwrap_or (jget ''finalmask'' (hysteria2_stream auth s port)) JNull"
  have obfs: "map_option (\<lambda>kind. \<lparr>ho_kind = kind,
      ho_password = unwrap_or (Option.bind (pointer ''/settings/password'' ?mask) as_str) []\<rparr>) (string_at ?mask ''type'')
      = h2_obfs (carried_hysteria2 E s)"
    by (simp add: hysteria2_stream_fields carried_hysteria2_def string_at_def jget_jobj pointer_paths pointer_step_obj
        split: option.splits)
  have address: "string_at (jobj [(''version'', jnat 2), (''address'', JStr addr), (''port'', jnat port)]) ''address'' = Some addr"
    by (simp add: string_at_def jget_jobj)
  note hop = hop_read [OF ok, THEN conjunct1] hop_read [OF ok, THEN conjunct2]
  have u: "pred_option (\<lambda>n. n \<le> u32_max) (h2_up_mbps s)" "pred_option (\<lambda>n. n \<le> u32_max) (h2_down_mbps s)"
    "pred_option (\<lambda>n. n \<le> u32_max) (h2_udp_idle_timeout_secs s)"
    using ok(1) by (simp_all add: hysteria2_ok_def)
  show ?thesis
    unfolding hysteria2_from_xray_def settings port hy tls mask bind.bind_lunit address u16_jnat [OF ok(3)] Let_def hop obfs
    by (simp add: u string_at_def hysteria2_tls_fields hysteria2_block_fields carried_hysteria2_def u32_jnat bandwidth_mbps
        unwrap_or_def) (cases s, simp)
qed

section \<open>Servers\<close>

definition spec_protocol :: "jv outbound_spec \<Rightarrow> protocol" where
  "spec_protocol spec =
     (case spec of Vless _ _ _ \<Rightarrow> PVless | Vmess _ _ _ _ \<Rightarrow> PVmess | Trojan _ _ \<Rightarrow> PTrojan | Shadowsocks _ _ \<Rightarrow> PShadowsocks
      | Socks _ _ \<Rightarrow> PSocks | Http _ _ \<Rightarrow> PHttp | Hysteria2 _ _ \<Rightarrow> PHysteria2 | XrayProfile _ _ _ _ \<Rightarrow> PVless)"

text \<open>A credential pair is written when either half is there, and then both come back.\<close>

definition carried_pair :: "string option \<Rightarrow> string option \<Rightarrow> string option \<Rightarrow> string option" where
  "carried_pair user pass half = (if user = None \<and> pass = None then None else Some (unwrap_or half []))"

definition carried_spec :: "import_env \<Rightarrow> jv outbound_spec \<Rightarrow> jv outbound_spec" where
  "carried_spec E spec =
     (case spec of
        Vless uuid encryption s \<Rightarrow> Vless uuid encryption ((carried E s)\<lparr>ss_flow := ss_flow s\<rparr>)
      | Vmess uuid alter_id security s \<Rightarrow> Vmess uuid alter_id security (carried E s)
      | Trojan password s \<Rightarrow> Trojan password ((carried E s)\<lparr>ss_flow := ss_flow s\<rparr>)
      | Socks user pass \<Rightarrow> Socks (carried_pair user pass user) (carried_pair user pass pass)
      | Http user pass \<Rightarrow> Http (carried_pair user pass user) (carried_pair user pass pass)
      | Hysteria2 auth s \<Rightarrow> Hysteria2 auth (carried_hysteria2 E s)
      | spec \<Rightarrow> spec)"

definition writable :: "jv outbound_spec \<Rightarrow> bool" where
  "writable spec =
     (case spec of Vmess _ alter_id _ _ \<Rightarrow> alter_id \<le> u32_max | Hysteria2 _ s \<Rightarrow> hysteria2_ok s
      | XrayProfile _ _ _ _ \<Rightarrow> False | _ \<Rightarrow> True)"

lemma carried_no_flow: "ss_flow (carried E s) = None"
  by (simp add: carried_def carried_network_def bare_def plain_stream_def Let_def)

lemma carried_flow [simp]: "(carried E s)\<lparr>ss_flow := None\<rparr> = carried E s"
proof -
  have "(carried E s)\<lparr>ss_flow := ss_flow (carried E s)\<rparr> = carried E s" by simp
  then show ?thesis unfolding carried_no_flow .
qed

lemma protocol_read:
  "jget ''protocol'' v = Some (JStr ''vless'') \<Longrightarrow> xray_outbound_protocol v = Some PVless"
  "jget ''protocol'' v = Some (JStr ''vmess'') \<Longrightarrow> xray_outbound_protocol v = Some PVmess"
  "jget ''protocol'' v = Some (JStr ''trojan'') \<Longrightarrow> xray_outbound_protocol v = Some PTrojan"
  "jget ''protocol'' v = Some (JStr ''shadowsocks'') \<Longrightarrow> xray_outbound_protocol v = Some PShadowsocks"
  "jget ''protocol'' v = Some (JStr ''socks'') \<Longrightarrow> xray_outbound_protocol v = Some PSocks"
  "jget ''protocol'' v = Some (JStr ''http'') \<Longrightarrow> xray_outbound_protocol v = Some PHttp"
  "jget ''protocol'' v = Some (JStr ''hysteria'') \<Longrightarrow> u32_value (pointer ''/settings/version'' v) = Some 2
     \<Longrightarrow> xray_outbound_protocol v = Some PHysteria2"
  by (simp_all add: xray_outbound_protocol_def protocol_from_name_def to_ascii_lowercase_def is_ascii_uppercase_def)

lemma bind_Some [simp]: "Option.bind (Some x) f = f x"
  by simp

lemmas outbound_simps = server_from_xray_outbound_def
  Let_def jget_jobj pointer_paths pointer_step_obj pointer_step_array0 user_endpoint_def string_at_def u16_jnat

lemma vless_roundtrip:
  assumes "port \<le> 65535" "protocol_outbound addr port tag (Vless uuid encryption s) = Some doc"
  shows "server_from_xray_outbound E name doc = Some (finish_server E name PVless addr port (carried_spec E (Vless uuid encryption s)))"
proof -
  have "doc = the (protocol_outbound addr port tag (Vless uuid encryption s))" using assms(2) by simp
  note doc = this [unfolded protocol_outbound_def outbound_spec.case option.sel]
  have "xray_outbound_protocol doc = Some PVless" by (simp add: doc protocol_read jget_jobj)
  then show ?thesis
    using assms by (cases "ss_flow s") (simp_all add: doc outbound_simps stream_roundtrip carried_spec_def)
qed

lemma vmess_roundtrip:
  assumes "port \<le> 65535" "protocol_outbound addr port tag (Vmess uuid alter_id security s) = Some doc" "alter_id \<le> u32_max"
  shows "server_from_xray_outbound E name doc = Some (finish_server E name PVmess addr port (carried_spec E (Vmess uuid alter_id security s)))"
proof -
  have "doc = the (protocol_outbound addr port tag (Vmess uuid alter_id security s))" using assms(2) by simp
  note doc = this [unfolded protocol_outbound_def outbound_spec.case option.sel]
  have "xray_outbound_protocol doc = Some PVmess" by (simp add: doc protocol_read jget_jobj)
  then show ?thesis
    using assms by (simp add: doc u32_value_def filter_opt_def outbound_simps stream_roundtrip carried_spec_def)
qed

lemma trojan_roundtrip:
  assumes "port \<le> 65535" "protocol_outbound addr port tag (Trojan password s) = Some doc"
  shows "server_from_xray_outbound E name doc = Some (finish_server E name PTrojan addr port (carried_spec E (Trojan password s)))"
proof -
  have "doc = the (protocol_outbound addr port tag (Trojan password s))" using assms(2) by simp
  note doc = this [unfolded protocol_outbound_def outbound_spec.case option.sel]
  have "xray_outbound_protocol doc = Some PTrojan" by (simp add: doc protocol_read jget_jobj)
  then show ?thesis
    using assms by (cases "ss_flow s") (simp_all add: doc outbound_simps stream_roundtrip carried_spec_def)
qed

lemma shadowsocks_roundtrip:
  assumes "port \<le> 65535" "protocol_outbound addr port tag (Shadowsocks cipher password) = Some doc"
  shows "server_from_xray_outbound E name doc = Some (finish_server E name PShadowsocks addr port (carried_spec E (Shadowsocks cipher password)))"
proof -
  have "doc = the (protocol_outbound addr port tag (Shadowsocks cipher password))" using assms(2) by simp
  note doc = this [unfolded protocol_outbound_def outbound_spec.case option.sel]
  have "xray_outbound_protocol doc = Some PShadowsocks" by (simp add: doc protocol_read jget_jobj)
  then show ?thesis
    using assms by (simp add: doc outbound_simps stream_roundtrip carried_spec_def)
qed

lemma socks_roundtrip:
  assumes "port \<le> 65535" "protocol_outbound addr port tag (Socks user pass) = Some doc"
  shows "server_from_xray_outbound E name doc = Some (finish_server E name PSocks addr port (carried_spec E (Socks user pass)))"
proof -
  have "doc = the (protocol_outbound addr port tag (Socks user pass))" using assms(2) by simp
  note doc = this [unfolded protocol_outbound_def outbound_spec.case option.sel]
  have "xray_outbound_protocol doc = Some PSocks" by (simp add: doc protocol_read jget_jobj)
  then show ?thesis
    using assms by (cases user; cases pass) (simp_all add: doc socks_http_server_def carried_pair_def outbound_simps stream_roundtrip carried_spec_def)
qed

lemma http_roundtrip:
  assumes "port \<le> 65535" "protocol_outbound addr port tag (Http user pass) = Some doc"
  shows "server_from_xray_outbound E name doc = Some (finish_server E name PHttp addr port (carried_spec E (Http user pass)))"
proof -
  have "doc = the (protocol_outbound addr port tag (Http user pass))" using assms(2) by simp
  note doc = this [unfolded protocol_outbound_def outbound_spec.case option.sel]
  have "xray_outbound_protocol doc = Some PHttp" by (simp add: doc protocol_read jget_jobj)
  then show ?thesis
    using assms by (cases user; cases pass) (simp_all add: doc socks_http_server_def carried_pair_def outbound_simps stream_roundtrip carried_spec_def)
qed

lemma hysteria2_server_roundtrip:
  assumes "port \<le> 65535" "protocol_outbound addr port tag (Hysteria2 auth s) = Some doc" "hysteria2_ok s" "0 < port"
  shows "server_from_xray_outbound E name doc = Some (finish_server E name PHysteria2 addr port (carried_spec E (Hysteria2 auth s)))"
proof -
  have "doc = the (protocol_outbound addr port tag (Hysteria2 auth s))" using assms(2) by simp
  note doc = this [unfolded protocol_outbound_def outbound_spec.case option.sel]
  have "xray_outbound_protocol doc = Some PHysteria2"
    by (rule protocol_read) (simp_all add: doc jget_jobj pointer_paths pointer_step_obj u32_value_def filter_opt_def u32_max_def)
  with hysteria2_roundtrip [OF assms(3,4,1)] show ?thesis
    by (simp add: server_from_xray_outbound_def doc carried_spec_def Let_def)
qed


definition sample_env :: import_env where
  "sample_env = \<lparr>ie_base64 = (\<lambda>_. None), ie_link = (\<lambda>_. None), ie_print = (\<lambda>_. None),
     ie_spec_value = (\<lambda>_. JNull), ie_spec_text = (\<lambda>_. None)\<rparr>"

definition hopping_server :: "jv server" where
  "hopping_server = \<lparr>srv_id = ''s1'', srv_name = ''node'', srv_protocol = PHysteria2, srv_address = ''a.example'',
     srv_port = 443, srv_transport_label = ''hysteria2'', srv_country = None,
     srv_spec = Hysteria2 ''secret'' \<lparr>h2_sni = Some ''a.example'', h2_alpn = Some [''h3''], h2_allow_insecure = False,
       h2_pin_sha256 = None, h2_obfs = None, h2_up_mbps = Some 100, h2_down_mbps = None,
       h2_port_hop = [\<lparr>pr_start = 5000, pr_end = 6000\<rparr>], h2_hop_interval_secs = Some 30,
       h2_congestion = None, h2_udp_idle_timeout_secs = None\<rparr>,
     srv_link = None, srv_alias = None, srv_outbound_patch = None, srv_overrides = None, srv_latency_ms = None\<rparr>"


end
