(* ===== verification/Import_Types.thy ===== *)
theory Import_Types
  imports Import_Roundtrip Xray_Routes
begin

text \<open>
  What every imported server satisfies, whatever the document: the numbers fit their types, the
  protocol is the one of the outbound's parameters, port ranges are not empty, a balanced profile
  has a balancer and at least two outbounds, and the id is the hash of the identity.
\<close>

section \<open>Numbers\<close>

lemma u16_value_bound: "u16_value v = Some n \<Longrightarrow> n \<le> 65535"
  by (auto simp: u16_value_def or_else_def filter_opt_def parse_u16_def bind_eq_Some_conv
      split: option.splits if_splits dest: parse_unsigned_bound)

lemma u32_value_bound: "u32_value v = Some n \<Longrightarrow> n \<le> u32_max"
  by (auto simp: u32_value_def or_else_def filter_opt_def parse_u32_def bind_eq_Some_conv
      split: option.splits if_splits dest: parse_unsigned_bound)

lemma seconds_value_bound: "seconds_value v = Some n \<Longrightarrow> n \<le> u32_max"
  by (auto simp: seconds_value_def or_else_def parse_u32_def bind_eq_Some_conv
      split: option.splits dest: u32_value_bound parse_unsigned_bound)

lemma bandwidth_value_bound:
  assumes "bandwidth_value v = Some n"
  shows "n \<le> u32_max"
proof (cases "u32_value v")
  case None
  with assms show ?thesis
    by (auto simp: bandwidth_value_def bind_eq_Some_conv dest: parse_bandwidth_range)
next
  case (Some m)
  with assms have "n = max m 1" by (auto simp: bandwidth_value_def bind_eq_Some_conv)
  with u32_value_bound [OF Some] show ?thesis by (simp add: u32_max_def)
qed

lemma port_ranges_ok: "list_all port_range_ok (port_ranges v)"
  by (auto simp: port_ranges_def list_all_iff List.map_filter_def intro: port_range_parse_ok)

lemma drop_own_port_ok: "list_all port_range_ok rs \<Longrightarrow> list_all port_range_ok (drop_own_port port rs)"
  by (cases rs) (simp_all add: drop_own_port_def)

lemma hop_port_bound:
  assumes "\<And>n. p = Some n \<Longrightarrow> n \<le> 65535" and "list_all port_range_ok rs"
  shows "hop_port p rs \<le> 65535"
  using assms by (cases p; cases rs) (auto simp: hop_port_def port_range_ok_def)

lemma pred_option_bound: "(\<And>n. v = Some n \<Longrightarrow> P n) \<Longrightarrow> pred_option P v"
  by (cases v) simp_all

section \<open>Servers\<close>

definition spec_ok :: "protocol \<Rightarrow> jv outbound_spec \<Rightarrow> bool" where
  "spec_ok protocol spec =
     (case spec of
        XrayProfile outs balancers _ _ \<Rightarrow>
          2 \<le> length outs \<and> balancers \<noteq> [] \<and> list_all (\<lambda>out. xray_outbound_protocol out \<noteq> None) outs
      | _ \<Rightarrow> protocol = spec_protocol spec \<and> writable spec)"

definition server_ok :: "import_env \<Rightarrow> jv server \<Rightarrow> bool" where
  "server_ok E server =
     (srv_port server \<le> 65535 \<and> spec_ok (srv_protocol server) (srv_spec server)
      \<and> srv_id server = stable_id (identity_string E server)
      \<and> srv_country server = country_from_name (srv_name server)
      \<and> srv_alias server = None \<and> srv_outbound_patch server = None \<and> srv_overrides server = None)"

lemma identity_string_id: "identity_string E (server\<lparr>srv_id := i\<rparr>) = identity_string E server"
  by (cases "srv_link server"; cases "srv_spec server"; cases "srv_outbound_patch server")
     (simp_all add: identity_string_def identity_from_serialized_spec_def Let_def cong: option.case_cong)

lemma finish_server_ok:
  "port \<le> 65535 \<Longrightarrow> spec_ok protocol spec \<Longrightarrow> server_ok E (finish_server E name protocol address port spec)"
proof -
  assume "port \<le> 65535" "spec_ok protocol spec"
  define server where "server = \<lparr>srv_id = [], srv_name = name, srv_protocol = protocol, srv_address = address,
            srv_port = port, srv_transport_label = transport_label protocol spec,
            srv_country = country_from_name name, srv_spec = spec, srv_link = None, srv_alias = None,
            srv_outbound_patch = None, srv_overrides = None, srv_latency_ms = None\<rparr>"
  have "server_ok E (linked\<lparr>srv_id := stable_id (identity_string E linked)\<rparr>)"
    if "linked = server\<lparr>srv_link := ie_link E server\<rparr>" for linked
    using that \<open>port \<le> 65535\<close> \<open>spec_ok protocol spec\<close>
    by (simp only: server_ok_def identity_string_id) (simp add: server_def)
  then show ?thesis unfolding finish_server_def Let_def server_def by blast
qed

lemma plain_ok:
  "spec_ok PVless (Vless u e s)" "spec_ok PTrojan (Trojan p s)" "spec_ok PShadowsocks (Shadowsocks m p)"
  "spec_ok PSocks (Socks a b)" "spec_ok PHttp (Http a b)"
  "spec_ok PVmess (Vmess u (unwrap_or (u32_value v) 0) x s)"
  using u32_value_bound [of v] by (cases "u32_value v"; simp add: spec_ok_def spec_protocol_def writable_def)+

lemma hysteria2_spec_ok:
  assumes "list_all port_range_ok (h2_port_hop s)" "\<And>n. h2_up_mbps s = Some n \<Longrightarrow> n \<le> u32_max"
    "\<And>n. h2_down_mbps s = Some n \<Longrightarrow> n \<le> u32_max" "\<And>n. h2_hop_interval_secs s = Some n \<Longrightarrow> n \<le> u32_max"
    "\<And>n. h2_udp_idle_timeout_secs s = Some n \<Longrightarrow> n \<le> u32_max"
  shows "spec_ok PHysteria2 (Hysteria2 auth s)"
  using assms by (auto simp: spec_ok_def spec_protocol_def writable_def hysteria2_ok_def intro!: pred_option_bound)

lemmas number_bounds = u16_value_bound u32_value_bound seconds_value_bound bandwidth_value_bound

lemmas hysteria2_ok_rules = finish_server_ok hysteria2_spec_ok drop_own_port_ok port_ranges_ok hop_port_bound

lemma hysteria2_from_xray_ok: "hysteria2_from_xray E name v = Some server \<Longrightarrow> server_ok E server"
  unfolding hysteria2_from_xray_def Let_def bind_eq_Some_conv
  by (elim exE conjE) (clarsimp, intro hysteria2_ok_rules; simp add: number_bounds port_ranges_ok drop_own_port_ok)

lemma hysteria2_from_sing_box_ok: "hysteria2_from_sing_box E name a v = Some server \<Longrightarrow> server_ok E server"
  unfolding hysteria2_from_sing_box_def Let_def
  by (clarsimp, intro hysteria2_ok_rules; simp add: number_bounds port_ranges_ok)

lemma hysteria2_from_clash_ok: "hysteria2_from_clash E name a v = Some server \<Longrightarrow> server_ok E server"
  unfolding hysteria2_from_clash_def Let_def
  by (clarsimp, intro hysteria2_ok_rules; simp add: number_bounds port_ranges_ok)

lemma server_from_xray_outbound_ok: "server_from_xray_outbound E name v = Some server \<Longrightarrow> server_ok E server"
  by (cases "xray_outbound_protocol v"; cases "the (xray_outbound_protocol v)")
     (auto simp: server_from_xray_outbound_def Let_def bind_eq_Some_conv plain_ok number_bounds
      intro!: finish_server_ok dest: hysteria2_from_xray_ok)

lemma server_from_sing_box_ok: "server_from_sing_box E v = Some server \<Longrightarrow> server_ok E server"
  by (auto simp: server_from_sing_box_def Let_def bind_eq_Some_conv plain_ok number_bounds
      intro!: finish_server_ok split: if_splits protocol.splits dest: hysteria2_from_sing_box_ok)

lemma server_from_clash_ok: "server_from_clash E v = Some server \<Longrightarrow> server_ok E server"
  by (auto simp: server_from_clash_def Let_def bind_eq_Some_conv plain_ok number_bounds
      intro!: finish_server_ok split: if_splits protocol.splits dest: hysteria2_from_clash_ok)

lemma xray_profile_server_ok:
  assumes "xray_profile_server E config name outs balancers tag = Some server"
    and "1 < length outs" "balancers \<noteq> []" "\<forall>out \<in> set outs. xray_outbound_protocol out \<noteq> None"
  shows "server_ok E server"
proof -
  let ?base = "\<lambda>first. \<lparr>srv_id = [], srv_name = name, srv_protocol = srv_protocol first,
      srv_address = srv_address first, srv_port = srv_port first,
      srv_transport_label = ''xray + balanced ('' @ show_nat (length outs) @ '')'',
      srv_country = country_from_name name,
      srv_spec = XrayProfile outs balancers (or_else (jget ''burstObservatory'' config) (jget ''observatory'' config)) tag,
      srv_link = None, srv_alias = None, srv_outbound_patch = None, srv_overrides = None, srv_latency_ms = None\<rparr>"
  from assms(1) [unfolded xray_profile_server_def Let_def bind_eq_Some_conv option.inject]
  obtain first where first: "(case outs of [] \<Rightarrow> None | out # _ \<Rightarrow> server_from_xray_outbound E name out) = Some first"
    and server: "(?base first)\<lparr>srv_id := stable_id (identity_string E (?base first))\<rparr> = server" by blast
  from first have "server_ok E first" by (cases outs) (auto intro: server_from_xray_outbound_ok)
  then have "srv_port first \<le> 65535" by (simp add: server_ok_def)
  then have "server_ok E (base\<lparr>srv_id := stable_id (identity_string E base)\<rparr>)" if "base = ?base first" for base
    using that assms(2-4) by (simp only: server_ok_def identity_string_id) (auto simp: spec_ok_def list_all_iff)
  from this [OF refl] show ?thesis unfolding server .
qed

lemma config_servers_ok:
  assumes "server \<in> set (config_servers E config)"
  shows "server_ok E server"
  using assms unfolding config_servers_def Let_def
  by (auto simp: List.map_filter_def bind_eq_Some_conv split: option.splits if_splits
      intro: server_from_xray_outbound_ok xray_profile_server_ok)

lemma parse_json_ok: "server \<in> set (parse_json E v) \<Longrightarrow> server_ok E server"
  by (auto simp: parse_json_def parse_xray_configs_def parse_clash_def parse_sing_box_def List.map_filter_def
      split: option.splits if_splits
      intro: config_servers_ok server_from_sing_box_ok server_from_clash_ok)

lemma protocol_object: "xray_outbound_protocol v \<noteq> None \<Longrightarrow> as_object v \<noteq> None"
  by (cases v) (simp_all add: xray_outbound_protocol_def)

lemma server_ok_runs:
  assumes ok: "server_ok E server" and "rc_dialer core = None"
  shows "is_ok (generate server bind sp hp core)"
proof (cases "srv_spec server")
  case (XrayProfile outs balancers burst tag)
  then have "list_all (\<lambda>v. as_object v \<noteq> None) outs"
    using ok protocol_object by (simp add: server_ok_def spec_ok_def list_all_iff)
  from imported_ok_or_panic [OF XrayProfile this, of core bind sp hp] assms(2) show ?thesis by simp
qed (use ok generate_single_ok [of server bind sp hp core] in \<open>auto simp: server_ok_def is_ok_iff\<close>)

text \<open>whatever JSON document a panel sends, every server taken out of it is well typed: its port is
a 16-bit number, its protocol is the one of its parameters, ids of VMess and the Hysteria2 numbers fit 32
bits, no port range is empty, a balanced profile has a balancer and at least two outbounds of known
protocols, its id is the hash of its identity, and it starts without alias, patch or overrides.\<close>

theorem import_well_typed:
  assumes "server \<in> set (parse_json E v)"
  shows "server_ok E server"
  using assms by (rule parse_json_ok)

text \<open>every server taken out of a document can be run: unless the core is set to fragment or to
send noises, building its configuration neither panics nor fails, however strange the document was.\<close>

theorem imported_servers_run:
  assumes "server \<in> set (parse_json E v)" and "rc_dialer core = None"
  shows "is_ok (generate server bind sp hp core)"
  using parse_json_ok [OF assms(1)] assms(2) by (rule server_ok_runs)

definition panel_document :: jv where
  "panel_document = JObj [(''outbounds'', JArr [JObj [(''protocol'', JStr ''shadowsocks''),
     (''settings'', JObj [(''servers'', JArr [JObj [(''address'', JStr ''a.example''), (''method'', JStr ''aes-128-gcm''),
        (''password'', JStr ''secret''), (''port'', jnat 443)]])])]])]"

lemma pointer_step_JObj: "pointer_step (JObj m) t = map_of m t"
  by (simp add: pointer_step_def)

lemma panel_document_read:
  "parse_json sample_env panel_document =
     [finish_server sample_env ''Imported Xray profile'' PShadowsocks ''a.example'' 443
        (Shadowsocks ''aes-128-gcm'' ''secret'')]"
proof -
  let ?o = "JObj [(''protocol'', JStr ''shadowsocks''),
     (''settings'', JObj [(''servers'', JArr [JObj [(''address'', JStr ''a.example''), (''method'', JStr ''aes-128-gcm''),
        (''password'', JStr ''secret''), (''port'', jnat 443)]])])]"
  have p: "xray_outbound_protocol ?o = Some PShadowsocks" by (rule protocol_read) simp
  have "server_from_xray_outbound sample_env name ?o =
      Some (finish_server sample_env name PShadowsocks ''a.example'' 443 (Shadowsocks ''aes-128-gcm'' ''secret''))" for name
    unfolding server_from_xray_outbound_def p bind.bind_lunit Let_def
    by (simp add: pointer_paths pointer_step_JObj pointer_step_array0 string_at_def u16_jnat)
  with p show ?thesis
    by (simp add: panel_document_def parse_json_def parse_xray_configs_def config_servers_def Let_def pointer_paths
        pointer_step_JObj string_at_def List.map_filter_simps)
qed

theorem import_well_typed_witness:
  "server_ok sample_env (hd (parse_json sample_env panel_document)) \<and> parse_json sample_env panel_document \<noteq> []"
  using import_well_typed [of "hd (parse_json sample_env panel_document)" sample_env panel_document]
  by (simp add: panel_document_read)

theorem imported_servers_run_witness:
  "is_ok (generate (hd (parse_json sample_env panel_document)) localhost 1080 1081 plain_core)"
  by (rule imported_servers_run [of _ sample_env panel_document]) (simp_all add: panel_document_read plain_core_def)

end
