(* ===== verification/Link.thy ===== *)
theory Link
  imports Importer Net "HOL-Library.Monad_Syntax"
begin

text \<open>
  Share links and subscription bodies: \<open>crates/oxidom-core/src/link.rs\<close> and the entry points of
  \<open>subscription_format.rs\<close>. One function per scheme reads a link into a server; a list of links is
  read line by line and says what it dropped; a body is a list of links, a JSON document or a YAML one.

  The \<open>url\<close>, \<open>percent-encoding\<close>, \<open>base64\<close>, \<open>serde_json\<close> and \<open>serde_yaml\<close> crates are not in the
  repository: what the code uses of them is in the record \<open>link_env\<close>. \<open>le_url\<close> is \<open>Url::parse\<close> with
  the parts of the result the code reads (user name, password, fragment still percent-encoded, the
  query as decoded pairs).
\<close>

section \<open>What the readers use of other crates\<close>

datatype url_host = Ipv4_Host ipv4 | Ipv6_Host "nat list" | Domain_Host string

record url =
  url_scheme :: string
  url_username :: string
  url_password :: "string option"
  url_host :: "url_host option"
  url_host_str :: "string option"
  url_port :: "nat option"
  url_fragment :: "string option"
  url_query_pairs :: "(string \<times> string) list"

record link_env =
  le_import :: import_env
  le_url :: "string \<Rightarrow> url option"
  le_percent :: "string \<Rightarrow> string"
  le_base64_no_pad :: "string \<Rightarrow> nat list option"
  le_base64_url :: "string \<Rightarrow> nat list option"
  le_base64_url_no_pad :: "string \<Rightarrow> nat list option"
  le_json :: "string \<Rightarrow> jv option"
  le_yaml :: "string \<Rightarrow> jv option"

section \<open>Text\<close>

text \<open>\<open>trim_start_matches\<close> of the byte order mark, and the cleaning of a line in front of every reader.\<close>

function trim_bom :: "string \<Rightarrow> string" where
  "trim_bom s =
     (case strip_prefix s [CHR 0xEF, CHR 0xBB, CHR 0xBF] of None \<Rightarrow> s | Some r \<Rightarrow> trim_bom r)"
  by pat_completeness auto
termination
  by (relation "measure length") (auto simp: strip_prefix_iff)

declare trim_bom.simps [simp del]

definition clean_line :: "string \<Rightarrow> string" where
  "clean_line line = trim (trim_bom (trim line))"

text \<open>\<open>to_lowercase\<close> as it is compared with an ASCII word: of the characters beyond ASCII only the Kelvin
sign has an ASCII lower case, every other keeps a byte that no ASCII word has.\<close>

fun lowercase_word :: "string \<Rightarrow> string" where
  "lowercase_word (a # b # c # s) =
     (if [a, b, c] = [CHR 0xE2, CHR 0x84, CHR 0xAA] then CHR ''k'' # lowercase_word s
      else to_ascii_lowercase a # lowercase_word (b # c # s))"
| "lowercase_word (a # s) = to_ascii_lowercase a # lowercase_word s"
| "lowercase_word [] = []"

text \<open>The filter of \<open>b64_decode\<close>: every white-space character goes.\<close>

function drop_whitespace :: "string \<Rightarrow> string" where
  "drop_whitespace s =
     (if s = [] then []
      else if ws_start s = 0 then hd s # drop_whitespace (tl s)
      else drop_whitespace (drop (ws_start s) s))"
  by pat_completeness auto
termination
  by (relation "measure length") auto

declare drop_whitespace.simps [simp del]

definition b64_decode :: "link_env \<Rightarrow> string \<Rightarrow> nat list option" where
  "b64_decode L s =
     (let s = drop_whitespace s
      in find_map (\<lambda>engine. engine s)
           [ie_base64 (le_import L), le_base64_no_pad L, le_base64_url L, le_base64_url_no_pad L])"

text \<open>\<open>String::from_utf8\<close>: well-formed sequences of at most four bytes, without surrogates.\<close>

fun utf8_valid :: "nat list \<Rightarrow> bool" where
  "utf8_valid [] = True"
| "utf8_valid (a # r) =
     (let cont = (\<lambda>lo hi b. lo \<le> b \<and> b \<le> (hi::nat))
      in if a < 128 then utf8_valid r
         else case r of
           [] \<Rightarrow> False
         | b # r2 \<Rightarrow>
             if 194 \<le> a \<and> a \<le> 223 then cont 128 191 b \<and> utf8_valid r2
             else (case r2 of
               [] \<Rightarrow> False
             | c # r3 \<Rightarrow>
                 if 224 \<le> a \<and> a \<le> 239
                 then cont (if a = 224 then 160 else 128) (if a = 237 then 159 else 191) b
                      \<and> cont 128 191 c \<and> utf8_valid r3
                 else (case r3 of
                   [] \<Rightarrow> False
                 | d # r4 \<Rightarrow>
                     240 \<le> a \<and> a \<le> 244
                     \<and> cont (if a = 240 then 144 else 128) (if a = 244 then 143 else 191) b
                     \<and> cont 128 191 c \<and> cont 128 191 d \<and> utf8_valid r4)))"

definition from_utf8 :: "nat list \<Rightarrow> string option" where
  "from_utf8 bytes = (if utf8_valid bytes then Some (map char_of bytes) else None)"

text \<open>\<open>rsplit_once\<close> on a character and \<open>split\<close> on two.\<close>

definition rsplit_once :: "char \<Rightarrow> string \<Rightarrow> (string \<times> string) option" where
  "rsplit_once d s = map_option (\<lambda>(a, b). (rev b, rev a)) (split_once d (rev s))"

definition split_on_two :: "char \<Rightarrow> char \<Rightarrow> string \<Rightarrow> string list" where
  "split_on_two d e s = concat (map (split_on e) (split_on d s))"

lemma rsplit_once_Some_iff: "rsplit_once d s = Some (a, b) \<longleftrightarrow> s = a @ d # b \<and> d \<notin> set b"
proof -
  have "rsplit_once d s = Some (a, b) \<longleftrightarrow> split_once d (rev s) = Some (rev b, rev a)"
    by (auto simp: rsplit_once_def)
  also have "\<dots> \<longleftrightarrow> s = a @ d # b \<and> d \<notin> set b"
    by (auto simp: split_once_Some_iff rev_swap)
  finally show ?thesis .
qed

section \<open>Parts of a link\<close>

definition normalize_host :: "string \<Rightarrow> string" where
  "normalize_host host =
     unwrap_or (Option.bind (strip_prefix host ''['')
       (\<lambda>inner. if ends_with inner '']'' then Some (butlast inner) else None)) host"

definition host_of :: "url \<Rightarrow> string option" where
  "host_of u = map_option normalize_host (url_host_str u)"

definition decode_fragment :: "link_env \<Rightarrow> url \<Rightarrow> string" where
  "decode_fragment L u = unwrap_or (map_option (le_percent L) (url_fragment u)) []"

text \<open>\<open>query_map\<close> collects the pairs into a map: of two pairs with one name the later stays.\<close>

definition query_map :: "url \<Rightarrow> string \<Rightarrow> string option" where
  "query_map u = map_of (rev (url_query_pairs u))"

definition nonempty_at :: "(string \<Rightarrow> string option) \<Rightarrow> string \<Rightarrow> string option" where
  "nonempty_at q k = filter_opt (\<lambda>s. s \<noteq> []) (q k)"

fun first_of :: "('k \<Rightarrow> 'a option) \<Rightarrow> 'k list \<Rightarrow> 'a option" where
  "first_of get [] = None"
| "first_of get (k # ks) = or_else (get k) (first_of get ks)"

definition xhttp_extra_of :: "link_env \<Rightarrow> string \<Rightarrow> jv option" where
  "xhttp_extra_of L raw = filter_opt (\<lambda>v. as_object v \<noteq> None) (le_json L raw)"

definition comma_list :: "string \<Rightarrow> string list" where
  "comma_list s = map trim (split_on CHR '','' s)"

definition is_true_word :: "string \<Rightarrow> bool" where
  "is_true_word v = (v = ''1'' \<or> eq_ignore_ascii_case v ''true'')"

definition stream_from_query :: "link_env \<Rightarrow> (string \<Rightarrow> string option) \<Rightarrow> jv stream_settings" where
  "stream_from_query L q =
     (let get = nonempty_at q;
          network = unwrap_or (get ''type'') ''tcp'';
          security = unwrap_or (get ''security'') ''none'';
          mode = get ''mode'';
          path = (if network = ''kcp'' \<or> network = ''mkcp'' then first_of get [''path'', ''seed''] else get ''path'');
          xhttp = (network = ''xhttp'' \<or> network = ''splithttp'')
      in \<lparr>ss_network = network, ss_security = security,
          ss_sni = first_of get [''sni'', ''peer'', ''server_name''],
          ss_alpn = map_option comma_list (get ''alpn''),
          ss_fingerprint = get ''fp'',
          ss_allow_insecure = unwrap_or (map_option is_true_word (first_of q [''allowInsecure'', ''insecure''])) False,
          ss_pin_sha256 = Option.bind (first_of get [''pinSHA256'', ''pinsha256'', ''pcs''])
            (normalize_pin_sha256 (ie_base64 (le_import L))),
          ss_public_key = get ''pbk'', ss_short_id = get ''sid'', ss_spider_x = get ''spx'',
          ss_path = path, ss_host = get ''host'', ss_service_name = get ''serviceName'',
          ss_xhttp_mode = (if xhttp then mode else None),
          ss_xhttp_extra = (if xhttp then Option.bind (get ''extra'') (xhttp_extra_of L) else None),
          ss_grpc_authority = (if network = ''grpc'' then get ''authority'' else None),
          ss_grpc_multi_mode = (network = ''grpc'' \<and> mode = Some ''multi''),
          ss_header_type = get ''headerType'', ss_flow = get ''flow'', ss_ech = get ''ech'',
          ss_verify_peer_cert_by_name = get ''vcn'', ss_mldsa65_verify = get ''pqv''\<rparr>)"

definition finish_link ::
  "link_env \<Rightarrow> string \<Rightarrow> string \<Rightarrow> protocol \<Rightarrow> string \<Rightarrow> nat \<Rightarrow> jv outbound_spec \<Rightarrow> jv server" where
  "finish_link L link name protocol address port spec =
     (let server = \<lparr>srv_id = [], srv_name = name, srv_protocol = protocol, srv_address = address,
            srv_port = port, srv_transport_label = transport_label protocol spec,
            srv_country = country_from_name name, srv_spec = spec, srv_link = Some link, srv_alias = None,
            srv_outbound_patch = None, srv_overrides = None, srv_latency_ms = None\<rparr>
      in server\<lparr>srv_id := stable_id (identity_string (le_import L) server)\<rparr>)"

text \<open>The name every reader takes: the fragment, or the host when there is none.\<close>

definition named_or_host :: "string \<Rightarrow> string \<Rightarrow> string" where
  "named_or_host name host = (if name = [] then host else name)"

section \<open>One reader per scheme\<close>

definition schemes :: "(string \<times> string option) list" where
  "schemes =
     [(''vless'', Some ''vless''), (''vmess'', Some ''vmess''), (''trojan'', Some ''trojan''),
      (''ss'', Some ''Shadowsocks''), (''socks'', Some ''SOCKS''), (''socks5'', None),
      (''http'', Some ''HTTP''), (''https'', None), (''hysteria2'', Some ''Hysteria2''), (''hy2'', None)]"

definition is_supported_scheme :: "string \<Rightarrow> bool" where
  "is_supported_scheme line =
     (case split_once_str ''://'' (clean_line line) of
        None \<Rightarrow> False
      | Some (scheme, _) \<Rightarrow> list_ex (\<lambda>(name, _). name = lower_ascii scheme) schemes)"

definition supported_scheme_list :: string where
  "supported_scheme_list = join '', '' (List.map_filter snd schemes)"

definition parse_vless :: "link_env \<Rightarrow> string \<Rightarrow> jv server option" where
  "parse_vless L link = do {
     u \<leftarrow> le_url L link;
     uuid \<leftarrow> filter_opt (\<lambda>v. v \<noteq> []) (Some (le_percent L (url_username u)));
     host \<leftarrow> host_of u;
     port \<leftarrow> url_port u;
     let q = query_map u;
     Some (finish_link L link (named_or_host (decode_fragment L u) host) PVless host port
       (Vless uuid (unwrap_or (q ''encryption'') ''none'') (stream_from_query L q))) }"

definition parse_trojan :: "link_env \<Rightarrow> string \<Rightarrow> jv server option" where
  "parse_trojan L link = do {
     u \<leftarrow> le_url L link;
     password \<leftarrow> filter_opt (\<lambda>v. v \<noteq> []) (Some (le_percent L (url_username u)));
     host \<leftarrow> host_of u;
     port \<leftarrow> url_port u;
     let q = query_map u;
     let s = stream_from_query L q;
     let s = (if q ''security'' = None \<and> ss_security s = ''none'' then s\<lparr>ss_security := ''tls''\<rparr> else s);
     Some (finish_link L link (named_or_host (decode_fragment L u) host) PTrojan host port (Trojan password s)) }"

definition parse_vmess_url :: "link_env \<Rightarrow> string \<Rightarrow> jv server option" where
  "parse_vmess_url L link = do {
     u \<leftarrow> le_url L link;
     uuid \<leftarrow> filter_opt (\<lambda>v. v \<noteq> []) (Some (le_percent L (url_username u)));
     host \<leftarrow> host_of u;
     port \<leftarrow> url_port u;
     let q = query_map u;
     let security = unwrap_or (filter_opt (\<lambda>s. s \<noteq> []) (first_of q [''encryption'', ''scy''])) ''auto'';
     let alter_id = unwrap_or (Option.bind (q ''alterId'') parse_u32) 0;
     Some (finish_link L link (named_or_host (decode_fragment L u) host) PVmess host port
       (Vmess uuid alter_id security (stream_from_query L q))) }"

text \<open>The closures of \<open>parse_vmess\<close> over the decoded document.\<close>

definition vmess_text :: "jv \<Rightarrow> string \<Rightarrow> string option" where
  "vmess_text json k = filter_opt (\<lambda>s. s \<noteq> []) (map_option trim (Option.bind (jget k json) as_str))"

definition vmess_number :: "jv \<Rightarrow> string \<Rightarrow> nat option" where
  "vmess_number json k = Option.bind (jget k json) (\<lambda>v. or_else (as_u64 v) (Option.bind (as_str v) parse_u64))"

definition vmess_flag :: "jv \<Rightarrow> string \<Rightarrow> bool option" where
  "vmess_flag json k = Option.bind (jget k json) (\<lambda>v.
     or_else (as_bool v) (or_else (map_option (\<lambda>n. n = 1) (as_u64 v)) (map_option is_true_word (as_str v))))"

definition vmess_stream :: "link_env \<Rightarrow> jv \<Rightarrow> jv stream_settings" where
  "vmess_stream L json =
     (let s = vmess_text json;
          net = unwrap_or (s ''net'') ''tcp'';
          tls = unwrap_or (s ''tls'') [];
          vmess_type = s ''type'';
          is_xhttp = (net = ''xhttp'' \<or> net = ''splithttp'')
      in \<lparr>ss_network = net, ss_security = (if tls = [] then ''none'' else tls),
          ss_sni = first_of s [''sni'', ''host''],
          ss_alpn = map_option comma_list (s ''alpn''),
          ss_fingerprint = s ''fp'',
          ss_allow_insecure = unwrap_or (first_of (vmess_flag json) [''allowInsecure'', ''insecure'']) False,
          ss_pin_sha256 = Option.bind (first_of s [''pinSHA256'', ''pinsha256'', ''pcs''])
            (normalize_pin_sha256 (ie_base64 (le_import L))),
          ss_public_key = s ''pbk'', ss_short_id = s ''sid'', ss_spider_x = s ''spx'',
          ss_path = s ''path'', ss_host = s ''host'',
          ss_service_name = first_of s [''serviceName'', ''path''],
          ss_xhttp_mode = (if is_xhttp then filter_opt (\<lambda>m. m \<noteq> ''none'') (or_else (s ''mode'') vmess_type) else None),
          ss_xhttp_extra = (if is_xhttp then Option.bind (jget ''extra'' json) (\<lambda>v.
            if as_object v \<noteq> None then Some v else Option.bind (as_str v) (xhttp_extra_of L)) else None),
          ss_grpc_authority = (if net = ''grpc'' then s ''authority'' else None),
          ss_grpc_multi_mode = (net = ''grpc'' \<and> (vmess_type = Some ''multi'' \<or> s ''mode'' = Some ''multi'')),
          ss_header_type = (if \<not> is_xhttp \<and> net \<noteq> ''grpc'' then vmess_type else None),
          ss_flow = s ''flow'', ss_ech = s ''ech'', ss_verify_peer_cert_by_name = s ''vcn'',
          ss_mldsa65_verify = s ''pqv''\<rparr>)"

definition parse_vmess :: "link_env \<Rightarrow> string \<Rightarrow> jv server option" where
  "parse_vmess L link = do {
     payload \<leftarrow> strip_prefix link ''vmess://'';
     case Option.bind (b64_decode L payload) (\<lambda>bytes. le_json L (map char_of bytes)) of
       None \<Rightarrow> parse_vmess_url L link
     | Some json \<Rightarrow> do {
         let s = vmess_text json;
         host \<leftarrow> map_option normalize_host (s ''add'');
         port \<leftarrow> filter_opt (\<lambda>n. n \<le> 65535) (vmess_number json ''port'');
         uuid \<leftarrow> s ''id'';
         alter_id \<leftarrow> (case vmess_number json ''aid'' of Some aid \<Rightarrow> filter_opt (\<lambda>n. n \<le> u32_max) (Some aid) | None \<Rightarrow> Some 0);
         Some (finish_link L link (unwrap_or (s ''ps'') host) PVmess host port
           (Vmess uuid alter_id (unwrap_or (s ''scy'') ''auto'') (vmess_stream L json))) } }"

definition split_host_port :: "string \<Rightarrow> (string \<times> nat) option" where
  "split_host_port s0 = do {
     let s = trim s0;
     (host, port) \<leftarrow> (case strip_prefix s ''['' of
         Some rest \<Rightarrow> do { (host, tail) \<leftarrow> split_once CHR '']'' rest; port \<leftarrow> strip_prefix tail '':''; Some (host, port) }
       | None \<Rightarrow> rsplit_once CHR '':'' s);
     port \<leftarrow> parse_u16 (trim port);
     Some (normalize_host host, port) }"

definition parse_ss :: "link_env \<Rightarrow> string \<Rightarrow> jv server option" where
  "parse_ss L link = do {
     rest \<leftarrow> strip_prefix link ''ss://'';
     let (main, frag) = (case split_once CHR ''#'' rest of Some (m, f) \<Rightarrow> (m, Some f) | None \<Rightarrow> (rest, None));
     let main = (case split_once CHR ''?'' main of Some (m, _) \<Rightarrow> m | None \<Rightarrow> main);
     let name = unwrap_or (map_option (le_percent L) frag) [];
     (cipher, password, host, port) \<leftarrow>
       (case rsplit_once CHR ''@'' main of
          Some (userinfo, hostport) \<Rightarrow> do {
            let raw = le_percent L userinfo;
            let decoded = unwrap_or (Option.bind (b64_decode L raw) from_utf8) raw;
            (cipher, password) \<leftarrow> split_once CHR '':'' decoded;
            (host, port) \<leftarrow> split_host_port hostport;
            Some (cipher, password, host, port) }
        | None \<Rightarrow> do {
            bytes \<leftarrow> b64_decode L main;
            decoded \<leftarrow> from_utf8 bytes;
            (creds, hostport) \<leftarrow> rsplit_once CHR ''@'' decoded;
            (cipher, password) \<leftarrow> split_once CHR '':'' creds;
            (host, port) \<leftarrow> split_host_port hostport;
            Some (cipher, password, host, port) });
     Some (finish_link L link (named_or_host name host) PShadowsocks host port (Shadowsocks cipher password)) }"

text \<open>\<open>split_port_hop\<close>: the authority ends at the first slash, question mark or hash.\<close>

definition split_port_hop :: "string \<Rightarrow> string \<times> port_range list" where
  "split_port_hop link =
     (case split_once_str ''://'' link of
        None \<Rightarrow> (link, [])
      | Some (scheme, after) \<Rightarrow>
          let in_authority = (\<lambda>c. c \<noteq> CHR ''/'' \<and> c \<noteq> CHR ''?'' \<and> c \<noteq> CHR ''#'');
              authority = takeWhile in_authority after;
              ending = dropWhile in_authority after;
              (userinfo, hostport) = (case rsplit_once CHR ''@'' authority of
                  Some (user, h) \<Rightarrow> (user @ ''@'', h) | None \<Rightarrow> ([], authority))
          in case split_once CHR '','' hostport of
               None \<Rightarrow> (link, [])
             | Some (hostport, extra) \<Rightarrow>
                 (scheme @ ''://'' @ userinfo @ hostport @ ending,
                  List.map_filter port_range_parse (split_on CHR '','' extra)))"

definition hysteria2_from_query ::
  "link_env \<Rightarrow> (string \<Rightarrow> string option) \<Rightarrow> port_range list \<Rightarrow> hysteria2_settings" where
  "hysteria2_from_query L q hop =
     (let get = nonempty_at q;
          hop = hop @ concat (map (\<lambda>key. case get key of
              Some value \<Rightarrow> List.map_filter port_range_parse (split_on_two CHR '','' CHR ''/'' value)
            | None \<Rightarrow> []) [''mport'', ''ports''])
      in \<lparr>h2_sni = first_of get [''sni'', ''peer'', ''server_name''],
          h2_alpn = map_option comma_list (get ''alpn''),
          h2_allow_insecure = (case first_of get [''insecure'', ''allowInsecure''] of Some v \<Rightarrow> is_true_word v | None \<Rightarrow> False),
          h2_pin_sha256 = Option.bind (first_of get [''pinSHA256'', ''pinsha256'', ''pcs''])
            (normalize_pin_sha256 (ie_base64 (le_import L))),
          h2_obfs = map_option (\<lambda>kind. \<lparr>ho_kind = kind, ho_password = unwrap_or (get ''obfs-password'') []\<rparr>) (get ''obfs''),
          h2_up_mbps = Option.bind (first_of get [''up'', ''upmbps'']) parse_bandwidth_mbps,
          h2_down_mbps = Option.bind (first_of get [''down'', ''downmbps'']) parse_bandwidth_mbps,
          h2_port_hop = hop,
          h2_hop_interval_secs = Option.bind (first_of get [''hopInterval'', ''hop_interval''])
            (\<lambda>v. parse_u32 (trim_end_s (trim v))),
          h2_congestion = get ''congestion'', h2_udp_idle_timeout_secs = None\<rparr>)"

definition parse_hysteria2 :: "link_env \<Rightarrow> string \<Rightarrow> jv server option" where
  "parse_hysteria2 L link = do {
     let canonical = (case split_once_str ''://'' link of
         Some (scheme, rest) \<Rightarrow> if eq_ignore_ascii_case scheme ''hy2'' then ''hysteria2://'' @ rest else link
       | None \<Rightarrow> link);
     let (sanitized, hop) = split_port_hop canonical;
     u \<leftarrow> le_url L sanitized;
     let q = query_map u;
     let user = le_percent L (url_username u);
     let auth = (case url_password u of Some password \<Rightarrow> user @ '':'' @ le_percent L password | None \<Rightarrow> user);
     let auth = (if auth = [] then unwrap_or (first_of (nonempty_at q) [''auth'', ''password'']) [] else auth);
     auth \<leftarrow> filter_opt (\<lambda>v. v \<noteq> []) (Some auth);
     host \<leftarrow> host_of u;
     let port = unwrap_or (url_port u) 443;
     Some (finish_link L canonical (named_or_host (decode_fragment L u) host) PHysteria2 host port
       (Hysteria2 auth (hysteria2_from_query L q hop))) }"

definition opt_decoded :: "link_env \<Rightarrow> string \<Rightarrow> string option" where
  "opt_decoded L s = (if s = [] then None else Some (le_percent L s))"

definition parse_socks :: "link_env \<Rightarrow> string \<Rightarrow> jv server option" where
  "parse_socks L link = do {
     u \<leftarrow> le_url L link;
     host \<leftarrow> host_of u;
     port \<leftarrow> url_port u;
     Some (finish_link L link (named_or_host (decode_fragment L u) host) PSocks host port
       (Socks (opt_decoded L (url_username u)) (map_option (le_percent L) (url_password u)))) }"

definition parse_http :: "link_env \<Rightarrow> string \<Rightarrow> jv server option" where
  "parse_http L link = do {
     u \<leftarrow> le_url L link;
     host \<leftarrow> host_of u;
     let port = unwrap_or (url_port u) (if url_scheme u = ''https'' then 443 else 80);
     Some (finish_link L link (named_or_host (decode_fragment L u) host) PHttp host port
       (Http (opt_decoded L (url_username u)) (map_option (le_percent L) (url_password u)))) }"

text \<open>The first piece of \<open>split("://")\<close>.\<close>

definition scheme_of :: "string \<Rightarrow> string" where
  "scheme_of link = (case split_once_str ''://'' link of Some (s, _) \<Rightarrow> s | None \<Rightarrow> link)"

definition parse_link :: "link_env \<Rightarrow> string \<Rightarrow> jv server option" where
  "parse_link L link0 =
     (let link = clean_line link0;
          scheme = lowercase_word (scheme_of link)
      in if scheme = ''vless'' then parse_vless L link
         else if scheme = ''vmess'' then parse_vmess L link
         else if scheme = ''trojan'' then parse_trojan L link
         else if scheme = ''ss'' then parse_ss L link
         else if scheme = ''socks'' \<or> scheme = ''socks5'' then parse_socks L link
         else if scheme = ''http'' \<or> scheme = ''https'' then parse_http L link
         else if scheme = ''hysteria2'' \<or> scheme = ''hy2'' then parse_hysteria2 L link
         else None)"

section \<open>A list of links\<close>

text \<open>The counting branch of \<open>parse_links_reporting\<close>.\<close>

definition skip_line :: "string \<Rightarrow> skipped \<Rightarrow> skipped" where
  "skip_line line skipped =
     (let scheme = unwrap_or (map_option (\<lambda>(scheme, _). lower_ascii (trim scheme)) (split_once_str ''://'' line)) []
      in skipped\<lparr>sk_lines := sk_lines skipped + 1,
           sk_schemes := (if scheme \<noteq> [] \<and> scheme \<notin> set (sk_schemes skipped)
              then sk_schemes skipped @ [scheme] else sk_schemes skipped)\<rparr>)"

definition read_line :: "link_env \<Rightarrow> jv server list \<times> skipped \<Rightarrow> string \<Rightarrow> jv server list \<times> skipped" where
  "read_line L acc line0 =
     (let line = clean_line line0; (servers, skipped) = acc
      in if line = [] then acc
         else case parse_link L line of
           Some server \<Rightarrow> (servers @ [server], skipped)
         | None \<Rightarrow> if contains_str line ''://'' then (servers, skip_line line skipped) else acc)"

definition parse_links_reporting :: "link_env \<Rightarrow> string \<Rightarrow> jv server list \<times> skipped" where
  "parse_links_reporting L txt = foldl (read_line L) ([], skipped_default) (text_lines txt)"

definition parse_links :: "link_env \<Rightarrow> string \<Rightarrow> jv server list" where
  "parse_links L txt = fst (parse_links_reporting L txt)"

definition skipped_is_empty :: "skipped \<Rightarrow> bool" where
  "skipped_is_empty s = (sk_lines s = 0)"

section \<open>A subscription body\<close>

definition body_char :: "char \<Rightarrow> bool" where
  "body_char c =
     (is_ascii_alphanumeric c \<or> c = CHR ''+'' \<or> c = CHR ''/'' \<or> c = CHR ''='' \<or> c = CHR ''-'' \<or> c = CHR ''_''
      \<or> c = CHR '' '' \<or> c = CHR 0x09 \<or> c = CHR 0x0A \<or> c = CHR 0x0C \<or> c = CHR 0x0D)"

definition decode_body :: "link_env \<Rightarrow> string \<Rightarrow> string" where
  "decode_body L body0 =
     (let body = trim_bom body0
      in if list_all body_char body \<and> \<not> contains_str body ''://''
         then case Option.bind (b64_decode L body) from_utf8 of
                None \<Rightarrow> body
              | Some txt \<Rightarrow>
                  (let trimmed = trim_start txt
                   in if contains_str txt ''://'' \<or> starts_with trimmed ''{'' \<or> starts_with trimmed ''[''
                         \<or> contains_str txt ''proxies:''
                      then txt else body)
         else body)"

datatype body_error = Web_Page | No_Supported_Servers

definition parse_body :: "link_env \<Rightarrow> string \<Rightarrow> body_error + jv server list \<times> skipped" where
  "parse_body L body =
     (let txt = decode_body L body;
          (links, skipped) = parse_links_reporting L txt;
          from_json = (case le_json L txt of Some value \<Rightarrow> parse_json (le_import L) value | None \<Rightarrow> []);
          from_yaml = (case le_yaml L txt of Some value \<Rightarrow> parse_clash (le_import L) value | None \<Rightarrow> [])
      in if links \<noteq> [] then Inr (links, skipped)
         else if from_json \<noteq> [] then Inr (from_json, skipped_default)
         else if from_yaml \<noteq> [] then Inr (from_yaml, skipped_default)
         else if starts_with (trim_start txt) ''<'' \<or> contains_str (lower_ascii (trim_start txt)) ''<html''
         then Inl Web_Page
         else Inl No_Supported_Servers)"

definition not_taken_of :: "link_env \<Rightarrow> string \<Rightarrow> not_taken" where
  "not_taken_of L body =
     (let txt = decode_body L body
      in case le_json L txt of
           Some value \<Rightarrow> not_taken_from value
         | None \<Rightarrow> (case le_yaml L txt of Some value \<Rightarrow> not_taken_from value | None \<Rightarrow> not_taken_default))"

end
