(* ===== verification/Link_Laws.thy ===== *)
theory Link_Laws
  imports Link Import_Types
begin

text \<open>
  What holds of every subscription body, whatever format it is in: the servers taken out of it are well
  typed and can be run, no line that could be a link is lost without being counted, and the two spellings
  of the Hysteria2 scheme name one server. The last section compares \<open>is_supported_scheme\<close> with the
  readers.
\<close>

section \<open>Well-typed servers\<close>

text \<open>The \<open>url\<close> crate keeps the port of a URL in a 16-bit number, and refuses a text that names no scheme
because there is no URL it could be relative to.\<close>

definition ports_fit :: "link_env \<Rightarrow> bool" where
  "ports_fit L = (\<forall>text u n. le_url L text = Some u \<longrightarrow> url_port u = Some n \<longrightarrow> n \<le> 65535)"

definition refuses_relative :: "link_env \<Rightarrow> bool" where
  "refuses_relative L = (\<forall>text. CHR '':'' \<notin> set text \<longrightarrow> le_url L text = None)"

lemma url_port_bound: "ports_fit L \<Longrightarrow> le_url L text = Some u \<Longrightarrow> url_port u = Some n \<Longrightarrow> n \<le> 65535"
  by (simp add: ports_fit_def)

lemma finish_link_ok:
  assumes "port \<le> 65535" and "spec_ok protocol spec"
  shows "server_ok (le_import L) (finish_link L link name protocol address port spec)"
proof -
  define server where "server = \<lparr>srv_id = [], srv_name = name, srv_protocol = protocol, srv_address = address,
            srv_port = port, srv_transport_label = transport_label protocol spec,
            srv_country = country_from_name name, srv_spec = spec, srv_link = Some link, srv_alias = None,
            srv_outbound_patch = None, srv_overrides = None, srv_latency_ms = None\<rparr>"
  have "server_ok (le_import L) (server\<lparr>srv_id := stable_id (identity_string (le_import L) server)\<rparr>)"
    using assms by (simp only: server_ok_def identity_string_id) (simp add: server_def)
  then show ?thesis unfolding finish_link_def Let_def server_def .
qed

lemma vmess_spec_ok: "alter_id \<le> u32_max \<Longrightarrow> spec_ok PVmess (Vmess u alter_id x s)"
  by (simp add: spec_ok_def spec_protocol_def writable_def)

lemma parse_u32_bound: "parse_u32 s = Some n \<Longrightarrow> n \<le> u32_max"
  by (auto simp: parse_u32_def dest: parse_unsigned_bound)

lemma parse_u16_bound: "parse_u16 s = Some n \<Longrightarrow> n \<le> 65535"
  by (auto simp: parse_u16_def dest: parse_unsigned_bound)

lemma filter_opt_Some_iff: "filter_opt P v = Some x \<longleftrightarrow> v = Some x \<and> P x"
  by (auto simp: filter_opt_def split: option.splits)

lemmas link_reader_rules = finish_link_ok plain_ok(1-5) vmess_spec_ok

lemma parse_vless_ok: "ports_fit L \<Longrightarrow> parse_vless L link = Some server \<Longrightarrow> server_ok (le_import L) server"
  by (auto simp: parse_vless_def Let_def bind_eq_Some_conv intro!: link_reader_rules dest: url_port_bound)

lemma parse_trojan_ok: "ports_fit L \<Longrightarrow> parse_trojan L link = Some server \<Longrightarrow> server_ok (le_import L) server"
  by (auto simp: parse_trojan_def Let_def bind_eq_Some_conv intro!: link_reader_rules dest: url_port_bound)

lemma parse_vmess_url_ok: "ports_fit L \<Longrightarrow> parse_vmess_url L link = Some server \<Longrightarrow> server_ok (le_import L) server"
proof -
  have "unwrap_or (Option.bind v parse_u32) 0 \<le> u32_max" for v
    by (auto simp: unwrap_or_def u32_max_def dest: parse_u32_bound split: option.splits bind_splits)
  then show "ports_fit L \<Longrightarrow> parse_vmess_url L link = Some server \<Longrightarrow> ?thesis"
    by (auto simp: parse_vmess_url_def Let_def bind_eq_Some_conv intro!: link_reader_rules dest: url_port_bound)
qed

lemma parse_vmess_ok: "ports_fit L \<Longrightarrow> parse_vmess L link = Some server \<Longrightarrow> server_ok (le_import L) server"
  by (auto simp: parse_vmess_def Let_def bind_eq_Some_conv filter_opt_Some_iff intro!: link_reader_rules
      dest: parse_vmess_url_ok split: option.splits)

lemma split_host_port_bound: "split_host_port s = Some (h, n) \<Longrightarrow> n \<le> 65535"
  by (auto simp: split_host_port_def Let_def bind_eq_Some_conv dest: parse_u16_bound)

lemma parse_ss_ok:
  assumes "parse_ss L link = Some server"
  shows "server_ok (le_import L) server"
proof -
  from assms obtain rest where rest: "strip_prefix link ''ss://'' = Some rest"
    by (auto simp: parse_ss_def bind_eq_Some_conv)
  obtain main frag where parts: "(case split_once CHR ''#'' rest of Some (m, f) \<Rightarrow> (m, Some f) | None \<Rightarrow> (rest, None)) = (main, frag)"
    by fastforce
  show ?thesis
    using assms unfolding parse_ss_def rest parts Let_def bind.bind_lunit prod.case
    by (auto simp: bind_eq_Some_conv intro!: link_reader_rules dest: split_host_port_bound
        split: option.split_asm prod.split_asm)
qed

lemma parse_socks_ok: "ports_fit L \<Longrightarrow> parse_socks L link = Some server \<Longrightarrow> server_ok (le_import L) server"
  by (auto simp: parse_socks_def Let_def bind_eq_Some_conv intro!: link_reader_rules dest: url_port_bound)

lemma parse_http_ok: "ports_fit L \<Longrightarrow> parse_http L link = Some server \<Longrightarrow> server_ok (le_import L) server"
  by (auto simp: parse_http_def Let_def bind_eq_Some_conv unwrap_or_def intro!: link_reader_rules dest: url_port_bound
      split: option.splits)

lemma hop_list_ok: "r \<in> set (List.map_filter port_range_parse pieces) \<Longrightarrow> port_range_ok r"
  by (auto simp: List.map_filter_def intro: port_range_parse_ok)

lemma split_port_hop_ok: "list_all port_range_ok (snd (split_port_hop link))"
  by (auto simp: split_port_hop_def Let_def list_all_iff split: option.splits prod.splits intro: hop_list_ok)

lemma hysteria2_from_query_ok:
  assumes "list_all port_range_ok hop"
  shows "spec_ok PHysteria2 (Hysteria2 auth (hysteria2_from_query L q hop))"
  using assms
  by (intro hysteria2_spec_ok)
     (auto simp: hysteria2_from_query_def Let_def list_all_iff bind_eq_Some_conv
       dest: parse_u32_bound parse_bandwidth_range split: option.splits intro: hop_list_ok)

lemma parse_hysteria2_ok:
  assumes "ports_fit L" and "parse_hysteria2 L link = Some server"
  shows "server_ok (le_import L) server"
proof -
  have "unwrap_or (url_port u) 443 \<le> 65535" if "le_url L t = Some u" for t u
    using url_port_bound [OF assms(1) that] by (cases "url_port u") simp_all
  moreover have "list_all port_range_ok hop" if "split_port_hop t = (s, hop)" for t s hop
    using split_port_hop_ok [of t] that by simp
  ultimately show ?thesis
    using assms(2)
    by (auto simp: parse_hysteria2_def Let_def bind_eq_Some_conv split: prod.splits
        intro!: finish_link_ok hysteria2_from_query_ok)
qed

lemmas reader_ok = parse_vless_ok parse_trojan_ok parse_vmess_ok parse_ss_ok parse_socks_ok parse_http_ok parse_hysteria2_ok

lemma parse_link_ok: "ports_fit L \<Longrightarrow> parse_link L link = Some server \<Longrightarrow> server_ok (le_import L) server"
  by (auto simp: parse_link_def Let_def split: if_splits intro: reader_ok)

lemma parse_clash_ok: "server \<in> set (parse_clash E v) \<Longrightarrow> server_ok E server"
  by (auto simp: parse_clash_def List.map_filter_def split: option.splits intro: server_from_clash_ok)

lemma read_line_servers:
  "fst (read_line L acc line) = fst acc @ (case parse_link L (clean_line line) of Some server \<Rightarrow> [server] | None \<Rightarrow> [])
   \<or> clean_line line = [] \<and> read_line L acc line = acc"
  by (cases acc) (auto simp: read_line_def Let_def split: option.splits)

lemma links_ok:
  assumes "ports_fit L"
  shows "server \<in> set (fst (foldl (read_line L) acc ls)) \<Longrightarrow> server \<in> set (fst acc) \<or> server_ok (le_import L) server"
proof (induction ls arbitrary: acc)
  case (Cons l ls)
  then have "server \<in> set (fst (read_line L acc l)) \<or> server_ok (le_import L) server" by simp
  with read_line_servers [of L acc l] show ?case
    by (auto split: option.splits intro: parse_link_ok [OF assms])
qed simp

lemma parse_body_ok:
  assumes "ports_fit L" and "parse_body L body = Inr (servers, skipped)" and "server \<in> set servers"
  shows "server_ok (le_import L) server"
proof -
  let ?txt = "decode_body L body"
  have "server_ok (le_import L) server" if "server \<in> set (fst (parse_links_reporting L ?txt))"
    using links_ok [OF assms(1), of server "([], skipped_default)" "text_lines ?txt"] that
    by (simp add: parse_links_reporting_def)
  with assms(2,3) show ?thesis
    by (auto simp: parse_body_def Let_def split: prod.split_asm if_split_asm option.split_asm
        intro: parse_json_ok parse_clash_ok)
qed

text \<open>C5: whatever body a subscription sends - links, JSON or YAML, encoded or not - every server taken
out of it is well typed: its port is a 16-bit number, its protocol is the one of its parameters, ids of
VMess and the Hysteria2 numbers fit 32 bits, no port range is empty, a balanced profile has a balancer and
at least two outbounds of known protocols, its id is the hash of its identity, and it starts without alias,
patch or overrides. A port of a URL is assumed to be a 16-bit number, as the \<open>url\<close> crate has it.\<close>

theorem body_well_typed:
  assumes "ports_fit L" and "parse_body L body = Inr (servers, skipped)" and "server \<in> set servers"
  shows "server_ok (le_import L) server"
  using assms by (rule parse_body_ok)

text \<open>C6: every server of a subscription body can be run: unless the core is set to fragment or to send
noises, building its configuration neither panics nor fails, whatever the body was.\<close>

theorem body_servers_run:
  assumes "ports_fit L" and "parse_body L body = Inr (servers, skipped)" and "server \<in> set servers"
    and "rc_dialer core = None"
  shows "is_ok (generate server listen sp hp core)"
  using parse_body_ok [OF assms(1-3)] assms(4) by (rule server_ok_runs)

section \<open>No line is lost\<close>

lemma split_once_str_None_iff: "split_once_str d s = None \<longleftrightarrow> \<not> contains_str s d"
  by (induction d s rule: split_once_str.induct)
     (auto split: option.splits simp: strip_prefix_None_iff strip_prefix_iff starts_with_iff)

lemma trim_infix: "\<exists>u v. s = u @ trim s @ v"
proof -
  obtain p where "s = p @ trim_start s" using trim_start_suffix by blast
  moreover obtain r where "trim_start s = trim s @ r" using trim_end_prefix [of "trim_start s"] by (auto simp: trim_def)
  ultimately show ?thesis by metis
qed

lemma trim_bom_suffix: "\<exists>p. s = p @ trim_bom s"
proof (induction s rule: trim_bom.induct)
  case (1 s)
  show ?case
  proof (cases "strip_prefix s [CHR 0xEF, CHR 0xBB, CHR 0xBF]")
    case None
    then show ?thesis by (simp add: trim_bom.simps [of s])
  next
    case (Some r)
    with 1 obtain p where "r = p @ trim_bom r" by blast
    moreover have "trim_bom s = trim_bom r" using Some by (simp add: trim_bom.simps [of s])
    ultimately have "s = ([CHR 0xEF, CHR 0xBB, CHR 0xBF] @ p) @ trim_bom s" using Some by (simp add: strip_prefix_iff)
    then show ?thesis by blast
  qed
qed

lemma contains_str_infix: "contains_str t p \<Longrightarrow> s = u @ t @ v \<Longrightarrow> contains_str s p"
  unfolding contains_str_iff by (metis append.assoc)

lemma contains_clean_line:
  assumes "contains_str (clean_line s) p"
  shows "contains_str s p"
proof -
  obtain a b where 1: "s = a @ trim s @ b" using trim_infix by blast
  obtain c where 2: "trim s = c @ trim_bom (trim s)" using trim_bom_suffix by blast
  obtain d e where 3: "trim_bom (trim s) = d @ clean_line s @ e" using trim_infix unfolding clean_line_def by blast
  from contains_str_infix [OF assms 3] have "contains_str (trim_bom (trim s)) p" .
  then have "contains_str (trim s) p" using contains_str_infix [where v = "[]"] 2 by fastforce
  then show ?thesis using contains_str_infix 1 by blast
qed

lemma lowercase_colon: "to_ascii_lowercase CHR '':'' = CHR '':''"
  by code_simp

lemma lowercase_word_colon: "CHR '':'' \<in> set s \<Longrightarrow> CHR '':'' \<in> set (lowercase_word s)"
  by (induction s rule: lowercase_word.induct) (auto simp: lowercase_colon)

text \<open>Without the two slashes the word itself would have to be the scheme, and there is no URL in it.\<close>

lemma parse_link_separator:
  assumes "refuses_relative L" and "parse_link L s = Some server"
  shows "contains_str (clean_line s) ''://''"
proof (rule ccontr)
  let ?l = "clean_line s"
  assume no: "\<not> contains_str ?l ''://''"
  then have split: "split_once_str ''://'' ?l = None" by (simp add: split_once_str_None_iff)
  then have scheme: "scheme_of ?l = ?l" by (simp add: scheme_of_def)
  have prefix: "strip_prefix ?l (w @ ''://'') = None" for w
  proof (rule ccontr)
    assume "strip_prefix ?l (w @ ''://'') \<noteq> None"
    then obtain r where "?l = w @ ''://'' @ r" by (auto simp: strip_prefix_iff)
    with no show False unfolding contains_str_iff by blast
  qed
  have url: "le_url L ?l = None" if "lowercase_word ?l = w" "CHR '':'' \<notin> set w" for w
    using assms(1) that lowercase_word_colon unfolding refuses_relative_def by blast
  have "parse_vmess L ?l = None" using prefix [of "''vmess''"] by (simp add: parse_vmess_def)
  moreover have "parse_ss L ?l = None" using prefix [of "''ss''"] by (simp add: parse_ss_def)
  moreover have "parse_vless L ?l = None \<and> parse_trojan L ?l = None \<and> parse_socks L ?l = None
      \<and> parse_http L ?l = None \<and> parse_hysteria2 L ?l = None" if "le_url L ?l = None"
    using that split
    by (simp add: parse_vless_def parse_trojan_def parse_socks_def parse_http_def parse_hysteria2_def split_port_hop_def)
  ultimately show False
    using assms(2) url [of "''vless''"] url [of "''trojan''"] url [of "''socks''"] url [of "''socks5''"]
      url [of "''http''"] url [of "''https''"] url [of "''hysteria2''"] url [of "''hy2''"]
    by (auto simp: parse_link_def Let_def scheme split: if_split_asm)
qed

text \<open>A line that could be a link: it has the two slashes once it is cleaned.\<close>

definition linklike :: "string \<Rightarrow> bool" where
  "linklike line = contains_str (clean_line line) ''://''"

lemma parse_link_clean_separator:
  "refuses_relative L \<Longrightarrow> parse_link L (clean_line line) = Some server \<Longrightarrow> linklike line"
  unfolding linklike_def by (rule contains_clean_line) (rule parse_link_separator)

lemma linklike_nonempty: "linklike line \<Longrightarrow> clean_line line \<noteq> []"
  by (auto simp: linklike_def)

lemma read_line_cases:
  assumes "refuses_relative L"
  shows "read_line L (servers, skipped) line =
    (if \<not> linklike line then (servers, skipped)
     else case parse_link L (clean_line line) of
       Some server \<Rightarrow> (servers @ [server], skipped) | None \<Rightarrow> (servers, skip_line (clean_line line) skipped))"
  using parse_link_clean_separator [OF assms, of line] linklike_nonempty [of line]
  by (auto simp: read_line_def Let_def linklike_def split: option.splits)

lemma skip_line_counts: "sk_lines (skip_line line skipped) = sk_lines skipped + 1"
  by (simp add: skip_line_def Let_def)

lemma skip_line_schemes: "distinct (sk_schemes skipped) \<Longrightarrow> distinct (sk_schemes (skip_line line skipped))"
  by (simp add: skip_line_def Let_def)

lemma read_lines_account:
  assumes "refuses_relative L"
  shows "let (found, left) = foldl (read_line L) (servers, skipped) ls
    in found = servers @ List.map_filter (\<lambda>l. parse_link L (clean_line l)) ls
       \<and> sk_lines left = sk_lines skipped + length (filter (\<lambda>l. linklike l \<and> parse_link L (clean_line l) = None) ls)
       \<and> (distinct (sk_schemes skipped) \<longrightarrow> distinct (sk_schemes left))"
proof (induction ls arbitrary: servers skipped)
  case (Cons l ls)
  note parse_link_clean_separator [OF assms, of l]
  with Cons [of "fst (read_line L (servers, skipped) l)" "snd (read_line L (servers, skipped) l)"] show ?case
    by (cases "parse_link L (clean_line l)")
       (auto simp: read_line_cases [OF assms] List.map_filter_simps skip_line_counts skip_line_schemes split: if_split_asm)
qed (simp add: List.map_filter_simps)

lemma count_parsed:
  assumes "refuses_relative L"
  shows "length (List.map_filter (\<lambda>l. parse_link L (clean_line l)) ls)
     + length (filter (\<lambda>l. linklike l \<and> parse_link L (clean_line l) = None) ls) = length (filter linklike ls)"
  using parse_link_clean_separator [OF assms]
  by (induction ls) (auto simp: List.map_filter_simps split: option.splits)


section \<open>Spellings of a scheme\<close>

text \<open>the two spellings of the Hysteria2 scheme are one: a link with \<open>hy2\<close> gives the very server the same
link with \<open>hysteria2\<close> gives, its stored link and its id included.\<close>

theorem hy2_is_hysteria2: "parse_hysteria2 L (''hy2://'' @ rest) = parse_hysteria2 L (''hysteria2://'' @ rest)"
proof -
  have "\<not> eq_ignore_ascii_case ''hysteria2'' ''hy2''" by code_simp
  then show ?thesis by (simp add: parse_hysteria2_def)
qed

lemma ws_head_no_graphic: "i < ws_head bs \<Longrightarrow> \<not> (33 \<le> bs ! i \<and> bs ! i \<le> 126)"
  by (cases bs rule: ws_head.cases; cases i; cases "i - 1"; cases "i - 2") (auto split: if_splits)

lemma ws_start_no_graphic:
  assumes "i < ws_start s"
  shows "\<not> is_ascii_graphic (s ! i)"
proof -
  let ?bs = "map ord (take 3 s) :: nat list"
  have "i < ws_head ?bs" using assms by (simp add: ws_start_def)
  moreover have "ws_head bs \<le> length bs" for bs by (cases bs rule: ws_head.cases) auto
  ultimately have "i < length ?bs" by (meson less_le_trans)
  then show ?thesis using ws_head_no_graphic [OF \<open>i < ws_head ?bs\<close>] by (simp add: is_ascii_graphic_def)
qed

lemma ws_end_no_graphic:
  assumes "w \<noteq> []" and "is_ascii_graphic (last w)"
  shows "ws_end (w @ r) \<le> length r"
proof (rule ccontr)
  assume *: "\<not> ?thesis"
  let ?s = "w @ r" and ?k = "ws_end (w @ r)"
  from * have k: "?k \<le> length ?s" "ws_start (drop (length ?s - ?k) ?s) = ?k"
    by (auto simp: ws_end_def split: if_splits)
  let ?i = "?k - length r - 1"
  have "?i < ws_start (drop (length ?s - ?k) ?s)" using * k by simp
  then have "\<not> is_ascii_graphic (drop (length ?s - ?k) ?s ! ?i)" by (rule ws_start_no_graphic)
  moreover have "drop (length ?s - ?k) ?s ! ?i = ?s ! (length ?s - ?k + ?i)" using k(1) by (simp only: nth_drop)
  moreover have "length ?s - ?k + ?i = length w - 1" using * k(1) assms(1) by (cases w) simp_all
  moreover have "?s ! (length w - 1) = last w" using assms(1) by (simp add: nth_append last_conv_nth)
  ultimately show False using assms(2) by simp
qed

lemma trim_end_keeps:
  assumes "w \<noteq> []" and "is_ascii_graphic (last w)"
  shows "\<exists>t. trim_end (w @ r) = w @ t"
proof (induction r rule: length_induct)
  case (1 r)
  show ?case
  proof (cases "ws_end (w @ r) = 0")
    case True
    then show ?thesis by (simp add: trim_end.simps [of "w @ r"])
  next
    case False
    let ?r = "take (length r - ws_end (w @ r)) r"
    have le: "ws_end (w @ r) \<le> length r" using assms by (rule ws_end_no_graphic)
    with False have "length ?r < length r" by simp
    with 1 obtain t where "trim_end (w @ ?r) = w @ t" by blast
    moreover have "take (length (w @ r) - ws_end (w @ r)) (w @ r) = w @ ?r" using le by simp
    ultimately have "trim_end (w @ r) = w @ t"
      using False assms(1) by (subst trim_end.simps) (simp del: length_append take_append)
    then show ?thesis by blast
  qed
qed

lemma clean_line_keeps:
  assumes "w \<noteq> []" and "is_ascii_graphic (hd w)" and "is_ascii_graphic (last w)"
  shows "\<exists>t. clean_line (w @ r) = w @ t"
proof -
  have trim: "\<exists>t. trim (w @ r) = w @ t" for r
  proof -
    have "trim_start (w @ r) = w @ r" using assms(1,2) trim_start_graphic by (cases w) simp_all
    then show ?thesis using trim_end_keeps [OF assms(1,3)] by (simp add: trim_def)
  qed
  have "trim_bom (w @ t) = w @ t" for t
  proof -
    have "hd w \<noteq> CHR 0xEF" using assms(2) by (auto simp: is_ascii_graphic_def)
    then have "strip_prefix (w @ t) [CHR 0xEF, CHR 0xBB, CHR 0xBF] = None"
      using assms(1) by (cases w) simp_all
    then show ?thesis by (simp add: trim_bom.simps)
  qed
  with trim [of r] trim show ?thesis unfolding clean_line_def by fastforce
qed

text \<open>C8: \<open>is_supported_scheme\<close> is not what \<open>parse_link\<close> accepts: it compares the scheme without case, as \<open>parse_link\<close> does
to choose a reader, but the readers of Shadowsocks and VMess strip their scheme in lower case, so no link that
begins with \<open>SS://\<close> or \<open>VMESS://\<close> is ever read, whatever follows.\<close>

theorem uppercase_scheme_refused:
  "is_supported_scheme (''SS://'' @ rest) \<and> parse_link L (''SS://'' @ rest) = None
   \<and> is_supported_scheme (''VMESS://'' @ rest) \<and> parse_link L (''VMESS://'' @ rest) = None"
proof -
  have graphic: "is_ascii_graphic CHR ''S''" "is_ascii_graphic CHR ''V''" "is_ascii_graphic CHR ''/''"
    by (simp_all add: is_ascii_graphic_def)
  obtain t where t: "clean_line (''SS://'' @ rest) = ''SS://'' @ t"
    using clean_line_keeps [of "''SS://''" rest] graphic by auto
  obtain t' where t': "clean_line (''VMESS://'' @ rest) = ''VMESS://'' @ t'"
    using clean_line_keeps [of "''VMESS://''" rest] graphic by auto
  have split: "split_once_str ''://'' (''SS://'' @ t) = Some (''SS'', t)"
      "split_once_str ''://'' (''VMESS://'' @ t') = Some (''VMESS'', t')"
    by simp_all
  have low: "lower_ascii ''SS'' = ''ss''" "lower_ascii ''VMESS'' = ''vmess''" "lowercase_word ''SS'' = ''ss''"
      "lowercase_word ''VMESS'' = ''vmess''"
    by code_simp+
  show ?thesis
    using t t' split low
    by (simp add: is_supported_scheme_def parse_link_def Let_def scheme_of_def schemes_def parse_ss_def parse_vmess_def)
qed

section \<open>Inputs where the hypotheses hold\<close>

definition sample_links :: link_env where
  "sample_links = \<lparr>le_import = sample_env,
     le_url = (\<lambda>text. if starts_with text ''socks://''
       then Some \<lparr>url_scheme = ''socks'', url_username = [], url_password = None, url_host = Some (Domain_Host ''a.example''),
         url_host_str = Some ''a.example'', url_port = Some 1080, url_fragment = None, url_query_pairs = []\<rparr> else None),
     le_percent = (\<lambda>s. s), le_base64_no_pad = (\<lambda>_. None), le_base64_url = (\<lambda>_. None),
     le_base64_url_no_pad = (\<lambda>_. None), le_json = (\<lambda>_. None), le_yaml = (\<lambda>_. None)\<rparr>"

definition sample_body :: string where
  "sample_body = ''socks://a'' @ [CHR 0x0A] @ ''warp://b''"

lemma sample_links_facts: "ports_fit sample_links" "refuses_relative sample_links"
proof -
  show "ports_fit sample_links" by (auto simp: ports_fit_def sample_links_def split: if_split_asm)
  have "CHR '':'' \<in> set s" if "starts_with s ''socks://''" for s
    using that by (auto simp: starts_with_iff)
  then show "refuses_relative sample_links" by (auto simp: refuses_relative_def sample_links_def)
qed

definition sample_server :: "jv server" where
  "sample_server = finish_link sample_links ''socks://a'' ''a.example'' PSocks ''a.example'' 1080 (Socks None None)"

lemma sample_lines: "text_lines sample_body = [''socks://a'', ''warp://b'']" "clean_line ''socks://a'' = ''socks://a''"
  "clean_line ''warp://b'' = ''warp://b''" "linklike ''socks://a''" "linklike ''warp://b''"
  by code_simp+

lemma sample_parsed: "parse_link sample_links ''socks://a'' = Some sample_server" "parse_link sample_links ''warp://b'' = None"
proof -
  have "lowercase_word (scheme_of ''socks://a'') = ''socks''" "lowercase_word (scheme_of ''warp://b'') = ''warp''"
    by code_simp+
  moreover have "named_or_host (decode_fragment sample_links u) host = host" if "url_fragment u = None" for u host
    using that by (simp add: decode_fragment_def named_or_host_def)
  moreover have "normalize_host ''a.example'' = ''a.example''" by code_simp
  ultimately show "parse_link sample_links ''socks://a'' = Some sample_server" "parse_link sample_links ''warp://b'' = None"
    by (simp_all add: parse_link_def sample_lines parse_socks_def sample_server_def sample_links_def host_of_def opt_decoded_def)
qed

lemma sample_reported: "parse_links_reporting sample_links sample_body = ([sample_server], \<lparr>sk_lines = 1, sk_schemes = [''warp'']\<rparr>)"
proof -
  have "skip_line ''warp://b'' skipped_default = \<lparr>sk_lines = 1, sk_schemes = [''warp'']\<rparr>" by code_simp
  moreover have "contains_str ''warp://b'' ''://''" by code_simp
  ultimately show ?thesis
    by (simp add: parse_links_reporting_def sample_lines read_line_def Let_def sample_parsed)
qed

lemma sample_body_read: "parse_body sample_links sample_body = Inr ([sample_server], \<lparr>sk_lines = 1, sk_schemes = [''warp'']\<rparr>)"
proof -
  have "decode_body sample_links sample_body = sample_body" by code_simp
  then show ?thesis by (simp add: parse_body_def Let_def sample_reported)
qed

theorem body_well_typed_witness: "server_ok sample_env sample_server"
  using body_well_typed [OF sample_links_facts(1) sample_body_read, of sample_server] by (simp add: sample_links_def)

theorem body_servers_run_witness: "is_ok (generate sample_server localhost 1080 1081 plain_core)"
  by (rule body_servers_run [OF sample_links_facts(1) sample_body_read]) (simp_all add: plain_core_def)


end
