(* ===== verification/Draft.thy ===== *)
theory Draft
  imports Importer Xray_Config "HOL-Library.Monad_Syntax"
begin

text \<open>
  A server described by fields: \<open>crates/oxidom-core/src/draft.rs\<close>. A draft is what a dialog
  edits; \<open>resolve\<close> turns it into a server or names the field that prevents it; \<open>diff\<close> and
  \<open>apply_overrides\<close> carry the user's changes over what a subscription sends, as a map from dotted
  field names to JSON values.

  Drafts travel as JSON. \<open>draft_value\<close> and \<open>draft_from_value\<close> are the derived serde encoding
  of the structs: every field under its name, an absent optional field as null unless the field is
  marked \<open>skip_serializing_if\<close>, a missing or null optional field read as absent. (serde also reads a
  struct from the array of its fields; no document of the program has that form, and the model refuses
  it.) The writers and hashes that rest on other crates are in the record \<open>import_env\<close>.
\<close>

section \<open>Drafts\<close>

record draft =
  dr_name :: string
  dr_protocol :: protocol
  dr_address :: string
  dr_port :: nat
  dr_uuid :: "string option"
  dr_encryption :: "string option"
  dr_alter_id :: "nat option"
  dr_security :: "string option"
  dr_method :: "string option"
  dr_password :: "string option"
  dr_username :: "string option"
  dr_auth :: "string option"
  dr_stream :: "jv stream_settings option"
  dr_hysteria2 :: "hysteria2_settings option"
  dr_outbound_patch :: "jv option"

datatype draft_error =
    EmptyAddress | ZeroPort | MissingField string string | PatchNotObject | PatchSetsReserved string
  | DoesNotGenerate

definition draft_default :: draft where
  "draft_default =
     \<lparr>dr_name = [], dr_protocol = PVless, dr_address = [], dr_port = 0, dr_uuid = None, dr_encryption = None,
      dr_alter_id = None, dr_security = None, dr_method = None, dr_password = None, dr_username = None,
      dr_auth = None, dr_stream = None, dr_hysteria2 = None, dr_outbound_patch = None\<rparr>"

definition reserved_patch_keys :: "string list" where
  "reserved_patch_keys = [''tag'', ''protocol'']"

text \<open>\<open>StreamSettings::default()\<close> and \<open>Hysteria2Settings::default()\<close>.\<close>

definition stream_default :: "jv stream_settings" where
  "stream_default = plain_stream [] []"

definition hysteria2_default :: hysteria2_settings where
  "hysteria2_default =
     \<lparr>h2_sni = None, h2_alpn = None, h2_allow_insecure = False, h2_pin_sha256 = None, h2_obfs = None,
      h2_up_mbps = None, h2_down_mbps = None, h2_port_hop = [], h2_hop_interval_secs = None,
      h2_congestion = None, h2_udp_idle_timeout_secs = None\<rparr>"

definition normalized_stream :: "jv stream_settings \<Rightarrow> jv stream_settings" where
  "normalized_stream s =
     s\<lparr>ss_network := (if trim (ss_network s) = [] then ''tcp'' else ss_network s),
       ss_security := (if trim (ss_security s) = [] then ''none'' else ss_security s)\<rparr>"

text \<open>The closures \<open>optional\<close> and \<open>required\<close> of \<open>resolve\<close>.\<close>

definition optional_text :: "string option \<Rightarrow> string option" where
  "optional_text value = filter_opt (\<lambda>v. v \<noteq> []) (map_option trim value)"

definition required_text :: "string option \<Rightarrow> string \<Rightarrow> string \<Rightarrow> draft_error + string" where
  "required_text value field protocol =
     or_bail (optional_text value) (MissingField field protocol) Inr"

definition check_patch :: "jv option \<Rightarrow> draft_error + unit" where
  "check_patch patch =
     (case patch of
        None \<Rightarrow> Inr ()
      | Some p \<Rightarrow>
          or_bail (as_object p) PatchNotObject (\<lambda>m.
            check_all (\<lambda>key. ensure (map_of m key = None) (PatchSetsReserved key) (Inr ())) reserved_patch_keys))"

definition draft_spec :: "draft \<Rightarrow> draft_error + jv outbound_spec" where
  "draft_spec d =
     (let s = normalized_stream (unwrap_or (dr_stream d) stream_default)
      in case dr_protocol d of
           PVless \<Rightarrow> and_then (required_text (dr_uuid d) ''uuid'' ''vless'') (\<lambda>uuid.
             Inr (Vless uuid (unwrap_or (optional_text (dr_encryption d)) ''none'') s))
         | PVmess \<Rightarrow> and_then (required_text (dr_uuid d) ''uuid'' ''vmess'') (\<lambda>uuid.
             Inr (Vmess uuid (unwrap_or (dr_alter_id d) 0) (unwrap_or (optional_text (dr_security d)) ''auto'') s))
         | PTrojan \<Rightarrow> and_then (required_text (dr_password d) ''password'' ''trojan'') (\<lambda>password.
             Inr (Trojan password s))
         | PShadowsocks \<Rightarrow> and_then (required_text (dr_method d) ''method'' ''shadowsocks'') (\<lambda>cipher.
             and_then (required_text (dr_password d) ''password'' ''shadowsocks'') (\<lambda>password.
             Inr (Shadowsocks cipher password)))
         | PSocks \<Rightarrow> Inr (Socks (optional_text (dr_username d)) (optional_text (dr_password d)))
         | PHttp \<Rightarrow> Inr (Http (optional_text (dr_username d)) (optional_text (dr_password d)))
         | PHysteria2 \<Rightarrow> and_then (required_text (dr_auth d) ''auth'' ''hysteria2'') (\<lambda>auth.
             Inr (Hysteria2 auth (unwrap_or (dr_hysteria2 d) hysteria2_default))))"

definition resolve_draft :: "import_env \<Rightarrow> draft \<Rightarrow> draft_error + jv server" where
  "resolve_draft E d =
     (let address = trim (dr_address d)
      in ensure (address \<noteq> []) EmptyAddress
        (ensure (dr_port d \<noteq> 0) ZeroPort
        (and_then (check_patch (dr_outbound_patch d)) (\<lambda>_.
         and_then (draft_spec d) (\<lambda>spec.
           let name = (if trim (dr_name d) = [] then address @ '':'' @ show_nat (dr_port d) else trim (dr_name d));
               server = \<lparr>srv_id = [], srv_name = name, srv_protocol = dr_protocol d, srv_address = address,
                 srv_port = dr_port d, srv_transport_label = transport_label (dr_protocol d) spec,
                 srv_country = country_from_name name, srv_spec = spec, srv_link = None, srv_alias = None,
                 srv_outbound_patch = dr_outbound_patch d, srv_overrides = None, srv_latency_ms = None\<rparr>;
               server = server\<lparr>srv_id := stable_id (identity_string E server)\<rparr>
           in ensure (outbound_tagged server ''proxy'' \<noteq> None) DoesNotGenerate (Inr server))))))"

definition draft_from_server :: "jv server \<Rightarrow> draft" where
  "draft_from_server server =
     (let base = draft_default\<lparr>dr_name := srv_name server, dr_protocol := srv_protocol server,
            dr_address := srv_address server, dr_port := srv_port server,
            dr_outbound_patch := srv_outbound_patch server\<rparr>
      in case srv_spec server of
           Vless uuid encryption s \<Rightarrow> base\<lparr>dr_uuid := Some uuid, dr_encryption := Some encryption, dr_stream := Some s\<rparr>
         | Vmess uuid alter_id security s \<Rightarrow>
             base\<lparr>dr_uuid := Some uuid, dr_alter_id := Some alter_id, dr_security := Some security, dr_stream := Some s\<rparr>
         | Trojan password s \<Rightarrow> base\<lparr>dr_password := Some password, dr_stream := Some s\<rparr>
         | Shadowsocks cipher password \<Rightarrow> base\<lparr>dr_method := Some cipher, dr_password := Some password\<rparr>
         | Socks username password \<Rightarrow> base\<lparr>dr_password := password, dr_username := username\<rparr>
         | Http username password \<Rightarrow> base\<lparr>dr_password := password, dr_username := username\<rparr>
         | Hysteria2 auth settings \<Rightarrow> base\<lparr>dr_auth := Some auth, dr_hysteria2 := Some settings\<rparr>
         | XrayProfile _ _ _ _ \<Rightarrow> base)"

section \<open>Drafts as JSON\<close>

abbreviation jnat_opt :: "nat option \<Rightarrow> jv" where
  "jnat_opt n \<equiv> jopt (map_option jnat n)"

abbreviation jstrs_opt :: "string list option \<Rightarrow> jv" where
  "jstrs_opt ss \<equiv> jopt (map_option jstrs ss)"

definition skip_none :: "string \<Rightarrow> string option \<Rightarrow> (string \<times> jv) list" where
  "skip_none key value = (case value of None \<Rightarrow> [] | Some v \<Rightarrow> [(key, JStr v)])"

definition stream_value :: "jv stream_settings \<Rightarrow> jv" where
  "stream_value s = jobj
     ([(''network'', JStr (ss_network s)), (''security'', JStr (ss_security s)), (''sni'', jstr_opt (ss_sni s)),
       (''alpn'', jstrs_opt (ss_alpn s)), (''fingerprint'', jstr_opt (ss_fingerprint s)),
       (''allow_insecure'', JBool (ss_allow_insecure s)), (''pin_sha256'', jstr_opt (ss_pin_sha256 s)),
       (''public_key'', jstr_opt (ss_public_key s)), (''short_id'', jstr_opt (ss_short_id s)),
       (''spider_x'', jstr_opt (ss_spider_x s)), (''path'', jstr_opt (ss_path s)), (''host'', jstr_opt (ss_host s)),
       (''service_name'', jstr_opt (ss_service_name s)), (''xhttp_mode'', jstr_opt (ss_xhttp_mode s)),
       (''xhttp_extra'', jopt (ss_xhttp_extra s)), (''grpc_authority'', jstr_opt (ss_grpc_authority s)),
       (''grpc_multi_mode'', JBool (ss_grpc_multi_mode s)), (''header_type'', jstr_opt (ss_header_type s)),
       (''flow'', jstr_opt (ss_flow s))]
      @ skip_none ''ech'' (ss_ech s) @ skip_none ''verify_peer_cert_by_name'' (ss_verify_peer_cert_by_name s)
      @ skip_none ''mldsa65_verify'' (ss_mldsa65_verify s))"

definition port_range_value :: "port_range \<Rightarrow> jv" where
  "port_range_value r = jobj [(''start'', jnat (pr_start r)), (''end'', jnat (pr_end r))]"

definition obfs_value :: "hysteria2_obfs \<Rightarrow> jv" where
  "obfs_value x = jobj [(''kind'', JStr (ho_kind x)), (''password'', JStr (ho_password x))]"

definition hysteria2_value :: "hysteria2_settings \<Rightarrow> jv" where
  "hysteria2_value s = jobj
     [(''sni'', jstr_opt (h2_sni s)), (''alpn'', jstrs_opt (h2_alpn s)),
      (''allow_insecure'', JBool (h2_allow_insecure s)), (''pin_sha256'', jstr_opt (h2_pin_sha256 s)),
      (''obfs'', jopt (map_option obfs_value (h2_obfs s))), (''up_mbps'', jnat_opt (h2_up_mbps s)),
      (''down_mbps'', jnat_opt (h2_down_mbps s)), (''port_hop'', JArr (map port_range_value (h2_port_hop s))),
      (''hop_interval_secs'', jnat_opt (h2_hop_interval_secs s)), (''congestion'', jstr_opt (h2_congestion s)),
      (''udp_idle_timeout_secs'', jnat_opt (h2_udp_idle_timeout_secs s))]"

definition draft_value :: "draft \<Rightarrow> jv" where
  "draft_value d = jobj
     [(''name'', JStr (dr_name d)), (''protocol'', JStr (protocol_as_str (dr_protocol d))),
      (''address'', JStr (dr_address d)), (''port'', jnat (dr_port d)), (''uuid'', jstr_opt (dr_uuid d)),
      (''encryption'', jstr_opt (dr_encryption d)), (''alter_id'', jnat_opt (dr_alter_id d)),
      (''security'', jstr_opt (dr_security d)), (''method'', jstr_opt (dr_method d)),
      (''password'', jstr_opt (dr_password d)), (''username'', jstr_opt (dr_username d)),
      (''auth'', jstr_opt (dr_auth d)), (''stream'', jopt (map_option stream_value (dr_stream d))),
      (''hysteria2'', jopt (map_option hysteria2_value (dr_hysteria2 d))),
      (''outbound_patch'', jopt (dr_outbound_patch d))]"

text \<open>The readers of a field: required, optional, and with a default.\<close>

definition read_field :: "string \<Rightarrow> (jv \<Rightarrow> 'a option) \<Rightarrow> 'a option \<Rightarrow> jv \<Rightarrow> 'a option" where
  "read_field key reader missing v = (case jget key v of None \<Rightarrow> missing | Some x \<Rightarrow> reader x)"

definition read_opt :: "string \<Rightarrow> (jv \<Rightarrow> 'a option) \<Rightarrow> jv \<Rightarrow> 'a option option" where
  "read_opt key reader v =
     read_field key (\<lambda>x. if x = JNull then Some None else map_option Some (reader x)) (Some None) v"

definition read_uint :: "nat \<Rightarrow> jv \<Rightarrow> nat option" where
  "read_uint m v = filter_opt (\<lambda>n. n \<le> m) (as_u64 v)"

definition read_strings :: "jv \<Rightarrow> string list option" where
  "read_strings v = Option.bind (as_array v) (\<lambda>xs. those (map as_str xs))"

definition read_struct :: "(jv \<Rightarrow> 'a option) \<Rightarrow> jv \<Rightarrow> 'a option" where
  "read_struct reader v = (if as_object v = None then None else reader v)"

definition stream_from_value :: "jv \<Rightarrow> jv stream_settings option" where
  "stream_from_value = read_struct (\<lambda>v. do {
     network \<leftarrow> read_field ''network'' as_str None v;
     security \<leftarrow> read_field ''security'' as_str None v;
     sni \<leftarrow> read_opt ''sni'' as_str v;
     alpn \<leftarrow> read_opt ''alpn'' read_strings v;
     fingerprint \<leftarrow> read_opt ''fingerprint'' as_str v;
     allow_insecure \<leftarrow> read_field ''allow_insecure'' as_bool (Some False) v;
     pin \<leftarrow> read_opt ''pin_sha256'' as_str v;
     public_key \<leftarrow> read_opt ''public_key'' as_str v;
     short_id \<leftarrow> read_opt ''short_id'' as_str v;
     spider_x \<leftarrow> read_opt ''spider_x'' as_str v;
     path \<leftarrow> read_opt ''path'' as_str v;
     host \<leftarrow> read_opt ''host'' as_str v;
     service_name \<leftarrow> read_opt ''service_name'' as_str v;
     xhttp_mode \<leftarrow> read_opt ''xhttp_mode'' as_str v;
     xhttp_extra \<leftarrow> read_opt ''xhttp_extra'' Some v;
     grpc_authority \<leftarrow> read_opt ''grpc_authority'' as_str v;
     grpc_multi_mode \<leftarrow> read_field ''grpc_multi_mode'' as_bool (Some False) v;
     header_type \<leftarrow> read_opt ''header_type'' as_str v;
     flow \<leftarrow> read_opt ''flow'' as_str v;
     ech \<leftarrow> read_opt ''ech'' as_str v;
     vcn \<leftarrow> read_opt ''verify_peer_cert_by_name'' as_str v;
     mldsa \<leftarrow> read_opt ''mldsa65_verify'' as_str v;
     Some \<lparr>ss_network = network, ss_security = security, ss_sni = sni, ss_alpn = alpn,
       ss_fingerprint = fingerprint, ss_allow_insecure = allow_insecure, ss_pin_sha256 = pin,
       ss_public_key = public_key, ss_short_id = short_id, ss_spider_x = spider_x, ss_path = path,
       ss_host = host, ss_service_name = service_name, ss_xhttp_mode = xhttp_mode,
       ss_xhttp_extra = xhttp_extra, ss_grpc_authority = grpc_authority, ss_grpc_multi_mode = grpc_multi_mode,
       ss_header_type = header_type, ss_flow = flow, ss_ech = ech, ss_verify_peer_cert_by_name = vcn,
       ss_mldsa65_verify = mldsa\<rparr> })"

definition port_range_from_value :: "jv \<Rightarrow> port_range option" where
  "port_range_from_value = read_struct (\<lambda>v. do {
     a \<leftarrow> read_field ''start'' (read_uint 65535) None v;
     b \<leftarrow> read_field ''end'' (read_uint 65535) None v;
     Some \<lparr>pr_start = a, pr_end = b\<rparr> })"

definition obfs_from_value :: "jv \<Rightarrow> hysteria2_obfs option" where
  "obfs_from_value = read_struct (\<lambda>v. do {
     kind \<leftarrow> read_field ''kind'' as_str None v;
     password \<leftarrow> read_field ''password'' as_str None v;
     Some \<lparr>ho_kind = kind, ho_password = password\<rparr> })"

definition hysteria2_from_value :: "jv \<Rightarrow> hysteria2_settings option" where
  "hysteria2_from_value = read_struct (\<lambda>v. do {
     sni \<leftarrow> read_opt ''sni'' as_str v;
     alpn \<leftarrow> read_opt ''alpn'' read_strings v;
     allow_insecure \<leftarrow> read_field ''allow_insecure'' as_bool (Some False) v;
     pin \<leftarrow> read_opt ''pin_sha256'' as_str v;
     obfs \<leftarrow> read_opt ''obfs'' obfs_from_value v;
     up \<leftarrow> read_opt ''up_mbps'' (read_uint u32_max) v;
     down \<leftarrow> read_opt ''down_mbps'' (read_uint u32_max) v;
     hop \<leftarrow> read_field ''port_hop''
       (\<lambda>x. Option.bind (as_array x) (\<lambda>xs. those (map port_range_from_value xs))) (Some []) v;
     interval \<leftarrow> read_opt ''hop_interval_secs'' (read_uint u32_max) v;
     congestion \<leftarrow> read_opt ''congestion'' as_str v;
     idle \<leftarrow> read_opt ''udp_idle_timeout_secs'' (read_uint u32_max) v;
     Some \<lparr>h2_sni = sni, h2_alpn = alpn, h2_allow_insecure = allow_insecure, h2_pin_sha256 = pin,
       h2_obfs = obfs, h2_up_mbps = up, h2_down_mbps = down, h2_port_hop = hop,
       h2_hop_interval_secs = interval, h2_congestion = congestion, h2_udp_idle_timeout_secs = idle\<rparr> })"

text \<open>A unit variant: its name, or an object with the name as its only key and null under it.\<close>

definition all_protocols :: "protocol list" where
  "all_protocols = [PVless, PVmess, PTrojan, PShadowsocks, PSocks, PHttp, PHysteria2]"

definition protocol_from_value :: "jv \<Rightarrow> protocol option" where
  "protocol_from_value v =
     (let named = (\<lambda>s. List.find (\<lambda>p. protocol_as_str p = s) all_protocols)
      in case v of JStr s \<Rightarrow> named s | JObj [(k, JNull)] \<Rightarrow> named k | _ \<Rightarrow> None)"

definition draft_from_value :: "jv \<Rightarrow> draft option" where
  "draft_from_value = read_struct (\<lambda>v. do {
     name \<leftarrow> read_field ''name'' as_str (Some []) v;
     protocol \<leftarrow> read_field ''protocol'' protocol_from_value None v;
     address \<leftarrow> read_field ''address'' as_str None v;
     port \<leftarrow> read_field ''port'' (read_uint 65535) None v;
     uuid \<leftarrow> read_opt ''uuid'' as_str v;
     encryption \<leftarrow> read_opt ''encryption'' as_str v;
     alter_id \<leftarrow> read_opt ''alter_id'' (read_uint u32_max) v;
     security \<leftarrow> read_opt ''security'' as_str v;
     cipher \<leftarrow> read_opt ''method'' as_str v;
     password \<leftarrow> read_opt ''password'' as_str v;
     username \<leftarrow> read_opt ''username'' as_str v;
     auth \<leftarrow> read_opt ''auth'' as_str v;
     s \<leftarrow> read_opt ''stream'' stream_from_value v;
     h \<leftarrow> read_opt ''hysteria2'' hysteria2_from_value v;
     patch \<leftarrow> read_opt ''outbound_patch'' Some v;
     Some \<lparr>dr_name = name, dr_protocol = protocol, dr_address = address, dr_port = port, dr_uuid = uuid,
       dr_encryption = encryption, dr_alter_id = alter_id, dr_security = security, dr_method = cipher,
       dr_password = password, dr_username = username, dr_auth = auth, dr_stream = s, dr_hysteria2 = h,
       dr_outbound_patch = patch\<rparr> })"

section \<open>Differences\<close>

text \<open>\<open>diff_objects\<close>; \<open>changed\<close> is the map the code fills in place.\<close>

fun diff_objects :: "string \<Rightarrow> jv \<Rightarrow> jv \<Rightarrow> entries \<Rightarrow> entries"
  and diff_entries :: "string \<Rightarrow> entries \<Rightarrow> entries \<Rightarrow> entries \<Rightarrow> entries" where
  "diff_objects prefix before (JObj after) changed =
     (case as_object before of
        None \<Rightarrow> changed
      | Some b \<Rightarrow>
          foldl (\<lambda>c (key, _). if map_of after key = None then jins (prefix @ key) JNull c else c)
            (diff_entries prefix b after changed) b)"
| "diff_objects prefix before JNull changed = changed"
| "diff_objects prefix before (JBool _) changed = changed"
| "diff_objects prefix before (JNum _) changed = changed"
| "diff_objects prefix before (JStr _) changed = changed"
| "diff_objects prefix before (JArr _) changed = changed"
| "diff_entries prefix b [] changed = changed"
| "diff_entries prefix b ((key, value) # after) changed =
     diff_entries prefix b after
       (case map_of b key of
          Some other \<Rightarrow>
            if other = value then changed
            else if as_object other \<noteq> None \<and> as_object value \<noteq> None
            then diff_objects (prefix @ key @ ''.'') other value changed
            else jins (prefix @ key) value changed
        | None \<Rightarrow> jins (prefix @ key) value changed)"

definition draft_diff :: "draft \<Rightarrow> draft \<Rightarrow> entries" where
  "draft_diff before after = diff_objects [] (draft_value before) (draft_value after) []"

fun get_path :: "string list \<Rightarrow> jv \<Rightarrow> jv option" where
  "get_path [] v = Some v"
| "get_path (k # ks) v = Option.bind (jget k v) (get_path ks)"

definition field_value :: "jv server \<Rightarrow> string \<Rightarrow> jv option" where
  "field_value server key = get_path (split_on CHR ''.'' key) (draft_value (draft_from_server server))"

fun set_parts :: "string list \<Rightarrow> jv \<Rightarrow> entries \<Rightarrow> entries" where
  "set_parts [] v m = m"
| "set_parts [k] v m = jins k v m"
| "set_parts (k # k' # ks) v m =
     jins k (JObj (set_parts (k' # ks) v (case map_of m k of Some (JObj n) \<Rightarrow> n | _ \<Rightarrow> []))) m"

definition set_dotted :: "string \<Rightarrow> jv \<Rightarrow> entries \<Rightarrow> entries" where
  "set_dotted key v m = set_parts (split_on CHR ''.'' key) v m"

definition apply_overrides :: "import_env \<Rightarrow> jv server \<Rightarrow> entries \<Rightarrow> jv server option" where
  "apply_overrides E server values = do {
     m \<leftarrow> as_object (draft_value (draft_from_server server));
     d \<leftarrow> draft_from_value (JObj (foldl (\<lambda>m (key, v). set_dotted key v m) m values));
     resolved \<leftarrow> (case resolve_draft E d of Inr s \<Rightarrow> Some s | Inl _ \<Rightarrow> None);
     Some (resolved\<lparr>srv_id := srv_id server, srv_alias := srv_alias server, srv_link := srv_link server,
       srv_latency_ms := srv_latency_ms server\<rparr>) }"

end
