(* ===== verification/Draft_Values.thy ===== *)
theory Draft_Values
  imports Draft Import_Roundtrip Xray_Routes
begin

text \<open>
  Drafts as JSON and back. A draft read out of its own value is the draft, and a server read into
  a draft and resolved again is the server.
\<close>

section \<open>Reading what was written\<close>

lemma read_field_Some: "jget key v = Some x \<Longrightarrow> read_field key reader missing v = reader x"
  by (simp add: read_field_def)

lemma read_opt_Some:
  assumes "jget key v = Some (jopt (map_option w x))" and "\<And>y. x = Some y \<Longrightarrow> reader (w y) = Some y \<and> w y \<noteq> JNull"
  shows "read_opt key reader v = Some x"
  using assms by (cases x) (simp_all add: read_opt_def read_field_def)

lemma read_opt_skip: "jget key v = map_option JStr x \<Longrightarrow> read_opt key as_str v = Some x"
  by (cases x) (simp_all add: read_opt_def read_field_def)

lemma read_opt_str: "jget key v = Some (jstr_opt x) \<Longrightarrow> read_opt key as_str v = Some x"
  by (rule read_opt_Some [where w = JStr]) simp_all

lemma those_map_Some_id: "(\<And>x. x \<in> set xs \<Longrightarrow> f (g x) = Some x) \<Longrightarrow> those (map (f \<circ> g) xs) = Some xs"
  by (induction xs) simp_all

lemma read_strings_jstrs: "read_strings (jstrs ss) = Some ss"
  using those_map_Some_id [of ss as_str JStr] by (simp add: read_strings_def)

lemma read_opt_strs: "jget key v = Some (jstrs_opt x) \<Longrightarrow> read_opt key read_strings v = Some x"
  by (rule read_opt_Some [where w = jstrs]) (simp_all add: read_strings_jstrs)

lemma read_opt_nat:
  "jget key v = Some (jnat_opt x) \<Longrightarrow> pred_option (\<lambda>n. n \<le> m) x \<Longrightarrow> read_opt key (read_uint m) v = Some x"
  by (rule read_opt_Some [where w = jnat]) (auto simp: read_uint_def filter_opt_def)

lemma read_opt_any: "jget key v = Some (jopt x) \<Longrightarrow> x \<noteq> Some JNull \<Longrightarrow> read_opt key Some v = Some x"
  by (cases x) (simp_all add: read_opt_def read_field_def)

lemma jget_skip:
  "jget k (jobj (kvs @ skip_none a x @ skip_none b y @ skip_none c z)) =
     (if k = c \<and> z \<noteq> None then map_option JStr z else if k = b \<and> y \<noteq> None then map_option JStr y
      else if k = a \<and> x \<noteq> None then map_option JStr x else map_of (rev kvs) k)"
  by (auto simp: jget_jobj skip_none_def map_add_def split: option.splits)

lemma stream_value_fields:
  "jget ''network'' (stream_value s) = Some (JStr (ss_network s))"
  "jget ''security'' (stream_value s) = Some (JStr (ss_security s))"
  "jget ''sni'' (stream_value s) = Some (jstr_opt (ss_sni s))"
  "jget ''alpn'' (stream_value s) = Some (jstrs_opt (ss_alpn s))"
  "jget ''fingerprint'' (stream_value s) = Some (jstr_opt (ss_fingerprint s))"
  "jget ''allow_insecure'' (stream_value s) = Some (JBool (ss_allow_insecure s))"
  "jget ''pin_sha256'' (stream_value s) = Some (jstr_opt (ss_pin_sha256 s))"
  "jget ''public_key'' (stream_value s) = Some (jstr_opt (ss_public_key s))"
  "jget ''short_id'' (stream_value s) = Some (jstr_opt (ss_short_id s))"
  "jget ''spider_x'' (stream_value s) = Some (jstr_opt (ss_spider_x s))"
  "jget ''path'' (stream_value s) = Some (jstr_opt (ss_path s))"
  "jget ''host'' (stream_value s) = Some (jstr_opt (ss_host s))"
  "jget ''service_name'' (stream_value s) = Some (jstr_opt (ss_service_name s))"
  "jget ''xhttp_mode'' (stream_value s) = Some (jstr_opt (ss_xhttp_mode s))"
  "jget ''xhttp_extra'' (stream_value s) = Some (jopt (ss_xhttp_extra s))"
  "jget ''grpc_authority'' (stream_value s) = Some (jstr_opt (ss_grpc_authority s))"
  "jget ''grpc_multi_mode'' (stream_value s) = Some (JBool (ss_grpc_multi_mode s))"
  "jget ''header_type'' (stream_value s) = Some (jstr_opt (ss_header_type s))"
  "jget ''flow'' (stream_value s) = Some (jstr_opt (ss_flow s))"
  "jget ''ech'' (stream_value s) = map_option JStr (ss_ech s)"
  "jget ''verify_peer_cert_by_name'' (stream_value s) = map_option JStr (ss_verify_peer_cert_by_name s)"
  "jget ''mldsa65_verify'' (stream_value s) = map_option JStr (ss_mldsa65_verify s)"
  unfolding stream_value_def jget_skip by simp_all

lemma stream_value_object: "as_object (stream_value s) \<noteq> None" "stream_value s \<noteq> JNull"
  by (simp_all add: stream_value_def jobj_def)

lemma stream_from_value_value:
  assumes "ss_xhttp_extra s \<noteq> Some JNull"
  shows "stream_from_value (stream_value s) = Some s"
  unfolding stream_from_value_def
  by (simp add: read_struct_def stream_value_object(1) del: not_None_eq)
     (simp add: stream_value_fields(1,2,6,17) [THEN read_field_Some] stream_value_fields(3,5,7-14,16,18,19) [THEN read_opt_str]
       stream_value_fields(4) [THEN read_opt_strs] stream_value_fields(20-22) [THEN read_opt_skip]
       read_opt_any [OF stream_value_fields(15) assms])

section \<open>Hysteria2\<close>

lemma hysteria2_value_fields:
  "jget ''sni'' (hysteria2_value s) = Some (jstr_opt (h2_sni s))"
  "jget ''alpn'' (hysteria2_value s) = Some (jstrs_opt (h2_alpn s))"
  "jget ''allow_insecure'' (hysteria2_value s) = Some (JBool (h2_allow_insecure s))"
  "jget ''pin_sha256'' (hysteria2_value s) = Some (jstr_opt (h2_pin_sha256 s))"
  "jget ''obfs'' (hysteria2_value s) = Some (jopt (map_option obfs_value (h2_obfs s)))"
  "jget ''up_mbps'' (hysteria2_value s) = Some (jnat_opt (h2_up_mbps s))"
  "jget ''down_mbps'' (hysteria2_value s) = Some (jnat_opt (h2_down_mbps s))"
  "jget ''port_hop'' (hysteria2_value s) = Some (JArr (map port_range_value (h2_port_hop s)))"
  "jget ''hop_interval_secs'' (hysteria2_value s) = Some (jnat_opt (h2_hop_interval_secs s))"
  "jget ''congestion'' (hysteria2_value s) = Some (jstr_opt (h2_congestion s))"
  "jget ''udp_idle_timeout_secs'' (hysteria2_value s) = Some (jnat_opt (h2_udp_idle_timeout_secs s))"
  by (simp_all add: hysteria2_value_def jget_jobj)

lemma value_objects:
  "as_object (hysteria2_value s) \<noteq> None" "hysteria2_value s \<noteq> JNull"
  "as_object (port_range_value r) \<noteq> None" "as_object (obfs_value x) \<noteq> None" "obfs_value x \<noteq> JNull"
  "as_object (draft_value d) \<noteq> None"
  by (simp_all add: hysteria2_value_def port_range_value_def obfs_value_def draft_value_def jobj_def)

lemma port_range_from_value_value:
  "port_range_ok r \<Longrightarrow> port_range_from_value (port_range_value r) = Some r"
  by (simp add: port_range_from_value_def read_struct_def value_objects(3) del: not_None_eq)
     (simp add: port_range_value_def read_field_def jget_jobj read_uint_def filter_opt_def port_range_ok_def)

lemma obfs_from_value_value: "obfs_from_value (obfs_value x) = Some x"
  by (simp add: obfs_from_value_def read_struct_def value_objects(4) del: not_None_eq)
     (simp add: obfs_value_def read_field_def jget_jobj)

lemma read_opt_obfs: "jget k v = Some (jopt (map_option obfs_value x)) \<Longrightarrow> read_opt k obfs_from_value v = Some x"
  by (rule read_opt_Some [where w = obfs_value]) (simp_all add: obfs_from_value_value value_objects(5))

lemma hysteria2_from_value_value:
  assumes "hysteria2_ok s"
  shows "hysteria2_from_value (hysteria2_value s) = Some s"
proof -
  have ranges: "those (map (port_range_from_value \<circ> port_range_value) (h2_port_hop s)) = Some (h2_port_hop s)"
    by (rule those_map_Some_id, rule port_range_from_value_value) (use assms in \<open>simp add: hysteria2_ok_def list_all_iff\<close>)
  note numbers = assms [unfolded hysteria2_ok_def, THEN conjunct2]
  note up = read_opt_nat [OF hysteria2_value_fields(6) numbers [THEN conjunct1]]
    and down = read_opt_nat [OF hysteria2_value_fields(7) numbers [THEN conjunct2, THEN conjunct1]]
    and interval = read_opt_nat [OF hysteria2_value_fields(9) numbers [THEN conjunct2, THEN conjunct2, THEN conjunct1]]
    and idle = read_opt_nat [OF hysteria2_value_fields(11) numbers [THEN conjunct2, THEN conjunct2, THEN conjunct2]]
  show ?thesis
    unfolding hysteria2_from_value_def
    by (simp add: read_struct_def value_objects(1) del: not_None_eq)
       (simp add: hysteria2_value_fields(3,8) [THEN read_field_Some] hysteria2_value_fields(1,4,10) [THEN read_opt_str]
         hysteria2_value_fields(2) [THEN read_opt_strs] hysteria2_value_fields(5) [THEN read_opt_obfs] up down interval idle
         ranges)
qed

section \<open>Drafts\<close>

definition draft_ok :: "draft \<Rightarrow> bool" where
  "draft_ok d = (dr_port d \<le> 65535 \<and> pred_option (\<lambda>n. n \<le> u32_max) (dr_alter_id d)
     \<and> pred_option (\<lambda>s. ss_xhttp_extra s \<noteq> Some JNull) (dr_stream d) \<and> pred_option hysteria2_ok (dr_hysteria2 d)
     \<and> dr_outbound_patch d \<noteq> Some JNull)"

lemma protocol_from_value_name: "protocol_from_value (JStr (protocol_as_str p)) = Some p"
  by (cases p) (simp_all add: protocol_from_value_def all_protocols_def)

lemma draft_value_fields:
  "jget ''name'' (draft_value d) = Some (JStr (dr_name d))"
  "jget ''protocol'' (draft_value d) = Some (JStr (protocol_as_str (dr_protocol d)))"
  "jget ''address'' (draft_value d) = Some (JStr (dr_address d))"
  "jget ''port'' (draft_value d) = Some (jnat (dr_port d))"
  "jget ''uuid'' (draft_value d) = Some (jstr_opt (dr_uuid d))"
  "jget ''encryption'' (draft_value d) = Some (jstr_opt (dr_encryption d))"
  "jget ''alter_id'' (draft_value d) = Some (jnat_opt (dr_alter_id d))"
  "jget ''security'' (draft_value d) = Some (jstr_opt (dr_security d))"
  "jget ''method'' (draft_value d) = Some (jstr_opt (dr_method d))"
  "jget ''password'' (draft_value d) = Some (jstr_opt (dr_password d))"
  "jget ''username'' (draft_value d) = Some (jstr_opt (dr_username d))"
  "jget ''auth'' (draft_value d) = Some (jstr_opt (dr_auth d))"
  "jget ''stream'' (draft_value d) = Some (jopt (map_option stream_value (dr_stream d)))"
  "jget ''hysteria2'' (draft_value d) = Some (jopt (map_option hysteria2_value (dr_hysteria2 d)))"
  "jget ''outbound_patch'' (draft_value d) = Some (jopt (dr_outbound_patch d))"
  by (simp_all add: draft_value_def jget_jobj)

lemma draft_from_value_value:
  assumes "draft_ok d"
  shows "draft_from_value (draft_value d) = Some d"
proof -
  from assms have port: "read_uint 65535 (jnat (dr_port d)) = Some (dr_port d)"
    by (simp add: draft_ok_def read_uint_def filter_opt_def)
  have alter_id: "read_opt ''alter_id'' (read_uint u32_max) (draft_value d) = Some (dr_alter_id d)"
    by (rule read_opt_nat [OF draft_value_fields(7)]) (use assms in \<open>simp add: draft_ok_def\<close>)
  have s: "read_opt ''stream'' stream_from_value (draft_value d) = Some (dr_stream d)"
    by (rule read_opt_Some [OF draft_value_fields(13)])
       (use assms in \<open>simp add: draft_ok_def stream_from_value_value stream_value_object(2)\<close>)
  have h: "read_opt ''hysteria2'' hysteria2_from_value (draft_value d) = Some (dr_hysteria2 d)"
    by (rule read_opt_Some [OF draft_value_fields(14)])
       (use assms in \<open>simp add: draft_ok_def hysteria2_from_value_value value_objects(2)\<close>)
  have patch: "read_opt ''outbound_patch'' Some (draft_value d) = Some (dr_outbound_patch d)"
    by (rule read_opt_any [OF draft_value_fields(15)]) (use assms in \<open>simp add: draft_ok_def\<close>)
  show ?thesis
    unfolding draft_from_value_def
    by (simp add: read_struct_def value_objects(6) del: not_None_eq)
       (simp add: draft_value_fields(1-4) [THEN read_field_Some] draft_value_fields(5,6,8-12) [THEN read_opt_str]
         protocol_from_value_name port alter_id s h patch)
qed

section \<open>Resolving again\<close>

lemma optional_text_trimmed: "optional_text v = Some t \<Longrightarrow> trim t = t \<and> t \<noteq> []"
  by (cases v) (auto simp: optional_text_def filter_opt_def split: if_splits)

lemma optional_text_again: "optional_text v = Some t \<Longrightarrow> optional_text (Some t) = Some t"
  using optional_text_trimmed [of v t] by (simp add: optional_text_def filter_opt_def)

lemma optional_text_idem [simp]: "optional_text (optional_text v) = optional_text v"
  by (cases "optional_text v") (simp add: optional_text_def filter_opt_def, simp add: optional_text_again)

lemma required_text_iff: "required_text v field protocol = Inr t \<longleftrightarrow> optional_text v = Some t"
  by (auto simp: required_text_def or_bail_def split: option.splits)

lemma trim_literals: "trim ''tcp'' = ''tcp''" "trim ''none'' = ''none''" "trim ''auto'' = ''auto''"
  by (rule trim_graphic; simp add: is_ascii_graphic_def)+

lemma default_text: "trim w = w \<Longrightarrow> w \<noteq> [] \<Longrightarrow> optional_text (Some (unwrap_or (optional_text v) w)) = Some (unwrap_or (optional_text v) w)"
  by (cases "optional_text v") (simp add: optional_text_def filter_opt_def, simp add: optional_text_again)

lemma normalized_stream_idem [simp]: "normalized_stream (normalized_stream s) = normalized_stream s"
  by (simp add: normalized_stream_def trim_literals)

lemma draft_spec_again:
  assumes "draft_spec d = Inr spec" and "srv_spec server = spec" and "srv_protocol server = dr_protocol d"
  shows "draft_spec (draft_from_server server) = Inr spec"
  using assms
  by (cases "dr_protocol d"; cases spec)
     (auto simp: draft_spec_def draft_from_server_def Let_def and_then_Inr_iff required_text_iff draft_default_def
        default_text trim_literals dest: optional_text_again)

lemma ws_start_stop:
  assumes "p \<noteq> []" "ws_start p = 0" "is_ascii_graphic c"
  shows "ws_start (p @ c # r) = 0"
proof -
  have c: "33 \<le> (ord c :: nat)" "(ord c :: nat) \<le> 126" using assms(3) by (simp_all add: is_ascii_graphic_def)
  consider x where "p = [x]" | x y where "p = [x, y]" | x y z q where "p = x # y # z # q"
    using assms(1) by (metis list.exhaust)
  then show ?thesis
  proof cases
    case 1
    then show ?thesis using assms(2) c by (cases r) (auto simp: ws_start_def split: if_splits)
  next
    case 2
    then show ?thesis using assms(2) c by (auto simp: ws_start_def split: if_splits)
  next
    case 3
    then show ?thesis using assms(2) by (simp add: ws_start_def)
  qed
qed

lemma trim_endpoint:
  assumes "trim a = a" "a \<noteq> []"
  shows "trim (a @ '':'' @ show_nat n) = a @ '':'' @ show_nat n"
proof -
  have "trim_start a = a"
  proof -
    obtain p where "a = p @ trim_start a" using trim_start_suffix by blast
    moreover obtain r where "trim_start a = trim a @ r" using trim_end_prefix [of "trim_start a"] by (auto simp: trim_def)
    ultimately have "length a = length p + length (trim_start a)" "length (trim_start a) = length a + length r"
      using assms(1) by (metis length_append)+
    then show ?thesis using \<open>a = p @ trim_start a\<close> by simp
  qed
  with trim_start_stop [of a] assms(2) have "ws_start a = 0" by simp
  from ws_start_stop [OF assms(2) this, of "CHR '':''" "show_nat n"]
  have "trim_start (a @ '':'' @ show_nat n) = a @ '':'' @ show_nat n"
    by (simp add: trim_start.simps [of "a @ _"] is_ascii_graphic_def)
  moreover have "ws_end (a @ '':'' @ show_nat n) = 0"
    by (rule last_graphic_no_ws) (simp_all add: digit_graphic)
  ultimately show ?thesis by (simp add: trim_def trim_end.simps [of "a @ _"])
qed

definition resolved_name :: "draft \<Rightarrow> string" where
  "resolved_name d = (if trim (dr_name d) = [] then trim (dr_address d) @ '':'' @ show_nat (dr_port d) else trim (dr_name d))"

definition base_server :: "draft \<Rightarrow> jv outbound_spec \<Rightarrow> jv server" where
  "base_server d spec = \<lparr>srv_id = [], srv_name = resolved_name d, srv_protocol = dr_protocol d,
     srv_address = trim (dr_address d), srv_port = dr_port d,
     srv_transport_label = transport_label (dr_protocol d) spec, srv_country = country_from_name (resolved_name d),
     srv_spec = spec, srv_link = None, srv_alias = None, srv_outbound_patch = dr_outbound_patch d,
     srv_overrides = None, srv_latency_ms = None\<rparr>"

lemma resolve_iff:
  "resolve_draft E d = Inr server \<longleftrightarrow>
     trim (dr_address d) \<noteq> [] \<and> dr_port d \<noteq> 0 \<and> check_patch (dr_outbound_patch d) = Inr ()
     \<and> (\<exists>spec. draft_spec d = Inr spec
          \<and> server = (base_server d spec)\<lparr>srv_id := stable_id (identity_string E (base_server d spec))\<rparr>
          \<and> outbound_tagged server ''proxy'' \<noteq> None)"
  unfolding resolve_draft_def Let_def resolved_name_def [symmetric] base_server_def [symmetric]
    ensure_Inr_iff and_then_unit_iff and_then_Inr_iff [of "draft_spec d"]
  by (auto simp: base_server_def)

lemma resolved_name_again: "trim (dr_address d) \<noteq> [] \<Longrightarrow> trim (resolved_name d) = resolved_name d \<and> resolved_name d \<noteq> []"
  using trim_endpoint [of "trim (dr_address d)" "dr_port d"] by (simp add: resolved_name_def)

text \<open>What a resolved server looks like in the editor.\<close>

lemma reopened:
  assumes "resolve_draft E d = Inr server"
  shows "resolve_draft E (draft_from_server server) = Inr server"
proof -
  from assms obtain spec where spec: "draft_spec d = Inr spec"
    and server: "server = (base_server d spec)\<lparr>srv_id := stable_id (identity_string E (base_server d spec))\<rparr>"
    and ok: "trim (dr_address d) \<noteq> []" "dr_port d \<noteq> 0" "check_patch (dr_outbound_patch d) = Inr ()"
      "outbound_tagged server ''proxy'' \<noteq> None" by (auto simp: resolve_iff)
  let ?d = "draft_from_server server"
  have f: "dr_name ?d = resolved_name d" "dr_protocol ?d = dr_protocol d" "dr_address ?d = trim (dr_address d)"
    "dr_port ?d = dr_port d" "dr_outbound_patch ?d = dr_outbound_patch d"
    unfolding server by (cases spec; simp add: draft_from_server_def base_server_def draft_default_def Let_def)+
  have name: "resolved_name ?d = resolved_name d"
    unfolding resolved_name_def [of ?d] f using resolved_name_again [OF ok(1)] by simp
  have "draft_spec ?d = Inr spec"
    by (rule draft_spec_again [OF spec]) (simp_all add: server base_server_def)
  moreover have "base_server ?d spec = base_server d spec"
    unfolding base_server_def name f by simp
  ultimately show ?thesis using ok server f by (simp add: resolve_iff)
qed

lemma reopened_ok:
  assumes "resolve_draft E d = Inr server" and "draft_ok d"
  shows "draft_ok (draft_from_server server)"
proof -
  from assms(1) obtain spec where spec: "draft_spec d = Inr spec"
    and server: "srv_spec server = spec" "srv_port server = dr_port d" "srv_outbound_patch server = dr_outbound_patch d"
    by (auto simp: resolve_iff base_server_def)
  have extra: "ss_xhttp_extra (normalized_stream (unwrap_or (dr_stream d) stream_default)) \<noteq> Some JNull"
    using assms(2) by (cases "dr_stream d") (simp_all add: draft_ok_def normalized_stream_def stream_default_def plain_stream_def)
  have h: "hysteria2_ok (unwrap_or (dr_hysteria2 d) hysteria2_default)"
    using assms(2) by (cases "dr_hysteria2 d") (simp_all add: draft_ok_def hysteria2_ok_def hysteria2_default_def)
  have a: "unwrap_or (dr_alter_id d) 0 \<le> u32_max"
    using assms(2) by (cases "dr_alter_id d") (simp_all add: draft_ok_def)
  show ?thesis
    using assms(2) spec extra h a
    by (cases "dr_protocol d")
       (auto simp: draft_ok_def draft_from_server_def server draft_default_def Let_def draft_spec_def and_then_Inr_iff
         simp del: not_None_eq)
qed

text \<open>\<open>draft_from_server\<close> does not look at what an override keeps.\<close>

definition carried_marks :: "jv server \<Rightarrow> jv server \<Rightarrow> jv server" where
  "carried_marks from server = server\<lparr>srv_id := srv_id from, srv_alias := srv_alias from, srv_link := srv_link from,
     srv_latency_ms := srv_latency_ms from\<rparr>"

lemma draft_from_marks: "draft_from_server (carried_marks from server) = draft_from_server server"
  by (cases "srv_spec server") (simp_all add: draft_from_server_def carried_marks_def Let_def)

lemma apply_overrides_eq:
  "apply_overrides E server values = Option.bind (as_object (draft_value (draft_from_server server))) (\<lambda>m.
     Option.bind (draft_from_value (JObj (foldl (\<lambda>m (key, v). set_dotted key v m) m values))) (\<lambda>d.
     case resolve_draft E d of Inr s \<Rightarrow> Some (carried_marks server s) | Inl _ \<Rightarrow> None))"
  unfolding apply_overrides_def carried_marks_def
  by (intro Option.bind_cong refl) (simp split: sum.split)

text \<open>C24: opening a server in the editor and saving it unchanged gives the same server: what a draft
resolves to, read back into a draft, sent as JSON, read and resolved again, is the same server with the
id, alias, link and last reading of the one that was opened.\<close>

theorem edit_nothing:
  assumes "resolve_draft E d = Inr server" and "draft_ok d"
  shows "apply_overrides E (carried_marks from server) [] = Some (carried_marks from server)"
proof -
  let ?d = "draft_from_server server"
  obtain m where m: "draft_value ?d = JObj m" by (simp add: draft_value_def jobj_def)
  with draft_from_value_value [OF reopened_ok [OF assms]] have "draft_from_value (JObj m) = Some ?d" by simp
  moreover have "carried_marks (carried_marks from server) server = carried_marks from server"
    by (simp add: carried_marks_def)
  ultimately show ?thesis
    using m reopened [OF assms(1)] by (simp add: apply_overrides_eq draft_from_marks)
qed

definition sample_draft :: draft where
  "sample_draft = draft_default\<lparr>dr_name := ''node'', dr_protocol := PTrojan, dr_address := ''a.example'', dr_port := 443,
     dr_password := Some ''secret''\<rparr>"

definition sample_resolved :: "jv server" where
  "sample_resolved = (let base = base_server sample_draft (Trojan ''secret'' (normalized_stream stream_default))
     in base\<lparr>srv_id := stable_id (identity_string sample_env base)\<rparr>)"

lemma sample_texts: "trim ''node'' = ''node''" "trim ''a.example'' = ''a.example''" "trim ''secret'' = ''secret''"
  by (rule trim_graphic; simp add: is_ascii_graphic_def)+

lemma sample_resolves: "resolve_draft sample_env sample_draft = Inr sample_resolved"
  unfolding resolve_iff sample_resolved_def Let_def
  by (simp add: sample_draft_def draft_default_def sample_texts check_patch_def draft_spec_def required_text_def
      optional_text_def filter_opt_def outbound_tagged_None_iff base_server_def del: not_None_eq)

lemma sample_draft_ok: "draft_ok sample_draft"
  by (simp add: draft_ok_def sample_draft_def draft_default_def)

theorem edit_nothing_witness:
  "apply_overrides sample_env (carried_marks sample_resolved sample_resolved) []
     = Some (carried_marks sample_resolved sample_resolved)"
  using edit_nothing [OF sample_resolves sample_draft_ok] .

end
