(* ===== verification/Draft_Diff.thy ===== *)
theory Draft_Diff
  imports Draft_Values "HOL-Library.Multiset"
begin

text \<open>
  The overrides of a subscription's server. \<open>diff_objects\<close> flattens the difference of two drafts into
  a map from dotted names to values and \<open>set_dotted\<close> puts such a map back on a draft. Here both are
  related to the tree: applying the difference of two values to the first gives the second, except that
  a key only the first has stays with the value null.
\<close>

section \<open>Paths\<close>

fun changes :: "jv \<Rightarrow> jv \<Rightarrow> (string list \<times> jv) list"
  and entry_changes :: "entries \<Rightarrow> entries \<Rightarrow> (string list \<times> jv) list" where
  "changes before (JObj after) =
     (case as_object before of
        None \<Rightarrow> []
      | Some b \<Rightarrow> entry_changes b after @ map (\<lambda>(key, _). ([key], JNull)) (filter (\<lambda>(key, _). map_of after key = None) b))"
| "changes before JNull = []"
| "changes before (JBool _) = []"
| "changes before (JNum _) = []"
| "changes before (JStr _) = []"
| "changes before (JArr _) = []"
| "entry_changes b [] = []"
| "entry_changes b ((key, value) # after) =
     (case map_of b key of
        Some other \<Rightarrow>
          if other = value then []
          else if as_object other \<noteq> None \<and> as_object value \<noteq> None
          then map (\<lambda>(p, x). (key # p, x)) (changes other value)
          else [([key], value)]
      | None \<Rightarrow> [([key], value)]) @ entry_changes b after"

definition put_change :: "string \<Rightarrow> entries \<Rightarrow> string list \<times> jv \<Rightarrow> entries" where
  "put_change pre c = (\<lambda>(p, x). jins (pre @ join ''.'' p) x c)"

lemma changes_nonempty:
  "\<forall>e \<in> set (changes before after). fst e \<noteq> []"
  "\<forall>e \<in> set (entry_changes b a). fst e \<noteq> []"
proof (induction "before" "after" and b a rule: changes_entry_changes.induct)
  case (1 x y)
  then show ?case by (cases "as_object x") auto
qed (auto split: option.split)

lemma put_change_nested:
  "\<forall>e \<in> set cs. fst e \<noteq> [] \<Longrightarrow>
   foldl (put_change pre) c (map (\<lambda>(p, x). (key # p, x)) cs) = foldl (put_change (pre @ key @ ''.'')) c cs"
proof (induction cs arbitrary: c)
  case (Cons px cs)
  obtain p x where px: "px = (p, x)" by (cases px)
  with Cons.prems have "p \<noteq> []" by auto
  then have "put_change pre c (key # p, x) = put_change (pre @ key @ ''.'') c (p, x)"
    by (simp add: put_change_def join_Cons_nonempty)
  with px Cons show ?case by simp
qed simp

lemma foldl_filter: "foldl (\<lambda>c e. if P e then f c e else c) c es = foldl f c (filter P es)"
  by (induction es arbitrary: c) simp_all

lemma foldl_map_list: "foldl f c (map g xs) = foldl (\<lambda>c x. f c (g x)) c xs"
  by (induction xs arbitrary: c) simp_all

lemma diff_changes:
  "diff_objects pre before after c = foldl (put_change pre) c (changes before after)"
  "diff_entries pre b a c = foldl (put_change pre) c (entry_changes b a)"
proof (induction pre "before" "after" c and pre b a c rule: diff_objects_diff_entries.induct)
  case (1 pre old new c)
  show ?case
  proof (cases "as_object old")
    case (Some b)
    have "foldl (\<lambda>c (key, _). if map_of new key = None then jins (pre @ key) JNull c else c) d b
        = foldl (put_change pre) d (map (\<lambda>(key, _). ([key], JNull)) (filter (\<lambda>(key, _). map_of new key = None) b))" for d
      by (induction b arbitrary: d) (auto simp: put_change_def)
    with 1 [OF Some] Some show ?thesis by simp
  qed simp
next
  case (8 pre b key v new c)
  show ?case
  proof (cases "map_of b key")
    case None
    with 8 show ?thesis by (simp add: put_change_def)
  next
    case (Some other)
    consider "other = v" | "other \<noteq> v" "as_object other \<noteq> None \<and> as_object v \<noteq> None"
      | "other \<noteq> v" "\<not> (as_object other \<noteq> None \<and> as_object v \<noteq> None)" by blast
    then show ?thesis
    proof cases
      case 1
      with 8 Some show ?thesis by simp
    next
      case 2
      have "foldl (put_change pre) c (map (\<lambda>(p, x). (key # p, x)) (changes other v))
          = foldl (put_change (pre @ key @ ''.'')) c (changes other v)"
        by (rule put_change_nested) (rule changes_nonempty(1))
      with 2 8 Some show ?thesis by simp
    next
      case 3
      with 8 Some show ?thesis by (auto simp: put_change_def simp del: not_None_eq)
    qed
  qed
qed simp_all

text \<open>Neither of two paths is a beginning of the other.\<close>

fun apart :: "string list \<Rightarrow> string list \<Rightarrow> bool" where
  "apart (x # xs) (y # ys) = (x \<noteq> y \<or> apart xs ys)"
| "apart _ _ = False"

lemma apart_sym: "apart p q \<longleftrightarrow> apart q p"
  by (induction p q rule: apart.induct) auto

abbreviation apart_changes :: "(string list \<times> jv) list \<Rightarrow> bool" where
  "apart_changes cs \<equiv> sorted_wrt (\<lambda>e f. apart (fst e) (fst f)) cs"

lemma apart_heads: "p \<noteq> [] \<Longrightarrow> q \<noteq> [] \<Longrightarrow> hd p \<noteq> hd q \<Longrightarrow> apart p q"
  by (cases p; cases q) auto

lemma entry_changes_head: "e \<in> set (entry_changes b a) \<Longrightarrow> hd (fst e) \<in> fst ` set a"
proof (induction a)
  case (Cons kv a)
  obtain k v where kv: "kv = (k, v)" by (cases kv)
  with Cons show ?case by (auto split: option.splits if_splits)
qed simp

lemma apart_nested: "apart_changes (map (\<lambda>(p, x). (k # p, x)) cs) \<longleftrightarrow> apart_changes cs"
  by (simp add: sorted_wrt_map case_prod_beta)

lemma changes_apart:
  "jwf old \<Longrightarrow> jwf new \<Longrightarrow> apart_changes (changes old new)"
  "jwf (JObj b) \<Longrightarrow> jwf (JObj a) \<Longrightarrow> apart_changes (entry_changes b a)"
proof (induction old new and b a rule: changes_entry_changes.induct)
  case (1 old new)
  show ?case
  proof (cases old)
    case (JObj b)
    have "distinct (map fst b)" using 1 JObj by (auto intro: keys_sorted_distinct)
    then have removed: "apart_changes (map (\<lambda>(key, _). ([key], JNull)) (filter (\<lambda>(key, _). map_of new key = None) b))"
      by (induction b) (auto, force)
    have "apart (fst e) (fst f)" if "e \<in> set (entry_changes b new)"
      "f \<in> set (map (\<lambda>(key, _). ([key], JNull)) (filter (\<lambda>(key, _). map_of new key = None) b))" for e f
    proof (rule apart_heads)
      show "fst e \<noteq> []" "fst f \<noteq> []" using changes_nonempty(2) that by auto
      have "map_of new (hd (fst f)) = None" using that(2) by auto
      then have "hd (fst f) \<notin> fst ` set new" by (simp add: map_of_eq_None_iff)
      with entry_changes_head [OF that(1)] show "hd (fst e) \<noteq> hd (fst f)" by metis
    qed
    with removed 1 JObj show ?thesis by (auto simp: sorted_wrt_append simp del: jwf.simps(1))
  qed simp_all
next
  case (8 b k v new)
  have d: "k \<notin> fst ` set new" using 8(4) by auto
  have wf: "jwf (JObj new)" "jwf v" using 8(4) by auto
  let ?first = "case map_of b k of
        Some other \<Rightarrow> if other = v then []
          else if as_object other \<noteq> None \<and> as_object v \<noteq> None then map (\<lambda>(p, x). (k # p, x)) (changes other v)
          else [([k], v)]
      | None \<Rightarrow> [([k], v)]"
  have heads: "fst e \<noteq> [] \<and> hd (fst e) = k" if "e \<in> set ?first" for e
    using that by (auto split: option.splits if_splits)
  have "apart_changes ?first"
    using 8(1) wf(2) jwf_entryD [OF 8(3)] by (auto simp: apart_nested split: option.splits)
  moreover have "apart_changes (entry_changes b new)" using 8(2) 8(3) wf(1) by blast
  moreover have "apart (fst e) (fst f)" if "e \<in> set ?first" "f \<in> set (entry_changes b new)" for e f
  proof (rule apart_heads)
    show "fst e \<noteq> []" "fst f \<noteq> []" using heads [OF that(1)] changes_nonempty(2) that(2) by blast+
    show "hd (fst e) \<noteq> hd (fst f)" using heads [OF that(1)] entry_changes_head [OF that(2)] d by metis
  qed
  ultimately show ?case unfolding entry_changes.simps sorted_wrt_append by blast
qed simp_all

fun dot_free :: "jv \<Rightarrow> bool" and dot_free_entries :: "entries \<Rightarrow> bool" where
  "dot_free (JObj m) = dot_free_entries m"
| "dot_free JNull = True"
| "dot_free (JBool _) = True"
| "dot_free (JNum _) = True"
| "dot_free (JStr _) = True"
| "dot_free (JArr _) = True"
| "dot_free_entries [] = True"
| "dot_free_entries ((k, v) # m) = (CHR ''.'' \<notin> set k \<and> dot_free v \<and> dot_free_entries m)"

lemma dot_free_entries_iff: "dot_free_entries m \<longleftrightarrow> (\<forall>(k, v) \<in> set m. CHR ''.'' \<notin> set k \<and> dot_free v)"
  by (induction m) auto

lemma dot_free_changes:
  "dot_free old \<Longrightarrow> dot_free new \<Longrightarrow> \<forall>e \<in> set (changes old new). \<forall>k \<in> set (fst e). CHR ''.'' \<notin> set k"
  "dot_free_entries b \<Longrightarrow> dot_free_entries a \<Longrightarrow> \<forall>e \<in> set (entry_changes b a). \<forall>k \<in> set (fst e). CHR ''.'' \<notin> set k"
proof (induction old new and b a rule: changes_entry_changes.induct)
  case (1 old new)
  show ?case
  proof (cases old)
    case (JObj b)
    then have "\<forall>(k, v) \<in> set b. CHR ''.'' \<notin> set k" using 1(2) by (auto simp: dot_free_entries_iff)
    with 1 JObj show ?thesis by auto
  qed simp_all
next
  case (8 b k v new)
  have "dot_free other" if "map_of b k = Some other" for other
    using map_of_SomeD [OF that] 8(3) by (auto simp: dot_free_entries_iff)
  with 8 show ?case by (auto split: option.splits if_splits)
qed simp_all

lemma split_join: "p \<noteq> [] \<Longrightarrow> \<forall>k \<in> set p. CHR ''.'' \<notin> set k \<Longrightarrow> split_on CHR ''.'' (join ''.'' p) = p"
proof (induction p)
  case (Cons k p)
  then show ?case
    by (cases "p = []") (simp_all add: join_Cons_nonempty split_on_no_char split_on_app)
qed simp

section \<open>Setting paths\<close>

definition sub_entries :: "entries \<Rightarrow> string \<Rightarrow> entries" where
  "sub_entries m k = (case map_of m k of Some (JObj n) \<Rightarrow> n | _ \<Rightarrow> [])"

lemma set_parts_nested:
  "ks \<noteq> [] \<Longrightarrow> set_parts (k # ks) v m = jins k (JObj (set_parts ks v (sub_entries m k))) m"
  by (cases ks) (simp_all add: sub_entries_def)

lemma jwf_sub: "jwf (JObj m) \<Longrightarrow> jwf (JObj (sub_entries m k))"
proof -
  have "jwf (JObj [])" by simp
  then show "jwf (JObj m) \<Longrightarrow> jwf (JObj (sub_entries m k))"
    using jwf_entryD [of m k] by (auto simp: sub_entries_def simp del: jwf.simps(1) split: option.splits jv.splits)
qed

lemma jwf_set_parts: "jwf (JObj m) \<Longrightarrow> jwf v \<Longrightarrow> jwf (JObj (set_parts p v m))"
proof (induction p arbitrary: m)
  case (Cons k p)
  show ?case
  proof (cases "p = []")
    case False
    have "jwf (JObj (set_parts p v (sub_entries m k)))" using Cons.IH Cons.prems jwf_sub by blast
    with Cons.prems show ?thesis unfolding set_parts_nested [OF False] by (blast intro: jwf_jins)
  qed (use Cons.prems in \<open>auto intro: jwf_jins simp del: jwf.simps(1)\<close>)
qed simp

lemma set_parts_keys: "p \<noteq> [] \<Longrightarrow> map_of (set_parts p v m) k = (if k = hd p then map_of (set_parts p v m) (hd p) else map_of m k)"
  by (cases p; cases "tl p = []") (auto simp: set_parts_nested)

lemma sub_entries_jins [simp]: "sub_entries (jins k (JObj n) m) k' = (if k = k' then n else sub_entries m k')"
  by (simp add: sub_entries_def)

lemma sub_entries_other: "k \<noteq> k' \<Longrightarrow> sub_entries (jins k x m) k' = sub_entries m k'"
  by (simp add: sub_entries_def)

lemma jins_jins: "jwf (JObj m) \<Longrightarrow> jins k x (jins k y m) = jins k x m"
  by (rule entries_eqI) (auto intro: keys_sorted_jins)

lemma jins_swap: "jwf (JObj m) \<Longrightarrow> k \<noteq> k' \<Longrightarrow> jins k x (jins k' y m) = jins k' y (jins k x m)"
  by (rule entries_eqI) (auto intro: keys_sorted_jins)

lemma set_parts_head: "p \<noteq> [] \<Longrightarrow> \<exists>x. \<forall>m'. sub_entries m' (hd p) = sub_entries m (hd p) \<longrightarrow> set_parts p v m' = jins (hd p) x m'"
proof (cases p)
  case (Cons k ks)
  show ?thesis
  proof (cases "ks = []")
    case True
    then show ?thesis by (auto simp: Cons intro: exI [of _ v])
  next
    case False
    then show ?thesis
      by (intro exI [of _ "JObj (set_parts ks v (sub_entries m k))"]) (simp add: Cons set_parts_nested)
  qed
qed simp

lemma set_parts_commute:
  "apart p q \<Longrightarrow> jwf (JObj m) \<Longrightarrow> set_parts p v (set_parts q w m) = set_parts q w (set_parts p v m)"
proof (induction p q arbitrary: m rule: apart.induct)
  case (1 x xs y ys)
  show ?case
  proof (cases "x = y")
    case True
    then have ne: "xs \<noteq> []" "ys \<noteq> []" and a: "apart xs ys" using 1(2) by (cases xs; cases ys; simp)+
    from 1(1) [OF _ jwf_sub [OF 1(3)], of y] True a 1(3) show ?thesis
      by (simp add: set_parts_nested ne jins_jins)
  next
    case False
    obtain a where a: "\<And>m'. sub_entries m' x = sub_entries m x \<Longrightarrow> set_parts (x # xs) v m' = jins x a m'"
      using set_parts_head [of "x # xs" m v] by auto
    obtain b where b: "\<And>m'. sub_entries m' y = sub_entries m y \<Longrightarrow> set_parts (y # ys) w m' = jins y b m'"
      using set_parts_head [of "y # ys" m w] by auto
    show ?thesis
      using False 1(3) by (simp add: a b sub_entries_other jins_swap)
  qed
qed simp_all

definition apply_change :: "entries \<Rightarrow> string list \<times> jv \<Rightarrow> entries" where
  "apply_change m = (\<lambda>(p, x). set_parts p x m)"

lemma jwf_apply_changes:
  "jwf (JObj m) \<Longrightarrow> \<forall>e \<in> set cs. jwf (snd e) \<Longrightarrow> jwf (JObj (foldl apply_change m cs))"
  by (induction cs arbitrary: m) (auto simp: apply_change_def jwf_set_parts simp del: jwf.simps(1))

lemma apply_change_front:
  assumes "jwf (JObj m)" "\<forall>e \<in> set cs. jwf (snd e) \<and> apart (fst e) (fst c)"
  shows "foldl apply_change (apply_change m c) cs = apply_change (foldl apply_change m cs) c"
  using assms
proof (induction cs arbitrary: m)
  case (Cons e cs)
  have "apply_change (apply_change m c) e = apply_change (apply_change m e) c"
    using set_parts_commute [of "fst e" "fst c" m] Cons.prems by (simp add: apply_change_def case_prod_beta)
  moreover have "jwf (JObj (apply_change m e))"
    using Cons.prems by (auto simp: apply_change_def case_prod_beta intro: jwf_set_parts simp del: jwf.simps(1))
  ultimately show ?case using Cons by simp
qed simp

lemma apply_changes_perm:
  "mset cs = mset ds \<Longrightarrow> jwf (JObj m) \<Longrightarrow> \<forall>e \<in> set cs. jwf (snd e) \<Longrightarrow> apart_changes cs
   \<Longrightarrow> foldl apply_change m cs = foldl apply_change m ds"
proof (induction cs arbitrary: ds m)
  case (Cons c cs)
  have "c \<in> set ds" using Cons.prems(1) by (metis list.set_intros(1) set_mset_mset)
  then obtain d1 d2 where ds: "ds = d1 @ c # d2" by (meson split_list)
  have cs: "mset cs = mset (d1 @ d2)" using Cons.prems(1) ds by simp
  have sets: "set d1 \<subseteq> set cs" using arg_cong [OF cs, of set_mset] by auto
  have "jwf (JObj (apply_change m c))"
    using Cons.prems(2,3) by (auto simp: apply_change_def case_prod_beta intro: jwf_set_parts simp del: jwf.simps(1))
  then have "foldl apply_change m (c # cs) = foldl apply_change (apply_change m c) (d1 @ d2)"
    using Cons.IH [OF cs] Cons.prems(3,4) by simp
  moreover have "\<forall>e \<in> set d1. jwf (snd e) \<and> apart (fst e) (fst c)"
    using Cons.prems(3,4) sets apart_sym by auto
  from apply_change_front [OF Cons.prems(2) this]
  have "foldl apply_change (apply_change m c) (d1 @ d2) = foldl apply_change (apply_change (foldl apply_change m d1) c) d2"
    by simp
  ultimately show ?case by (simp add: ds)
qed simp

lemma mset_jins: "k \<notin> fst ` set m \<Longrightarrow> mset (jins k x m) = add_mset (k, x) (mset m)"
  by (induction m) auto

text \<open>The map the code fills, and the list of changes in the order they are found.\<close>

lemma put_changes_mset:
  assumes "distinct (map (\<lambda>(p, x). join ''.'' p) cs)"
  shows "mset (foldl (put_change []) [] cs) = mset (map (\<lambda>(p, x). (join ''.'' p, x)) cs)
    \<and> keys_sorted (foldl (put_change []) [] cs)"
  using assms
proof (induction cs rule: rev_induct)
  case (snoc c cs)
  obtain p x where c: "c = (p, x)" by (cases c)
  let ?m = "foldl (put_change []) [] cs"
  from snoc have ih: "mset ?m = mset (map (\<lambda>(p, x). (join ''.'' p, x)) cs)" "keys_sorted ?m" by auto
  have "join ''.'' p \<notin> fst ` set ?m"
    using snoc.prems c arg_cong [OF ih(1), of set_mset] by (auto simp: case_prod_beta image_iff)
  moreover have "put_change [] ?m (p, x) = jins (join ''.'' p) x ?m" by (simp add: put_change_def)
  ultimately show ?case using ih c by (simp add: mset_jins keys_sorted_jins)
qed simp

definition paths_ok :: "(string list \<times> jv) list \<Rightarrow> bool" where
  "paths_ok cs = (\<forall>e \<in> set cs. fst e \<noteq> [] \<and> (\<forall>k \<in> set (fst e). CHR ''.'' \<notin> set k))"

lemma apart_irrefl: "\<not> apart p p"
  by (induction p) auto

lemma join_distinct:
  assumes "apart_changes cs" "paths_ok cs"
  shows "distinct (map (\<lambda>(p, x). join ''.'' p) cs)"
proof -
  have "distinct (map fst cs)"
    using assms(1) by (induction cs) (auto simp: apart_irrefl dest: bspec)
  moreover have "inj_on (join ''.'') (set (map fst cs))"
  proof (rule inj_onI)
    fix p q assume "p \<in> set (map fst cs)" "q \<in> set (map fst cs)" "join ''.'' p = join ''.'' q"
    with split_join [of p] split_join [of q] assms(2) show "p = q" unfolding paths_ok_def by (metis (no_types) imageE set_map)
  qed
  ultimately have "distinct (map (join ''.'') (map fst cs))" by (subst distinct_map) blast
  moreover have "map (\<lambda>(p, x). join ''.'' p) cs = map (join ''.'') (map fst cs)"
    by (induction cs) auto
  ultimately show ?thesis by (simp only:)
qed

lemma map_split_join: "paths_ok cs \<Longrightarrow> map (\<lambda>(k, x). (split_on CHR ''.'' k, x)) (map (\<lambda>(p, x). (join ''.'' p, x)) cs) = cs"
  by (induction cs) (auto simp: paths_ok_def split_join)

lemma jwf_changes:
  "jwf old \<Longrightarrow> jwf new \<Longrightarrow> \<forall>e \<in> set (changes old new). jwf (snd e)"
  "jwf (JObj b) \<Longrightarrow> jwf (JObj a) \<Longrightarrow> \<forall>e \<in> set (entry_changes b a). jwf (snd e)"
proof (induction old new and b a rule: changes_entry_changes.induct)
  case (1 old new)
  then show ?case by (cases old) (auto simp del: jwf.simps(1))
next
  case (8 b k v new)
  have "jwf (JObj new)" "jwf v" using 8(4) by auto
  with 8 jwf_entryD [OF 8(3), of k] show ?case by (fastforce split: option.splits if_splits simp del: jwf.simps(1))
qed simp_all

lemma fold_dotted:
  "foldl (\<lambda>m (key, v). set_dotted key v m) b ds = foldl apply_change b (map (\<lambda>(k, x). (split_on CHR ''.'' k, x)) ds)"
  by (induction ds arbitrary: b) (auto simp: apply_change_def set_dotted_def)

lemma diff_objects_mset:
  assumes "jwf (JObj b)" "jwf (JObj a)" "dot_free (JObj b)" "dot_free (JObj a)"
  shows "mset (map (\<lambda>(k, x). (split_on CHR ''.'' k, x)) (diff_objects [] (JObj b) (JObj a) [])) = mset (changes (JObj b) (JObj a))"
    and "keys_sorted (diff_objects [] (JObj b) (JObj a) [])"
proof -
  let ?cs = "changes (JObj b) (JObj a)" and ?ds = "diff_objects [] (JObj b) (JObj a) []"
  have paths: "paths_ok ?cs" unfolding paths_ok_def
    using changes_nonempty(1) dot_free_changes(1) [OF assms(3,4)] by blast
  have ds: "mset ?ds = mset (map (\<lambda>(p, x). (join ''.'' p, x)) ?cs)" "keys_sorted ?ds"
    using put_changes_mset [OF join_distinct [OF changes_apart(1) [OF assms(1,2)] paths]] by (simp_all only: diff_changes(1))
  from ds(1) have "mset (map (\<lambda>(k, x). (split_on CHR ''.'' k, x)) ?ds) = mset (map (\<lambda>(k, x). (split_on CHR ''.'' k, x)) (map (\<lambda>(p, x). (join ''.'' p, x)) ?cs))"
    by (metis mset_map)
  also have "map (\<lambda>(k, x). (split_on CHR ''.'' k, x)) (map (\<lambda>(p, x). (join ''.'' p, x)) ?cs) = ?cs"
    by (rule map_split_join [OF paths])
  finally show "mset (map (\<lambda>(k, x). (split_on CHR ''.'' k, x)) ?ds) = mset ?cs" .
  show "keys_sorted ?ds" by (rule ds(2))
qed

lemma apply_diff_changes:
  assumes "jwf (JObj b)" "jwf (JObj a)" "dot_free (JObj b)" "dot_free (JObj a)"
  shows "foldl (\<lambda>m (key, v). set_dotted key v m) b (diff_objects [] (JObj b) (JObj a) [])
    = foldl apply_change b (changes (JObj b) (JObj a))"
  unfolding fold_dotted
  by (rule apply_changes_perm [OF diff_objects_mset(1) [OF assms, symmetric], symmetric])
     (use assms(1) jwf_changes(1) [OF assms(1,2)] changes_apart(1) [OF assms(1,2)] in auto)

section \<open>Applying a difference\<close>

text \<open>The second value, with null under every key that only the first has.\<close>

fun filled :: "jv \<Rightarrow> jv \<Rightarrow> jv" and filled_entries :: "entries \<Rightarrow> entries \<Rightarrow> entries" where
  "filled old (JObj new) =
     (case as_object old of
        None \<Rightarrow> JObj new
      | Some b \<Rightarrow> JObj (foldl (\<lambda>c (k, _). jins k JNull c) (filled_entries b new) (filter (\<lambda>(k, _). map_of new k = None) b)))"
| "filled old JNull = JNull"
| "filled old (JBool x) = JBool x"
| "filled old (JNum n) = JNum n"
| "filled old (JStr s) = JStr s"
| "filled old (JArr xs) = JArr xs"
| "filled_entries b [] = []"
| "filled_entries b ((k, v) # new) =
     (k, case map_of b k of
           Some other \<Rightarrow> if other \<noteq> v \<and> as_object other \<noteq> None \<and> as_object v \<noteq> None then filled other v else v
         | None \<Rightarrow> v) # filled_entries b new"

definition child_filled :: "entries \<Rightarrow> string \<Rightarrow> jv \<Rightarrow> jv" where
  "child_filled b k v =
     (case map_of b k of
        Some other \<Rightarrow> if other \<noteq> v \<and> as_object other \<noteq> None \<and> as_object v \<noteq> None then filled other v else v
      | None \<Rightarrow> v)"

lemma filled_entries_get: "map_of (filled_entries b new) k = map_option (child_filled b k) (map_of new k)"
  by (induction new) (auto simp: child_filled_def split: option.split)

lemma keys_filled_entries: "map fst (filled_entries b new) = map fst new"
  by (induction new) auto

lemma fold_nulls_get:
  "map_of (foldl (\<lambda>c (k, _). jins k JNull c) c es) k = (if k \<in> fst ` set es then Some JNull else map_of c k)"
  by (induction es arbitrary: c) auto

lemma fold_nulls_sorted: "keys_sorted c \<Longrightarrow> keys_sorted (foldl (\<lambda>c (k, _). jins k JNull c) c es)"
  by (induction es arbitrary: c) (auto intro: keys_sorted_jins)

lemma apply_nulls:
  "foldl apply_change m (map (\<lambda>(key, _). ([key], JNull)) es) = foldl (\<lambda>c (k, _). jins k JNull c) m es"
  by (induction es arbitrary: m) (auto simp: apply_change_def)

lemma apply_nested:
  assumes "\<forall>e \<in> set cs. fst e \<noteq> []" "jwf (JObj m)" "map_of m k = Some (JObj n)" "\<forall>e \<in> set cs. jwf (snd e)"
  shows "foldl apply_change m (map (\<lambda>(p, x). (k # p, x)) cs)
    = (if cs = [] then m else jins k (JObj (foldl apply_change n cs)) m)"
  using assms
proof (induction cs arbitrary: m n)
  case (Cons e cs)
  obtain p x where e: "e = (p, x)" by (cases e)
  let ?n = "set_parts p x n" and ?m = "jins k (JObj (set_parts p x n)) m"
  have step: "apply_change m (k # p, x) = ?m"
    using Cons.prems(1,3) e by (simp add: apply_change_def set_parts_nested sub_entries_def)
  have inner: "apply_change n e = ?n" by (simp add: e apply_change_def)
  have "jwf (JObj n)" using jwf_entryD [OF Cons.prems(2,3)] .
  with Cons.prems(4) e have "jwf (JObj ?n)" by (simp add: jwf_set_parts del: jwf.simps(1))
  with Cons.prems(2) have wf: "jwf (JObj ?m)" by (rule jwf_jins)
  have "foldl apply_change ?m (map (\<lambda>(p, x). (k # p, x)) cs)
      = (if cs = [] then ?m else jins k (JObj (foldl apply_change ?n cs)) ?m)"
    by (rule Cons.IH) (use Cons.prems wf in auto)
  then show ?case
    using step inner e jins_jins [OF Cons.prems(2)] by simp
qed simp

lemma apply_changes_filled:
  "jwf old \<Longrightarrow> jwf new \<Longrightarrow> as_object old = Some b \<Longrightarrow> as_object new \<noteq> None
   \<Longrightarrow> JObj (foldl apply_change b (changes old new)) = filled old new"
  "jwf (JObj bs) \<Longrightarrow> jwf (JObj a) \<Longrightarrow> jwf (JObj m) \<Longrightarrow> (\<forall>k \<in> fst ` set a. map_of m k = map_of bs k)
   \<Longrightarrow> jwf (JObj (foldl apply_change m (entry_changes bs a)))
     \<and> map_of (foldl apply_change m (entry_changes bs a))
       = (\<lambda>k. case map_of a k of Some v \<Rightarrow> Some (child_filled bs k v) | None \<Rightarrow> map_of m k)"
proof (induction old new and bs a arbitrary: b and m rule: changes_entry_changes.induct)
  case (1 old new b)
  then have old: "old = JObj b" by (cases old) auto
  let ?gone = "filter (\<lambda>(k, _). map_of new k = None) b"
  let ?m = "foldl apply_change b (entry_changes b new)"
  have m: "jwf (JObj ?m)" "map_of ?m = (\<lambda>k. case map_of new k of Some v \<Rightarrow> Some (child_filled b k v) | None \<Rightarrow> map_of b k)"
    using 1(1) [of b b] 1(2,3) old by (auto simp del: jwf.simps(1))
  have gone: "k \<in> fst ` set ?gone \<longleftrightarrow> map_of new k = None \<and> map_of b k \<noteq> None" for k
    by (force simp: map_of_eq_None_iff)
  have "foldl (\<lambda>c (k, _). jins k JNull c) ?m ?gone = foldl (\<lambda>c (k, _). jins k JNull c) (filled_entries b new) ?gone"
  proof (rule entries_eqI)
    show "keys_sorted (foldl (\<lambda>c (k, _). jins k JNull c) ?m ?gone)" using m(1) by (simp add: fold_nulls_sorted)
    show "keys_sorted (foldl (\<lambda>c (k, _). jins k JNull c) (filled_entries b new) ?gone)"
      using 1(3) by (simp add: fold_nulls_sorted keys_filled_entries)
    show "map_of (foldl (\<lambda>c (k, _). jins k JNull c) ?m ?gone) = map_of (foldl (\<lambda>c (k, _). jins k JNull c) (filled_entries b new) ?gone)"
      unfolding fun_eq_iff fold_nulls_get gone m(2) filled_entries_get by (auto split: option.split)
  qed
  then show ?case by (simp add: old apply_nulls)
next
  case (8 bs k v new m)
  let ?first = "case map_of bs k of
        Some other \<Rightarrow> if other = v then []
          else if as_object other \<noteq> None \<and> as_object v \<noteq> None then map (\<lambda>(p, x). (k # p, x)) (changes other v)
          else [([k], v)]
      | None \<Rightarrow> [([k], v)]"
  let ?m = "foldl apply_change m ?first"
  have wf: "jwf (JObj new)" "jwf v" and fresh: "k \<notin> fst ` set new" using 8(4) by auto
  have mk: "map_of m k = map_of bs k" using 8(6) by simp
  have leaf: "foldl apply_change m [([k], v)] = jins k v m" by (simp add: apply_change_def)
  have first: "jwf (JObj ?m) \<and> map_of ?m = (map_of m)(k \<mapsto> child_filled bs k v)"
  proof (cases "map_of bs k")
    case None
    with 8(5) wf(2) show ?thesis by (simp add: leaf child_filled_def jwf_jins del: jwf.simps(1) foldl.simps)
  next
    case (Some other)
    consider "other = v" | "other \<noteq> v" "as_object other \<noteq> None \<and> as_object v \<noteq> None"
      | "other \<noteq> v" "\<not> (as_object other \<noteq> None \<and> as_object v \<noteq> None)" by blast
    then show ?thesis
    proof cases
      case 1
      with Some mk 8(5) show ?thesis by (auto simp: child_filled_def simp del: jwf.simps(1))
    next
      case 2
      then obtain n where n: "other = JObj n" by (cases other) auto
      have "jwf other" using jwf_entryD [OF 8(3) Some] .
      then have filled: "JObj (foldl apply_change n (changes other v)) = filled other v"
        using 8(1) [OF Some 2(1,2)] wf(2) 2 n by simp
      have nested: "foldl apply_change m (map (\<lambda>(p, x). (k # p, x)) (changes other v))
          = (if changes other v = [] then m else jins k (filled other v) m)"
        using apply_nested [OF changes_nonempty(1) 8(5) _ jwf_changes(1) [OF \<open>jwf other\<close> wf(2)], of k n] Some mk n filled
        by simp
      have "jwf (filled other v)"
        unfolding filled [symmetric]
        by (rule jwf_apply_changes) (use \<open>jwf other\<close> n jwf_changes(1) [OF \<open>jwf other\<close> wf(2)] in auto)
      moreover have "filled other v = other" if "changes other v = []" using filled that n by simp
      ultimately show ?thesis
        using 2 Some mk 8(5) nested
        by (auto simp: child_filled_def jwf_jins simp del: jwf.simps(1) not_None_eq)
    next
      case 3
      with Some 8(5) wf(2) show ?thesis
        by (auto simp: leaf child_filled_def jwf_jins simp del: jwf.simps(1) foldl.simps not_None_eq)
    qed
  qed
  have "\<forall>q \<in> fst ` set new. map_of ?m q = map_of bs q"
    using first 8(6) fresh by (auto simp: image_iff)
  note rest = 8(2) [OF 8(3) wf(1) conjunct1 [OF first] this]
  have step: "foldl apply_change m (entry_changes bs ((k, v) # new)) = foldl apply_change ?m (entry_changes bs new)"
    by (simp only: entry_changes.simps foldl_append)
  have "map_of new k = None" using fresh by (simp add: map_of_eq_None_iff)
  then have "(\<lambda>q. case map_of new q of Some w \<Rightarrow> Some (child_filled bs q w) | None \<Rightarrow> map_of ?m q)
      = (\<lambda>q. case map_of ((k, v) # new) q of Some w \<Rightarrow> Some (child_filled bs q w) | None \<Rightarrow> map_of m q)"
    unfolding conjunct2 [OF first] by (auto simp: fun_eq_iff split: option.split)
  with rest show ?case unfolding step by (simp only:)
qed simp_all

text \<open>C25: the overrides say exactly what an edit changed: writing the flattened difference of two JSON
objects back on the first gives the second, apart from keys only the first has, which become null. Names
must not contain the dot the flattened names are separated with.\<close>

theorem diff_applies:
  assumes "jwf (JObj b)" and "jwf (JObj a)" and "dot_free (JObj b)" and "dot_free (JObj a)"
  shows "JObj (foldl (\<lambda>m (key, v). set_dotted key v m) b (diff_objects [] (JObj b) (JObj a) [])) = filled (JObj b) (JObj a)"
  unfolding apply_diff_changes [OF assms]
  by (rule apply_changes_filled(1)) (use assms in auto)

theorem diff_applies_witness:
  "JObj (foldl (\<lambda>m (key, v). set_dotted key v m) [(''port'', jnat 443), (''stream'', JObj [(''sni'', JStr ''a'')])]
      (diff_objects [] (JObj [(''port'', jnat 443), (''stream'', JObj [(''sni'', JStr ''a'')])])
         (JObj [(''port'', jnat 443), (''stream'', JObj [(''path'', JStr ''/x''), (''sni'', JStr ''b'')])]) []))
   = JObj [(''port'', jnat 443), (''stream'', JObj [(''path'', JStr ''/x''), (''sni'', JStr ''b'')])]"
  using diff_applies [of "[(''port'', jnat 443), (''stream'', JObj [(''sni'', JStr ''a'')])]"
      "[(''port'', jnat 443), (''stream'', JObj [(''path'', JStr ''/x''), (''sni'', JStr ''b'')])]"]
  by (simp add: jnat_def)

text \<open>a name with a dot is not put back where it was: changing the value of such a key of an object
the user wrote (the patch of an outbound, the extra block of a transport) adds a nested object and leaves
the value as the provider sent it.\<close>

theorem dotted_key_not_overridden:
  "foldl (\<lambda>m (key, v). set_dotted key v m) [(''a.b'', JBool False)]
     (diff_objects [] (JObj [(''a.b'', JBool False)]) (JObj [(''a.b'', JBool True)]) [])
   = [(''a'', JObj [(''b'', JBool True)]), (''a.b'', JBool False)]"
  by (simp add: set_dotted_def)

end
