(* ===== verification/Subscription.thy ===== *)
theory Subscription
  imports Link Draft
begin

text \<open>
  Fetching a subscription and merging the answer: \<open>crates/oxidom-core/src/subscription.rs\<close>. The request
  itself, the text of the processor architecture and the crates behind the readers are parameters
  (\<open>fetch_env\<close>); everything the code decides about the request and the answer is here, and so is the
  merge of the provider's servers with what the user decided about the ones it replaces.
\<close>

section \<open>User agents\<close>

definition default_user_agent :: string where
  "default_user_agent = ''v2rayN/6.45''"

definition client_presets :: "(string \<times> string) list" where
  "client_presets =
     [(''v2rayN'', default_user_agent), (''v2rayNG'', ''v2rayNG/1.9.5''), (''Happ'', ''Happ/3.13.0''),
      (''Streisand'', ''Streisand''), (''Hiddify'', ''Hiddify/2.0.5''), (''NekoBox'', ''NekoBox/1.3.5''),
      (''Shadowrocket'', ''Shadowrocket/2.2.9''), (''Clash Meta'', ''clash-verge/1.7.7''),
      (''sing-box'', ''SFA/1.10.0'')]"

definition user_agent_override :: "string \<Rightarrow> string option" where
  "user_agent_override raw = (let trimmed = trim raw in if trimmed \<noteq> [] then Some trimmed else None)"

definition effective_user_agent :: "string \<Rightarrow> string" where
  "effective_user_agent user_agent = (if trim user_agent = [] then default_user_agent else user_agent)"

section \<open>The request\<close>

datatype transport_failure = Http_Status nat | Transport_Kind string

record http_reply =
  hr_header :: "string \<Rightarrow> string option"
  hr_body :: "string option"

record fetch_env =
  fe_links :: link_env
  fe_arch :: string
  fe_call :: "string \<Rightarrow> (string \<times> string) list \<Rightarrow> transport_failure + http_reply"

datatype fetch_error =
    Hwid_Unavailable | Url_Unparsable | Not_Https string | Server_Responded nat | Transport_Failed string
  | Hwid_Required | Body_Unreadable | Body_Refused string body_error

record fetch_result =
  fr_servers :: "jv server list"
  fr_userinfo :: "user_info option"
  fr_title :: "string option"
  fr_update_interval :: "nat option"
  fr_skipped :: skipped
  fr_not_taken :: not_taken

definition is_loopback_url :: "url \<Rightarrow> bool" where
  "is_loopback_url parsed =
     (case url_host parsed of
        Some (Ipv4_Host address) \<Rightarrow> is_loopback address
      | Some (Ipv6_Host segments) \<Rightarrow> segments = [0, 0, 0, 0, 0, 0, 0, 1]
      | Some (Domain_Host name) \<Rightarrow> eq_ignore_ascii_case name ''localhost''
      | None \<Rightarrow> False)"

definition require_https :: "link_env \<Rightarrow> string \<Rightarrow> fetch_error + unit" where
  "require_https L url =
     (case le_url L url of
        None \<Rightarrow> Inl Url_Unparsable
      | Some parsed \<Rightarrow>
          if url_scheme parsed = ''https'' \<or> (url_scheme parsed = ''http'' \<and> is_loopback_url parsed) then Inr ()
          else Inl (Not_Https (url_scheme parsed)))"

definition request_headers :: "fetch_env \<Rightarrow> string \<Rightarrow> bool \<Rightarrow> string option \<Rightarrow> (string \<times> string) list" where
  "request_headers F ua send_hwid hwid =
     (''User-Agent'', ua) #
     (case hwid of
        Some i \<Rightarrow> (if send_hwid
          then [(''x-hwid'', i), (''x-device-os'', ''Linux''), (''x-ver-os'', fe_arch F), (''x-device-model'', ''oxidom'')]
          else [])
      | None \<Rightarrow> [])"

text \<open>\<open>i64::from_str\<close>.\<close>

definition parse_i64 :: "string \<Rightarrow> int option" where
  "parse_i64 s =
     (case s of
        [] \<Rightarrow> None
      | c # r \<Rightarrow>
          if c = CHR ''-''
          then (if r \<noteq> [] \<and> list_all is_ascii_digit r \<and> digits_value 0 r \<le> 2 ^ 63
                then Some (- int (digits_value 0 r)) else None)
          else map_option int (parse_unsigned (2 ^ 63 - 1) s))"

definition userinfo_part :: "user_info \<times> bool \<Rightarrow> string \<Rightarrow> user_info \<times> bool" where
  "userinfo_part acc part0 =
     (case split_once CHR ''='' (trim part0) of
        None \<Rightarrow> acc
      | Some (k, v0) \<Rightarrow>
          let v = trim v0; k = trim k; (info, seen) = acc
          in if k = ''upload'' then (info\<lparr>ui_upload := unwrap_or (parse_u64 v) 0\<rparr>, True)
             else if k = ''download'' then (info\<lparr>ui_download := unwrap_or (parse_u64 v) 0\<rparr>, True)
             else if k = ''total'' then (info\<lparr>ui_total := unwrap_or (parse_u64 v) 0\<rparr>, True)
             else if k = ''expire'' then (info\<lparr>ui_expire := parse_i64 v\<rparr>, True)
             else acc)"

definition parse_userinfo :: "string \<Rightarrow> user_info option" where
  "parse_userinfo raw =
     (let (info, seen) = foldl userinfo_part
            (\<lparr>ui_upload = 0, ui_download = 0, ui_total = 0, ui_expire = None\<rparr>, False) (split_on CHR '';'' raw)
      in if seen then Some info else None)"

definition decode_maybe_b64_header :: "link_env \<Rightarrow> string \<Rightarrow> string" where
  "decode_maybe_b64_header L raw =
     unwrap_or (Option.bind (strip_prefix raw ''base64:'') (\<lambda>rest. Option.bind (b64_decode L rest) from_utf8)) raw"

text \<open>What the code does with an answer.\<close>

definition read_reply :: "fetch_env \<Rightarrow> string \<Rightarrow> bool \<Rightarrow> http_reply \<Rightarrow> fetch_error + fetch_result" where
  "read_reply F ua send_hwid resp =
     (let L = fe_links F;
          userinfo = Option.bind (hr_header resp ''subscription-userinfo'') parse_userinfo;
          title = filter_opt (\<lambda>s. s \<noteq> []) (map_option (decode_maybe_b64_header L) (hr_header resp ''profile-title''));
          update_interval = Option.bind (hr_header resp ''profile-update-interval'') (\<lambda>s. parse_u64 (trim s));
          hwid_required = (case hr_header resp ''x-hwid-not-supported'' of
              Some value \<Rightarrow> eq_ignore_ascii_case value ''true'' | None \<Rightarrow> False)
      in if \<not> send_hwid \<and> hwid_required then Inl Hwid_Required
         else case hr_body resp of
           None \<Rightarrow> Inl Body_Unreadable
         | Some body \<Rightarrow>
             (case parse_body L body of
                Inl e \<Rightarrow> Inl (Body_Refused ua e)
              | Inr (servers, skipped) \<Rightarrow>
                  Inr \<lparr>fr_servers = servers, fr_userinfo = userinfo, fr_title = title,
                       fr_update_interval = update_interval, fr_skipped = skipped,
                       fr_not_taken = not_taken_of L body\<rparr>))"

definition fetch :: "fetch_env \<Rightarrow> string \<Rightarrow> string \<Rightarrow> bool \<Rightarrow> string option \<Rightarrow> fetch_error + fetch_result" where
  "fetch F url user_agent send_hwid hwid =
     (let ua = effective_user_agent user_agent
      in if send_hwid \<and> hwid = None then Inl Hwid_Unavailable
         else case require_https (fe_links F) url of
           Inl e \<Rightarrow> Inl e
         | Inr _ \<Rightarrow>
             (case fe_call F url (request_headers F ua send_hwid hwid) of
                Inl (Http_Status code) \<Rightarrow> Inl (Server_Responded code)
              | Inl (Transport_Kind kind) \<Rightarrow> Inl (Transport_Failed kind)
              | Inr resp \<Rightarrow> read_reply F ua send_hwid resp))"

section \<open>The merge\<close>

text \<open>
  \<open>drift_is_only_overrides\<close>: what differs between the provider's last state of a server and a fresh
  entry is its name, a pin or a field the user overrode.
\<close>

definition drift_is_only_overrides :: "import_env \<Rightarrow> jv server \<Rightarrow> jv server \<Rightarrow> bool" where
  "drift_is_only_overrides E previous refreshed =
     (case srv_overrides previous of
        None \<Rightarrow> False
      | Some overrides \<Rightarrow>
          (case apply_overrides E previous (ov_provider overrides) of
             None \<Rightarrow> False
           | Some base \<Rightarrow>
               list_all (\<lambda>(key, _). key = ''name'' \<or> key = ''stream.pin_sha256'' \<or> key = ''hysteria2.pin_sha256''
                   \<or> map_of (ov_values overrides) key \<noteq> None)
                 (draft_diff (draft_from_server base) (draft_from_server refreshed))))"

text \<open>The first entry not used yet that satisfies a predicate, and the three of them in order.\<close>

definition find_unused :: "bool list \<Rightarrow> ('a \<Rightarrow> bool) \<Rightarrow> 'a list \<Rightarrow> nat option" where
  "find_unused used P previous =
     map_option fst (List.find (\<lambda>(index, old). \<not> used ! index \<and> P old) (enumerate 0 previous))"

definition previous_index :: "import_env \<Rightarrow> bool list \<Rightarrow> jv server list \<Rightarrow> jv server \<Rightarrow> nat option" where
  "previous_index E used previous server =
     or_else (find_unused used (\<lambda>old. srv_id old = srv_id server) previous)
       (or_else (find_unused used (\<lambda>old. same_connection_as old server) previous)
                (find_unused used (\<lambda>old. drift_is_only_overrides E old server) previous))"

definition restamp_provider :: "jv server \<Rightarrow> jv server_overrides \<Rightarrow> jv server_overrides" where
  "restamp_provider server overrides =
     overrides\<lparr>ov_provider := foldl (\<lambda>provider (key, _).
         case field_value server key of Some value \<Rightarrow> jins key value provider | None \<Rightarrow> provider)
       (ov_provider overrides) (ov_values overrides)\<rparr>"

definition carry_pin :: "jv server \<Rightarrow> jv server \<Rightarrow> jv server" where
  "carry_pin old server =
     (case spec_pin_sha256 (srv_spec old) of
        Some pin \<Rightarrow>
          if spec_pin_sha256 (srv_spec server) = None
          then server\<lparr>srv_spec := fst (set_pin_sha256 (Some pin) (srv_spec server))\<rparr> else server
      | None \<Rightarrow> server)"

definition carry_overrides :: "import_env \<Rightarrow> jv server \<Rightarrow> jv server \<Rightarrow> jv server" where
  "carry_overrides E old server =
     (case srv_overrides old of
        None \<Rightarrow> server
      | Some overrides0 \<Rightarrow>
          let overrides = restamp_provider server overrides0
          in case apply_overrides E server (ov_values overrides) of
               Some applied \<Rightarrow>
                 applied\<lparr>srv_overrides := (if ov_values overrides \<noteq> [] then Some overrides else None)\<rparr>
             | None \<Rightarrow> server\<lparr>srv_overrides := Some overrides\<rparr>)"

definition carry_server :: "import_env \<Rightarrow> jv server \<Rightarrow> jv server \<Rightarrow> jv server" where
  "carry_server E old server =
     carry_overrides E old (carry_pin old
       (server\<lparr>srv_id := srv_id old, srv_alias := srv_alias old, srv_latency_ms := srv_latency_ms old\<rparr>))"

definition preserve_one :: "import_env \<Rightarrow> jv server list \<Rightarrow> bool list \<Rightarrow> jv server \<Rightarrow> bool list \<times> jv server" where
  "preserve_one E previous used server =
     (case previous_index E used previous server of
        None \<Rightarrow> (used, server)
      | Some index \<Rightarrow> (used[index := True], carry_server E (previous ! index) server))"

definition preserve_server_identity :: "import_env \<Rightarrow> jv server list \<Rightarrow> jv server list \<Rightarrow> jv server list" where
  "preserve_server_identity E previous refreshed =
     snd (thread (preserve_one E previous) (replicate (length previous) False) refreshed)"

definition apply_fetch :: "import_env \<Rightarrow> jv subscription \<Rightarrow> fetch_result \<Rightarrow> int \<Rightarrow> jv subscription" where
  "apply_fetch E sub res updated_at =
     sub\<lparr>sub_servers := preserve_server_identity E (sub_servers sub) (fr_servers res),
         sub_skipped := fr_skipped res, sub_not_taken := fr_not_taken res, sub_userinfo := fr_userinfo res,
         sub_name := unwrap_or (fr_title res) (sub_name sub), sub_updated_at := Some updated_at\<rparr>"

definition sub_refresh ::
  "fetch_env \<Rightarrow> jv subscription \<Rightarrow> string \<Rightarrow> string option \<Rightarrow> int \<Rightarrow> fetch_error + jv subscription" where
  "sub_refresh F sub user_agent hwid now =
     and_then (fetch F (sub_url sub) (unwrap_or (sub_user_agent sub) user_agent) (sub_send_hwid sub) hwid)
       (\<lambda>res. Inr (apply_fetch (le_import (fe_links F)) sub res now))"

end
