(* ===== verification/Catalog.thy ===== *)
theory Catalog
  imports Subscription Alias
begin

text \<open>
  The catalog of servers: \<open>Registry\<close> and the subscription updates of \<open>Engine\<close> in
  \<open>crates/oxidom-core/src/engine.rs\<close>. A subscription update has three steps: targets are prepared under
  the lock of the engine, the requests run without it, and the answers are committed under the lock
  again; every target carries what the user decided when it was prepared, and is checked against the
  catalog before its request and again before its answer is used. The writes of the store are the
  boolean \<open>saved\<close> of the operations: whether \<open>store::save\<close> succeeds. The device identifier is given as
  the result of \<open>state::hwid().ok()\<close>.
\<close>

section \<open>State and errors\<close>

definition local_id :: string where
  "local_id = ''local''"

record registry =
  rg_user_agent :: string
  rg_subscriptions :: "jv subscription list"
  rg_epochs :: "string \<Rightarrow> nat"

datatype catalog_error =
    Fetch_Failed fetch_error | Subscription_Not_Found | Removed_While_Fetching | Changed_While_Fetching
  | Settings_Changed | Server_Removed_While_Fetching | Save_Failed | Several "(string \<times> catalog_error) list"
  | No_Supported_Scheme | No_Valid_Links | Identical_Server string | Edit_Identical string
  | Server_Not_Found | Protocol_Change | Draft_Refused draft_error | Nothing_Overridden
  | Not_Overridden string | Provider_Unresolvable string

definition all_servers :: "registry \<Rightarrow> jv server list" where
  "all_servers r = concat (map sub_servers (rg_subscriptions r))"

definition find_server :: "registry \<Rightarrow> string \<Rightarrow> jv server option" where
  "find_server r i = List.find (\<lambda>s. srv_id s = i) (all_servers r)"

text \<open>\<open>store::save\<close> at the end of an operation.\<close>

definition saving :: "bool \<Rightarrow> 'a \<Rightarrow> catalog_error + 'a" where
  "saving saved x = (if saved then Inr x else Inl Save_Failed)"

text \<open>Replacing the first subscription with an identifier, or putting a new one at the end.\<close>

definition put_subscription :: "jv subscription \<Rightarrow> jv subscription list \<Rightarrow> jv subscription list" where
  "put_subscription sub subs =
     (case position (\<lambda>s. sub_id s = sub_id sub) subs of Some i \<Rightarrow> subs[i := sub] | None \<Rightarrow> subs @ [sub])"

section \<open>The operations that fetch under the lock\<close>

definition add_subscription ::
  "fetch_env \<Rightarrow> string \<Rightarrow> string option \<Rightarrow> bool \<Rightarrow> string option \<Rightarrow> int \<Rightarrow> bool \<Rightarrow> registry
     \<Rightarrow> registry \<times> (catalog_error + unit)" where
  "add_subscription F url name send_hwid hwid now saved r =
     (let sub = (subscription_new url name)\<lparr>sub_send_hwid := send_hwid\<rparr>
      in case sub_refresh F sub (rg_user_agent r) (if send_hwid then hwid else None) now of
           Inl e \<Rightarrow> (r, Inl (Fetch_Failed e))
         | Inr sub \<Rightarrow>
             (r\<lparr>rg_subscriptions := assign (put_subscription sub (rg_subscriptions r))\<rparr>, saving saved ()))"

definition refresh ::
  "fetch_env \<Rightarrow> string \<Rightarrow> string option \<Rightarrow> int \<Rightarrow> bool \<Rightarrow> registry \<Rightarrow> registry \<times> (catalog_error + unit)" where
  "refresh F i hwid now saved r =
     (case position (\<lambda>s. sub_id s = i) (rg_subscriptions r) of
        None \<Rightarrow> (r, Inl Subscription_Not_Found)
      | Some k \<Rightarrow>
          let sub = rg_subscriptions r ! k
          in case sub_refresh F sub (rg_user_agent r) (if sub_send_hwid sub then hwid else None) now of
               Inl e \<Rightarrow> (r, Inl (Fetch_Failed e))
             | Inr sub \<Rightarrow>
                 (r\<lparr>rg_subscriptions := assign ((rg_subscriptions r)[k := sub])\<rparr>, saving saved ()))"

definition refresh_step ::
  "fetch_env \<Rightarrow> string \<Rightarrow> string option \<Rightarrow> int \<Rightarrow> jv subscription list \<times> (string \<times> catalog_error) list \<Rightarrow> string
     \<Rightarrow> jv subscription list \<times> (string \<times> catalog_error) list" where
  "refresh_step F ua hwid now acc i =
     (let (subs, errors) = acc
      in case position (\<lambda>s. sub_id s = i) subs of
           None \<Rightarrow> acc
         | Some k \<Rightarrow>
             let sub = subs ! k
             in case sub_refresh F sub ua (if sub_send_hwid sub then hwid else None) now of
                  Inl e \<Rightarrow> (subs, errors @ [(sub_name sub, Fetch_Failed e)])
                | Inr sub \<Rightarrow> (subs[k := sub], errors))"

definition refresh_all ::
  "fetch_env \<Rightarrow> string option \<Rightarrow> int \<Rightarrow> bool \<Rightarrow> registry \<Rightarrow> registry \<times> (catalog_error + unit)" where
  "refresh_all F hwid now saved r =
     (let ids = map sub_id (filter (\<lambda>s. sub_url s \<noteq> []) (rg_subscriptions r));
          (subs, errors) = foldl (refresh_step F (rg_user_agent r) hwid now) (rg_subscriptions r, []) ids
      in (r\<lparr>rg_subscriptions := assign subs\<rparr>,
          and_then (saving saved ()) (\<lambda>_. if errors = [] then Inr () else Inl (Several errors))))"

definition remove_subscription :: "string \<Rightarrow> bool \<Rightarrow> registry \<Rightarrow> registry \<times> (catalog_error + unit)" where
  "remove_subscription i saved r =
     (r\<lparr>rg_epochs := (rg_epochs r)(i := rg_epochs r i + 1),
        rg_subscriptions := filter (\<lambda>s. sub_id s \<noteq> i) (rg_subscriptions r)\<rparr>, saving saved ())"

section \<open>The local group\<close>

definition local_group_index :: "jv subscription list \<Rightarrow> jv subscription list \<times> nat" where
  "local_group_index subs =
     (case position (\<lambda>s. sub_id s = local_id) subs of
        Some i \<Rightarrow> (subs, i)
      | None \<Rightarrow> ((subscription_new [] (Some ''My servers''))\<lparr>sub_id := local_id\<rparr> # subs, 0))"

definition push_server :: "nat \<Rightarrow> jv server \<Rightarrow> jv subscription list \<Rightarrow> jv subscription list" where
  "push_server i server subs = subs[i := (subs ! i)\<lparr>sub_servers := sub_servers (subs ! i) @ [server]\<rparr>]"

definition import_step :: "nat \<Rightarrow> jv subscription list \<times> nat \<Rightarrow> jv server \<Rightarrow> jv subscription list \<times> nat" where
  "import_step i acc server =
     (let (subs, added) = acc
      in if list_ex (\<lambda>s. srv_id s = srv_id server) (sub_servers (subs ! i)) then acc
         else (push_server i server subs, added + 1))"

definition import_links ::
  "link_env \<Rightarrow> string \<Rightarrow> bool \<Rightarrow> registry \<Rightarrow> registry \<times> (catalog_error + nat \<times> nat)" where
  "import_links L txt saved r =
     (let (parsed, skipped) = parse_links_reporting L txt; unsupported = sk_lines skipped
      in if parsed = [] then (r, Inl (if unsupported > 0 then No_Supported_Scheme else No_Valid_Links))
         else let (subs, i) = local_group_index (rg_subscriptions r);
                  (subs, added) = foldl (import_step i) (subs, 0) parsed
              in (r\<lparr>rg_subscriptions := assign subs\<rparr>, saving saved (added, unsupported)))"

text \<open>The group a refused server was to join stays in the catalog when this call created it; the last
lookup finds the server that was just pushed.\<close>

definition add_server :: "jv server \<Rightarrow> bool \<Rightarrow> registry \<Rightarrow> registry \<times> (catalog_error + jv server)" where
  "add_server server saved r =
     (let (subs, i) = local_group_index (rg_subscriptions r)
      in case List.find (\<lambda>s. srv_id s = srv_id server) (sub_servers (subs ! i)) of
           Some existing \<Rightarrow> (r\<lparr>rg_subscriptions := subs\<rparr>, Inl (Identical_Server (srv_name existing)))
         | None \<Rightarrow>
             let subs = assign (push_server i server subs);
                 stored = List.find (\<lambda>s. srv_id s = srv_id server) (sub_servers (subs ! i))
             in (r\<lparr>rg_subscriptions := subs\<rparr>, saving saved (the stored)))"

definition remove_server :: "string \<Rightarrow> bool \<Rightarrow> registry \<Rightarrow> registry \<times> (catalog_error + unit)" where
  "remove_server i saved r =
     (let subs = (case position (\<lambda>s. sub_id s = local_id) (rg_subscriptions r) of
            None \<Rightarrow> rg_subscriptions r
          | Some k \<Rightarrow> (rg_subscriptions r)[k := (rg_subscriptions r ! k)\<lparr>sub_servers :=
              filter (\<lambda>s. srv_id s \<noteq> i) (sub_servers (rg_subscriptions r ! k))\<rparr>])
      in (r\<lparr>rg_subscriptions := filter (\<lambda>s. \<not> (sub_id s = local_id \<and> sub_servers s = [])) subs\<rparr>, saving saved ()))"

definition local_group_server :: "registry \<Rightarrow> string \<Rightarrow> jv server option" where
  "local_group_server r i =
     Option.bind (List.find (\<lambda>s. sub_id s = local_id) (rg_subscriptions r))
       (\<lambda>sub. List.find (\<lambda>s. srv_id s = i) (sub_servers sub))"

section \<open>Editing a server\<close>

text \<open>The search both editors start with: the first subscription that has the server, and its place.\<close>

definition locate_server :: "registry \<Rightarrow> string \<Rightarrow> (nat \<times> nat) option" where
  "locate_server r i =
     find_map (\<lambda>(k, sub). map_option (Pair k) (position (\<lambda>s. srv_id s = i) (sub_servers sub)))
       (enumerate 0 (rg_subscriptions r))"

definition server_at :: "registry \<Rightarrow> nat \<times> nat \<Rightarrow> jv server" where
  "server_at r p = sub_servers (rg_subscriptions r ! fst p) ! snd p"

definition put_server_at :: "nat \<times> nat \<Rightarrow> jv server \<Rightarrow> registry \<Rightarrow> registry" where
  "put_server_at p server r =
     r\<lparr>rg_subscriptions := (rg_subscriptions r)[fst p := (rg_subscriptions r ! fst p)\<lparr>sub_servers :=
         (sub_servers (rg_subscriptions r ! fst p))[snd p := server]\<rparr>]\<rparr>"

text \<open>The loop over what the edit changed, and the overrides it leaves.\<close>

definition record_override :: "jv server \<Rightarrow> jv server_overrides \<Rightarrow> string \<times> jv \<Rightarrow> jv server_overrides" where
  "record_override stored overrides change =
     (let (key, value) = change;
          provider = (if map_of (ov_provider overrides) key = None
            then (case field_value stored key of Some base \<Rightarrow> jins key base (ov_provider overrides)
                  | None \<Rightarrow> ov_provider overrides)
            else ov_provider overrides);
          value = (if key = ''name'' \<and> value = JNull then JStr [] else value)
      in overrides\<lparr>ov_provider := provider, ov_values := jins key value (ov_values overrides)\<rparr>)"

definition settle_overrides :: "jv server_overrides \<Rightarrow> jv server_overrides" where
  "settle_overrides overrides =
     (let settled = map fst (filter (\<lambda>(key, value). Some value = map_of (ov_provider overrides) key) (ov_values overrides))
      in \<lparr>ov_values = foldl (\<lambda>m key. jdel key m) (ov_values overrides) settled,
          ov_provider = foldl (\<lambda>m key. jdel key m) (ov_provider overrides) settled\<rparr>)"

definition kept_overrides :: "jv server_overrides \<Rightarrow> jv server_overrides option" where
  "kept_overrides overrides = (if ov_values overrides \<noteq> [] then Some overrides else None)"

definition edited_overrides :: "jv server \<Rightarrow> draft \<Rightarrow> jv server_overrides option" where
  "edited_overrides stored d =
     kept_overrides (settle_overrides (foldl (record_override stored)
       (unwrap_or (srv_overrides stored) \<lparr>ov_values = [], ov_provider = []\<rparr>)
       (draft_diff (draft_from_server stored) d)))"

definition update_server ::
  "import_env \<Rightarrow> string \<Rightarrow> draft \<Rightarrow> bool \<Rightarrow> registry \<Rightarrow> registry \<times> (catalog_error + jv server)" where
  "update_server E i d saved r =
     (case resolve_draft E d of
        Inl e \<Rightarrow> (r, Inl (Draft_Refused e))
      | Inr resolved \<Rightarrow>
          (case locate_server r i of
             None \<Rightarrow> (r, Inl Server_Not_Found)
           | Some p \<Rightarrow>
               let stored = server_at r p;
                   subscription_server = (sub_id (rg_subscriptions r ! fst p) \<noteq> local_id)
               in if subscription_server \<and> srv_protocol resolved \<noteq> srv_protocol stored
                  then (r, Inl Protocol_Change)
                  else case filter_opt (\<lambda>existing. srv_id existing \<noteq> i) (local_group_server r (srv_id resolved)) of
                    Some existing \<Rightarrow> (r, Inl (Edit_Identical (srv_name existing)))
                  | None \<Rightarrow>
                      let effective = resolved\<lparr>srv_id := srv_id stored, srv_alias := srv_alias stored,
                            srv_link := srv_link stored, srv_latency_ms := srv_latency_ms stored\<rparr>;
                          effective = (if subscription_server
                            then effective\<lparr>srv_overrides := edited_overrides stored d\<rparr> else effective)
                      in (put_server_at p effective r, saving saved effective)))"

definition drop_server_override ::
  "import_env \<Rightarrow> string \<Rightarrow> string \<Rightarrow> bool \<Rightarrow> registry \<Rightarrow> registry \<times> (catalog_error + jv server)" where
  "drop_server_override E i field saved r =
     (case locate_server r i of
        None \<Rightarrow> (r, Inl Server_Not_Found)
      | Some p \<Rightarrow>
          let stored = server_at r p
          in case srv_overrides stored of
               None \<Rightarrow> (r, Inl Nothing_Overridden)
             | Some overrides \<Rightarrow>
                 (case map_of (ov_provider overrides) field of
                    None \<Rightarrow> (r, Inl (Not_Overridden field))
                  | Some value \<Rightarrow>
                      let overrides = \<lparr>ov_values = jdel field (ov_values overrides),
                            ov_provider = jdel field (ov_provider overrides)\<rparr>
                      in case apply_overrides E stored [(field, value)] of
                           None \<Rightarrow> (r, Inl (Provider_Unresolvable field))
                         | Some effective \<Rightarrow>
                             let effective = effective\<lparr>srv_overrides := kept_overrides overrides\<rparr>
                             in (put_server_at p effective r, saving saved effective)))"

section \<open>Updates that fetch without the lock\<close>

datatype subscription_operation =
    Add_Subscription string "string option" bool | Refresh_One string | Refresh_All

record subscription_fetch =
  sf_url :: string
  sf_user_agent :: string
  sf_send_hwid :: bool

text \<open>The baseline of an addition keeps the JSON form of the subscription it would replace; the form
carries every field but the readings of the servers, which are not persisted.\<close>

definition stored_form :: "jv subscription \<Rightarrow> jv subscription" where
  "stored_form sub =
     sub\<lparr>sub_servers := map (\<lambda>s. s\<lparr>srv_latency_ms := None\<rparr>) (sub_servers sub),
         sub_skipped := (if skipped_is_empty (sub_skipped sub) then skipped_default else sub_skipped sub)\<rparr>"

datatype subscription_baseline =
    Add_Baseline "string option" "jv subscription option"
  | Refresh_Baseline string "string list"

record subscription_target =
  st_id :: string
  st_epoch :: nat
  st_label :: string
  st_request :: subscription_fetch
  st_baseline :: subscription_baseline

definition sub_user_agent_of :: "registry \<Rightarrow> jv subscription \<Rightarrow> string" where
  "sub_user_agent_of r sub = effective_user_agent (unwrap_or (sub_user_agent sub) (rg_user_agent r))"

definition update_target :: "registry \<Rightarrow> jv subscription \<Rightarrow> subscription_baseline \<Rightarrow> subscription_target" where
  "update_target r sub baseline =
     \<lparr>st_id = sub_id sub, st_epoch = rg_epochs r (sub_id sub),
      st_label = (if trim (sub_name sub) = [] \<or> (sub_url sub \<noteq> [] \<and> contains_str (sub_name sub) (sub_url sub))
        then ''subscription '' @ sub_id sub else sub_name sub),
      st_request = \<lparr>sf_url = sub_url sub, sf_user_agent = sub_user_agent_of r sub, sf_send_hwid = sub_send_hwid sub\<rparr>,
      st_baseline = baseline\<rparr>"

definition refresh_target :: "registry \<Rightarrow> jv subscription \<Rightarrow> subscription_target" where
  "refresh_target r sub = update_target r sub (Refresh_Baseline (sub_name sub) (map srv_id (sub_servers sub)))"

definition find_subscription :: "registry \<Rightarrow> string \<Rightarrow> jv subscription option" where
  "find_subscription r i = List.find (\<lambda>s. sub_id s = i) (rg_subscriptions r)"

definition prepare_subscription_update ::
  "subscription_operation \<Rightarrow> registry \<Rightarrow> catalog_error + subscription_target list \<times> bool" where
  "prepare_subscription_update operation r =
     (case operation of
        Add_Subscription url name send_hwid \<Rightarrow>
          let sub = (subscription_new url name)\<lparr>sub_send_hwid := send_hwid\<rparr>;
              existing = map_option stored_form (find_subscription r (sub_id sub))
          in Inr ([update_target r sub (Add_Baseline name existing)], False)
      | Refresh_One i \<Rightarrow>
          or_bail (find_subscription r i) Subscription_Not_Found (\<lambda>sub. Inr ([refresh_target r sub], False))
      | Refresh_All \<Rightarrow>
          Inr (map (refresh_target r) (filter (\<lambda>s. sub_url s \<noteq> []) (rg_subscriptions r)), True))"

definition validate_subscription_fetch :: "registry \<Rightarrow> subscription_target \<Rightarrow> catalog_error + unit" where
  "validate_subscription_fetch r target =
     (if rg_epochs r (st_id target) \<noteq> st_epoch target then Inl Removed_While_Fetching
      else let current = find_subscription r (st_id target); request = st_request target
      in case st_baseline target of
           Add_Baseline _ existing \<Rightarrow>
             if map_option stored_form current \<noteq> existing then Inl Changed_While_Fetching
             else if effective_user_agent (rg_user_agent r) \<noteq> sf_user_agent request then Inl Settings_Changed
             else Inr ()
         | Refresh_Baseline _ server_ids \<Rightarrow>
             or_bail current Removed_While_Fetching (\<lambda>sub.
               if sub_url sub \<noteq> sf_url request \<or> sub_send_hwid sub \<noteq> sf_send_hwid request
                  \<or> sub_user_agent_of r sub \<noteq> sf_user_agent request
               then Inl Settings_Changed
               else if list_ex (\<lambda>i. \<not> list_ex (\<lambda>s. srv_id s = i) (sub_servers sub)) server_ids
               then Inl Server_Removed_While_Fetching
               else Inr ()))"

text \<open>\<open>SubscriptionUpdate::fetch\<close>: before each request its target is validated by the caller, who looks at
the catalog of that moment; the identifier of the device is read only for a target that sends it.\<close>

definition fetch_target ::
  "(subscription_target \<Rightarrow> catalog_error + unit) \<Rightarrow> (subscription_fetch \<Rightarrow> string option \<Rightarrow> fetch_error + fetch_result)
     \<Rightarrow> string option \<Rightarrow> subscription_target \<Rightarrow> catalog_error + fetch_result" where
  "fetch_target validate request hwid target =
     and_then (validate target) (\<lambda>_.
       case request (st_request target) (if sf_send_hwid (st_request target) then hwid else None) of
         Inl e \<Rightarrow> Inl (Fetch_Failed e) | Inr res \<Rightarrow> Inr res)"

definition update_fetch ::
  "registry list \<Rightarrow> (subscription_fetch \<Rightarrow> string option \<Rightarrow> fetch_error + fetch_result) \<Rightarrow> string option
     \<Rightarrow> subscription_target list \<Rightarrow> (subscription_target \<times> (catalog_error + fetch_result)) list" where
  "update_fetch views request hwid targets =
     map (\<lambda>(view, target). (target, fetch_target (validate_subscription_fetch view) request hwid target))
       (zip views targets)"

text \<open>\<open>fetch_subscription\<close> of the daemon, the request the updates run with.\<close>

definition fetch_subscription :: "fetch_env \<Rightarrow> subscription_fetch \<Rightarrow> string option \<Rightarrow> fetch_error + fetch_result" where
  "fetch_subscription F request hwid =
     fetch F (sf_url request) (sf_user_agent request) (sf_send_hwid request) hwid"

text \<open>One answer, committed against the catalog as it is now.\<close>

definition commit_target ::
  "import_env \<Rightarrow> int \<Rightarrow> registry \<Rightarrow> subscription_target \<Rightarrow> catalog_error + fetch_result \<Rightarrow> catalog_error + registry" where
  "commit_target E updated_at r target fetched =
     and_then fetched (\<lambda>response.
     and_then (validate_subscription_fetch r target) (\<lambda>_.
       let subs = rg_subscriptions r; index = position (\<lambda>s. sub_id s = st_id target) subs
       in case st_baseline target of
            Add_Baseline name _ \<Rightarrow>
              let sub = apply_fetch E ((subscription_new (sf_url (st_request target)) name)\<lparr>sub_send_hwid :=
                    sf_send_hwid (st_request target)\<rparr>) response updated_at
              in Inr (r\<lparr>rg_subscriptions := (case index of Some k \<Rightarrow> subs[k := sub] | None \<Rightarrow> subs @ [sub])\<rparr>)
          | Refresh_Baseline name _ \<Rightarrow>
              or_bail index Removed_While_Fetching (\<lambda>k.
                let response = (if sub_name (subs ! k) \<noteq> name then response\<lparr>fr_title := None\<rparr> else response)
                in Inr (r\<lparr>rg_subscriptions := subs[k := apply_fetch E (subs ! k) response updated_at]\<rparr>))))"

definition commit_step ::
  "import_env \<Rightarrow> int \<Rightarrow> registry \<times> (string \<times> catalog_error) list \<times> bool
     \<Rightarrow> subscription_target \<times> (catalog_error + fetch_result) \<Rightarrow> registry \<times> (string \<times> catalog_error) list \<times> bool" where
  "commit_step E updated_at acc entry =
     (let (r, errors, changed) = acc; (target, fetched) = entry
      in case commit_target E updated_at r target fetched of
           Inr r' \<Rightarrow> (r', errors, True)
         | Inl e \<Rightarrow> (r, errors @ [(st_label target, e)], changed))"

text \<open>The catalog half of \<open>apply_subscription_update\<close>: the new catalog, the result for the caller and whether
the sessions have to be reconciled with it.\<close>

definition apply_subscription_update ::
  "import_env \<Rightarrow> int \<Rightarrow> bool \<Rightarrow> (subscription_target \<times> (catalog_error + fetch_result)) list \<Rightarrow> bool \<Rightarrow> registry
     \<Rightarrow> registry \<times> (catalog_error + unit) \<times> bool" where
  "apply_subscription_update E updated_at refreshing_all results saved r =
     (let (r, errors, changed) = foldl (commit_step E updated_at) (r, [], False) results;
          result = (if errors = [] then Inr () else Inl (Several errors))
      in if changed \<or> refreshing_all
         then (r\<lparr>rg_subscriptions := assign (rg_subscriptions r)\<rparr>, and_then (saving saved ()) (\<lambda>_. result), True)
         else (r, result, False))"

section \<open>What the daemon changes in place\<close>

text \<open>\<open>set_server_alias\<close>, \<open>trust_certificate\<close>, \<open>set_hwid\<close> and \<open>set_subscription_user_agent\<close> of
\<open>crates/oxidom/src/daemon.rs\<close>, under the lock.\<close>

datatype request_error =
    Bad_Alias | Alias_Taken string | Unknown_Server | Bad_Pin | No_Tls_Settings | Unknown_Subscription string | Not_Saved

definition alias_taken :: "registry \<Rightarrow> nat \<times> nat \<Rightarrow> string \<Rightarrow> bool" where
  "alias_taken r target name =
     list_ex (\<lambda>(k, sub). list_ex (\<lambda>(n, s). (k, n) \<noteq> target \<and> srv_alias s = Some name) (enumerate 0 (sub_servers sub)))
       (enumerate 0 (rg_subscriptions r))"

definition set_server_alias :: "string \<Rightarrow> string \<Rightarrow> bool \<Rightarrow> registry \<Rightarrow> registry \<times> (request_error + unit)" where
  "set_server_alias i name saved r =
     (if \<not> is_valid name then (r, Inl Bad_Alias)
      else case locate_server r i of
        None \<Rightarrow> (r, Inl Unknown_Server)
      | Some target \<Rightarrow>
          if alias_taken r target name then (r, Inl (Alias_Taken name))
          else (put_server_at target ((server_at r target)\<lparr>srv_alias := Some name\<rparr>) r,
                if saved then Inr () else Inl Not_Saved))"

definition trust_certificate :: "string \<Rightarrow> string \<Rightarrow> bool \<Rightarrow> registry \<Rightarrow> registry \<times> (request_error + unit)" where
  "trust_certificate i sha256 saved r =
     (let pin = lower_ascii (trim sha256)
      in if length pin \<noteq> 64 \<or> \<not> list_all is_ascii_hexdigit pin then (r, Inl Bad_Pin)
         else case locate_server r i of
           None \<Rightarrow> (r, Inl Unknown_Server)
         | Some target \<Rightarrow>
             let server = server_at r target; (spec, placed) = set_pin_sha256 (Some pin) (srv_spec server)
             in if \<not> placed then (r, Inl No_Tls_Settings)
                else (put_server_at target (server\<lparr>srv_spec := spec\<rparr>) r, if saved then Inr () else Inl Not_Saved))"

definition set_hwid :: "string \<Rightarrow> bool \<Rightarrow> bool \<Rightarrow> registry \<Rightarrow> registry \<times> (request_error + unit)" where
  "set_hwid i enabled saved r =
     ((case position (\<lambda>s. sub_id s = i) (rg_subscriptions r) of
         None \<Rightarrow> r
       | Some k \<Rightarrow> r\<lparr>rg_subscriptions := (rg_subscriptions r)[k := (rg_subscriptions r ! k)\<lparr>sub_send_hwid := enabled\<rparr>]\<rparr>),
      if saved then Inr () else Inl Not_Saved)"

definition set_subscription_user_agent ::
  "string \<Rightarrow> string \<Rightarrow> bool \<Rightarrow> registry \<Rightarrow> registry \<times> (request_error + unit)" where
  "set_subscription_user_agent i user_agent saved r =
     (case position (\<lambda>s. sub_id s = i) (rg_subscriptions r) of
        None \<Rightarrow> (r, Inl (Unknown_Subscription i))
      | Some k \<Rightarrow>
          (r\<lparr>rg_subscriptions := (rg_subscriptions r)[k := (rg_subscriptions r ! k)\<lparr>sub_user_agent :=
               user_agent_override user_agent\<rparr>]\<rparr>,
           if saved then Inr () else Inl Not_Saved))"

section \<open>Identities of an older store\<close>

text \<open>\<open>migrate_identities\<close>, over the identifiers the saved sessions hold; \<open>identity_state\<close> are its local
maps. The two saves only log a failure.\<close>

record session_ids =
  si_server_id :: "string option"
  si_pool_members :: "string list"

record identity_state =
  is_renamed :: "string \<Rightarrow> string option"
  is_seen :: "string \<Rightarrow> (string \<times> string) option"
  is_changed :: bool

definition migrated_id :: "import_env \<Rightarrow> string \<Rightarrow> jv server \<Rightarrow> string" where
  "migrated_id E subscription server =
     (if subscription = local_id \<and> srv_link server = None \<and> srv_id server \<noteq> [] then srv_id server
      else stable_id (identity_string E server))"

definition migrate_server ::
  "import_env \<Rightarrow> string \<Rightarrow> identity_state \<Rightarrow> jv server \<Rightarrow> identity_state \<times> jv server option" where
  "migrate_server E subscription st server =
     (let old = srv_id server; new = migrated_id E subscription server;
          st = (if old \<noteq> new
            then st\<lparr>is_renamed := (if is_renamed st old = None then (is_renamed st)(old \<mapsto> new) else is_renamed st),
                    is_changed := True\<rparr>
            else st)
      in case is_seen st new of
           Some (first_old, _) \<Rightarrow>
             if first_old \<noteq> old then (st\<lparr>is_changed := True\<rparr>, None) else (st, Some (server\<lparr>srv_id := new\<rparr>))
         | None \<Rightarrow>
             (st\<lparr>is_seen := (is_seen st)(new \<mapsto> (old, srv_name server))\<rparr>, Some (server\<lparr>srv_id := new\<rparr>)))"

definition migrate_subscription ::
  "import_env \<Rightarrow> identity_state \<Rightarrow> jv subscription \<Rightarrow> identity_state \<times> jv subscription" where
  "migrate_subscription E st sub =
     (let i = (if sub_id sub \<noteq> local_id then stable_id (sub_url sub) else sub_id sub);
          st = (if i \<noteq> sub_id sub then st\<lparr>is_changed := True\<rparr> else st);
          (st, servers) = thread (migrate_server E i) st (sub_servers sub)
      in (st, sub\<lparr>sub_id := i, sub_servers := List.map_filter (\<lambda>s. s) servers\<rparr>))"

definition rename_session :: "(string \<Rightarrow> string option) \<Rightarrow> session_ids \<Rightarrow> session_ids" where
  "rename_session renamed s =
     \<lparr>si_server_id = map_option (\<lambda>i. unwrap_or (renamed i) i) (si_server_id s),
      si_pool_members = map (\<lambda>i. unwrap_or (renamed i) i) (si_pool_members s)\<rparr>"

definition migrate_identities ::
  "import_env \<Rightarrow> registry \<Rightarrow> session_ids list \<Rightarrow> registry \<times> session_ids list" where
  "migrate_identities E r sessions =
     (let (st, subs) = thread (migrate_subscription E)
            \<lparr>is_renamed = (\<lambda>_. None), is_seen = (\<lambda>_. None), is_changed = False\<rparr> (rg_subscriptions r);
          complete = list_all (\<lambda>s. srv_alias s \<noteq> None) (concat (map sub_servers subs))
      in if \<not> is_changed st \<and> complete then (r\<lparr>rg_subscriptions := subs\<rparr>, sessions)
         else (r\<lparr>rg_subscriptions := assign subs\<rparr>, map (rename_session (is_renamed st)) sessions))"

end
