(* ===== verification/Catalog_Laws.thy ===== *)
theory Catalog_Laws
  imports Catalog
begin

text \<open>
  What the operations of the catalog keep: the shape of the catalog, the servers of the local group, the
  protection of removed subscriptions against late answers, and the consent to send the device identifier.
\<close>

section \<open>Assignment of aliases, group by group\<close>

lemma foldl_inv: "P a \<Longrightarrow> (\<And>a x. x \<in> set xs \<Longrightarrow> P a \<Longrightarrow> P (f a x)) \<Longrightarrow> P (foldl f a xs)"
  by (induction xs arbitrary: a) auto

definition same_group :: "'j subscription \<Rightarrow> 'j subscription \<Rightarrow> bool" where
  "same_group g h \<longleftrightarrow> g\<lparr>sub_servers := []\<rparr> = h\<lparr>sub_servers := []\<rparr> \<and> list_all2 same_but_alias (sub_servers g) (sub_servers h)"

lemma same_groupD:
  assumes "same_group g h"
  shows "sub_id h = sub_id g" and "sub_url h = sub_url g" and "sub_name h = sub_name g"
    and "sub_send_hwid h = sub_send_hwid g" and "sub_user_agent h = sub_user_agent g"
    and "map srv_id (sub_servers h) = map srv_id (sub_servers g)"
proof -
  have eq: "g\<lparr>sub_servers := []\<rparr> = h\<lparr>sub_servers := []\<rparr>" using assms by (simp add: same_group_def)
  show "sub_id h = sub_id g" using arg_cong [OF eq, of sub_id] by simp
  show "sub_url h = sub_url g" using arg_cong [OF eq, of sub_url] by simp
  show "sub_name h = sub_name g" using arg_cong [OF eq, of sub_name] by simp
  show "sub_send_hwid h = sub_send_hwid g" using arg_cong [OF eq, of sub_send_hwid] by simp
  show "sub_user_agent h = sub_user_agent g" using arg_cong [OF eq, of sub_user_agent] by simp
  have "srv_id y = srv_id x" if "same_but_alias x y" for x y :: "'a server"
    using arg_cong [OF that [unfolded same_but_alias_def], of srv_id] by simp
  with assms show "map srv_id (sub_servers h) = map srv_id (sub_servers g)"
    by (auto simp: same_group_def list_all2_conv_all_nth intro: nth_equalityI)
qed

lemma same_but_alias_refl [simp]: "same_but_alias x x"
  by (simp add: same_but_alias_def)

lemma same_but_alias_trans: "same_but_alias x y \<Longrightarrow> same_but_alias y z \<Longrightarrow> same_but_alias x z"
  by (simp add: same_but_alias_def)

lemma same_group_trans: "same_group f g \<Longrightarrow> same_group g h \<Longrightarrow> same_group f h"
  unfolding same_group_def by (auto intro: list_all2_trans [rotated] same_but_alias_trans)

lemma over_servers_same:
  assumes "\<And>st xs. list_all2 same_but_alias xs (snd (thread f st xs))"
  shows "list_all2 same_group groups (snd (thread (over_servers f) st groups))"
proof (induction groups arbitrary: st)
  case (Cons g groups)
  have "same_group g (g\<lparr>sub_servers := snd (thread f st (sub_servers g))\<rparr>)"
    using assms by (simp add: same_group_def)
  with Cons.IH show ?case by (simp add: over_servers_def Let_def split_beta)
qed simp

lemma assign_same_groups: "list_all2 same_group groups (assign groups)"
proof -
  let ?k = "thread (over_servers keep_alias) [] groups"
  have "list_all2 same_group groups (snd ?k)" by (rule over_servers_same) (rule keep_pass_same)
  moreover have "list_all2 same_group (snd ?k) (snd (thread (over_servers give_alias) (fst ?k) (snd ?k)))"
    by (rule over_servers_same) (rule give_pass_same)
  ultimately have "list_all2 same_group groups (snd (thread (over_servers give_alias) (fst ?k) (snd ?k)))"
    by (rule list_all2_trans [rotated]) (rule same_group_trans)
  then show ?thesis by (simp add: assign_def split_beta)
qed

lemma same_groups_maps:
  assumes "list_all2 same_group gs hs"
  shows "map sub_id hs = map sub_id gs" and "\<forall>h\<in>set hs. \<exists>g\<in>set gs. same_group g h"
  using assms list_all2_in2 [OF assms]
  by (auto simp: list_all2_conv_all_nth same_groupD(1) intro!: nth_equalityI)

section \<open>The shape of the catalog\<close>

definition group_ok :: "jv subscription \<Rightarrow> bool" where
  "group_ok g \<longleftrightarrow>
     (if sub_id g = local_id then sub_url g = [] \<and> distinct (map srv_id (sub_servers g))
      else sub_id g = stable_id (sub_url g))"

definition catalog_ok :: "registry \<Rightarrow> bool" where
  "catalog_ok r \<longleftrightarrow> distinct (map sub_id (rg_subscriptions r)) \<and> (\<forall>g\<in>set (rg_subscriptions r). group_ok g)"

lemma stable_id_not_local: "stable_id seed \<noteq> local_id"
proof
  assume "stable_id seed = local_id"
  then have "length (stable_id seed) = length local_id" by simp
  then show False by (simp add: stable_id_def local_id_def)
qed

lemma catalog_ok_assign: "catalog_ok (r\<lparr>rg_subscriptions := subs\<rparr>) \<Longrightarrow> catalog_ok (r\<lparr>rg_subscriptions := assign subs\<rparr>)"
proof -
  assume ok: "catalog_ok (r\<lparr>rg_subscriptions := subs\<rparr>)"
  have "group_ok h" if h: "h \<in> set (assign subs)" for h
  proof -
    obtain g where g: "g \<in> set subs" "same_group g h"
      using same_groups_maps(2) [OF assign_same_groups [of subs]] h by blast
    with ok have "group_ok g" by (simp add: catalog_ok_def)
    with same_groupD [OF g(2)] show ?thesis by (simp add: group_ok_def)
  qed
  with ok show ?thesis
    by (simp add: catalog_ok_def same_groups_maps(1) [OF assign_same_groups [of subs]])
qed

lemma catalog_ok_cong: "rg_subscriptions r = rg_subscriptions r' \<Longrightarrow> catalog_ok r \<longleftrightarrow> catalog_ok r'"
  by (simp add: catalog_ok_def)

text \<open>Replacing one group by another of the same identifier, and adding or removing groups.\<close>

lemma catalog_ok_update:
  assumes "catalog_ok r" and "k < length (rg_subscriptions r)" and "sub_id g = sub_id (rg_subscriptions r ! k)"
    and "group_ok g"
  shows "catalog_ok (r\<lparr>rg_subscriptions := (rg_subscriptions r)[k := g]\<rparr>)"
proof -
  have "map sub_id ((rg_subscriptions r)[k := g]) = map sub_id (rg_subscriptions r)"
    using assms(2,3) by (simp add: map_update) (metis list_update_id nth_map)
  with assms(1,4) show ?thesis
    by (auto simp: catalog_ok_def dest: subsetD [OF set_update_subset_insert])
qed

lemma catalog_ok_filter: "catalog_ok r \<Longrightarrow> catalog_ok (r\<lparr>rg_subscriptions := filter P (rg_subscriptions r)\<rparr>)"
  by (auto simp: catalog_ok_def distinct_map_filter)

lemma catalog_ok_add:
  "catalog_ok r \<Longrightarrow> group_ok g \<Longrightarrow> sub_id g \<notin> sub_id ` set (rg_subscriptions r) \<Longrightarrow>
   catalog_ok (r\<lparr>rg_subscriptions := rg_subscriptions r @ [g]\<rparr>) \<and> catalog_ok (r\<lparr>rg_subscriptions := g # rg_subscriptions r\<rparr>)"
  by (auto simp: catalog_ok_def)

lemma catalog_ok_group: "catalog_ok r \<Longrightarrow> k < length (rg_subscriptions r) \<Longrightarrow> group_ok (rg_subscriptions r ! k)"
  by (simp add: catalog_ok_def)

lemma group_ok_local: "group_ok g \<Longrightarrow> sub_id g = local_id \<Longrightarrow> sub_url g = []"
  by (simp add: group_ok_def)

text \<open>A new answer for a group that is not the local one, and a change that keeps the identifiers.\<close>

lemma group_ok_servers:
  "group_ok g \<Longrightarrow> sub_id h = sub_id g \<Longrightarrow> sub_url h = sub_url g \<Longrightarrow>
   sub_id g \<noteq> local_id \<or> map srv_id (sub_servers h) = map srv_id (sub_servers g) \<Longrightarrow> group_ok h"
  by (auto simp: group_ok_def split: if_splits)

lemma apply_fetch_id [simp]: "sub_id (apply_fetch E sub res now) = sub_id sub"
  and apply_fetch_url [simp]: "sub_url (apply_fetch E sub res now) = sub_url sub"
  and apply_fetch_hwid [simp]: "sub_send_hwid (apply_fetch E sub res now) = sub_send_hwid sub"
  by (simp_all add: apply_fetch_def)

section \<open>The empty address\<close>

text \<open>The local group has the empty URL, and \<open>Url::parse\<close> refuses it (a relative reference without a base).\<close>

definition refuses_empty_url :: "link_env \<Rightarrow> bool" where
  "refuses_empty_url L \<longleftrightarrow> le_url L [] = None"

lemma fetch_empty: "refuses_empty_url (fe_links F) \<Longrightarrow> \<exists>e. fetch F [] ua send_hwid hwid = Inl e"
  by (auto simp: fetch_def require_https_def refuses_empty_url_def Let_def)

lemma sub_refresh_empty:
  "refuses_empty_url (fe_links F) \<Longrightarrow> sub_url sub = [] \<Longrightarrow> \<exists>e. sub_refresh F sub ua hwid now = Inl e"
  using fetch_empty [of F "unwrap_or (sub_user_agent sub) ua" "sub_send_hwid sub" hwid]
  by (auto simp: sub_refresh_def and_then_def)

lemma sub_refresh_ok:
  "sub_refresh F sub ua hwid now = Inr sub' \<Longrightarrow> sub_id sub' = sub_id sub \<and> sub_url sub' = sub_url sub \<and> sub_send_hwid sub' = sub_send_hwid sub"
  by (auto simp: sub_refresh_def and_then_def split: sum.splits)

text \<open>A refreshed group of a well-formed catalog is not the local one.\<close>

lemma sub_refresh_group_ok:
  assumes "refuses_empty_url (fe_links F)" and "group_ok g" and "sub_refresh F g ua hwid now = Inr h"
  shows "group_ok h \<and> sub_id h = sub_id g \<and> sub_id g \<noteq> local_id"
proof -
  have "sub_id g \<noteq> local_id"
    using assms group_ok_local [OF assms(2)] sub_refresh_empty [OF assms(1), of g] by (metis Inl_Inr_False)
  with assms(2) sub_refresh_ok [OF assms(3)] show ?thesis by (auto intro: group_ok_servers)
qed

section \<open>Places of servers\<close>

lemma find_map_enumerate:
  "find_map f (enumerate n xs) = Some y \<Longrightarrow> \<exists>k<length xs. f (n + k, xs ! k) = Some y \<and> (\<forall>j<k. f (n + j, xs ! j) = None)"
proof (induction xs arbitrary: n)
  case (Cons x xs)
  show ?case
  proof (cases "f (n, x)")
    case None
    with Cons.prems have "find_map f (enumerate (Suc n) xs) = Some y" by simp
    from Cons.IH [OF this] obtain k where k: "k < length xs" "f (Suc n + k, xs ! k) = Some y" "\<forall>j<k. f (Suc n + j, xs ! j) = None"
      by blast
    have "f (n + j, (x # xs) ! j) = None" if "j < Suc k" for j
      using that k(3) None by (cases j) auto
    with k show ?thesis by (intro exI [of _ "Suc k"]) auto
  next
    case (Some z)
    with Cons.prems show ?thesis by (intro exI [of _ 0]) auto
  qed
qed simp

lemma locate_server_SomeD:
  assumes "locate_server r i = Some p"
  shows "fst p < length (rg_subscriptions r) \<and> snd p < length (sub_servers (rg_subscriptions r ! fst p))
    \<and> srv_id (server_at r p) = i"
proof -
  let ?f = "\<lambda>(k, sub). map_option (Pair k) (position (\<lambda>s. srv_id s = i) (sub_servers sub))"
  obtain k where k: "k < length (rg_subscriptions r)" "?f (0 + k, rg_subscriptions r ! k) = Some p"
    using find_map_enumerate [OF assms [unfolded locate_server_def]] by blast
  then obtain n where n: "p = (k, n)" "position (\<lambda>s. srv_id s = i) (sub_servers (rg_subscriptions r ! k)) = Some n"
    by auto
  with position_SomeD [OF n(2)] k(1) show ?thesis by (simp add: server_at_def)
qed

lemma map_id_update:
  "n < length xs \<Longrightarrow> srv_id x = srv_id (xs ! n) \<Longrightarrow> map srv_id (xs[n := x]) = map srv_id xs"
  by (simp add: map_update) (metis list_update_id nth_map)

lemma catalog_ok_put_server:
  assumes "catalog_ok r" and "locate_server r i = Some p" and "srv_id server = i"
  shows "catalog_ok (put_server_at p server r)"
proof -
  note p = locate_server_SomeD [OF assms(2)]
  let ?g = "rg_subscriptions r ! fst p"
  have "map srv_id ((sub_servers ?g)[snd p := server]) = map srv_id (sub_servers ?g)"
    by (rule map_id_update) (use p assms(3) in \<open>simp_all add: server_at_def\<close>)
  then have "group_ok (?g\<lparr>sub_servers := (sub_servers ?g)[snd p := server]\<rparr>)"
    using p by (intro group_ok_servers [OF catalog_ok_group [OF assms(1)], of "fst p"]) simp_all
  then show ?thesis
    unfolding put_server_at_def by (intro catalog_ok_update [OF assms(1)]) (use p in simp_all)
qed

section \<open>The operations keep the shape\<close>

text \<open>The hypothesis about the \<open>url\<close> crate is shared by every operation that fetches.\<close>

lemma put_subscription_ok:
  assumes "catalog_ok r" and "group_ok g"
  shows "catalog_ok (r\<lparr>rg_subscriptions := put_subscription g (rg_subscriptions r)\<rparr>)"
proof (cases "position (\<lambda>s. sub_id s = sub_id g) (rg_subscriptions r)")
  case None
  then have "sub_id g \<notin> sub_id ` set (rg_subscriptions r)"
    by (auto simp: position_None_iff)
  with None catalog_ok_add [OF assms] show ?thesis by (simp add: put_subscription_def)
next
  case (Some k)
  with position_SomeD [OF Some] catalog_ok_update [OF assms(1) _ _ assms(2), of k] show ?thesis
    by (simp add: put_subscription_def)
qed

lemma new_group_ok: "group_ok ((subscription_new url name)\<lparr>sub_send_hwid := h\<rparr>)"
  by (simp add: group_ok_def subscription_new_def stable_id_not_local)

lemma add_subscription_ok:
  assumes "refuses_empty_url (fe_links F)" and "catalog_ok r"
  shows "catalog_ok (fst (add_subscription F url name send_hwid hwid now saved r))"
  using assms(2) sub_refresh_group_ok [OF assms(1) new_group_ok]
  by (auto simp: add_subscription_def Let_def split: sum.splits intro!: catalog_ok_assign put_subscription_ok)

lemma refresh_ok:
  assumes "refuses_empty_url (fe_links F)" and "catalog_ok r"
  shows "catalog_ok (fst (refresh F i hwid now saved r))"
proof (cases "position (\<lambda>s. sub_id s = i) (rg_subscriptions r)")
  case (Some k)
  with position_SomeD [OF Some] have k: "k < length (rg_subscriptions r)" by blast
  note g = sub_refresh_group_ok [OF assms(1) catalog_ok_group [OF assms(2) k]]
  show ?thesis
    using Some assms(2) g k
    by (auto simp: refresh_def Let_def split: sum.splits intro!: catalog_ok_assign catalog_ok_update)
qed (use assms(2) in \<open>simp add: refresh_def\<close>)

lemma refresh_step_ok:
  assumes "refuses_empty_url (fe_links F)" and "catalog_ok (r\<lparr>rg_subscriptions := fst acc\<rparr>)"
  shows "catalog_ok (r\<lparr>rg_subscriptions := fst (refresh_step F ua hwid now acc i)\<rparr>)"
proof (cases "position (\<lambda>s. sub_id s = i) (fst acc)")
  case (Some k)
  let ?r = "r\<lparr>rg_subscriptions := fst acc\<rparr>"
  from position_SomeD [OF Some] have k: "k < length (rg_subscriptions ?r)" by simp
  note g = sub_refresh_group_ok [OF assms(1) catalog_ok_group [OF assms(2) k]]
  show ?thesis
    using Some assms(2) g k catalog_ok_update [OF assms(2) k]
    by (cases acc) (auto simp: refresh_step_def Let_def split: sum.splits)
qed (use assms(2) in \<open>cases acc; simp add: refresh_step_def\<close>)

lemma refresh_all_ok:
  assumes "refuses_empty_url (fe_links F)" and "catalog_ok r"
  shows "catalog_ok (fst (refresh_all F hwid now saved r))"
proof -
  have "catalog_ok (r\<lparr>rg_subscriptions := fst (foldl (refresh_step F ua hwid now) (rg_subscriptions r, []) ids)\<rparr>)" for ua ids
    by (rule foldl_inv [where P = "\<lambda>acc. catalog_ok (r\<lparr>rg_subscriptions := fst acc\<rparr>)"])
       (use assms(2) in \<open>simp_all add: refresh_step_ok [OF assms(1)]\<close>)
  then show ?thesis
    by (simp add: refresh_all_def Let_def split_beta catalog_ok_assign)
qed

lemma remove_subscription_ok: "catalog_ok r \<Longrightarrow> catalog_ok (fst (remove_subscription i saved r))"
  using catalog_ok_filter [of r "\<lambda>s. sub_id s \<noteq> i"]
  by (simp add: remove_subscription_def catalog_ok_def)

section \<open>The local group keeps its shape\<close>

lemma local_group_index_ok:
  assumes "catalog_ok r" and "local_group_index (rg_subscriptions r) = (subs, i)"
  shows "catalog_ok (r\<lparr>rg_subscriptions := subs\<rparr>) \<and> i < length subs \<and> sub_id (subs ! i) = local_id"
proof (cases "position (\<lambda>s. sub_id s = local_id) (rg_subscriptions r)")
  case None
  then have "local_id \<notin> sub_id ` set (rg_subscriptions r)" by (auto simp: position_None_iff)
  moreover have "group_ok ((subscription_new [] (Some ''My servers''))\<lparr>sub_id := local_id\<rparr>)"
    by (simp add: group_ok_def subscription_new_def)
  ultimately show ?thesis
    using None assms catalog_ok_add [OF assms(1)] by (auto simp: local_group_index_def)
next
  case (Some k)
  with position_SomeD [OF Some] assms show ?thesis by (auto simp: local_group_index_def)
qed

lemma push_server_ok:
  assumes "catalog_ok (r\<lparr>rg_subscriptions := subs\<rparr>)" and "i < length subs" and "sub_id (subs ! i) = local_id"
    and "\<forall>s\<in>set (sub_servers (subs ! i)). srv_id s \<noteq> srv_id server"
  shows "catalog_ok (r\<lparr>rg_subscriptions := push_server i server subs\<rparr>)"
proof -
  have "group_ok (subs ! i)" using catalog_ok_group [OF assms(1)] assms(2) by simp
  then have "group_ok ((subs ! i)\<lparr>sub_servers := sub_servers (subs ! i) @ [server]\<rparr>)"
    using assms(3,4) by (auto simp: group_ok_def)
  with catalog_ok_update [OF assms(1), of i] assms(2) show ?thesis by (simp add: push_server_def)
qed

lemma push_server_nth [simp]:
  "i < length subs \<Longrightarrow> sub_id (push_server i server subs ! i) = sub_id (subs ! i)"
  "length (push_server i server subs) = length subs"
  by (simp_all add: push_server_def)

lemma import_links_ok:
  assumes "catalog_ok r"
  shows "catalog_ok (fst (import_links L txt saved r))"
proof -
  obtain subs i where idx: "local_group_index (rg_subscriptions r) = (subs, i)" by (rule prod.exhaust)
  note g = local_group_index_ok [OF assms idx]
  have "catalog_ok (r\<lparr>rg_subscriptions := fst (foldl (import_step i) (subs, 0) parsed)\<rparr>)
      \<and> i < length (fst (foldl (import_step i) (subs, 0) parsed))
      \<and> sub_id (fst (foldl (import_step i) (subs, 0) parsed) ! i) = local_id" for parsed
  proof (rule foldl_inv [where P = "\<lambda>acc. catalog_ok (r\<lparr>rg_subscriptions := fst acc\<rparr>) \<and> i < length (fst acc)
      \<and> sub_id (fst acc ! i) = local_id"])
    fix acc :: "jv subscription list \<times> nat" and server
    assume a: "catalog_ok (r\<lparr>rg_subscriptions := fst acc\<rparr>) \<and> i < length (fst acc) \<and> sub_id (fst acc ! i) = local_id"
    show "catalog_ok (r\<lparr>rg_subscriptions := fst (import_step i acc server)\<rparr>) \<and> i < length (fst (import_step i acc server))
      \<and> sub_id (fst (import_step i acc server) ! i) = local_id"
      using a push_server_ok [where r = r and subs = "fst acc" and i = i and server = server]
      by (cases acc) (auto simp: import_step_def list_ex_iff)
  qed (use g in simp)
  with idx assms show ?thesis
    by (auto simp: import_links_def Let_def split_beta intro!: catalog_ok_assign)
qed

lemma add_server_ok: "catalog_ok r \<Longrightarrow> catalog_ok (fst (add_server server saved r))"
proof -
  assume ok: "catalog_ok r"
  obtain subs i where idx: "local_group_index (rg_subscriptions r) = (subs, i)" by (rule prod.exhaust)
  note g = local_group_index_ok [OF ok idx]
  show ?thesis
  proof (cases "List.find (\<lambda>s. srv_id s = srv_id server) (sub_servers (subs ! i))")
    case None
    then have "\<forall>s\<in>set (sub_servers (subs ! i)). srv_id s \<noteq> srv_id server" by (simp add: find_None_iff_set)
    with g None idx show ?thesis
      by (simp add: add_server_def Let_def catalog_ok_assign push_server_ok)
  next
    case (Some existing)
    with g idx show ?thesis by (simp add: add_server_def)
  qed
qed

lemma remove_server_ok: "catalog_ok r \<Longrightarrow> catalog_ok (fst (remove_server i saved r))"
proof -
  assume ok: "catalog_ok r"
  let ?P = "\<lambda>s. \<not> (sub_id s = local_id \<and> sub_servers s = [])"
  show ?thesis
  proof (cases "position (\<lambda>s. sub_id s = local_id) (rg_subscriptions r)")
    case None
    with catalog_ok_filter [OF ok, of ?P] show ?thesis by (simp add: remove_server_def)
  next
    case (Some k)
    from position_SomeD [OF Some] have k: "k < length (rg_subscriptions r)" "sub_id (rg_subscriptions r ! k) = local_id"
      by blast+
    let ?g = "(rg_subscriptions r ! k)\<lparr>sub_servers := filter (\<lambda>s. srv_id s \<noteq> i) (sub_servers (rg_subscriptions r ! k))\<rparr>"
    have "group_ok ?g"
      using catalog_ok_group [OF ok k(1)] k(2) by (auto simp: group_ok_def distinct_map_filter)
    from catalog_ok_update [OF ok k(1) _ this]
    have "catalog_ok (r\<lparr>rg_subscriptions := (rg_subscriptions r)[k := ?g]\<rparr>)" by simp
    from catalog_ok_filter [OF this, of ?P] Some show ?thesis by (simp add: remove_server_def)
  qed
qed

lemma server_at_id: "locate_server r i = Some p \<Longrightarrow> srv_id (server_at r p) = i"
  using locate_server_SomeD by blast

lemma update_server_ok: "catalog_ok r \<Longrightarrow> catalog_ok (fst (update_server E i d saved r))"
  by (auto simp: update_server_def Let_def server_at_id split: sum.split option.split intro!: catalog_ok_put_server)

lemma right_option_iff: "(case x of Inl _ \<Rightarrow> None | Inr s \<Rightarrow> Some s) = Some y \<longleftrightarrow> x = Inr y"
  by (cases x) auto

lemma apply_overrides_id: "apply_overrides E server values = Some s \<Longrightarrow> srv_id s = srv_id server"
  by (auto simp: apply_overrides_def bind_eq_Some_conv right_option_iff)

lemma drop_server_override_ok: "catalog_ok r \<Longrightarrow> catalog_ok (fst (drop_server_override E i field saved r))"
  by (auto simp: drop_server_override_def Let_def server_at_id split: option.split
      dest!: apply_overrides_id intro!: catalog_ok_put_server)

lemma set_server_alias_ok: "catalog_ok r \<Longrightarrow> catalog_ok (fst (set_server_alias i name saved r))"
  by (auto simp: set_server_alias_def server_at_id split: option.split intro!: catalog_ok_put_server)

lemma trust_certificate_ok: "catalog_ok r \<Longrightarrow> catalog_ok (fst (trust_certificate i sha saved r))"
  by (auto simp: trust_certificate_def Let_def split_beta server_at_id split: option.split intro!: catalog_ok_put_server)

lemma set_hwid_ok: "catalog_ok r \<Longrightarrow> catalog_ok (fst (set_hwid i enabled saved r))"
  by (auto simp: set_hwid_def split: option.split dest!: position_SomeD intro!: catalog_ok_update group_ok_servers [OF catalog_ok_group])

lemma set_subscription_user_agent_ok: "catalog_ok r \<Longrightarrow> catalog_ok (fst (set_subscription_user_agent i ua saved r))"
  by (auto simp: set_subscription_user_agent_def split: option.split dest!: position_SomeD
      intro!: catalog_ok_update group_ok_servers [OF catalog_ok_group])

section \<open>Committing answers\<close>

text \<open>What a prepared target knows of the catalog it was prepared from.\<close>

definition prepared :: "registry \<Rightarrow> subscription_target \<Rightarrow> bool" where
  "prepared r0 t \<longleftrightarrow> (\<exists>operation targets refreshing_all.
     prepare_subscription_update operation r0 = Inr (targets, refreshing_all) \<and> t \<in> set targets)"

lemma update_target_fields [simp]:
  "st_id (update_target r sub b) = sub_id sub" "st_epoch (update_target r sub b) = rg_epochs r (sub_id sub)"
  "st_request (update_target r sub b) =
     \<lparr>sf_url = sub_url sub, sf_user_agent = sub_user_agent_of r sub, sf_send_hwid = sub_send_hwid sub\<rparr>"
  "st_baseline (update_target r sub b) = b"
  by (simp_all add: update_target_def)

lemma subscription_new_fields [simp]:
  "sub_id (subscription_new url name) = stable_id url" "sub_url (subscription_new url name) = url"
  "sub_user_agent (subscription_new url name) = None" "sub_servers (subscription_new url name) = []"
  by (simp_all add: subscription_new_def)

lemma prepared_cases:
  assumes "prepared r0 t"
  shows "(\<exists>url name h. t = update_target r0 ((subscription_new url name)\<lparr>sub_send_hwid := h\<rparr>)
        (Add_Baseline name (map_option stored_form (find_subscription r0 (stable_id url)))))
    \<or> (\<exists>sub\<in>set (rg_subscriptions r0). t = refresh_target r0 sub)"
proof -
  obtain operation targets refreshing_all where
    p: "prepare_subscription_update operation r0 = Inr (targets, refreshing_all)" "t \<in> set targets"
    using assms by (auto simp: prepared_def)
  show ?thesis
  proof (cases operation)
    case (Add_Subscription url name h)
    with p have "t = update_target r0 ((subscription_new url name)\<lparr>sub_send_hwid := h\<rparr>)
        (Add_Baseline name (map_option stored_form (find_subscription r0 (stable_id url))))"
      by (auto simp: prepare_subscription_update_def Let_def)
    then show ?thesis by blast
  next
    case (Refresh_One i)
    with p show ?thesis
      by (auto simp: prepare_subscription_update_def or_bail_def find_subscription_def dest: find_SomeD split: option.splits)
  next
    case Refresh_All
    with p show ?thesis by (auto simp: prepare_subscription_update_def)
  qed
qed

lemma prepared_facts:
  assumes "prepared r0 t"
  shows "st_epoch t = rg_epochs r0 (st_id t)"
    and "st_baseline t = Add_Baseline name existing \<Longrightarrow> st_id t = stable_id (sf_url (st_request t))"
  using prepared_cases [OF assms] by (auto simp: refresh_target_def)

definition answers :: "(subscription_target \<times> (catalog_error + fetch_result)) list \<Rightarrow> bool" where
  "answers results \<longleftrightarrow> (\<forall>(t, res) \<in> set results. (\<exists>r0. prepared r0 t)
     \<and> (sf_url (st_request t) = [] \<longrightarrow> (\<exists>e. res = Inl e)))"

lemma update_fetch_answers:
  assumes "refuses_empty_url (fe_links F)" and "\<forall>t\<in>set targets. \<exists>r0. prepared r0 t"
  shows "answers (update_fetch views (fetch_subscription F) hwid targets)"
proof -
  have "\<exists>e. fetch_target validate (fetch_subscription F) hwid t = Inl e" if empty: "sf_url (st_request t) = []" for validate t
  proof -
    obtain e where "fetch_subscription F (st_request t) (if sf_send_hwid (st_request t) then hwid else None) = Inl e"
      using fetch_empty [OF assms(1), of "sf_user_agent (st_request t)" "sf_send_hwid (st_request t)"
          "if sf_send_hwid (st_request t) then hwid else None"]
      unfolding fetch_subscription_def empty by blast
    then show ?thesis
      by (cases "validate t") (auto simp: fetch_target_def and_then_def)
  qed
  moreover have "t \<in> set targets \<and> (\<exists>validate. res = fetch_target validate (fetch_subscription F) hwid t)"
    if "(t, res) \<in> set (update_fetch views (fetch_subscription F) hwid targets)" for t res
    using that set_zip_rightD by (force simp: update_fetch_def)
  ultimately show ?thesis
    using assms(2) unfolding answers_def by blast
qed

lemma validate_refresh:
  assumes "validate_subscription_fetch r t = Inr ()" and "st_baseline t = Refresh_Baseline name ids"
  shows "\<exists>sub. find_subscription r (st_id t) = Some sub \<and> sub_url sub = sf_url (st_request t)
    \<and> sub_send_hwid sub = sf_send_hwid (st_request t) \<and> sub_user_agent_of r sub = sf_user_agent (st_request t)
    \<and> set ids \<subseteq> srv_id ` set (sub_servers sub)"
  using assms
  by (auto simp: validate_subscription_fetch_def or_bail_def Let_def list_ex_iff image_iff split: if_splits option.splits)

lemma validate_epoch: "validate_subscription_fetch r t = Inr () \<Longrightarrow> rg_epochs r (st_id t) = st_epoch t"
  by (auto simp: validate_subscription_fetch_def split: if_splits)

lemma find_position:
  assumes "distinct (map f xs)" and "List.find (\<lambda>x. f x = i) xs = Some y" and "position (\<lambda>x. f x = i) xs = Some k"
  shows "xs ! k = y"
  using assms position_SomeD [OF assms(3)] find_SomeD [OF assms(2)]
  by (metis distinct_map in_set_conv_nth inj_on_contraD nth_mem)

lemma commit_target_ok:
  assumes ok: "catalog_ok r" and t: "prepared r0 t" and url: "sf_url (st_request t) = [] \<longrightarrow> (\<exists>e. res = Inl e)"
    and commit: "commit_target E now r t res = Inr r'"
  shows "catalog_ok r' \<and> rg_epochs r' = rg_epochs r"
proof -
  obtain response where res: "res = Inr response" using commit by (cases res) (auto simp: commit_target_def and_then_def)
  with url have url: "sf_url (st_request t) \<noteq> []" by auto
  have valid: "validate_subscription_fetch r t = Inr ()"
    using commit res by (cases "validate_subscription_fetch r t") (auto simp: commit_target_def and_then_def)
  show ?thesis
  proof (cases "st_baseline t")
    case (Add_Baseline name existing)
    note i = prepared_facts(2) [OF t Add_Baseline]
    let ?sub = "apply_fetch E ((subscription_new (sf_url (st_request t)) name)\<lparr>sub_send_hwid := sf_send_hwid (st_request t)\<rparr>) response now"
    have g: "group_ok ?sub" by (rule group_ok_servers [OF new_group_ok]) (simp_all add: stable_id_not_local)
    have sid: "sub_id ?sub = st_id t" using i by simp
    have "r' = r\<lparr>rg_subscriptions := put_subscription ?sub (rg_subscriptions r)\<rparr>"
      using commit res valid Add_Baseline sid
      by (simp add: commit_target_def and_then_def Let_def put_subscription_def split: option.splits)
    with put_subscription_ok [OF ok g] show ?thesis by simp
  next
    case (Refresh_Baseline name ids)
    obtain sub where sub: "find_subscription r (st_id t) = Some sub" "sub_url sub = sf_url (st_request t)"
      using validate_refresh [OF valid Refresh_Baseline] by blast
    obtain k where k: "position (\<lambda>s. sub_id s = st_id t) (rg_subscriptions r) = Some k"
      using position_ex [of sub "rg_subscriptions r" "\<lambda>s. sub_id s = st_id t"]
        find_SomeD [OF sub(1) [unfolded find_subscription_def]] by blast
    from position_SomeD [OF k] have kl: "k < length (rg_subscriptions r)" by simp
    have nth: "rg_subscriptions r ! k = sub"
      using ok by (intro find_position [OF _ sub(1) [unfolded find_subscription_def] k]) (simp add: catalog_ok_def)
    with catalog_ok_group [OF ok kl] url sub(2) have loc: "sub_id sub \<noteq> local_id" and gs: "group_ok sub"
      by (auto dest: group_ok_local)
    have "group_ok (apply_fetch E sub response' now)" for response'
      by (rule group_ok_servers [OF gs]) (use loc in simp_all)
    then have "catalog_ok (r\<lparr>rg_subscriptions := (rg_subscriptions r)[k := apply_fetch E sub response' now]\<rparr>)" for response'
      by (intro catalog_ok_update [OF ok kl]) (simp_all add: nth)
    moreover have "r' = r\<lparr>rg_subscriptions := (rg_subscriptions r)[k := apply_fetch E sub
        (if sub_name sub \<noteq> name then response\<lparr>fr_title := None\<rparr> else response) now]\<rparr>"
      using commit
      unfolding commit_target_def res and_then_def sum.case valid Refresh_Baseline subscription_baseline.case Let_def k
        or_bail_def option.case nth sum.inject by (rule sym)
    ultimately show ?thesis by simp
  qed
qed

lemma commit_fold:
  assumes "answers results" and "catalog_ok r"
  shows "catalog_ok (fst (foldl (commit_step E now) (r, errors, changed) results))
    \<and> rg_epochs (fst (foldl (commit_step E now) (r, errors, changed) results)) = rg_epochs r"
proof -
  have "catalog_ok (fst (foldl (commit_step E now) (r, errors, changed) results))
      \<and> rg_epochs (fst (foldl (commit_step E now) (r, errors, changed) results)) = rg_epochs r"
  proof (rule foldl_inv [where P = "\<lambda>acc. catalog_ok (fst acc) \<and> rg_epochs (fst acc) = rg_epochs r"])
    fix acc :: "registry \<times> (string \<times> catalog_error) list \<times> bool" and entry
    assume e: "entry \<in> set results" and acc: "catalog_ok (fst acc) \<and> rg_epochs (fst acc) = rg_epochs r"
    obtain t res where tr: "entry = (t, res)" by (cases entry)
    with assms(1) e obtain r0 where "prepared r0 t" and "sf_url (st_request t) = [] \<longrightarrow> (\<exists>e. res = Inl e)"
      by (fastforce simp: answers_def)
    from commit_target_ok [OF _ this, of "fst acc" E now] acc tr
    show "catalog_ok (fst (commit_step E now acc entry)) \<and> rg_epochs (fst (commit_step E now acc entry)) = rg_epochs r"
      by (cases acc) (auto simp: commit_step_def split: sum.split)
  qed (use assms(2) in simp)
  then show ?thesis .
qed

lemma apply_subscription_update_ok:
  assumes "answers results" and "catalog_ok r"
  shows "catalog_ok (fst (apply_subscription_update E now all results saved r))
    \<and> rg_epochs (fst (apply_subscription_update E now all results saved r)) = rg_epochs r"
  using commit_fold [OF assms, of E now "[]" False]
  by (auto simp: apply_subscription_update_def Let_def split_beta intro: catalog_ok_assign)

section \<open>The servers of the local group\<close>

definition local_servers :: "jv subscription list \<Rightarrow> jv server list" where
  "local_servers subs = (case List.find (\<lambda>s. sub_id s = local_id) subs of Some s \<Rightarrow> sub_servers s | None \<Rightarrow> [])"

abbreviation same_servers :: "jv server list \<Rightarrow> jv server list \<Rightarrow> bool" where
  "same_servers \<equiv> list_all2 same_but_alias"

lemma same_servers_refl [simp]: "same_servers xs xs"
  by (rule list_all2_refl) simp

lemma local_servers_assign: "same_servers (local_servers subs) (local_servers (assign subs))"
proof -
  have "same_servers (local_servers gs) (local_servers hs)" if "list_all2 same_group gs hs" for gs hs
    using that
  proof (induction rule: list_all2_induct)
    case (Cons g gs h hs)
    with same_groupD(1) [OF Cons(1)] show ?case by (auto simp: local_servers_def same_group_def)
  qed simp
  from this [OF assign_same_groups] show ?thesis .
qed

lemma local_servers_update:
  "k < length subs \<Longrightarrow> sub_id (subs ! k) \<noteq> local_id \<Longrightarrow> sub_id g \<noteq> local_id \<Longrightarrow> local_servers (subs[k := g]) = local_servers subs"
proof (induction subs arbitrary: k)
  case (Cons s subs)
  then show ?case by (cases k) (auto simp: local_servers_def)
qed simp

lemma local_servers_append: "sub_id g \<noteq> local_id \<Longrightarrow> local_servers (subs @ [g]) = local_servers subs"
  by (induction subs) (auto simp: local_servers_def)

lemma local_servers_put:
  "sub_id g \<noteq> local_id \<Longrightarrow> local_servers (put_subscription g subs) = local_servers subs"
  by (auto simp: put_subscription_def local_servers_append local_servers_update split: option.split dest: position_SomeD)

lemma local_servers_refresh_step:
  assumes "refuses_empty_url (fe_links F)" and "catalog_ok (r\<lparr>rg_subscriptions := fst acc\<rparr>)"
  shows "local_servers (fst (refresh_step F ua hwid now acc i)) = local_servers (fst acc)"
proof (cases "position (\<lambda>s. sub_id s = i) (fst acc)")
  case (Some k)
  from position_SomeD [OF Some] have k: "k < length (fst acc)" by simp
  then have "group_ok (fst acc ! k)" using catalog_ok_group [OF assms(2)] by simp
  note g = sub_refresh_group_ok [OF assms(1) this]
  show ?thesis
    using Some k g by (cases acc) (auto simp: refresh_step_def Let_def local_servers_update split: sum.split)
qed (cases acc; simp add: refresh_step_def)

lemma local_servers_commit:
  assumes ok: "catalog_ok r" and t: "prepared r0 t" and url: "sf_url (st_request t) = [] \<longrightarrow> (\<exists>e. res = Inl e)"
    and commit: "commit_target E now r t res = Inr r'"
  shows "local_servers (rg_subscriptions r') = local_servers (rg_subscriptions r)"
proof -
  obtain response where res: "res = Inr response" using commit by (cases res) (auto simp: commit_target_def and_then_def)
  with url have url: "sf_url (st_request t) \<noteq> []" by auto
  have valid: "validate_subscription_fetch r t = Inr ()"
    using commit res by (cases "validate_subscription_fetch r t") (auto simp: commit_target_def and_then_def)
  show ?thesis
  proof (cases "st_baseline t")
    case (Add_Baseline name existing)
    note i = prepared_facts(2) [OF t Add_Baseline]
    then show ?thesis
      using commit res valid Add_Baseline
      by (auto simp: commit_target_def and_then_def Let_def local_servers_append local_servers_update stable_id_not_local
          split: option.splits dest!: position_SomeD)
  next
    case (Refresh_Baseline name ids)
    obtain sub where sub: "List.find (\<lambda>s. sub_id s = st_id t) (rg_subscriptions r) = Some sub" "sub_url sub = sf_url (st_request t)"
      using validate_refresh [OF valid Refresh_Baseline] by (auto simp: find_subscription_def)
    from find_SomeD [OF sub(1)] ok url sub(2) have "st_id t \<noteq> local_id"
      by (auto simp: catalog_ok_def group_ok_def)
    then show ?thesis
      using commit res valid Refresh_Baseline
      by (auto simp: commit_target_def and_then_def or_bail_def Let_def local_servers_update
          split: option.splits dest!: position_SomeD)
  qed
qed

lemma local_servers_commit_fold:
  assumes "answers results" and "catalog_ok r"
  shows "local_servers (rg_subscriptions (fst (foldl (commit_step E now) (r, errors, changed) results)))
    = local_servers (rg_subscriptions r)"
proof -
  have "catalog_ok (fst (foldl (commit_step E now) (r, errors, changed) results))
      \<and> local_servers (rg_subscriptions (fst (foldl (commit_step E now) (r, errors, changed) results)))
        = local_servers (rg_subscriptions r)"
  proof (rule foldl_inv [where P = "\<lambda>acc. catalog_ok (fst acc)
      \<and> local_servers (rg_subscriptions (fst acc)) = local_servers (rg_subscriptions r)"])
    fix acc :: "registry \<times> (string \<times> catalog_error) list \<times> bool" and entry
    assume e: "entry \<in> set results"
      and acc: "catalog_ok (fst acc) \<and> local_servers (rg_subscriptions (fst acc)) = local_servers (rg_subscriptions r)"
    obtain t res where tr: "entry = (t, res)" by (cases entry)
    with assms(1) e obtain r0 where t: "prepared r0 t" "sf_url (st_request t) = [] \<longrightarrow> (\<exists>e. res = Inl e)"
      by (fastforce simp: answers_def)
    from commit_target_ok [OF _ t, of "fst acc" E now] local_servers_commit [OF _ t, of "fst acc" E now] acc tr
    show "catalog_ok (fst (commit_step E now acc entry))
        \<and> local_servers (rg_subscriptions (fst (commit_step E now acc entry))) = local_servers (rg_subscriptions r)"
      by (cases acc) (auto simp: commit_step_def split: sum.split)
  qed (use assms(2) in simp)
  then show ?thesis ..
qed

lemma local_servers_refresh_all:
  assumes "refuses_empty_url (fe_links F)" and "catalog_ok r"
  shows "same_servers (local_servers (rg_subscriptions r)) (local_servers (rg_subscriptions (fst (refresh_all F hwid now saved r))))"
proof -
  have "catalog_ok (r\<lparr>rg_subscriptions := fst (foldl (refresh_step F ua hwid now) (rg_subscriptions r, []) ids)\<rparr>)
      \<and> local_servers (fst (foldl (refresh_step F ua hwid now) (rg_subscriptions r, []) ids)) = local_servers (rg_subscriptions r)" for ua ids
    by (rule foldl_inv [where P = "\<lambda>acc. catalog_ok (r\<lparr>rg_subscriptions := fst acc\<rparr>)
          \<and> local_servers (fst acc) = local_servers (rg_subscriptions r)"])
       (use assms(2) in \<open>simp_all add: refresh_step_ok [OF assms(1)] local_servers_refresh_step [OF assms(1), where r = r]\<close>)
  then have "same_servers (local_servers (rg_subscriptions r))
      (local_servers (assign (fst (foldl (refresh_step F ua hwid now) (rg_subscriptions r, []) ids))))" for ua ids
    using local_servers_assign by metis
  then show ?thesis by (simp add: refresh_all_def Let_def split_beta)
qed

lemma local_servers_refresh:
  assumes "refuses_empty_url (fe_links F)" and "catalog_ok r"
  shows "same_servers (local_servers (rg_subscriptions r)) (local_servers (rg_subscriptions (fst (refresh F i hwid now saved r))))"
proof (cases "position (\<lambda>s. sub_id s = i) (rg_subscriptions r)")
  case (Some k)
  with position_SomeD [OF Some] have k: "k < length (rg_subscriptions r)" by blast
  note g = sub_refresh_group_ok [OF assms(1) catalog_ok_group [OF assms(2) k]]
  have "same_servers (local_servers (rg_subscriptions r)) (local_servers (assign ((rg_subscriptions r)[k := h])))"
    if "sub_refresh F (rg_subscriptions r ! k) ua hw now = Inr h" for h ua hw
    using local_servers_assign [of "(rg_subscriptions r)[k := h]"] g [OF that] local_servers_update [OF k, of h] by simp
  with Some show ?thesis by (auto simp: refresh_def Let_def split: sum.split)
qed (simp add: refresh_def)

section \<open>Any sequence of operations\<close>

text \<open>A step is one operation of the engine or of the daemon under the lock; a commit takes answers to
targets that were prepared at any time. \<open>F\<close> is what the environment does.\<close>

inductive catalog_step :: "fetch_env \<Rightarrow> registry \<Rightarrow> registry \<Rightarrow> bool" for F where
  cs_add: "catalog_step F r (fst (add_subscription F url name send_hwid hwid now saved r))"
| cs_refresh: "catalog_step F r (fst (refresh F i hwid now saved r))"
| cs_refresh_all: "catalog_step F r (fst (refresh_all F hwid now saved r))"
| cs_remove: "catalog_step F r (fst (remove_subscription i saved r))"
| cs_import: "catalog_step F r (fst (import_links (fe_links F) txt saved r))"
| cs_add_server: "catalog_step F r (fst (add_server server saved r))"
| cs_remove_server: "catalog_step F r (fst (remove_server i saved r))"
| cs_update_server: "catalog_step F r (fst (update_server (le_import (fe_links F)) i d saved r))"
| cs_drop_override: "catalog_step F r (fst (drop_server_override (le_import (fe_links F)) i field saved r))"
| cs_alias: "catalog_step F r (fst (set_server_alias i name saved r))"
| cs_trust: "catalog_step F r (fst (trust_certificate i sha256 saved r))"
| cs_hwid: "catalog_step F r (fst (set_hwid i enabled saved r))"
| cs_user_agent: "catalog_step F r (fst (set_subscription_user_agent i ua saved r))"
| cs_settings: "catalog_step F r (r\<lparr>rg_user_agent := ua\<rparr>)"
| cs_commit: "\<forall>t\<in>set targets. \<exists>r0. prepared r0 t \<Longrightarrow>
    catalog_step F r (fst (apply_subscription_update (le_import (fe_links F)) now refreshing_all
      (update_fetch views (fetch_subscription F) hwid targets) saved r))"

lemma catalog_step_ok: "catalog_step F r r' \<Longrightarrow> refuses_empty_url (fe_links F) \<Longrightarrow> catalog_ok r \<Longrightarrow> catalog_ok r'"
proof (induction rule: catalog_step.induct)
  case (cs_settings r ua)
  then show ?case by (simp add: catalog_ok_def)
next
  case (cs_commit targets r now refreshing_all views hwid saved)
  then show ?case using apply_subscription_update_ok [OF update_fetch_answers] by blast
qed (simp_all add: add_subscription_ok refresh_ok refresh_all_ok remove_subscription_ok import_links_ok add_server_ok
  remove_server_ok update_server_ok drop_server_override_ok set_server_alias_ok trust_certificate_ok set_hwid_ok
  set_subscription_user_agent_ok)

text \<open>The removal counters never go back, and only a removal moves one.\<close>

lemma epochs_simps:
  "rg_epochs (fst (add_subscription F url name send_hwid hwid now saved r)) = rg_epochs r"
  "rg_epochs (fst (refresh F i hwid now saved r)) = rg_epochs r"
  "rg_epochs (fst (refresh_all F hwid now saved r)) = rg_epochs r"
  "rg_epochs (fst (import_links L txt saved r)) = rg_epochs r"
  "rg_epochs (fst (add_server server saved r)) = rg_epochs r"
  "rg_epochs (fst (remove_server i saved r)) = rg_epochs r"
  "rg_epochs (fst (update_server E i d saved r)) = rg_epochs r"
  "rg_epochs (fst (drop_server_override E i field saved r)) = rg_epochs r"
  "rg_epochs (fst (set_server_alias i alias' saved r)) = rg_epochs r"
  "rg_epochs (fst (trust_certificate i sha256 saved r)) = rg_epochs r"
  "rg_epochs (fst (set_hwid i enabled saved r)) = rg_epochs r"
  "rg_epochs (fst (set_subscription_user_agent i ua saved r)) = rg_epochs r"
  "rg_epochs (put_server_at p server r) = rg_epochs r"
  by (simp_all add: add_subscription_def refresh_def refresh_all_def import_links_def add_server_def remove_server_def
      update_server_def drop_server_override_def set_server_alias_def trust_certificate_def set_hwid_def
      set_subscription_user_agent_def put_server_at_def Let_def split_beta split: sum.split option.split)

lemma commit_target_epochs: "commit_target E now r t res = Inr r' \<Longrightarrow> rg_epochs r' = rg_epochs r"
  by (auto simp: commit_target_def and_then_def or_bail_def Let_def
      split: sum.splits subscription_baseline.splits option.splits)

lemma update_epochs: "rg_epochs (fst (apply_subscription_update E now all results saved r)) = rg_epochs r"
proof -
  have "rg_epochs (fst (foldl (commit_step E now) (r, [], False) results)) = rg_epochs r"
    by (rule foldl_inv [where P = "\<lambda>acc. rg_epochs (fst acc) = rg_epochs r"])
       (auto simp: commit_step_def split_beta split: sum.split dest: commit_target_epochs)
  then show ?thesis by (simp add: apply_subscription_update_def Let_def split_beta)
qed

lemma catalog_step_epochs: "catalog_step F r r' \<Longrightarrow> rg_epochs r i \<le> rg_epochs r' i"
  by (induction rule: catalog_step.induct) (simp_all add: epochs_simps update_epochs remove_subscription_def)

text \<open>A target the check refuses is refused whatever its answer.\<close>

lemma invalid_target_refused:
  "\<not> is_ok (validate_subscription_fetch r t) \<Longrightarrow> \<exists>e. commit_target E now r t res = Inl e"
  by (cases res; cases "validate_subscription_fetch r t") (auto simp: commit_target_def and_then_def is_ok_def)

section \<open>Stamped answers\<close>

text \<open>
  The contract behind answers that come back late: a state has a counter per key that no step moves back,
  a request carries the counter it was made at, and only a request with the current counter is accepted.
  Whatever moved the counter in between, the request is refused for good.
\<close>

locale stamped_answers =
  fixes step :: "'s \<Rightarrow> 's \<Rightarrow> bool"
    and counter :: "'s \<Rightarrow> 'k \<Rightarrow> nat"
    and accepts :: "'s \<Rightarrow> 't \<Rightarrow> bool"
    and key :: "'t \<Rightarrow> 'k"
    and stamp :: "'t \<Rightarrow> nat"
  assumes step_mono: "step s s' \<Longrightarrow> counter s k \<le> counter s' k"
    and accepts_current: "accepts s t \<Longrightarrow> counter s (key t) = stamp t"
begin

lemma steps_mono: "step\<^sup>*\<^sup>* s s' \<Longrightarrow> counter s k \<le> counter s' k"
  by (induction rule: rtranclp_induct) (auto dest: step_mono intro: order_trans)

lemma refused_after_move:
  assumes "counter s0 (key t) = stamp t" and "step\<^sup>*\<^sup>* s0 s1" and "counter s1 (key t) < counter s2 (key t)" and "step\<^sup>*\<^sup>* s2 s3"
  shows "\<not> accepts s3 t"
  using assms(1,3) steps_mono [OF assms(2), of "key t"] steps_mono [OF assms(4), of "key t"] accepts_current [of s3 t]
  by auto

end

interpretation fetched: stamped_answers "catalog_step F" rg_epochs
    "\<lambda>r t. is_ok (validate_subscription_fetch r t)" st_id st_epoch
  for F
  by unfold_locales (auto simp: is_ok_def catalog_step_epochs validate_subscription_fetch_def split: if_splits)

section \<open>Properties\<close>

text \<open>C9: the catalog keeps its shape through every sequence of operations and late answers: subscription
identifiers are pairwise different, every group but the local one is identified by its URL, the local group
has no URL and its servers have pairwise different identifiers. (\<open>Url::parse\<close> refuses the empty text.)\<close>

theorem catalog_invariant:
  assumes "(catalog_step F)\<^sup>*\<^sup>* r r'" and "refuses_empty_url (fe_links F)" and "catalog_ok r"
  shows "catalog_ok r'"
  using assms by (induction rule: rtranclp_induct) (auto dest: catalog_step_ok)

text \<open>C10: a removal is final for the answers under way: a target prepared before its subscription was
removed is refused when its answer comes back, whatever happened before and after the removal, even when
the same subscription was added again.\<close>

theorem removed_while_fetching_refused:
  assumes "prepared r0 t" and "(catalog_step F)\<^sup>*\<^sup>* r0 r1"
    and "(catalog_step F)\<^sup>*\<^sup>* (fst (remove_subscription (st_id t) saved r1)) r2"
  shows "\<exists>e. commit_target E now r2 t answer = Inl e"
proof (rule invalid_target_refused)
  have "rg_epochs r1 (st_id t) < rg_epochs (fst (remove_subscription (st_id t) saved r1)) (st_id t)"
    by (simp add: remove_subscription_def)
  with prepared_facts(1) [OF assms(1)] assms(2,3) show "\<not> is_ok (validate_subscription_fetch r2 t)"
    by (intro fetched.refused_after_move [of r0 t F r1]) simp_all
qed

text \<open>C12: no refresh, and no late answer, touches a server of the local group beyond its alias.\<close>

theorem updates_keep_local_servers:
  assumes "refuses_empty_url (fe_links F)" and "catalog_ok r" and "\<forall>t\<in>set targets. \<exists>r0. prepared r0 t"
  shows "same_servers (local_servers (rg_subscriptions r))
      (local_servers (rg_subscriptions (fst (apply_subscription_update E now refreshing_all
        (update_fetch views (fetch_subscription F) hwid targets) saved r))))
    \<and> same_servers (local_servers (rg_subscriptions r)) (local_servers (rg_subscriptions (fst (refresh F i hwid now saved r))))
    \<and> same_servers (local_servers (rg_subscriptions r)) (local_servers (rg_subscriptions (fst (refresh_all F hwid now saved r))))"
proof (intro conjI)
  let ?results = "update_fetch views (fetch_subscription F) hwid targets"
  have "local_servers (rg_subscriptions (fst (foldl (commit_step E now) (r, [], False) ?results))) = local_servers (rg_subscriptions r)"
    by (rule local_servers_commit_fold [OF update_fetch_answers [OF assms(1,3)] assms(2)])
  then show "same_servers (local_servers (rg_subscriptions r))
      (local_servers (rg_subscriptions (fst (apply_subscription_update E now refreshing_all ?results saved r))))"
    using local_servers_assign [of "rg_subscriptions (fst (foldl (commit_step E now) (r, [], False) ?results))"]
    by (simp add: apply_subscription_update_def Let_def split_beta)
qed (rule local_servers_refresh [OF assms(1,2)] local_servers_refresh_all [OF assms(1,2)])+

text \<open>C11: the device identifier is not sent against the user's choice: when the catalog of the moment of a
request does not have the subscription opted in, the outcome of a refresh does not depend on the identifier,
and no request with its header is made (a prepared refresh is refused as soon as the choice changed).\<close>

theorem no_identifier_without_consent:
  assumes "st_baseline t = Refresh_Baseline name ids"
    and "\<forall>sub. find_subscription view (st_id t) = Some sub \<longrightarrow> \<not> sub_send_hwid sub"
  shows "fetch_target (validate_subscription_fetch view) (fetch_subscription F) hwid t
      = fetch_target (validate_subscription_fetch view) (fetch_subscription F) None t
    \<and> (is_ok (validate_subscription_fetch view t) \<longrightarrow>
        (\<forall>ua. \<forall>(header, _) \<in> set (request_headers F ua (sf_send_hwid (st_request t)) hwid). header = ''User-Agent''))"
proof (cases "validate_subscription_fetch view t")
  case (Inl e)
  then show ?thesis by (simp add: fetch_target_def and_then_def is_ok_def)
next
  case (Inr u)
  then have "\<not> sf_send_hwid (st_request t)"
    using validate_refresh [OF _ assms(1), of view] assms(2) by auto
  then show ?thesis by (auto simp: fetch_target_def request_headers_def split: option.split)
qed

section \<open>Concrete catalogs\<close>

definition demo_links :: link_env where
  "demo_links = \<lparr>le_import = \<lparr>ie_base64 = (\<lambda>_. None), ie_link = (\<lambda>_. None), ie_print = (\<lambda>_. None),
       ie_spec_value = (\<lambda>_. JNull), ie_spec_text = (\<lambda>_. None)\<rparr>,
     le_url = (\<lambda>_. None), le_percent = (\<lambda>s. s), le_base64_no_pad = (\<lambda>_. None), le_base64_url = (\<lambda>_. None),
     le_base64_url_no_pad = (\<lambda>_. None), le_json = (\<lambda>_. None), le_yaml = (\<lambda>_. None)\<rparr>"

definition demo_fetch :: fetch_env where
  "demo_fetch = \<lparr>fe_links = demo_links, fe_arch = ''x86_64'', fe_call = (\<lambda>_ _. Inl (Http_Status 404))\<rparr>"

definition demo_server :: "string \<Rightarrow> jv server" where
  "demo_server i = \<lparr>srv_id = i, srv_name = ''node'', srv_protocol = PSocks, srv_address = ''a.example'', srv_port = 1080,
     srv_transport_label = ''socks'', srv_country = None, srv_spec = Socks None None, srv_link = None, srv_alias = None,
     srv_outbound_patch = None, srv_overrides = None, srv_latency_ms = None\<rparr>"

definition demo_group :: "jv subscription" where
  "demo_group = (subscription_new ''u'' (Some ''Panel''))\<lparr>sub_servers := [demo_server ''s1'']\<rparr>"

definition demo_registry :: registry where
  "demo_registry = \<lparr>rg_user_agent = [], rg_subscriptions = [demo_group], rg_epochs = (\<lambda>_. 0)\<rparr>"

lemma demo_facts: "refuses_empty_url (fe_links demo_fetch)" "catalog_ok demo_registry"
  "prepared demo_registry (refresh_target demo_registry demo_group)"
proof -
  show "refuses_empty_url (fe_links demo_fetch)" by (simp add: refuses_empty_url_def demo_fetch_def demo_links_def)
  show "catalog_ok demo_registry"
    by (simp add: catalog_ok_def group_ok_def demo_registry_def demo_group_def stable_id_not_local)
  have "prepare_subscription_update (Refresh_One (stable_id ''u'')) demo_registry = Inr ([refresh_target demo_registry demo_group], False)"
    by (simp add: prepare_subscription_update_def find_subscription_def or_bail_def demo_registry_def demo_group_def)
  then show "prepared demo_registry (refresh_target demo_registry demo_group)"
    unfolding prepared_def by fastforce
qed

theorem catalog_invariant_witness: "catalog_ok (fst (add_server (demo_server ''s1'') True demo_registry))"
  by (rule catalog_invariant [OF _ demo_facts(1,2)]) (rule r_into_rtranclp [where r = "catalog_step demo_fetch"], rule cs_add_server)

theorem removed_while_fetching_refused_witness:
  "\<exists>e. commit_target (le_import demo_links) 0 (fst (remove_subscription (stable_id ''u'') True demo_registry))
     (refresh_target demo_registry demo_group) (Inl Save_Failed) = Inl e"
  using removed_while_fetching_refused [OF demo_facts(3) rtranclp.rtrancl_refl rtranclp.rtrancl_refl]
  by (simp add: refresh_target_def demo_group_def)

theorem updates_keep_local_servers_witness:
  "same_servers (local_servers (rg_subscriptions demo_registry))
     (local_servers (rg_subscriptions (fst (refresh_all demo_fetch None 0 True demo_registry))))"
  using updates_keep_local_servers [OF demo_facts(1,2), of "[]"] by simp

theorem no_identifier_without_consent_witness:
  "fetch_target (validate_subscription_fetch demo_registry) (fetch_subscription demo_fetch) (Some ''hw'')
       (refresh_target demo_registry demo_group)
   = fetch_target (validate_subscription_fetch demo_registry) (fetch_subscription demo_fetch) None
       (refresh_target demo_registry demo_group)"
  by (rule no_identifier_without_consent [THEN conjunct1, of _ "sub_name demo_group" "map srv_id (sub_servers demo_group)"])
     (auto simp: refresh_target_def find_subscription_def demo_registry_def demo_group_def subscription_new_def)

end
