(* ===== verification/Override_Laws.thy ===== *)
theory Override_Laws
  imports Draft_Diff Catalog_Laws
begin

text \<open>
  What the user decided about a server, and what a refresh does with it: an edit of a subscription's server
  is kept as overrides, and the refresh that brings the provider's copy again ends in the server as edited.
\<close>

section \<open>Reading a filled value\<close>

lemma jget_filled:
  assumes "as_object b = Some m" and "as_object a = Some n"
  shows "jget k (filled b a) = (case jget k a of Some v \<Rightarrow> Some (child_filled m k v)
    | None \<Rightarrow> if jget k b = None then None else Some JNull)"
proof -
  obtain n' where a: "a = JObj n" using assms(2) by (cases a) auto
  obtain m' where b: "b = JObj m" using assms(1) by (cases b) auto
  have gone: "k \<in> fst ` set (filter (\<lambda>(k, _). map_of n k = None) m) \<longleftrightarrow> map_of n k = None \<and> map_of m k \<noteq> None"
    by (force simp: map_of_eq_None_iff)
  show ?thesis
    unfolding a b filled.simps as_object.simps option.case jget_def fold_nulls_get filled_entries_get gone
    by (auto split: option.splits)
qed

lemma child_filled_leaf: "as_object v = None \<Longrightarrow> child_filled m k v = v"
  by (auto simp: child_filled_def split: option.split)

text \<open>An optional block: absent, or an object written by \<open>w\<close>.\<close>

lemma child_filled_block:
  assumes "map_of m k = Some (jopt (map_option w x))" and "\<And>y. as_object (w y) \<noteq> None"
  shows "child_filled m k (jopt (map_option w y)) =
    (case (x, y) of (Some u, Some v) \<Rightarrow> if w u = w v then w v else filled (w u) (w v) | _ \<Rightarrow> jopt (map_option w y))"
  using assms by (auto simp: child_filled_def simp del: not_None_eq split: option.split)

lemma filled_obfs: "filled (obfs_value x) (obfs_value y) = obfs_value y"
  by (simp add: obfs_value_def jobj_def)

lemma as_object_values [simp]:
  "as_object (jstr_opt x) = None" "as_object (jstrs_opt y) = None" "as_object (jnat_opt z) = None" "as_object (jnat n) = None"
  by (cases x; cases y; cases z; simp add: jstrs_def jnat_def)+

lemma read_opt_skip_null:
  "jget key v = map_option JStr x \<or> x = None \<and> jget key v = Some JNull \<Longrightarrow> read_opt key as_str v = Some x"
  by (cases x) (auto simp: read_opt_def read_field_def)

text \<open>The free JSON a draft carries loses no key on the way from one draft to the other.\<close>

definition keeps_keys :: "jv option \<Rightarrow> jv option \<Rightarrow> bool" where
  "keeps_keys x y \<longleftrightarrow> (\<forall>u v. x = Some u \<and> y = Some v \<and> as_object u \<noteq> None \<and> as_object v \<noteq> None \<longrightarrow> filled u v = v)"

definition stream_keeps :: "jv stream_settings option \<Rightarrow> jv stream_settings option \<Rightarrow> bool" where
  "stream_keeps x y \<longleftrightarrow> (\<forall>u v. x = Some u \<and> y = Some v \<longrightarrow> keeps_keys (ss_xhttp_extra u) (ss_xhttp_extra v))"

definition draft_keeps :: "draft \<Rightarrow> draft \<Rightarrow> bool" where
  "draft_keeps b d \<longleftrightarrow> keeps_keys (dr_outbound_patch b) (dr_outbound_patch d) \<and> stream_keeps (dr_stream b) (dr_stream d)"

lemma child_filled_free:
  assumes "map_of m k = Some (jopt x)" and "keeps_keys x y"
  shows "child_filled m k (jopt y) = jopt y"
  using assms by (cases x; cases y) (auto simp: child_filled_def keeps_keys_def)

lemma filled_object: "as_object b \<noteq> None \<Longrightarrow> as_object a \<noteq> None \<Longrightarrow> as_object (filled b a) \<noteq> None"
  by (cases b; cases a) auto

lemma stream_from_filled:
  assumes "ss_xhttp_extra v \<noteq> Some JNull" and "keeps_keys (ss_xhttp_extra u) (ss_xhttp_extra v)"
  shows "stream_from_value (filled (stream_value u) (stream_value v)) = Some v"
proof -
  obtain m where m: "stream_value u = JObj m" by (simp add: stream_value_def jobj_def)
  obtain n where n: "stream_value v = JObj n" by (simp add: stream_value_def jobj_def)
  let ?f = "filled (stream_value u) (stream_value v)"
  have get: "jget k ?f = (case jget k (stream_value v) of Some x \<Rightarrow> Some (child_filled m k x)
      | None \<Rightarrow> if jget k (stream_value u) = None then None else Some JNull)" for k
    by (rule jget_filled) (simp_all add: m n)
  have mget: "map_of m k = jget k (stream_value u)" for k by (simp add: m jget_def)
  have leaf: "jget k ?f = Some x" if "jget k (stream_value v) = Some x" "as_object x = None" for k x
    using that by (simp add: get child_filled_leaf)
  note f = stream_value_fields [of v]
  have extra: "jget ''xhttp_extra'' ?f = Some (jopt (ss_xhttp_extra v))"
    using child_filled_free [OF _ assms(2), of m "''xhttp_extra''"] by (simp add: get f(15) mget stream_value_fields(15) [of u])
  have skip: "jget k ?f = map_option JStr x \<or> x = None \<and> jget k ?f = Some JNull"
    if "jget k (stream_value v) = map_option JStr x" for k x
    using that by (cases x) (simp_all add: get child_filled_leaf)
  have obj: "as_object ?f \<noteq> None" by (rule filled_object) (rule stream_value_object)+
  show ?thesis
    unfolding stream_from_value_def
    by (simp add: read_struct_def obj del: not_None_eq)
       (simp add: f(1,2,6,17) [THEN leaf, THEN read_field_Some] f(3,5,7-14,16,18,19) [THEN leaf, THEN read_opt_str]
         f(4) [THEN leaf, THEN read_opt_strs] f(20-22) [THEN skip, THEN read_opt_skip_null]
         read_opt_any [OF extra assms(1)])
qed

lemma hysteria2_from_filled:
  assumes "hysteria2_ok v"
  shows "hysteria2_from_value (filled (hysteria2_value u) (hysteria2_value v)) = Some v"
proof -
  obtain m where m: "hysteria2_value u = JObj m" by (simp add: hysteria2_value_def jobj_def)
  obtain n where n: "hysteria2_value v = JObj n" by (simp add: hysteria2_value_def jobj_def)
  let ?f = "filled (hysteria2_value u) (hysteria2_value v)"
  have get: "jget k ?f = (case jget k (hysteria2_value v) of Some x \<Rightarrow> Some (child_filled m k x)
      | None \<Rightarrow> if jget k (hysteria2_value u) = None then None else Some JNull)" for k
    by (rule jget_filled) (simp_all add: m n)
  have mget: "map_of m k = jget k (hysteria2_value u)" for k by (simp add: m jget_def)
  have leaf: "jget k ?f = Some x" if "jget k (hysteria2_value v) = Some x" "as_object x = None" for k x
    using that by (simp add: get child_filled_leaf)
  note f = hysteria2_value_fields [of v]
  have "child_filled m ''obfs'' (jopt (map_option obfs_value (h2_obfs v))) = jopt (map_option obfs_value (h2_obfs v))"
    by (subst child_filled_block [where x = "h2_obfs u" and w = obfs_value])
       (auto simp: mget hysteria2_value_fields(5) value_objects(4) filled_obfs simp del: not_None_eq split: option.split)
  then have obfs: "jget ''obfs'' ?f = Some (jopt (map_option obfs_value (h2_obfs v)))" by (simp add: get f(5))
  have ranges: "those (map (port_range_from_value \<circ> port_range_value) (h2_port_hop v)) = Some (h2_port_hop v)"
    by (rule those_map_Some_id, rule port_range_from_value_value) (use assms in \<open>simp add: hysteria2_ok_def list_all_iff\<close>)
  note numbers = assms [unfolded hysteria2_ok_def, THEN conjunct2]
  note up = read_opt_nat [OF f(6) [THEN leaf] numbers [THEN conjunct1]]
    and down = read_opt_nat [OF f(7) [THEN leaf] numbers [THEN conjunct2, THEN conjunct1]]
    and interval = read_opt_nat [OF f(9) [THEN leaf] numbers [THEN conjunct2, THEN conjunct2, THEN conjunct1]]
    and idle = read_opt_nat [OF f(11) [THEN leaf] numbers [THEN conjunct2, THEN conjunct2, THEN conjunct2]]
  have obj: "as_object ?f \<noteq> None" by (rule filled_object) (rule value_objects)+
  show ?thesis
    unfolding hysteria2_from_value_def
    by (simp add: read_struct_def obj del: not_None_eq)
       (simp add: f(3,8) [THEN leaf, THEN read_field_Some] f(1,4,10) [THEN leaf, THEN read_opt_str]
         f(2) [THEN leaf, THEN read_opt_strs] read_opt_obfs [OF obfs] up down interval idle ranges)
qed

lemma draft_from_filled:
  assumes "draft_ok d" and "draft_keeps b d"
  shows "draft_from_value (filled (draft_value b) (draft_value d)) = Some d"
proof -
  obtain m where m: "draft_value b = JObj m" by (simp add: draft_value_def jobj_def)
  obtain n where n: "draft_value d = JObj n" by (simp add: draft_value_def jobj_def)
  let ?f = "filled (draft_value b) (draft_value d)"
  have get: "jget k ?f = (case jget k (draft_value d) of Some x \<Rightarrow> Some (child_filled m k x)
      | None \<Rightarrow> if jget k (draft_value b) = None then None else Some JNull)" for k
    by (rule jget_filled) (simp_all add: m n)
  have mget: "map_of m k = jget k (draft_value b)" for k by (simp add: m jget_def)
  have leaf: "jget k ?f = Some x" if "jget k (draft_value d) = Some x" "as_object x = None" for k x
    using that by (simp add: get child_filled_leaf)
  note f = draft_value_fields [of d]
  from assms have port: "read_uint 65535 (jnat (dr_port d)) = Some (dr_port d)"
    by (simp add: draft_ok_def read_uint_def filter_opt_def)
  have alter_id: "read_opt ''alter_id'' (read_uint u32_max) ?f = Some (dr_alter_id d)"
    by (rule read_opt_nat [OF f(7) [THEN leaf]]) (use assms in \<open>simp_all add: draft_ok_def\<close>)
  have block: "read_opt k reader ?f = Some y"
    if "jget k (draft_value b) = Some (jopt (map_option w x))" "jget k (draft_value d) = Some (jopt (map_option w y))"
      "\<And>z. as_object (w z) \<noteq> None" "\<And>v. y = Some v \<Longrightarrow> reader (w v) = Some v"
      "\<And>u v. x = Some u \<Longrightarrow> y = Some v \<Longrightarrow> reader (filled (w u) (w v)) = Some v"
    for k and reader :: "jv \<Rightarrow> 'b option" and w x y
  proof -
    have nn: "v \<noteq> JNull" if "as_object v \<noteq> None" for v using that by auto
    note c = child_filled_block [where m = m and k = k and w = w and x = x, unfolded mget, OF that(1) that(3)]
    have "jget k ?f = Some (case (x, y) of (Some u, Some v) \<Rightarrow> if w u = w v then w v else filled (w u) (w v)
        | _ \<Rightarrow> jopt (map_option w y))"
      by (simp only: get that(2) option.case c)
    then show ?thesis
      using that(4,5) nn [OF that(3)] nn [OF filled_object [OF that(3) that(3)]]
      by (cases x; cases y) (auto simp: read_opt_def read_field_def)
  qed
  have s: "read_opt ''stream'' stream_from_value ?f = Some (dr_stream d)"
    by (rule block [OF draft_value_fields(13) f(13) stream_value_object(1)])
       (use assms in \<open>auto simp: draft_ok_def draft_keeps_def stream_keeps_def stream_from_value_value stream_from_filled\<close>)
  have h: "read_opt ''hysteria2'' hysteria2_from_value ?f = Some (dr_hysteria2 d)"
    by (rule block [OF draft_value_fields(14) f(14) value_objects(1)])
       (use assms in \<open>auto simp: draft_ok_def hysteria2_from_value_value hysteria2_from_filled\<close>)
  have "jget ''outbound_patch'' ?f = Some (jopt (dr_outbound_patch d))"
    using child_filled_free [of m "''outbound_patch''"] assms(2) by (simp add: get f(15) mget draft_value_fields(15) draft_keeps_def)
  then have patch: "read_opt ''outbound_patch'' Some ?f = Some (dr_outbound_patch d)"
    by (rule read_opt_any) (use assms in \<open>simp add: draft_ok_def\<close>)
  have obj: "as_object ?f \<noteq> None" by (rule filled_object) (rule value_objects)+
  show ?thesis
    unfolding draft_from_value_def
    by (simp add: read_struct_def obj del: not_None_eq)
       (simp add: f(1-4) [THEN leaf, THEN read_field_Some] f(5,6,8-12) [THEN leaf, THEN read_opt_str]
         protocol_from_value_name port alter_id s h patch)
qed

section \<open>The overrides an edit leaves\<close>

lemma jins_same: "keys_sorted m \<Longrightarrow> map_of m k = Some v \<Longrightarrow> jins k v m = m"
  by (rule entries_eqI) (auto intro: keys_sorted_jins)

lemma jdel_all: "foldl (\<lambda>m key. jdel key m) m ks = filter (\<lambda>(k, _). k \<notin> set ks) m"
proof (induction ks arbitrary: m)
  case (Cons k ks)
  show ?case unfolding foldl.simps Cons unfolding jdel_def filter_filter by (rule filter_cong) auto
qed simp

lemma map_of_filter_keys: "map_of (filter (\<lambda>(k, _). P k) m) k = (if P k then map_of m k else None)"
  by (induction m) auto

lemma keys_sorted_filter: "keys_sorted m \<Longrightarrow> keys_sorted (filter P m)"
  by (induction m) auto

lemma record_override_fresh:
  "map_of (ov_provider ov) k = None \<Longrightarrow> \<not> (k = ''name'' \<and> v = JNull) \<Longrightarrow>
   record_override stored ov (k, v) = \<lparr>ov_values = jins k v (ov_values ov),
     ov_provider = (case field_value stored k of Some base \<Rightarrow> jins k base (ov_provider ov) | None \<Rightarrow> ov_provider ov)\<rparr>"
  by (cases ov) (auto simp: record_override_def)

lemma recorded:
  assumes "\<forall>(k, v) \<in> set ds. \<not> (k = ''name'' \<and> v = JNull)" and "distinct (map fst ds)"
  shows "let ov = foldl (record_override stored) \<lparr>ov_values = [], ov_provider = []\<rparr> ds
    in map_of (ov_values ov) = map_of ds \<and> keys_sorted (ov_values ov) \<and> keys_sorted (ov_provider ov)
      \<and> map_of (ov_provider ov) = (\<lambda>k. if k \<in> fst ` set ds then field_value stored k else None)"
  using assms
proof (induction ds rule: rev_induct)
  case (snoc kv ds)
  obtain k v where kv: "kv = (k, v)" by (cases kv)
  obtain ov where ov: "foldl (record_override stored) \<lparr>ov_values = [], ov_provider = []\<rparr> ds = ov" by blast
  have ih: "map_of (ov_values ov) = map_of ds" "keys_sorted (ov_values ov)" "keys_sorted (ov_provider ov)"
    "map_of (ov_provider ov) = (\<lambda>k. if k \<in> fst ` set ds then field_value stored k else None)"
    using snoc ov by (auto simp: Let_def)
  have new: "k \<notin> fst ` set ds" "\<not> (k = ''name'' \<and> v = JNull)" using snoc.prems kv by auto
  then have "map_of ds k = None" by (simp add: map_of_eq_None_iff)
  then have app: "map_of (ds @ [(k, v)]) = (map_of ds)(k \<mapsto> v)"
    by (auto simp: map_of_append map_add_def fun_eq_iff split: option.split)
  have "map_of (ov_provider ov) k = None" using ih(4) new(1) by simp
  note step = record_override_fresh [OF this new(2), of stored]
  have "foldl (record_override stored) \<lparr>ov_values = [], ov_provider = []\<rparr> (ds @ [kv]) = record_override stored ov (k, v)"
    by (simp only: foldl_append ov kv foldl.simps)
  moreover have "map_of (jins k v (ov_values ov)) = map_of (ds @ [(k, v)])" unfolding app by (simp add: fun_eq_iff ih(1))
  moreover have "keys_sorted (jins k v (ov_values ov))" by (rule keys_sorted_jins [OF ih(2)])
  moreover have "keys_sorted (case field_value stored k of Some base \<Rightarrow> jins k base (ov_provider ov) | None \<Rightarrow> ov_provider ov)"
    using ih(3) by (auto intro: keys_sorted_jins split: option.split)
  moreover have "map_of (case field_value stored k of Some base \<Rightarrow> jins k base (ov_provider ov) | None \<Rightarrow> ov_provider ov)
      = (\<lambda>q. if q \<in> fst ` set (ds @ [(k, v)]) then field_value stored q else None)"
    using new(1) by (auto simp: fun_eq_iff ih(4) split: option.split)
  ultimately show ?case by (simp only: step kv Let_def) simp
qed simp

text \<open>What the first edit of a server records: the changed fields that differ from what the provider sent.\<close>

definition unsettled :: "jv server \<Rightarrow> entries \<Rightarrow> entries" where
  "unsettled stored ds = filter (\<lambda>(k, v). field_value stored k \<noteq> Some v) ds"

lemma settle_recorded:
  assumes "keys_sorted ds" and "\<forall>(k, v) \<in> set ds. \<not> (k = ''name'' \<and> v = JNull)"
  shows "let ov = settle_overrides (foldl (record_override stored) \<lparr>ov_values = [], ov_provider = []\<rparr> ds)
    in ov_values ov = unsettled stored ds \<and> keys_sorted (ov_provider ov)
      \<and> (\<forall>k \<in> fst ` set (unsettled stored ds). map_of (ov_provider ov) k = field_value stored k)"
proof -
  let ?ov = "foldl (record_override stored) \<lparr>ov_values = [], ov_provider = []\<rparr> ds"
  have d: "distinct (map fst ds)" by (rule keys_sorted_distinct [OF assms(1)])
  have r: "map_of (ov_values ?ov) = map_of ds" "keys_sorted (ov_values ?ov)" "keys_sorted (ov_provider ?ov)"
    "map_of (ov_provider ?ov) = (\<lambda>k. if k \<in> fst ` set ds then field_value stored k else None)"
    using recorded [OF assms(2) d] by (auto simp: Let_def)
  have vals: "ov_values ?ov = ds" by (rule entries_eqI [OF r(2) assms(1) r(1)])
  let ?settled = "map fst (filter (\<lambda>(k, v). Some v = map_of (ov_provider ?ov) k) ds)"
  have settled: "k \<in> set ?settled \<longleftrightarrow> (\<exists>v. (k, v) \<in> set ds \<and> field_value stored k = Some v)" for k
    by (force simp: r(4))
  have only: "(k, v) \<in> set ds \<Longrightarrow> (k, w) \<in> set ds \<Longrightarrow> w = v" for k v w
    using d by (metis map_of_is_SomeI option.inject)
  have "filter (\<lambda>(k, _). k \<notin> set ?settled) ds = unsettled stored ds"
    unfolding unsettled_def
  proof (rule filter_cong [OF refl])
    fix kv assume kv: "kv \<in> set ds"
    obtain k v where e: "kv = (k, v)" by (cases kv)
    have "(\<exists>v'. (k, v') \<in> set ds \<and> field_value stored k = Some v') \<longleftrightarrow> field_value stored k = Some v"
      using kv e only [of k] by blast
    then show "(case kv of (k, _) \<Rightarrow> k \<notin> set ?settled) = (case kv of (k, v) \<Rightarrow> field_value stored k \<noteq> Some v)"
      unfolding e case_prod_conv settled by simp
  qed
  moreover have "map_of (filter (\<lambda>(k, _). k \<notin> set ?settled) (ov_provider ?ov)) k = field_value stored k"
    if k: "k \<in> fst ` set (unsettled stored ds)" for k
  proof -
    from k obtain v where v: "(k, v) \<in> set ds" "field_value stored k \<noteq> Some v" by (auto simp: unsettled_def)
    have "k \<notin> set ?settled" unfolding settled using v only [of k] by blast
    moreover have "k \<in> fst ` set ds" using v(1) by force
    ultimately show ?thesis unfolding map_of_filter_keys r(4) by simp
  qed
  moreover have "settle_overrides ?ov = \<lparr>ov_values = filter (\<lambda>(k, _). k \<notin> set ?settled) ds,
      ov_provider = filter (\<lambda>(k, _). k \<notin> set ?settled) (ov_provider ?ov)\<rparr>"
    by (simp only: settle_overrides_def Let_def vals jdel_all)
  ultimately show ?thesis
    unfolding Let_def by (simp only: server_overrides.simps keys_sorted_filter [OF r(3)]) blast
qed

section \<open>Putting the overrides back\<close>

lemma jget_member: "jget k v = Some x \<Longrightarrow> \<exists>m. v = JObj m \<and> map_of m k = Some x"
  by (cases v) (auto simp: jget_def)

lemma set_parts_same: "p \<noteq> [] \<Longrightarrow> jwf (JObj m) \<Longrightarrow> get_path p (JObj m) = Some v \<Longrightarrow> set_parts p v m = m"
proof (induction p v m rule: set_parts.induct)
  case (2 k v m)
  then have "map_of m k = Some v" by (cases "map_of m k") (simp_all add: jget_def)
  with 2 show ?case by (simp add: jins_same)
next
  case (3 k k' ks v m)
  from 3(4) obtain x where x: "map_of m k = Some x" "get_path (k' # ks) x = Some v"
    by (auto simp: jget_def bind_eq_Some_conv)
  from x(2) obtain n where n: "x = JObj n" by (auto simp: bind_eq_Some_conv dest: jget_member)
  have "set_parts (k' # ks) v n = n"
    using 3(1) [of] x n jwf_entryD [OF 3(3) x(1)] by simp
  with x n 3(3) show ?case by (simp add: jins_same)
qed simp

lemma apply_noops:
  "jwf (JObj m) \<Longrightarrow> \<forall>(p, v) \<in> set cs. p \<noteq> [] \<and> get_path p (JObj m) = Some v \<Longrightarrow> foldl apply_change m cs = m"
  by (induction cs) (auto simp: apply_change_def set_parts_same simp del: jwf.simps(1))

text \<open>Leaving out what equals the first value does not change the result.\<close>

lemma apply_unsettled:
  assumes "jwf (JObj b)" "jwf (JObj a)" "dot_free (JObj b)" "dot_free (JObj a)"
    and "\<And>k. field_value stored k = get_path (split_on CHR ''.'' k) (JObj b)"
  shows "JObj (foldl (\<lambda>m (key, v). set_dotted key v m) b (unsettled stored (diff_objects [] (JObj b) (JObj a) [])))
    = filled (JObj b) (JObj a)"
proof -
  let ?ds = "diff_objects [] (JObj b) (JObj a) []" and ?cs = "changes (JObj b) (JObj a)"
  let ?split = "\<lambda>ds. map (\<lambda>(k, x). (split_on CHR ''.'' k, x)) ds"
  let ?settled = "filter (\<lambda>(k, v). field_value stored k = Some v) ?ds"
  have "mset ?ds = mset ?settled + mset (unsettled stored ?ds)"
    unfolding unsettled_def by (induction ?ds) auto
  then have "mset (?split ?ds) = mset (?split ?settled @ ?split (unsettled stored ?ds))"
    by (simp only: mset_append mset_map image_mset_union)
  then have perm: "mset ?cs = mset (?split ?settled @ ?split (unsettled stored ?ds))"
    using diff_objects_mset(1) [OF assms(1-4)] by (simp only:)
  have "foldl apply_change b ?cs = foldl apply_change b (?split ?settled @ ?split (unsettled stored ?ds))"
    by (rule apply_changes_perm [OF perm assms(1)])
       (use jwf_changes(1) [OF assms(1,2)] changes_apart(1) [OF assms(1,2)] in auto)
  also have "\<dots> = foldl apply_change b (?split (unsettled stored ?ds))"
    unfolding foldl_append by (subst apply_noops [OF assms(1)]) (auto simp: assms(5))
  finally show ?thesis
    unfolding fold_dotted using apply_changes_filled(1) [OF assms(1,2)] by simp
qed

text \<open>The name is never recorded as null.\<close>

lemma changes_single:
  "jwf (JObj a) \<Longrightarrow> ([k], v) \<in> set (entry_changes b a) \<Longrightarrow> map_of a k = Some v"
proof (induction a)
  case (Cons kv a)
  obtain q w where kv: "kv = (q, w)" by (cases kv)
  have wf: "jwf (JObj a)" "q \<notin> fst ` set a" using Cons.prems(1) kv by auto
  show ?case
  proof (cases "([k], v) \<in> set (entry_changes b a)")
    case True
    with Cons.IH [OF wf(1)] have "map_of a k = Some v" .
    moreover have "k \<noteq> q" using map_of_SomeD [OF calculation] wf(2) by force
    ultimately show ?thesis using kv by simp
  next
    case False
    have "[] \<notin> fst ` set (changes x w)" for x using changes_nonempty(1) [of x w] by auto
    with False Cons.prems(2) kv show ?thesis
      by (auto split: option.splits if_splits simp: image_iff) force+
  qed
qed simp

lemma diff_name_not_null:
  assumes "jwf (JObj b)" "jwf (JObj a)" "dot_free (JObj b)" "dot_free (JObj a)" and "map_of a ''name'' = Some (JStr s)"
  shows "\<forall>(k, v) \<in> set (diff_objects [] (JObj b) (JObj a) []). \<not> (k = ''name'' \<and> v = JNull)"
proof (intro ballI)
  fix kv assume kv: "kv \<in> set (diff_objects [] (JObj b) (JObj a) [])"
  obtain k v where e: "kv = (k, v)" by (cases kv)
  have "(split_on CHR ''.'' k, v) \<in> set (changes (JObj b) (JObj a))"
    using kv e arg_cong [OF diff_objects_mset(1) [OF assms(1-4)], of set_mset] by force
  moreover have "v \<noteq> JNull" if change: "([''name''], v) \<in> set (changes (JObj b) (JObj a))"
  proof -
    have "([''name''], v) \<notin> set (map (\<lambda>(key, _). ([key], JNull)) (filter (\<lambda>(key, _). map_of a key = None) b))"
      using assms(5) by force
    with change have "([''name''], v) \<in> set (entry_changes b a)" by simp
    with changes_single [OF assms(2) this] assms(5) show ?thesis by auto
  qed
  ultimately have "\<not> (k = ''name'' \<and> v = JNull)" by (cases "k = ''name''") (simp_all del: changes.simps)
  then show "case kv of (k, v) \<Rightarrow> \<not> (k = ''name'' \<and> v = JNull)" unfolding e by simp
qed

section \<open>An edit and a refresh\<close>

lemma update_server_subscription:
  assumes "update_server E i d saved r = (r', Inr edited)" and "locate_server r i = Some p"
    and "sub_id (rg_subscriptions r ! fst p) \<noteq> local_id"
  shows "\<exists>resolved. resolve_draft E d = Inr resolved
    \<and> edited = (carried_marks (server_at r p) resolved)\<lparr>srv_overrides := edited_overrides (server_at r p) d\<rparr>"
  using assms
  by (auto simp: update_server_def Let_def carried_marks_def saving_def split: sum.splits option.splits if_splits)

lemma restamp_same:
  assumes "keys_sorted (ov_provider ov)" and "\<forall>k \<in> fst ` set (ov_values ov). map_of (ov_provider ov) k = field_value server k"
  shows "restamp_provider server ov = ov"
proof -
  have "foldl (\<lambda>p (key, _). case field_value server key of Some value \<Rightarrow> jins key value p | None \<Rightarrow> p) m vs = m"
    if "keys_sorted m" "\<forall>k \<in> fst ` set vs. map_of m k = field_value server k" for m :: entries and vs :: entries
    using that by (induction vs) (auto simp: jins_same split: option.split)
  from this [OF assms] show ?thesis by (simp add: restamp_provider_def)
qed

text \<open>The value of a draft, its keys and its well-formedness.\<close>

lemma draft_object: "\<exists>m. draft_value d = JObj m \<and> map_of m ''name'' = Some (JStr (dr_name d))"
  using draft_value_fields(1) [of d] by (auto dest: jget_member)

lemma edited_overrides_first:
  assumes "srv_overrides stored = None" and "edited_overrides stored d = Some ov"
    and "jwf (draft_value (draft_from_server stored))" and "jwf (draft_value d)"
    and "dot_free (draft_value (draft_from_server stored))" and "dot_free (draft_value d)"
  shows "ov_values ov = unsettled stored (draft_diff (draft_from_server stored) d) \<and> ov_values ov \<noteq> []
    \<and> restamp_provider stored ov = ov"
proof -
  obtain b where b: "draft_value (draft_from_server stored) = JObj b" using draft_object by blast
  obtain a where a: "draft_value d = JObj a" "map_of a ''name'' = Some (JStr (dr_name d))" using draft_object by blast
  note wf = assms(3-6) [unfolded a(1) b]
  let ?ds = "diff_objects [] (JObj b) (JObj a) []"
  have ds: "draft_diff (draft_from_server stored) d = ?ds" by (simp add: draft_diff_def a(1) b)
  note s = settle_recorded [OF diff_objects_mset(2) [OF wf] diff_name_not_null [OF wf a(2)], of stored, unfolded Let_def]
  have ov: "ov = settle_overrides (foldl (record_override stored) \<lparr>ov_values = [], ov_provider = []\<rparr> ?ds)" "ov_values ov \<noteq> []"
    using assms(1,2) by (auto simp: edited_overrides_def kept_overrides_def unwrap_or_def ds split: if_splits)
  from s [folded ov(1)] have "restamp_provider stored ov = ov"
    by (intro restamp_same) auto
  with s [folded ov(1)] ov(2) ds show ?thesis by simp
qed

text \<open>The free JSON of a draft: the patch of the outbound and the extra block of the transport.\<close>

definition draft_free :: "draft \<Rightarrow> jv list" where
  "draft_free d = List.map_filter id [dr_outbound_patch d, Option.bind (dr_stream d) ss_xhttp_extra]"

definition free_ok :: "draft \<Rightarrow> bool" where
  "free_ok d \<longleftrightarrow> (\<forall>v \<in> set (draft_free d). jwf v \<and> dot_free v)"

lemma dot_free_jins: "dot_free (JObj m) \<Longrightarrow> CHR ''.'' \<notin> set k \<Longrightarrow> dot_free v \<Longrightarrow> dot_free (JObj (jins k v m))"
  by (induction m) (auto split: if_splits)

lemma dot_free_jobj: "\<forall>(k, v) \<in> set kvs. CHR ''.'' \<notin> set k \<and> dot_free v \<Longrightarrow> dot_free (jobj kvs)"
  unfolding jobj_def
  by (rule foldl_inv [where P = "\<lambda>m. dot_free (JObj m)"]) (auto intro: dot_free_jins simp del: dot_free.simps(1), simp)

lemma dot_free_leaves [simp]:
  "dot_free (jstr_opt x)" "dot_free (jstrs_opt y)" "dot_free (jnat_opt z)" "dot_free (jnat n)"
  by (cases x; cases y; cases z; simp add: jstrs_def jnat_def)+

lemma jwf_texts [simp]:
  "pred_option jwf (map_option JStr x)" "pred_option jwf (map_option jstrs y)" "pred_option jwf (map_option jnat z)"
  by (cases x; cases y; cases z; simp)+

lemma block_wf:
  assumes "\<And>y. x = Some y \<Longrightarrow> jwf (w y) \<and> dot_free (w y)"
  shows "jwf (jopt (map_option w x)) \<and> dot_free (jopt (map_option w x))"
  using assms by (cases x) auto

lemma stream_wf:
  assumes "\<And>v. ss_xhttp_extra s = Some v \<Longrightarrow> jwf v \<and> dot_free v"
  shows "jwf (stream_value s) \<and> dot_free (stream_value s)"
proof -
  have x: "jwf (jopt (ss_xhttp_extra s)) \<and> dot_free (jopt (ss_xhttp_extra s))"
    using assms by (cases "ss_xhttp_extra s") auto
  show ?thesis
    unfolding stream_value_def
    by (intro conjI jwf_jobj dot_free_jobj) (use x in \<open>auto simp: skip_none_def jstrs_def split: option.splits\<close>)
qed

lemma hysteria2_wf: "jwf (hysteria2_value s) \<and> dot_free (hysteria2_value s)"
proof -
  have x: "jwf (jopt (map_option obfs_value (h2_obfs s))) \<and> dot_free (jopt (map_option obfs_value (h2_obfs s)))"
    by (rule block_wf) (auto simp: obfs_value_def intro!: jwf_jobj dot_free_jobj)
  have r: "jwf (JArr (map port_range_value (h2_port_hop s)))"
    by (auto simp: port_range_value_def intro!: jwf_jobj)
  show ?thesis
    unfolding hysteria2_value_def
    by (intro conjI jwf_jobj dot_free_jobj) (use x r in \<open>auto simp: pred_option_def simp del: jwf.simps(2)\<close>)
qed

lemma draft_wf:
  assumes "free_ok d"
  shows "jwf (draft_value d) \<and> dot_free (draft_value d)"
proof -
  have p: "jwf (jopt (dr_outbound_patch d)) \<and> dot_free (jopt (dr_outbound_patch d))"
    using assms by (cases "dr_outbound_patch d") (auto simp: free_ok_def draft_free_def List.map_filter_simps)
  have s: "jwf (jopt (map_option stream_value (dr_stream d))) \<and> dot_free (jopt (map_option stream_value (dr_stream d)))"
    by (rule block_wf, rule stream_wf)
       (use assms in \<open>auto simp: free_ok_def draft_free_def List.map_filter_simps split: option.splits\<close>)
  have h: "jwf (jopt (map_option hysteria2_value (dr_hysteria2 d))) \<and> dot_free (jopt (map_option hysteria2_value (dr_hysteria2 d)))"
    by (rule block_wf) (rule hysteria2_wf)
  show ?thesis
    unfolding draft_value_def
    by (intro conjI jwf_jobj dot_free_jobj) (use p s h in \<open>auto simp: pred_option_def\<close>)
qed

lemma edit_comes_back:
  assumes update: "update_server E i d saved r = (r', Inr edited)"
    and place: "locate_server r i = Some p" "sub_id (rg_subscriptions r ! fst p) \<noteq> local_id"
    and stored: "stored = server_at r p" "srv_overrides stored = None"
    and decided: "srv_overrides edited \<noteq> None"
    and free: "free_ok (draft_from_server stored)" "free_ok d" "draft_ok d"
    and keeps: "draft_keeps (draft_from_server stored) d"
    and pin: "spec_pin_sha256 (srv_spec edited) = None \<or> spec_pin_sha256 (srv_spec stored) \<noteq> None"
  shows "carry_server E edited (stored\<lparr>srv_alias := None, srv_latency_ms := None\<rparr>) = edited"
proof -
  obtain resolved where resolved: "resolve_draft E d = Inr resolved"
    and edited: "edited = (carried_marks stored resolved)\<lparr>srv_overrides := edited_overrides stored d\<rparr>"
    using update_server_subscription [OF update place] stored(1) by blast
  obtain ov where ov: "edited_overrides stored d = Some ov" using decided edited by auto
  have wf: "jwf (draft_value (draft_from_server stored))" "jwf (draft_value d)"
    "dot_free (draft_value (draft_from_server stored))" "dot_free (draft_value d)"
    using draft_wf free(1,2) by blast+
  note first = edited_overrides_first [OF stored(2) ov wf(1-4)]
  obtain b where b: "draft_value (draft_from_server stored) = JObj b" using draft_object by blast
  obtain a where a: "draft_value d = JObj a" using draft_object by blast
  have "field_value stored k = get_path (split_on CHR ''.'' k) (JObj b)" for k by (simp add: field_value_def b)
  then have "JObj (foldl (\<lambda>m (key, v). set_dotted key v m) b (ov_values ov)) = filled (JObj b) (JObj a)"
    using apply_unsettled [OF wf(1-4) [unfolded a b], of stored] first by (simp add: draft_diff_def a b)
  then have "apply_overrides E stored (ov_values ov) = Some (carried_marks stored resolved)"
    using draft_from_filled [OF free(3) keeps] resolved by (simp add: apply_overrides_eq b a)
  moreover have "carry_server E edited (stored\<lparr>srv_alias := None, srv_latency_ms := None\<rparr>)
      = carry_overrides E edited (carry_pin edited stored)"
    unfolding carry_server_def by (cases stored) (simp add: edited carried_marks_def)
  moreover have "carry_pin edited stored = stored"
    using pin by (auto simp: carry_pin_def split: option.split)
  ultimately show ?thesis
    using first by (auto simp: carry_overrides_def edited ov Let_def)
qed

text \<open>C13: an edit of a subscription's server survives the refresh that brings the provider's copy again: the
first edit, kept as overrides, put on the unchanged entry gives the server exactly as edited, with its
overrides and what the provider sent for them. (The edit removes no key of the free JSON of the server,
whose names have no dots, and does not add a certificate pin.)\<close>

theorem edit_survives_refresh:
  assumes update: "update_server E i d saved r = (r', Inr edited)"
    and place: "locate_server r i = Some p" "sub_id (rg_subscriptions r ! fst p) \<noteq> local_id"
    and stored: "stored = server_at r p" "srv_overrides stored = None"
    and decided: "srv_overrides edited \<noteq> None"
    and free: "free_ok (draft_from_server stored)" "free_ok d" "draft_ok d"
    and keeps: "draft_keeps (draft_from_server stored) d"
    and pin: "spec_pin_sha256 (srv_spec edited) = None \<or> spec_pin_sha256 (srv_spec stored) \<noteq> None"
  shows "carry_server E edited (stored\<lparr>srv_alias := None, srv_latency_ms := None\<rparr>) = edited"
  by (rule edit_comes_back [OF assms])

section \<open>A concrete edit\<close>

definition demo_edit :: draft where
  "demo_edit = (draft_from_server (demo_server ''s1''))\<lparr>dr_address := ''b.example''\<rparr>"

definition demo_edited :: "jv server" where
  "demo_edited = (demo_server ''s1'')\<lparr>srv_address := ''b.example'',
     srv_overrides := Some \<lparr>ov_values = [(''address'', JStr ''b.example'')], ov_provider = [(''address'', JStr ''a.example'')]\<rparr>\<rparr>"

lemma demo_texts: "trim ''b.example'' = ''b.example''" "trim ''node'' = ''node''"
  by (rule trim_graphic; simp add: is_ascii_graphic_def)+

lemma demo_free: "free_ok (draft_from_server (demo_server i))" "free_ok demo_edit" "draft_ok demo_edit"
  "draft_keeps (draft_from_server (demo_server i)) demo_edit"
  by (simp_all add: free_ok_def draft_free_def demo_edit_def demo_server_def draft_from_server_def draft_default_def
      Let_def List.map_filter_simps draft_ok_def draft_keeps_def keeps_keys_def stream_keeps_def)

lemma demo_place: "locate_server demo_registry ''s1'' = Some (0, 0)" "server_at demo_registry (0, 0) = demo_server ''s1''"
  "sub_id (rg_subscriptions demo_registry ! fst (0, 0)) \<noteq> local_id"
  by (simp_all add: locate_server_def server_at_def demo_registry_def demo_group_def demo_server_def stable_id_not_local)

lemma demo_overrides: "edited_overrides (demo_server ''s1'') demo_edit =
    Some \<lparr>ov_values = [(''address'', JStr ''b.example'')], ov_provider = [(''address'', JStr ''a.example'')]\<rparr>"
  by code_simp

lemma demo_country: "country_from_name ''node'' = None"
  by code_simp

lemma demo_resolves: "\<exists>i. resolve_draft sample_env demo_edit = Inr (demo_edited\<lparr>srv_id := i, srv_overrides := None\<rparr>)"
  unfolding resolve_iff
  by (simp add: demo_edit_def demo_server_def draft_from_server_def draft_default_def Let_def demo_texts check_patch_def
      draft_spec_def optional_text_def filter_opt_def outbound_tagged_None_iff base_server_def demo_edited_def
      resolved_name_def transport_label_def demo_country del: not_None_eq)

lemma demo_update: "update_server sample_env ''s1'' demo_edit True demo_registry
  = (put_server_at (0, 0) demo_edited demo_registry, Inr demo_edited)"
proof -
  obtain i where i: "resolve_draft sample_env demo_edit = Inr (demo_edited\<lparr>srv_id := i, srv_overrides := None\<rparr>)"
    using demo_resolves by blast
  have "local_group_server demo_registry j = None" for j
    by (simp add: local_group_server_def demo_registry_def demo_group_def stable_id_not_local)
  with i show ?thesis
    using demo_place(3)
    by (simp add: update_server_def demo_place(1,2) demo_overrides [unfolded demo_server_def]
        filter_opt_def saving_def demo_edited_def demo_server_def Let_def)
qed

lemma demo_comes_back:
  "carry_server sample_env demo_edited (demo_server ''s1'') = demo_edited"
proof -
  have "(demo_server ''s1'')\<lparr>srv_alias := None, srv_latency_ms := None\<rparr> = demo_server ''s1''" by (simp add: demo_server_def)
  moreover have "carry_server sample_env demo_edited ((demo_server ''s1'')\<lparr>srv_alias := None, srv_latency_ms := None\<rparr>) = demo_edited"
    by (rule edit_comes_back [OF demo_update demo_place(1) demo_place(3) demo_place(2) [symmetric] _ _ demo_free(1,2,3,4)])
       (simp_all add: demo_edited_def demo_server_def spec_pin_sha256_def)
  ultimately show ?thesis by simp
qed

theorem edit_survives_refresh_witness:
  "carry_server sample_env demo_edited (demo_server ''s1'') = demo_edited"
proof -
  have "(demo_server ''s1'')\<lparr>srv_alias := None, srv_latency_ms := None\<rparr> = demo_server ''s1''" by (simp add: demo_server_def)
  moreover have "carry_server sample_env demo_edited ((demo_server ''s1'')\<lparr>srv_alias := None, srv_latency_ms := None\<rparr>) = demo_edited"
    by (rule edit_survives_refresh [OF demo_update demo_place(1) demo_place(3) demo_place(2) [symmetric] _ _ demo_free(1,2,3,4)])
       (simp_all add: demo_edited_def demo_server_def spec_pin_sha256_def)
  ultimately show ?thesis by simp
qed

end
