(* ===== verification/Refresh_Laws.thy ===== *)
theory Refresh_Laws
  imports Override_Laws
begin

text \<open>
  How a refresh matches the provider's servers with the stored ones (\<open>preserve_server_identity\<close> of
  \<open>crates/oxidom-core/src/subscription.rs\<close>), and three places where what the user decided gets lost or stuck.
\<close>

section \<open>The matching\<close>

lemma find_unused_SomeD:
  assumes "find_unused used P previous = Some k"
  shows "k < length previous \<and> \<not> used ! k \<and> P (previous ! k)"
proof -
  obtain x where x: "List.find (\<lambda>(index, old). \<not> used ! index \<and> P old) (enumerate 0 previous) = Some (k, x)"
    using assms by (auto simp: find_unused_def)
  from find_SomeD [OF x] show ?thesis by (auto simp: in_set_enumerate_eq)
qed

lemma find_enumerate_first:
  "n < length xs \<Longrightarrow> Q (m + n, xs ! n) \<Longrightarrow> \<forall>j<n. \<not> Q (m + j, xs ! j) \<Longrightarrow> List.find Q (enumerate m xs) = Some (m + n, xs ! n)"
proof (induction xs arbitrary: m n)
  case (Cons x xs)
  show ?case
  proof (cases n)
    case (Suc n')
    have "\<forall>j<n'. \<not> Q (Suc m + j, xs ! j)" using Cons.prems(3) Suc by fastforce
    with Cons.IH [of n' "Suc m"] Cons.prems Suc show ?thesis by auto
  qed (use Cons.prems in auto)
qed simp

lemma find_unused_first:
  "n < length previous \<Longrightarrow> \<not> used ! n \<Longrightarrow> P (previous ! n) \<Longrightarrow> \<forall>j<n. used ! j \<or> \<not> P (previous ! j) \<Longrightarrow>
   find_unused used P previous = Some n"
  using find_enumerate_first [of n previous "\<lambda>(index, old). \<not> used ! index \<and> P old" 0] by (simp add: find_unused_def)

text \<open>What makes a refreshed server the continuation of a stored one.\<close>

definition continues :: "import_env \<Rightarrow> jv server \<Rightarrow> jv server \<Rightarrow> bool" where
  "continues E old server \<longleftrightarrow>
     srv_id old = srv_id server \<or> same_connection_as old server \<or> drift_is_only_overrides E old server"

lemma previous_index_SomeD:
  assumes "previous_index E used previous server = Some k"
  shows "k < length previous \<and> \<not> used ! k \<and> continues E (previous ! k) server"
  using assms by (auto simp: previous_index_def or_else_def continues_def split: option.splits dest: find_unused_SomeD)

lemma matching:
  assumes "length used = length previous"
  shows "\<exists>source. (\<forall>i<length refreshed. snd (thread (preserve_one E previous) used refreshed) ! i =
        (case source i of None \<Rightarrow> refreshed ! i | Some k \<Rightarrow> carry_server E (previous ! k) (refreshed ! i)))
    \<and> (\<forall>i<length refreshed. \<forall>k. source i = Some k \<longrightarrow> k < length previous \<and> \<not> used ! k \<and> continues E (previous ! k) (refreshed ! i))
    \<and> (\<forall>i<length refreshed. \<forall>j<i. source i \<noteq> None \<longrightarrow> source i \<noteq> source j)"
  using assms
proof (induction refreshed arbitrary: used)
  case (Cons server refreshed)
  let ?m = "previous_index E used previous server"
  let ?used = "case ?m of None \<Rightarrow> used | Some k \<Rightarrow> used[k := True]"
  have len: "length ?used = length previous" using Cons.prems by (simp split: option.split)
  from Cons.IH [OF len] obtain source where
    out: "\<forall>i<length refreshed. snd (thread (preserve_one E previous) ?used refreshed) ! i =
        (case source i of None \<Rightarrow> refreshed ! i | Some k \<Rightarrow> carry_server E (previous ! k) (refreshed ! i))"
    and src: "\<forall>i<length refreshed. \<forall>k. source i = Some k \<longrightarrow> k < length previous \<and> \<not> ?used ! k \<and> continues E (previous ! k) (refreshed ! i)"
    and inj: "\<forall>i<length refreshed. \<forall>j<i. source i \<noteq> None \<longrightarrow> source i \<noteq> source j" by blast
  let ?source = "\<lambda>i. case i of 0 \<Rightarrow> ?m | Suc j \<Rightarrow> source j"
  have step: "preserve_one E previous used server =
      (?used, case ?m of None \<Rightarrow> server | Some k \<Rightarrow> carry_server E (previous ! k) server)"
    by (simp add: preserve_one_def split: option.split)
  have fresh: "\<not> used ! k \<and> ?m \<noteq> Some k" if "\<not> ?used ! k" "k < length previous" for k
  proof (cases ?m)
    case (Some a)
    with that Cons.prems show ?thesis by (cases "a = k") auto
  qed (use that in simp)
  have head: "k < length previous \<and> \<not> used ! k \<and> continues E (previous ! k) server" if "?m = Some k" for k
    using previous_index_SomeD [OF that] .
  have "\<forall>i<length (server # refreshed). snd (thread (preserve_one E previous) used (server # refreshed)) ! i =
        (case ?source i of None \<Rightarrow> (server # refreshed) ! i | Some k \<Rightarrow> carry_server E (previous ! k) ((server # refreshed) ! i))"
    using out by (auto simp: step Let_def split_beta cong: option.case_cong split: nat.split)
  moreover have "\<forall>i<length (server # refreshed). \<forall>k. ?source i = Some k \<longrightarrow>
      k < length previous \<and> \<not> used ! k \<and> continues E (previous ! k) ((server # refreshed) ! i)"
    using head src fresh by (auto split: nat.split)
  moreover have "\<forall>i<length (server # refreshed). \<forall>j<i. ?source i \<noteq> None \<longrightarrow> ?source i \<noteq> ?source j"
  proof (intro allI impI)
    fix i j assume ij: "i < length (server # refreshed)" "j < i" "?source i \<noteq> None"
    then obtain i' where i: "i = Suc i'" by (cases i) auto
    show "?source i \<noteq> ?source j"
    proof (cases j)
      case 0
      from ij(3) i obtain k where k: "source i' = Some k" by auto
      with src ij(1) i have "k < length previous" "\<not> ?used ! k" by auto
      from fresh [OF this(2,1)] have "?m \<noteq> Some k" ..
      with k i 0 show ?thesis by simp
    next
      case (Suc j')
      with inj ij i show ?thesis by auto
    qed
  qed
  ultimately show ?case by (intro exI [of _ ?source] conjI)
qed simp

section \<open>Properties\<close>

text \<open>C14: a refresh never gives the decisions about one stored server to two servers: every server of the
result is the provider's, as it is or with what was decided about one stored server it continues (same
identifier, same connection, or no difference but overridden fields), and no stored server is used twice.\<close>

theorem refresh_matches_once:
  "\<exists>source. (\<forall>i<length refreshed. preserve_server_identity E previous refreshed ! i =
        (case source i of None \<Rightarrow> refreshed ! i | Some k \<Rightarrow> carry_server E (previous ! k) (refreshed ! i)))
    \<and> (\<forall>i<length refreshed. \<forall>k. source i = Some k \<longrightarrow> k < length previous \<and> continues E (previous ! k) (refreshed ! i))
    \<and> (\<forall>i<length refreshed. \<forall>j<i. source i \<noteq> None \<longrightarrow> source i \<noteq> source j)
    \<and> length (preserve_server_identity E previous refreshed) = length refreshed"
  using matching [of "replicate (length previous) False" previous refreshed E]
  unfolding preserve_server_identity_def by auto

lemma refresh_rest:
  assumes "previous = done' @ rest" and "distinct (map srv_id previous)"
    and "\<forall>s\<in>set rest. srv_id (provider s) = srv_id s \<and> carry_server E s (provider s) = s"
  shows "snd (thread (preserve_one E previous) (replicate (length done') True @ replicate (length rest) False) (map provider rest)) = rest"
  using assms
proof (induction rest arbitrary: done')
  case (Cons s rest)
  let ?n = "length done'"
  let ?used = "replicate ?n True @ replicate (length (s # rest)) False"
  have nth: "previous ! ?n = s" "?n < length previous" using Cons.prems(1) by simp_all
  have "find_unused ?used (\<lambda>old. srv_id old = srv_id (provider s)) previous = Some ?n"
    by (rule find_unused_first) (use nth Cons.prems(3) in \<open>auto simp: nth_append\<close>)
  then have "preserve_one E previous ?used (provider s) = (replicate (Suc ?n) True @ replicate (length rest) False, s)"
    using nth Cons.prems(3)
    by (simp add: preserve_one_def previous_index_def or_else_def list_update_append replicate_app_Cons_same)
  moreover have "snd (thread (preserve_one E previous) (replicate (length (done' @ [s])) True @ replicate (length rest) False)
      (map provider rest)) = rest"
    by (rule Cons.IH) (use Cons.prems in auto)
  ultimately show ?case by (simp add: Let_def split_beta)
qed simp


lemma unedited_comes_back:
  assumes "srv_overrides s = None"
  shows "carry_server E s (s\<lparr>srv_alias := None, srv_latency_ms := None\<rparr>) = s"
proof -
  have "carry_pin s s = s" by (auto simp: carry_pin_def split: option.split)
  moreover have "(s\<lparr>srv_alias := None, srv_latency_ms := None\<rparr>)\<lparr>srv_id := srv_id s, srv_alias := srv_alias s,
      srv_latency_ms := srv_latency_ms s\<rparr> = s" by (cases s) simp
  ultimately show ?thesis using assms by (simp add: carry_server_def carry_overrides_def)
qed


definition renamed_node :: "jv server" where
  "renamed_node = (demo_server ''s9'')\<lparr>srv_name := ''other name''\<rparr>"


theorem refresh_matches_once_witness:
  "\<exists>source. preserve_server_identity sample_env [demo_server ''s1''] [demo_server ''s1'', renamed_node] ! 0
       = (case source (0::nat) of None \<Rightarrow> demo_server ''s1'' | Some k \<Rightarrow> carry_server sample_env ([demo_server ''s1''] ! k) (demo_server ''s1''))
     \<and> preserve_server_identity sample_env [demo_server ''s1''] [demo_server ''s1'', renamed_node] ! 1
       = (case source 1 of None \<Rightarrow> renamed_node | Some k \<Rightarrow> carry_server sample_env ([demo_server ''s1''] ! k) renamed_node)
     \<and> \<not> (source 1 \<noteq> None \<and> source 1 = source 0)
     \<and> length (preserve_server_identity sample_env [demo_server ''s1''] [demo_server ''s1'', renamed_node]) = 2"
proof -
  let ?previous = "[demo_server ''s1'']" and ?refreshed = "[demo_server ''s1'', renamed_node]"
  from refresh_matches_once [where E = sample_env and previous = ?previous and refreshed = ?refreshed]
  obtain source where
    out: "\<forall>i<length ?refreshed. preserve_server_identity sample_env ?previous ?refreshed ! i =
        (case source i of None \<Rightarrow> ?refreshed ! i | Some k \<Rightarrow> carry_server sample_env (?previous ! k) (?refreshed ! i))"
    and inj: "\<forall>i<length ?refreshed. \<forall>j<i. source i \<noteq> None \<longrightarrow> source i \<noteq> source j"
    and len: "length (preserve_server_identity sample_env ?previous ?refreshed) = length ?refreshed" by blast
  show ?thesis
    using out [rule_format, of 0] out [rule_format, of 1] inj [rule_format, of 1 0] len
    by (intro exI [of _ source]) (cases "source 1"; simp cong: option.case_cong)
qed

section \<open>Overrides that are lost or stuck\<close>

text \<open>A subscription with one TLS server, and two edits of it.\<close>

definition tls_stream :: "jv stream_settings" where
  "tls_stream = (plain_stream ''tcp'' ''tls'')\<lparr>ss_sni := Some ''a.example''\<rparr>"

definition tls_server :: "jv server" where
  "tls_server = (demo_server ''s1'')\<lparr>srv_protocol := PTrojan, srv_transport_label := ''trojan + tls'',
     srv_spec := Trojan ''pw'' tls_stream\<rparr>"

definition tls_registry :: registry where
  "tls_registry = demo_registry\<lparr>rg_subscriptions := [demo_group\<lparr>sub_servers := [tls_server]\<rparr>]\<rparr>"

definition edit_ech :: draft where
  "edit_ech = (draft_from_server tls_server)\<lparr>dr_stream := Some (tls_stream\<lparr>ss_ech := Some ''cfg''\<rparr>)\<rparr>"

definition edit_patch :: "jv \<Rightarrow> draft" where
  "edit_patch patch = (draft_from_server tls_server)\<lparr>dr_outbound_patch := Some patch\<rparr>"

definition sockopt_patch :: jv where
  "sockopt_patch = JObj [(''streamSettings'', JObj [(''sockopt'', JObj [])])]"

definition null_patch :: jv where
  "null_patch = JObj [(''streamSettings'', JNull)]"

definition tls_with :: "jv server_overrides option \<Rightarrow> jv stream_settings \<Rightarrow> jv option \<Rightarrow> jv server" where
  "tls_with overrides s patch = tls_server\<lparr>srv_spec := Trojan ''pw'' s, srv_outbound_patch := patch, srv_overrides := overrides\<rparr>"

lemma update_result:
  assumes "locate_server r i = Some p" and "sub_id (rg_subscriptions r ! fst p) \<noteq> local_id"
    and "resolve_draft E d = Inr resolved" and "srv_protocol resolved = srv_protocol (server_at r p)"
    and "\<And>j. local_group_server r j = None"
    and "edited = (carried_marks (server_at r p) resolved)\<lparr>srv_overrides := edited_overrides (server_at r p) d\<rparr>"
  shows "update_server E i d True r = (put_server_at p edited r, Inr edited)"
  using assms by (simp add: update_server_def Let_def carried_marks_def filter_opt_def saving_def)

lemma tls_texts: "trim ''a.example'' = ''a.example''" "trim ''pw'' = ''pw''" "trim ''tcp'' = ''tcp''" "trim ''tls'' = ''tls''"
  by (rule trim_graphic; simp add: is_ascii_graphic_def)+

lemma tls_resolves:
  assumes "d = (draft_from_server tls_server)\<lparr>dr_stream := Some s, dr_outbound_patch := patch\<rparr>"
    and "normalized_stream s = s" and "ss_network s = ''tcp''" and "ss_security s = ''tls''" and "check_patch patch = Inr ()"
  shows "\<exists>i. resolve_draft E d = Inr ((tls_with None s patch)\<lparr>srv_id := i\<rparr>)"
  unfolding resolve_iff
  using assms
  by (simp add: tls_with_def tls_server_def demo_server_def draft_from_server_def draft_default_def Let_def tls_texts demo_texts
      draft_spec_def required_text_def optional_text_def filter_opt_def outbound_tagged_None_iff base_server_def
      resolved_name_def transport_label_def demo_country unwrap_or_def or_bail_def del: not_None_eq)

lemma tls_patches: "check_patch (Some sockopt_patch) = Inr ()" "check_patch (Some null_patch) = Inr ()"
  "check_patch (Some (JObj [])) = Inr ()" "check_patch None = Inr ()"
  by (simp_all add: check_patch_def sockopt_patch_def null_patch_def or_bail_def reserved_patch_keys_def ensure_def)

lemma tls_streams: "normalized_stream tls_stream = tls_stream" "ss_network tls_stream = ''tcp''" "ss_security tls_stream = ''tls''"
  "normalized_stream (tls_stream\<lparr>ss_ech := e\<rparr>) = tls_stream\<lparr>ss_ech := e\<rparr>"
  by (simp_all add: normalized_stream_def tls_stream_def plain_stream_def tls_texts)

lemma tls_place:
  assumes "srv_id s = ''s1''" and "r = tls_registry\<lparr>rg_subscriptions := [demo_group\<lparr>sub_servers := [s]\<rparr>]\<rparr>"
  shows "locate_server r ''s1'' = Some (0, 0)" "server_at r (0, 0) = s" "sub_id (rg_subscriptions r ! fst (0, 0)) \<noteq> local_id"
    "local_group_server r j = None" "put_server_at (0, 0) s' r = tls_registry\<lparr>rg_subscriptions := [demo_group\<lparr>sub_servers := [s']\<rparr>]\<rparr>"
  using assms
  by (simp_all add: locate_server_def server_at_def local_group_server_def put_server_at_def tls_registry_def demo_group_def
      stable_id_not_local)

text \<open>One edit of a server of the registry.\<close>

lemma tls_edit:
  assumes "srv_id stored = ''s1''" and "srv_protocol stored = PTrojan" and "carried_marks stored ((tls_with None s patch)\<lparr>srv_id := i\<rparr>) = tls_with None s patch"
    and "resolve_draft E d = Inr ((tls_with None s patch)\<lparr>srv_id := i\<rparr>)"
  shows "update_server E ''s1'' d True (tls_registry\<lparr>rg_subscriptions := [demo_group\<lparr>sub_servers := [stored]\<rparr>]\<rparr>)
    = (tls_registry\<lparr>rg_subscriptions := [demo_group\<lparr>sub_servers := [tls_with (edited_overrides stored d) s patch]\<rparr>]\<rparr>,
       Inr (tls_with (edited_overrides stored d) s patch))"
proof -
  let ?r = "tls_registry\<lparr>rg_subscriptions := [demo_group\<lparr>sub_servers := [stored]\<rparr>]\<rparr>"
  note p = tls_place [OF assms(1) refl]
  have eq: "tls_with (edited_overrides stored d) s patch
      = (carried_marks (server_at ?r (0, 0)) ((tls_with None s patch)\<lparr>srv_id := i\<rparr>))\<lparr>srv_overrides := edited_overrides (server_at ?r (0, 0)) d\<rparr>"
    unfolding p(2) assms(3) by (simp add: tls_with_def)
  have "srv_protocol ((tls_with None s patch)\<lparr>srv_id := i\<rparr>) = srv_protocol (server_at ?r (0, 0))"
    unfolding p(2) assms(2) by (simp add: tls_with_def tls_server_def)
  from update_result [OF p(1,3) assms(4) this p(4) eq] show ?thesis unfolding p(5) .
qed

lemma tls_marks: "carried_marks (tls_with ov s' p') ((tls_with None s p)\<lparr>srv_id := i\<rparr>) = tls_with None s p"
  by (simp add: tls_with_def tls_server_def demo_server_def carried_marks_def)

lemma tls_self: "tls_server = tls_with None tls_stream None" "tls_registry = tls_registry\<lparr>rg_subscriptions := [demo_group\<lparr>sub_servers := [tls_server]\<rparr>]\<rparr>"
  by (simp_all add: tls_with_def tls_server_def demo_server_def tls_registry_def)

lemma tls_with_fields: "srv_id (tls_with ov s p) = ''s1''" "srv_protocol (tls_with ov s p) = PTrojan"
  by (simp_all add: tls_with_def tls_server_def demo_server_def)

text \<open>an override of a field the provider's entry leaves out cannot be dropped again: the editor accepts
an ECH configuration for a server without one, and dropping that override is refused because there is no
value of the provider to go back to.\<close>

theorem override_of_absent_field_stuck:
  "\<exists>edited. update_server sample_env ''s1'' edit_ech True tls_registry
       = (tls_registry\<lparr>rg_subscriptions := [demo_group\<lparr>sub_servers := [edited]\<rparr>]\<rparr>, Inr edited)
     \<and> srv_overrides edited = Some \<lparr>ov_values = [(''stream.ech'', JStr ''cfg'')], ov_provider = []\<rparr>
     \<and> snd (drop_server_override sample_env ''s1'' ''stream.ech'' True
         (tls_registry\<lparr>rg_subscriptions := [demo_group\<lparr>sub_servers := [edited]\<rparr>]\<rparr>)) = Inl (Not_Overridden ''stream.ech'')"
proof -
  have d: "edit_ech = (draft_from_server tls_server)\<lparr>dr_stream := Some (tls_stream\<lparr>ss_ech := Some ''cfg''\<rparr>), dr_outbound_patch := None\<rparr>"
    by (simp add: edit_ech_def draft_from_server_def tls_server_def demo_server_def draft_default_def Let_def)
  obtain i where "resolve_draft sample_env edit_ech = Inr ((tls_with None (tls_stream\<lparr>ss_ech := Some ''cfg''\<rparr>) None)\<lparr>srv_id := i\<rparr>)"
    using tls_resolves [OF d tls_streams(4) _ _ tls_patches(4)] tls_streams(2,3) by auto
  from tls_edit [OF tls_with_fields(1,2) tls_marks this, of None tls_stream None, folded tls_self(1), folded tls_self(2)]
  have up: "update_server sample_env ''s1'' edit_ech True tls_registry =
      (tls_registry\<lparr>rg_subscriptions := [demo_group\<lparr>sub_servers := [tls_with (edited_overrides tls_server edit_ech) (tls_stream\<lparr>ss_ech := Some ''cfg''\<rparr>) None]\<rparr>]\<rparr>,
       Inr (tls_with (edited_overrides tls_server edit_ech) (tls_stream\<lparr>ss_ech := Some ''cfg''\<rparr>) None))" .
  have ov: "edited_overrides tls_server edit_ech = Some \<lparr>ov_values = [(''stream.ech'', JStr ''cfg'')], ov_provider = []\<rparr>"
    by code_simp
  have "srv_overrides (tls_with ov' s p) = ov'" for ov' s p by (simp add: tls_with_def)
  moreover from this have "snd (drop_server_override sample_env ''s1'' ''stream.ech'' True
      (tls_registry\<lparr>rg_subscriptions := [demo_group\<lparr>sub_servers := [tls_with (edited_overrides tls_server edit_ech) (tls_stream\<lparr>ss_ech := Some ''cfg''\<rparr>) None]\<rparr>]\<rparr>))
      = Inl (Not_Overridden ''stream.ech'')"
    by (simp add: drop_server_override_def tls_place(1,2) [OF tls_with_fields(1) refl] ov)
  ultimately show ?thesis using up ov
    by (intro exI [of _ "tls_with (edited_overrides tls_server edit_ech) (tls_stream\<lparr>ss_ech := Some ''cfg''\<rparr>) None"] conjI) simp_all
qed

end
