(* ===== verification/Wire.thy ===== *)
theory Wire
  imports Complaints Connection Profile
begin

text \<open>
  What the daemon and its clients say to each other: the records of \<open>crates/oxidom-core/src/ipc.rs\<close>.
  The serde attributes only give defaults for fields an older peer leaves out, so a record here is what
  a client has after parsing.

  A \<open>HashMap\<close> that a client iterates over is an association list with different keys; its order stands for
  the order of the iteration.
\<close>

section \<open>Sessions\<close>

record runtime_observation =
  ro_outcome :: string
  ro_source :: string
  ro_measured_at :: string

record runtime_protection =
  rp_on_core_exit :: string
  rp_holding :: "bool option"
  rp_interface_up :: "bool option"
  rp_route_mode :: "string option"
  rp_desktop_proxy_owner :: "bool option"

record runtime_failover =
  rfo_state :: string
  rfo_members :: "string list"
  rfo_current :: string
  rfo_next :: "string option"
  rfo_attempts :: nat
  rfo_max_attempts :: nat
  rfo_cooldown_secs :: nat

record runtime_session =
  rse_phase :: string
  rse_health :: "runtime_observation option"
  rse_protection :: runtime_protection
  rse_retry :: runtime_retry
  rse_failover :: "runtime_failover option"

record pool_member =
  pm_server_id :: string
  pm_alias :: "string option"
  pm_name :: string
  pm_tag :: string
  pm_in_rotation :: "bool option"

record selection_info =
  sln_kind :: string
  sln_name :: string
  sln_strategy :: string
  sln_members :: "pool_member list"
  sln_endpoints :: nat
  sln_selecting :: "string option"
  sln_stale :: bool

record interface_info =
  ii_device :: string
  ii_address :: string
  ii_mtu :: nat
  ii_routes :: string
  ii_table :: nat
  ii_mark :: nat
  ii_up :: bool

record session_info =
  ses_profile :: string
  ses_state :: string
  ses_error :: "string option"
  ses_server_id :: "string option"
  ses_server_alias :: "string option"
  ses_server_name :: "string option"
  ses_address :: string
  ses_socks_port :: nat
  ses_http_port :: nat
  ses_owns_system_proxy :: bool
  ses_holding_traffic :: bool
  ses_interface :: "interface_info option"
  ses_selection :: selection_info
  ses_runtime :: "runtime_session option"

section \<open>Status\<close>

record status_info =
  sti_state :: string
  sti_error :: "string option"
  sti_active_id :: "string option"
  sti_active_profile :: "string option"
  sti_error_id :: "string option"
  sti_sessions :: "session_info list"
  sti_standby_proxy :: bool

definition status_from :: "session_status \<Rightarrow> string option \<Rightarrow> status_info" where
  "status_from status active =
     (let (state, error) = (case status of
            StDisconnected \<Rightarrow> (''disconnected'', None)
          | StConnecting \<Rightarrow> (''connecting'', None)
          | StConnected \<Rightarrow> (''connected'', None)
          | StError message \<Rightarrow> (''error'', Some message))
      in \<lparr>sti_state = state, sti_error = error, sti_active_id = active, sti_active_profile = None,
          sti_error_id = None, sti_sessions = [], sti_standby_proxy = False\<rparr>)"

definition with_active_profile :: "string option \<Rightarrow> status_info \<Rightarrow> status_info" where
  "with_active_profile name s = s\<lparr>sti_active_profile := name\<rparr>"

definition with_error_id :: "string option \<Rightarrow> status_info \<Rightarrow> status_info" where
  "with_error_id i s = s\<lparr>sti_error_id := i\<rparr>"

definition to_status :: "status_info \<Rightarrow> session_status" where
  "to_status s =
     (if sti_state s = ''connecting'' then StConnecting
      else if sti_state s = ''connected'' then StConnected
      else if sti_state s = ''error'' then StError (unwrap_or (sti_error s) [])
      else StDisconnected)"

lemma to_status_from [simp]: "to_status (status_from status active) = status"
  by (cases status) (simp_all add: to_status_def status_from_def unwrap_or_def)

section \<open>Probes\<close>

definition probe_state_version :: nat where
  "probe_state_version = 1"

record probe_state =
  pst_version :: nat
  pst_running :: "string list"
  pst_queued :: "string list"
  pst_readings :: "(string \<times> latency_reading) list"
  pst_proxied :: "(string \<times> latency_reading) list"

definition probe_history_limit :: nat where
  "probe_history_limit = 10"

section \<open>Profiles\<close>

record profile_entry =
  pe_name :: string
  pe_description :: string
  pe_server :: string
  pe_socks_port :: nat
  pe_http_port :: nat
  pe_interface :: profile_interface
  pe_pool :: "pool_query option"
  pe_core :: core_options
  pe_on_core_exit :: "on_core_exit option"
  pe_routing :: "string option"
  pe_failover :: "policy option"

section \<open>What a failure offers\<close>

datatype error_action = Open_Settings | Trust_Certificate | No_Action

definition settings_hints :: "string list" where
  "settings_hints = [''already in use'', ''Xray binary'', ''not found on $PATH'', ''$PATH is empty'', ''Xray 26.1'',
     ''Xray core'', ''geo data'']"

definition error_action_of :: "string \<Rightarrow> error_action" where
  "error_action_of message =
     (if contains_str message (detail_message CertificateRejected)
         \<or> contains_str message (detail_message InsecureTlsUnsupported)
      then Trust_Certificate
      else if list_ex (contains_str message) settings_hints then Open_Settings
      else No_Action)"

end
