(* ===== verification/Window_State.thy ===== *)
theory Window_State
  imports Wire "HOL-Library.AList"
begin

text \<open>
  What the window knows: \<open>SnapshotState\<close> and its operations in \<open>crates/oxidom-gui/src/gui/reduce.rs\<close>, and the
  operations of the user in \<open>gui/operation.rs\<close>. The state holds what the daemon last reported, what the user has
  just asked for (an operation in flight and a pinned status), and which cards wait for a measurement.

  Instants are milliseconds; \<open>duration_since\<close> is the subtraction of natural numbers. A hash map is an
  association list with different keys, a hash set a set.
\<close>

section \<open>Operations of the user\<close>

datatype ui_operation_kind =
    Op_Connect | Op_Disconnect | Op_Add_Subscription | Op_Update_Subscription | Op_Update_All_Subscriptions
  | Op_Delete_Subscription | Op_Import_Servers | Op_Create_Server | Op_Edit_Server | Op_Delete_Server
  | Op_Apply_Settings | Op_Save_Profile | Op_Remove_Profile | Op_Up_Profile | Op_Down_Profile
  | Op_Find_Geo_Assets | Op_Install_Geo_Assets

definition is_subscription_fetch :: "ui_operation_kind \<Rightarrow> bool" where
  "is_subscription_fetch k = (k = Op_Add_Subscription \<or> k = Op_Update_Subscription \<or> k = Op_Update_All_Subscriptions)"

definition permits :: "ui_operation_kind \<Rightarrow> ui_operation_kind \<Rightarrow> bool" where
  "permits running new = (is_subscription_fetch running \<and> (new = Op_Disconnect \<or> new = Op_Down_Profile))"

record ui_operation =
  uo_kind :: ui_operation_kind
  uo_subscription :: "string option"
  uo_server :: "string option"
  uo_profile :: "string option"

section \<open>What a card shows\<close>

datatype probe_phase = Phase_Unknown | Phase_Queued | Phase_Running

record probe_wait =
  pw_since :: nat
  pw_acked :: bool
  pw_given_up :: bool
  pw_phase :: probe_phase

definition probe_wait_new :: "nat \<Rightarrow> probe_wait" where
  "probe_wait_new since = \<lparr>pw_since = since, pw_acked = False, pw_given_up = False, pw_phase = Phase_Unknown\<rparr>"

definition is_running_wait :: "probe_wait \<Rightarrow> bool" where
  "is_running_wait w = (\<not> pw_given_up w)"

datatype latency_age = Age_Unknown | Age_Fresh | Age_Stale nat

datatype latency_state =
    Ls_Unmeasured | Ls_Superseded | Ls_Checking bool
  | Ls_Reachable nat latency_age latency_method | Ls_Tunnel nat latency_age latency_method
  | Ls_Unreachable | Ls_No_Network | Ls_Not_Run "probe_detail option"

definition age_of :: "latency_reading \<Rightarrow> nat \<Rightarrow> latency_age" where
  "age_of reading now_ms =
     (if lr_measured_at reading = 0 then Age_Unknown
      else if now_ms < lr_measured_at reading then Age_Unknown
      else let minutes = (now_ms - lr_measured_at reading) div 60000
           in if minutes = 0 then Age_Fresh else Age_Stale (min minutes 65535))"

definition check_can_be_stopped :: "probe_phase \<Rightarrow> bool \<Rightarrow> bool" where
  "check_can_be_stopped ph proxied = (ph \<noteq> Phase_Running \<and> \<not> proxied)"

definition probe_is_proxied :: "session_info list \<Rightarrow> string \<Rightarrow> bool" where
  "probe_is_proxied sessions i = list_ex (\<lambda>s. ses_state s = ''connected'' \<and> ses_server_id s = Some i) sessions"

definition latency_state_of ::
  "latency_reading option \<Rightarrow> probe_wait option \<Rightarrow> bool \<Rightarrow> bool \<Rightarrow> nat \<Rightarrow> latency_state" where
  "latency_state_of reading checking is_active proxied now_ms =
     (case checking of
        Some w \<Rightarrow> Ls_Checking (check_can_be_stopped (pw_phase w) proxied)
      | None \<Rightarrow>
     (case reading of
        None \<Rightarrow> Ls_Unmeasured
      | Some r \<Rightarrow>
          if (lr_route r = RouteProxied) \<noteq> is_active then Ls_Superseded
          else let age = age_of r now_ms
               in case lr_value r of
                    Some ms \<Rightarrow> if lr_route r = RouteProxied then Ls_Tunnel ms age (lr_method r)
                              else Ls_Reachable ms age (lr_method r)
                  | None \<Rightarrow> (case lr_failure r of
                        Some FailNoNetwork \<Rightarrow> Ls_No_Network
                      | Some FailUnknown \<Rightarrow> Ls_Not_Run (lr_detail r)
                      | Some FailUnreachable \<Rightarrow> Ls_Unreachable
                      | Some FailTimeout \<Rightarrow> Ls_Unreachable
                      | None \<Rightarrow> Ls_Unmeasured)))"

datatype probe_toast = Toast_Unreachable | Toast_No_Network | Toast_Did_Not_Run

definition probe_toast_of :: "latency_reading \<Rightarrow> bool \<Rightarrow> bool \<Rightarrow> probe_toast option" where
  "probe_toast_of reading asked swept =
     (if lr_value reading \<noteq> None then None
      else if lr_detail reading = Some Cancelled then None
      else if lr_failure reading = Some FailUnknown \<and> (asked \<or> swept) then Some Toast_Did_Not_Run
      else if lr_failure reading = Some FailNoNetwork \<and> (asked \<or> swept) then Some Toast_No_Network
      else if asked then Some Toast_Unreachable else None)"

definition press_stops :: "string list \<Rightarrow> (string \<times> probe_wait) list \<Rightarrow> session_info list \<Rightarrow> bool" where
  "press_stops ids checking sessions =
     list_ex (\<lambda>i. case map_of checking i of
         Some w \<Rightarrow> check_can_be_stopped (pw_phase w) (probe_is_proxied sessions i) | None \<Rightarrow> False) ids"

section \<open>The state\<close>

record route_target =
  rt_profile :: "string option"
  rt_server_id :: string

record server_profiles =
  sp_connected :: "string list"
  sp_in_pool :: "string list"

record window_state =
  ws_selected_profile :: string
  ws_connected_id :: "string option"
  ws_reported_id :: "string option"
  ws_pending_target :: "string option"
  ws_pending_pool :: "pool_query option"
  ws_pending_pool_members :: "string list option"
  ws_active_profile :: "string option"
  ws_sessions :: "session_info list"
  ws_connected_profiles :: "(string \<times> server_profiles) list"
  ws_readings :: "(string \<times> latency_reading) list"
  ws_proxied :: "(string \<times> latency_reading) list"
  ws_last_active_latency :: "(route_target \<times> nat) option"
  ws_checking :: "(string \<times> probe_wait) list"
  ws_notify_probe :: "string set"
  ws_notify_local :: "string set"
  ws_operation :: "ui_operation option"
  ws_stop_operation :: "ui_operation option"
  ws_pending_status :: "session_status option"
  ws_pending_profile :: string
  ws_pending_since :: nat
  ws_daemon_status :: session_status
  ws_daemon_state :: string
  ws_poll_error :: "string option"
  ws_standby_proxy :: bool
  ws_failed_id :: "string option"
  ws_route_target :: "route_target option"
  ws_notified_error :: "string option"
  ws_notified_outdated :: bool
  ws_state_epoch :: nat

text \<open>\<open>connected_profiles\<close>: which profiles use which server. The entry of the map is made when it is missing.\<close>

definition profiles_of :: "(string \<times> server_profiles) list \<Rightarrow> string \<Rightarrow> server_profiles" where
  "profiles_of m i = unwrap_or (map_of m i) \<lparr>sp_connected = [], sp_in_pool = []\<rparr>"

definition push_in_pool :: "string \<Rightarrow> (string \<times> server_profiles) list \<Rightarrow> string \<Rightarrow> (string \<times> server_profiles) list" where
  "push_in_pool profile m i = (let e = profiles_of m i in AList.update i (e\<lparr>sp_in_pool := sp_in_pool e @ [profile]\<rparr>) m)"

definition push_connected :: "string \<Rightarrow> (string \<times> server_profiles) list \<Rightarrow> string \<Rightarrow> (string \<times> server_profiles) list" where
  "push_connected profile m i = (let e = profiles_of m i in AList.update i (e\<lparr>sp_connected := sp_connected e @ [profile]\<rparr>) m)"

definition connected_step :: "(string \<times> server_profiles) list \<Rightarrow> session_info \<Rightarrow> (string \<times> server_profiles) list" where
  "connected_step m s =
     (if ses_state s \<noteq> ''connected'' then m
      else if sln_kind (ses_selection s) = ''pool''
      then foldl (push_in_pool (ses_profile s)) m (map pm_server_id (sln_members (ses_selection s)))
      else case ses_server_id s of None \<Rightarrow> m | Some i \<Rightarrow> push_connected (ses_profile s) m i)"

definition connected_profiles_of :: "status_info \<Rightarrow> (string \<times> server_profiles) list" where
  "connected_profiles_of status =
     (let m = foldl connected_step [] (sti_sessions status)
      in if m = [] \<and> to_status status = StConnected
         then case sti_active_id status of
                Some i \<Rightarrow> push_connected (unwrap_or (sti_active_profile status) ''default'') m i
              | None \<Rightarrow> m
         else m)"

definition route_target_of :: "status_info \<Rightarrow> route_target option" where
  "route_target_of status =
     (if to_status status \<noteq> StConnected then None
      else map_option (\<lambda>i. \<lparr>rt_profile = sti_active_profile status, rt_server_id = i\<rparr>) (sti_active_id status))"

definition window_state_new :: "status_info \<Rightarrow> nat \<Rightarrow> window_state" where
  "window_state_new status now =
     \<lparr>ws_selected_profile = ''default'', ws_connected_id = sti_active_id status, ws_reported_id = sti_active_id status,
      ws_pending_target = None, ws_pending_pool = None, ws_pending_pool_members = None,
      ws_active_profile = sti_active_profile status, ws_sessions = sti_sessions status,
      ws_connected_profiles = connected_profiles_of status, ws_readings = [], ws_proxied = [],
      ws_last_active_latency = None, ws_checking = [], ws_notify_probe = {}, ws_notify_local = {},
      ws_operation = None, ws_stop_operation = None, ws_pending_status = None, ws_pending_profile = ''default'',
      ws_pending_since = now, ws_daemon_status = to_status status, ws_daemon_state = sti_state status,
      ws_poll_error = None, ws_standby_proxy = sti_standby_proxy status, ws_failed_id = None,
      ws_route_target = route_target_of status, ws_notified_error = None, ws_notified_outdated = False,
      ws_state_epoch = 0\<rparr>"

section \<open>Operations in flight\<close>

definition foreground_operation :: "window_state \<Rightarrow> ui_operation option" where
  "foreground_operation s = or_else (ws_stop_operation s) (ws_operation s)"

definition can_start :: "window_state \<Rightarrow> ui_operation_kind \<Rightarrow> bool" where
  "can_start s kind =
     (ws_stop_operation s = None \<and> (case ws_operation s of None \<Rightarrow> True | Some running \<Rightarrow> permits (uo_kind running) kind))"

definition begin_operation :: "ui_operation \<Rightarrow> window_state \<Rightarrow> window_state \<times> bool" where
  "begin_operation new s =
     (if \<not> can_start s (uo_kind new) then (s, False)
      else if ws_operation s \<noteq> None then (s\<lparr>ws_stop_operation := Some new\<rparr>, True)
      else (s\<lparr>ws_operation := Some new\<rparr>, True))"

definition clear_pin :: "window_state \<Rightarrow> window_state" where
  "clear_pin s = s\<lparr>ws_pending_status := None, ws_pending_target := None, ws_pending_pool := None,
     ws_pending_pool_members := None\<rparr>"

definition finish_operation :: "ui_operation \<Rightarrow> nat \<Rightarrow> bool \<Rightarrow> window_state \<Rightarrow> window_state \<times> bool" where
  "finish_operation ended epoch lost s =
     (let retired = (if ws_stop_operation s = Some ended then Some (s\<lparr>ws_stop_operation := None\<rparr>)
            else if ws_operation s = Some ended then Some (s\<lparr>ws_operation := None\<rparr>) else None)
      in case retired of
           None \<Rightarrow> (s, False)
         | Some s \<Rightarrow>
             (if lost \<and> \<not> is_subscription_fetch (uo_kind ended) then clear_pin s else s, epoch = ws_state_epoch s))"

section \<open>Pinned status\<close>

definition pending_status_for :: "window_state \<Rightarrow> string \<Rightarrow> session_status option" where
  "pending_status_for s profile = (if ws_pending_profile s = profile then ws_pending_status s else None)"

definition current_status :: "window_state \<Rightarrow> session_status" where
  "current_status s = unwrap_or (pending_status_for s (ws_selected_profile s)) (ws_daemon_status s)"

definition pin_status :: "string \<Rightarrow> session_status \<Rightarrow> nat \<Rightarrow> window_state \<Rightarrow> window_state" where
  "pin_status profile status now s =
     s\<lparr>ws_pending_pool := None, ws_pending_pool_members := None,
       ws_pending_target := (if profile = ''default'' \<and> (status = StConnecting \<or> status = StConnected)
          then ws_connected_id s else None),
       ws_pending_profile := profile, ws_pending_status := Some status, ws_pending_since := now\<rparr>"

definition pin_target :: "string \<Rightarrow> string option \<Rightarrow> nat \<Rightarrow> window_state \<Rightarrow> window_state" where
  "pin_target profile target now s = (pin_status profile StConnecting now s)\<lparr>ws_pending_target := target\<rparr>"

definition pin_pool :: "string \<Rightarrow> pool_query \<Rightarrow> nat \<Rightarrow> window_state \<Rightarrow> window_state" where
  "pin_pool profile query now s =
     (let s = (pin_target profile None now s)\<lparr>ws_pending_pool := Some query\<rparr>
      in if profile = ''default'' then s\<lparr>ws_connected_id := None\<rparr> else s)"

definition pin_pool_resolved :: "string \<Rightarrow> pool_query \<Rightarrow> string list \<Rightarrow> nat \<Rightarrow> window_state \<Rightarrow> window_state" where
  "pin_pool_resolved profile query ids now s = (pin_pool profile query now s)\<lparr>ws_pending_pool_members := Some ids\<rparr>"

definition pin_saved_start :: "profile_entry \<Rightarrow> string option \<Rightarrow> nat \<Rightarrow> window_state \<Rightarrow> window_state" where
  "pin_saved_start entry i now s =
     (case pe_pool entry of
        Some query \<Rightarrow> pin_pool (pe_name entry) query now s
      | None \<Rightarrow>
          let s = (if pe_name entry = ''default'' then s\<lparr>ws_connected_id := i\<rparr> else s)
          in pin_target (pe_name entry) i now s)"

definition rollback_pin :: "window_state \<Rightarrow> window_state" where
  "rollback_pin s = (clear_pin s)\<lparr>ws_connected_id := ws_reported_id s\<rparr>"

definition poll_failed :: "nat \<Rightarrow> string \<Rightarrow> window_state \<Rightarrow> window_state \<times> bool" where
  "poll_failed epoch error s =
     (if epoch < ws_state_epoch s \<or> ws_poll_error s = Some error then (s, False)
      else (s\<lparr>ws_poll_error := Some error\<rparr>, True))"

section \<open>Cards\<close>

definition is_proxied :: "window_state \<Rightarrow> string \<Rightarrow> bool" where
  "is_proxied s i = probe_is_proxied (ws_sessions s) i"

definition is_active :: "window_state \<Rightarrow> string \<Rightarrow> bool" where
  "is_active s i = (case ws_route_target s of Some t \<Rightarrow> rt_server_id t = i | None \<Rightarrow> False)"

definition proxied_reading :: "window_state \<Rightarrow> route_target \<Rightarrow> latency_reading option" where
  "proxied_reading s t = Option.bind (rt_profile t) (map_of (ws_proxied s))"

definition shown_reading :: "window_state \<Rightarrow> string \<Rightarrow> latency_reading option" where
  "shown_reading s i =
     (if is_active s i
      then or_else (Option.bind (ws_route_target s) (proxied_reading s))
             (filter_opt (\<lambda>r. lr_route r = RouteProxied) (map_of (ws_readings s) i))
      else map_of (ws_readings s) i)"

definition running_wait :: "window_state \<Rightarrow> string \<Rightarrow> probe_wait option" where
  "running_wait s i = filter_opt is_running_wait (map_of (ws_checking s) i)"

definition is_checking :: "window_state \<Rightarrow> string \<Rightarrow> bool" where
  "is_checking s i = (running_wait s i \<noteq> None)"

definition card_state :: "window_state \<Rightarrow> string \<Rightarrow> nat \<Rightarrow> latency_state" where
  "card_state s i now_ms =
     latency_state_of (shown_reading s i) (running_wait s i) (is_active s i) (is_proxied s i) now_ms"

section \<open>Sessions\<close>

datatype session_row_state = Row_Stopped | Row_Connecting | Row_Connected | Row_Error | Row_Unknown

definition session_for :: "window_state \<Rightarrow> string \<Rightarrow> session_info option" where
  "session_for s profile = find (\<lambda>ses. ses_profile ses = profile) (ws_sessions s)"

definition phase_row :: "string \<Rightarrow> session_row_state" where
  "phase_row ph =
     (if ph = ''stopped'' then Row_Stopped
      else if ph = ''starting'' \<or> ph = ''verifying'' then Row_Connecting
      else if ph = ''running'' then Row_Connected
      else if ph = ''failed'' then Row_Error
      else Row_Unknown)"

definition state_row :: "string \<Rightarrow> session_row_state" where
  "state_row st =
     (if st = ''connected'' then Row_Connected
      else if st = ''connecting'' then Row_Connecting
      else if st = ''error'' then Row_Error
      else if st = ''disconnected'' then Row_Stopped
      else Row_Unknown)"

definition session_row_state :: "session_info option \<Rightarrow> session_row_state" where
  "session_row_state ses =
     (case ses of
        None \<Rightarrow> Row_Stopped
      | Some x \<Rightarrow> (case ses_runtime x of Some r \<Rightarrow> phase_row (rse_phase r) | None \<Rightarrow> state_row (ses_state x)))"

definition profile_lifecycle :: "window_state \<Rightarrow> string \<Rightarrow> session_row_state" where
  "profile_lifecycle s profile =
     (case session_for s profile of
        Some ses \<Rightarrow> session_row_state (Some ses)
      | None \<Rightarrow> if profile = ''default'' then state_row (ws_daemon_state s) else Row_Stopped)"

definition status_from_session :: "session_info option \<Rightarrow> session_status" where
  "status_from_session ses =
     (case ses of
        None \<Rightarrow> StDisconnected
      | Some x \<Rightarrow>
          if ses_state x = ''connected'' then StConnected
          else if ses_state x = ''connecting'' then StConnecting
          else if ses_state x = ''error'' then StError (unwrap_or (ses_error x) [])
          else StDisconnected)"

definition reported_status_for :: "window_state \<Rightarrow> string \<Rightarrow> session_status" where
  "reported_status_for s profile =
     (let ses = session_for s profile
      in if Option.bind ses ses_runtime \<noteq> None
         then case profile_lifecycle s profile of
                Row_Connected \<Rightarrow> StConnected
              | Row_Connecting \<Rightarrow> StConnecting
              | Row_Error \<Rightarrow> StError (unwrap_or (Option.bind ses ses_error) [])
              | _ \<Rightarrow> StDisconnected
         else if profile = ''default'' then ws_daemon_status s
         else status_from_session ses)"

definition selected_status :: "window_state \<Rightarrow> session_status" where
  "selected_status s =
     (if ws_selected_profile s = ''default'' then current_status s
      else unwrap_or (pending_status_for s (ws_selected_profile s)) (reported_status_for s (ws_selected_profile s)))"

text \<open>\<open>same_members\<close> sorts both lists and compares them, which is the comparison of the multisets.\<close>

definition same_members :: "selection_info \<Rightarrow> string list \<Rightarrow> bool" where
  "same_members selection members =
     (length (sln_members selection) = length members
      \<and> sort (map pm_server_id (sln_members selection)) = sort members)"

end
