(* ===== verification/Window_Reduce.thy ===== *)
theory Window_Reduce
  imports Window_State
begin

text \<open>
  One poll folded into the window's state: \<open>reduce\<close> of \<open>crates/oxidom-gui/src/gui/reduce.rs\<close>, step by step in the
  order of its text. A snapshot taken before the user's last action is dropped whole; otherwise the state takes
  over what the daemon reports, and the effects say what the widgets have to show.
\<close>

section \<open>Snapshots and effects\<close>

record polled_snapshot =
  sn_status :: status_info
  sn_probe :: probe_state
  sn_epoch :: nat

datatype window_effect =
    Ef_Latency string latency_state | Ef_Reprobe string | Ef_Toast_Unreachable | Ef_Toast_No_Network
  | Ef_Toast_Probe_Did_Not_Run | Ef_Connection_Error string | Ef_Daemon_Outdated

definition probe_deadline :: nat where "probe_deadline = 300000"
definition probe_ack_grace :: nat where "probe_ack_grace = 3000"
definition pending_status_deadline :: nat where "pending_status_deadline = 15000"

text \<open>The state with the effects and the toasts collected so far.\<close>

record window_round =
  wr_state :: window_state
  wr_effects :: "window_effect list"
  wr_toasts :: "probe_toast set"

definition shows_card :: "string \<Rightarrow> window_effect \<Rightarrow> bool" where
  "shows_card i e = (case e of Ef_Latency j _ \<Rightarrow> j = i | _ \<Rightarrow> False)"

definition card_effects :: "string \<Rightarrow> latency_state \<Rightarrow> window_effect list" where
  "card_effects i shown = (if shown = Ls_Superseded then [Ef_Reprobe i] else []) @ [Ef_Latency i shown]"

definition push_card :: "nat \<Rightarrow> window_state \<Rightarrow> window_effect list \<Rightarrow> string \<Rightarrow> window_effect list" where
  "push_card now_ms s effects i =
     (if list_ex (shows_card i) effects then effects else effects @ card_effects i (card_state s i now_ms))"

section \<open>The steps\<close>

definition adopt_status :: "status_info \<Rightarrow> window_state \<Rightarrow> window_state" where
  "adopt_status status s =
     s\<lparr>ws_poll_error := None, ws_daemon_status := to_status status, ws_daemon_state := sti_state status,
       ws_reported_id := sti_active_id status, ws_standby_proxy := sti_standby_proxy status,
       ws_active_profile := sti_active_profile status, ws_sessions := sti_sessions status,
       ws_connected_profiles := connected_profiles_of status,
       ws_failed_id := or_else (sti_error_id status) (ws_failed_id s)\<rparr>"

definition note_outdated :: "probe_state \<Rightarrow> window_state \<Rightarrow> window_state \<times> window_effect list" where
  "note_outdated probe s =
     (if pst_version probe < probe_state_version \<and> \<not> ws_notified_outdated s
      then (s\<lparr>ws_notified_outdated := True\<rparr>, [Ef_Daemon_Outdated]) else (s, []))"

definition adopt_route :: "route_target option \<Rightarrow> window_state \<Rightarrow> window_state \<times> string list" where
  "adopt_route target s =
     (if target = ws_route_target s then (s, [])
      else (s\<lparr>ws_route_target := target\<rparr>,
            map rt_server_id (case ws_route_target s of Some t \<Rightarrow> [t] | None \<Rightarrow> [])
            @ map rt_server_id (case target of Some t \<Rightarrow> [t] | None \<Rightarrow> [])))"

text \<open>The toast a reading earns; whoever asked for it has been answered.\<close>

definition answer :: "string \<Rightarrow> latency_reading \<Rightarrow> window_round \<Rightarrow> window_round" where
  "answer i reading r =
     (let s = wr_state r
      in r\<lparr>wr_state := s\<lparr>ws_notify_probe := ws_notify_probe s - {i}, ws_notify_local := ws_notify_local s - {i}\<rparr>,
           wr_toasts := wr_toasts r
             \<union> set_option (probe_toast_of reading (i \<in> ws_notify_probe s) (i \<in> ws_notify_local s))\<rparr>)"

definition fold_reading :: "nat \<Rightarrow> string set \<Rightarrow> window_round \<Rightarrow> string \<times> latency_reading \<Rightarrow> window_round" where
  "fold_reading now_ms held r entry =
     (let (i, reading) = entry; s = wr_state r
      in if map_of (ws_readings s) i = Some reading then r
         else
           let s = s\<lparr>ws_readings := AList.update i reading (ws_readings s)\<rparr>;
               effects = (if i \<notin> held \<and> map_of (ws_checking s) i = None
                 then wr_effects r @ card_effects i (card_state s i now_ms) else wr_effects r);
               s = (case (ws_route_target s, lr_value reading) of
                   (Some t, Some ms) \<Rightarrow>
                     if rt_server_id t = i \<and> rt_profile t = ws_active_profile s \<and> lr_route reading = RouteProxied
                     then s\<lparr>ws_last_active_latency := Some (t, ms)\<rparr> else s
                 | _ \<Rightarrow> s)
           in answer i reading (r\<lparr>wr_state := s, wr_effects := effects\<rparr>))"

definition fold_proxied :: "nat \<Rightarrow> string set \<Rightarrow> window_round \<Rightarrow> string \<times> latency_reading \<Rightarrow> window_round" where
  "fold_proxied now_ms held r entry =
     (let (profile, reading) = entry; s = wr_state r
      in if map_of (ws_proxied s) profile = Some reading then r
         else
           let s = s\<lparr>ws_proxied := AList.update profile reading (ws_proxied s)\<rparr>
           in case filter_opt (\<lambda>t. rt_profile t = Some profile) (ws_route_target s) of
                None \<Rightarrow> r\<lparr>wr_state := s\<rparr>
              | Some t \<Rightarrow>
                  let i = rt_server_id t;
                      effects = (if i \<notin> held \<and> map_of (ws_checking s) i = None
                        then wr_effects r @ [Ef_Latency i (card_state s i now_ms)] else wr_effects r);
                      s = (case lr_value reading of
                          Some ms \<Rightarrow> s\<lparr>ws_last_active_latency := Some (t, ms)\<rparr> | None \<Rightarrow> s)
                  in answer i reading (r\<lparr>wr_state := s, wr_effects := effects\<rparr>))"

definition retain_known :: "probe_state \<Rightarrow> window_state \<Rightarrow> window_state" where
  "retain_known probe s =
     (if probe_state_version \<le> pst_version probe
      then s\<lparr>ws_readings := filter (\<lambda>(i, _). map_of (pst_readings probe) i \<noteq> None) (ws_readings s),
             ws_proxied := filter (\<lambda>(i, _). map_of (pst_proxied probe) i \<noteq> None) (ws_proxied s)\<rparr>
      else s)"

definition hold_id :: "string set \<Rightarrow> nat \<Rightarrow> window_round \<Rightarrow> string \<Rightarrow> window_round" where
  "hold_id measuring now r i =
     (let s = wr_state r;
          ph = (if i \<in> measuring then Phase_Running else Phase_Queued);
          checking = Ef_Latency i (Ls_Checking (check_can_be_stopped ph (is_proxied s i)))
      in case map_of (ws_checking s) i of
           Some w \<Rightarrow>
             r\<lparr>wr_state := s\<lparr>ws_checking := AList.update i (w\<lparr>pw_acked := True, pw_phase := ph\<rparr>) (ws_checking s)\<rparr>,
               wr_effects := (if pw_phase w \<noteq> ph \<and> is_running_wait w then wr_effects r @ [checking] else wr_effects r)\<rparr>
         | None \<Rightarrow>
             r\<lparr>wr_state := s\<lparr>ws_checking := AList.update i
                 \<lparr>pw_since = now, pw_acked = True, pw_given_up = False, pw_phase = ph\<rparr> (ws_checking s)\<rparr>,
               wr_effects := wr_effects r @ [checking]\<rparr>)"

definition expired :: "string set \<Rightarrow> nat \<Rightarrow> (string \<times> probe_wait) list \<Rightarrow> string list" where
  "expired held now waits =
     map fst (filter (\<lambda>(i, w). i \<in> held \<and> is_running_wait w \<and> probe_deadline < now - pw_since w) waits)"

definition finished :: "string set \<Rightarrow> nat \<Rightarrow> (string \<times> probe_wait) list \<Rightarrow> string list" where
  "finished held now waits =
     map fst (filter (\<lambda>(i, w). i \<notin> held \<and> (pw_acked w \<or> probe_ack_grace < now - pw_since w)) waits)"

definition give_up :: "nat \<Rightarrow> window_round \<Rightarrow> string \<Rightarrow> window_round" where
  "give_up now_ms r i =
     (let s = wr_state r;
          s = (case map_of (ws_checking s) i of
              Some w \<Rightarrow> s\<lparr>ws_checking := AList.update i (w\<lparr>pw_given_up := True\<rparr>) (ws_checking s)\<rparr> | None \<Rightarrow> s)
      in r\<lparr>wr_state := s, wr_effects := push_card now_ms s (wr_effects r) i\<rparr>)"

definition let_go :: "nat \<Rightarrow> window_round \<Rightarrow> string \<Rightarrow> window_round" where
  "let_go now_ms r i =
     (let s = wr_state r;
          s = s\<lparr>ws_checking := AList.delete i (ws_checking s)\<rparr>
      in r\<lparr>wr_state := s, wr_effects := push_card now_ms s (wr_effects r) i\<rparr>)"

definition reroute :: "nat \<Rightarrow> window_round \<Rightarrow> string \<Rightarrow> window_round" where
  "reroute now_ms r i =
     (if is_checking (wr_state r) i then r
      else r\<lparr>wr_effects := push_card now_ms (wr_state r) (wr_effects r) i\<rparr>)"

section \<open>The pin\<close>

definition unhindered :: "window_state \<Rightarrow> bool" where
  "unhindered s = (case foreground_operation s of None \<Rightarrow> True | Some running \<Rightarrow> is_subscription_fetch (uo_kind running))"

definition reported_pool :: "window_state \<Rightarrow> string list \<Rightarrow> session_info \<Rightarrow> bool" where
  "reported_pool s ids ses =
     (sln_kind (ses_selection ses) = ''pool''
      \<and> (case ws_pending_pool s of
           None \<Rightarrow> False
         | Some pool \<Rightarrow> sln_strategy (ses_selection ses) = strategy_as_xray (pq_strategy pool)
             \<and> sln_name (ses_selection ses) = pq_name pool)
      \<and> same_members (ses_selection ses) ids)"

definition is_error :: "session_status \<Rightarrow> bool" where
  "is_error st = (case st of StError _ \<Rightarrow> True | _ \<Rightarrow> False)"

definition contradicted :: "string option \<Rightarrow> window_state \<Rightarrow> bool" where
  "contradicted active s =
     (let reported = reported_status_for s (ws_pending_profile s);
          ses = session_for s (ws_pending_profile s);
          target = (if ws_pending_profile s = ''default'' then active else Option.bind ses ses_server_id);
          up = (\<lambda>st. st = StConnecting \<or> st = StConnected)
      in case ws_pending_status s of
           None \<Rightarrow> False
         | Some pinned \<Rightarrow>
             if up pinned
             then reported \<noteq> StDisconnected
               \<and> (is_error reported
                  \<or> (case ws_pending_target s of None \<Rightarrow> True | Some t \<Rightarrow> target = Some t)
                    \<and> (case ws_pending_pool_members s of None \<Rightarrow> True
                       | Some ids \<Rightarrow> (case ses of Some x \<Rightarrow> reported_pool s ids x | None \<Rightarrow> False)))
             else \<not> up reported)"

definition retire_pin :: "string option \<Rightarrow> nat \<Rightarrow> window_state \<Rightarrow> window_state" where
  "retire_pin active now s =
     (if unhindered s
         \<and> (profile_lifecycle s (ws_pending_profile s) \<noteq> Row_Unknown \<and> contradicted active s
            \<or> pending_status_deadline < now - ws_pending_since s)
      then clear_pin s else s)"

definition note_error :: "bool \<Rightarrow> window_state \<Rightarrow> window_state \<times> string option" where
  "note_error visible s =
     (let error = (case ws_daemon_status s of StError message \<Rightarrow> Some message | _ \<Rightarrow> None)
      in if error \<noteq> ws_notified_error s
         then (s\<lparr>ws_notified_error := error\<rparr>, if visible then error else None) else (s, None))"

definition adopt_active :: "string option \<Rightarrow> window_state \<Rightarrow> window_state" where
  "adopt_active active s =
     (if unhindered s \<and> pending_status_for s ''default'' = None \<and> active \<noteq> ws_connected_id s
      then s\<lparr>ws_connected_id := active\<rparr> else s)"

definition forget_failure :: "window_state \<Rightarrow> window_state" where
  "forget_failure s = (case current_status s of StError _ \<Rightarrow> s | _ \<Rightarrow> s\<lparr>ws_failed_id := None\<rparr>)"

definition toast_effects :: "probe_toast set \<Rightarrow> window_effect list" where
  "toast_effects toasts =
     (if Toast_Unreachable \<in> toasts then [Ef_Toast_Unreachable] else [])
     @ (if Toast_No_Network \<in> toasts then [Ef_Toast_No_Network] else [])
     @ (if Toast_Did_Not_Run \<in> toasts then [Ef_Toast_Probe_Did_Not_Run] else [])"

section \<open>The transition\<close>

text \<open>Everything about the measurements: up to the cards whose route has moved.\<close>

definition held_ids :: "probe_state \<Rightarrow> string list" where
  "held_ids probe = remdups (pst_running probe @ pst_queued probe)"

definition take_readings :: "probe_state \<Rightarrow> nat \<Rightarrow> window_round \<Rightarrow> window_round" where
  "take_readings probe now_ms r =
     (let held = set (held_ids probe);
          r = foldl (fold_reading now_ms held) r (pst_readings probe);
          r = foldl (fold_proxied now_ms held) r (pst_proxied probe)
      in r\<lparr>wr_state := retain_known probe (wr_state r)\<rparr>)"

definition take_waits :: "probe_state \<Rightarrow> nat \<Rightarrow> nat \<Rightarrow> window_round \<Rightarrow> window_round" where
  "take_waits probe now now_ms r =
     (let held = set (held_ids probe);
          r = foldl (hold_id (set (pst_running probe)) now) r (held_ids probe);
          waits = ws_checking (wr_state r);
          r = foldl (give_up now_ms) r (expired held now waits)
      in foldl (let_go now_ms) r (finished held now waits))"

definition reduce :: "polled_snapshot \<Rightarrow> nat \<Rightarrow> nat \<Rightarrow> bool \<Rightarrow> window_state \<Rightarrow> window_state \<times> window_effect list option" where
  "reduce snapshot now now_ms visible s =
     (if sn_epoch snapshot < ws_state_epoch s then (s, None)
      else
        let status = sn_status snapshot; probe = sn_probe snapshot;
            (s, outdated) = note_outdated probe (adopt_status status s);
            (s, rerouted) = adopt_route (route_target_of status) s;
            r = take_readings probe now_ms \<lparr>wr_state = s, wr_effects = outdated, wr_toasts = {}\<rparr>;
            r = take_waits probe now now_ms r;
            r = foldl (reroute now_ms) r rerouted;
            s = retire_pin (sti_active_id status) now (wr_state r);
            (s, new_error) = note_error visible s;
            s = forget_failure (adopt_active (sti_active_id status) s)
        in (s, Some (wr_effects r @ toast_effects (wr_toasts r)
              @ (case new_error of Some error \<Rightarrow> [Ef_Connection_Error error] | None \<Rightarrow> []))))"

section \<open>What is drawn from the state\<close>

definition latency_states :: "window_state \<Rightarrow> nat \<Rightarrow> (string \<times> latency_state) list" where
  "latency_states s now_ms =
     (let ids = map fst (ws_readings s) @ map fst (ws_checking s)
            @ (case ws_route_target s of
                 None \<Rightarrow> []
               | Some t \<Rightarrow>
                   if proxied_reading s t \<noteq> None
                      \<or> filter_opt (\<lambda>r. lr_route r = RouteProxied) (map_of (ws_readings s) (rt_server_id t)) \<noteq> None
                   then [rt_server_id t] else [])
      in map (\<lambda>i. (i, card_state s i now_ms)) (remdups ids))"

definition active_latency_for :: "window_state \<Rightarrow> nat option \<times> bool" where
  "active_latency_for s =
     (let profile = ws_selected_profile s; ses = session_for s profile;
          tunnel = filter_opt (\<lambda>r. lr_route r = RouteProxied)
      in if (case ses of Some x \<Rightarrow> sln_kind (ses_selection x) = ''pool'' | None \<Rightarrow> False)
         then (Option.bind (tunnel (map_of (ws_proxied s) profile)) lr_value, False)
         else
           let target = (if profile = ''default''
                 then map_option (\<lambda>i. \<lparr>rt_profile = ws_active_profile s, rt_server_id = i\<rparr>) (ws_connected_id s)
                 else map_option (\<lambda>i. \<lparr>rt_profile = Some profile, rt_server_id = i\<rparr>) (Option.bind ses ses_server_id))
           in case target of
                None \<Rightarrow> (None, False)
              | Some t \<Rightarrow>
                  let legacy = (if profile = ''default'' then tunnel (map_of (ws_readings s) (rt_server_id t)) else None)
                  in case Option.bind (tunnel (or_else (proxied_reading s t) legacy)) lr_value of
                       Some ms \<Rightarrow> (Some ms, False)
                     | None \<Rightarrow> (case ws_last_active_latency s of
                           Some (target, ms) \<Rightarrow> if target = t then (Some ms, True) else (None, False)
                         | None \<Rightarrow> (None, False)))"

end
