(* ===== verification/Window_Laws.thy ===== *)
theory Window_Laws
  imports Window_Reduce
begin

text \<open>
  What a poll does to the window: how long a card may wait for a measurement, that no card shows an old number
  as the result of a check under way, that a card given up on stays down, that the window follows the daemon
  once the deadline of a pinned status has passed and that a daemon lagging behind does not undo a click.
\<close>

section \<open>What the steps leave alone\<close>

text \<open>The fields the measurements do not touch.\<close>

definition intent_view where
  "intent_view s = ((ws_pending_status s, ws_pending_profile s, ws_pending_since s, ws_pending_target s, ws_pending_pool s,
     ws_pending_pool_members s), (ws_operation s, ws_stop_operation s, ws_daemon_status s, ws_daemon_state s, ws_sessions s),
     (ws_connected_id s, ws_selected_profile s, ws_state_epoch s, ws_route_target s, ws_active_profile s, ws_notified_error s, ws_failed_id s))"

lemma foldl_keeps: "(\<And>r x. f (g r x) = f r) \<Longrightarrow> f (foldl g r xs) = f r"
  by (induction xs arbitrary: r) simp_all

lemma answer_keeps:
  "intent_view (wr_state (answer i reading r)) = intent_view (wr_state r)"
  "ws_checking (wr_state (answer i reading r)) = ws_checking (wr_state r)"
  "wr_effects (answer i reading r) = wr_effects r"
  by (simp_all add: answer_def Let_def intent_view_def)

lemma fold_reading_keeps:
  "intent_view (wr_state (fold_reading now_ms held r entry)) = intent_view (wr_state r)"
  "ws_checking (wr_state (fold_reading now_ms held r entry)) = ws_checking (wr_state r)"
  by (cases entry; simp add: fold_reading_def Let_def answer_keeps;
      (simp add: intent_view_def split: option.split)?)+

lemma fold_proxied_keeps:
  "intent_view (wr_state (fold_proxied now_ms held r entry)) = intent_view (wr_state r)"
  "ws_checking (wr_state (fold_proxied now_ms held r entry)) = ws_checking (wr_state r)"
  by (cases entry; simp add: fold_proxied_def Let_def answer_keeps split: option.split;
      (simp add: intent_view_def split: option.split)?)+

lemma retain_known_keeps:
  "intent_view (retain_known probe s) = intent_view s" "ws_checking (retain_known probe s) = ws_checking s"
  by (simp_all add: retain_known_def intent_view_def)

lemma take_readings_keeps:
  "intent_view (wr_state (take_readings probe now_ms r)) = intent_view (wr_state r)"
  "ws_checking (wr_state (take_readings probe now_ms r)) = ws_checking (wr_state r)"
  using foldl_keeps [where f = "\<lambda>r. intent_view (wr_state r)" and g = "fold_reading now_ms held" for held, OF fold_reading_keeps(1)]
    foldl_keeps [where f = "\<lambda>r. intent_view (wr_state r)" and g = "fold_proxied now_ms held" for held, OF fold_proxied_keeps(1)]
    foldl_keeps [where f = "\<lambda>r. ws_checking (wr_state r)" and g = "fold_reading now_ms held" for held, OF fold_reading_keeps(2)]
    foldl_keeps [where f = "\<lambda>r. ws_checking (wr_state r)" and g = "fold_proxied now_ms held" for held, OF fold_proxied_keeps(2)]
  by (simp_all add: take_readings_def Let_def retain_known_keeps)

lemma hold_id_keeps: "intent_view (wr_state (hold_id measuring now r i)) = intent_view (wr_state r)"
  by (simp add: hold_id_def Let_def intent_view_def split: option.split)

lemma give_up_keeps: "intent_view (wr_state (give_up now_ms r i)) = intent_view (wr_state r)"
  by (simp add: give_up_def Let_def intent_view_def split: option.split)

lemma let_go_keeps: "intent_view (wr_state (let_go now_ms r i)) = intent_view (wr_state r)"
  by (simp add: let_go_def Let_def intent_view_def)

lemma reroute_keeps: "wr_state (reroute now_ms r i) = wr_state r"
  by (simp add: reroute_def)

lemma take_waits_keeps: "intent_view (wr_state (take_waits probe now now_ms r)) = intent_view (wr_state r)"
  using foldl_keeps [where f = "\<lambda>r. intent_view (wr_state r)" and g = "hold_id measuring now" for measuring, OF hold_id_keeps]
    foldl_keeps [where f = "\<lambda>r. intent_view (wr_state r)" and g = "give_up now_ms", OF give_up_keeps]
    foldl_keeps [where f = "\<lambda>r. intent_view (wr_state r)" and g = "let_go now_ms", OF let_go_keeps]
  by (simp add: take_waits_def Let_def)

section \<open>The waits\<close>

definition held_wait :: "string set \<Rightarrow> nat \<Rightarrow> string \<Rightarrow> probe_wait option \<Rightarrow> probe_wait" where
  "held_wait measuring now i old =
     (let ph = (if i \<in> measuring then Phase_Running else Phase_Queued)
      in case old of Some w \<Rightarrow> w\<lparr>pw_acked := True, pw_phase := ph\<rparr>
         | None \<Rightarrow> \<lparr>pw_since = now, pw_acked = True, pw_given_up = False, pw_phase = ph\<rparr>)"

lemma hold_id_waits:
  "ws_checking (wr_state (hold_id measuring now r i)) =
     AList.update i (held_wait measuring now i (map_of (ws_checking (wr_state r)) i)) (ws_checking (wr_state r))"
  by (simp add: hold_id_def held_wait_def Let_def split: option.split)

lemma hold_fold_waits:
  "distinct ids \<Longrightarrow> map_of (ws_checking (wr_state (foldl (hold_id measuring now) r ids))) i =
     (if i \<in> set ids then Some (held_wait measuring now i (map_of (ws_checking (wr_state r)) i))
      else map_of (ws_checking (wr_state r)) i)"
  by (induction ids arbitrary: r) (auto simp: hold_id_waits update_conv')

lemma hold_fold_distinct:
  "distinct (map fst (ws_checking (wr_state r))) \<Longrightarrow>
     distinct (map fst (ws_checking (wr_state (foldl (hold_id measuring now) r ids))))"
  by (induction ids arbitrary: r) (simp_all add: hold_id_waits distinct_update)

lemma give_up_waits:
  "map_of (ws_checking (wr_state (give_up now_ms r j))) i =
     (if i = j then map_option (\<lambda>w. w\<lparr>pw_given_up := True\<rparr>) (map_of (ws_checking (wr_state r)) i)
      else map_of (ws_checking (wr_state r)) i)"
  by (auto simp: give_up_def Let_def update_conv' split: option.split)

lemma give_up_fold_waits:
  "map_of (ws_checking (wr_state (foldl (give_up now_ms) r ids))) i =
     (if i \<in> set ids then map_option (\<lambda>w. w\<lparr>pw_given_up := True\<rparr>) (map_of (ws_checking (wr_state r)) i)
      else map_of (ws_checking (wr_state r)) i)"
  by (induction ids arbitrary: r) (auto simp: give_up_waits option.map_comp comp_def)

lemma let_go_fold_waits:
  "map_of (ws_checking (wr_state (foldl (let_go now_ms) r ids))) i =
     (if i \<in> set ids then None else map_of (ws_checking (wr_state r)) i)"
  by (induction ids arbitrary: r) (auto simp: let_go_def Let_def delete_conv')

lemma expired_iff:
  "distinct (map fst ws) \<Longrightarrow> i \<in> set (expired held now ws) \<longleftrightarrow>
     (\<exists>w. map_of ws i = Some w \<and> i \<in> held \<and> is_running_wait w \<and> probe_deadline < now - pw_since w)"
  by (force simp: expired_def map_of_eq_Some_iff)

lemma finished_iff:
  "distinct (map fst ws) \<Longrightarrow> i \<in> set (finished held now ws) \<longleftrightarrow>
     (\<exists>w. map_of ws i = Some w \<and> i \<notin> held \<and> (pw_acked w \<or> probe_ack_grace < now - pw_since w))"
  by (force simp: finished_def map_of_eq_Some_iff)

text \<open>What becomes of each wait in one poll.\<close>

definition settled_wait :: "probe_state \<Rightarrow> nat \<Rightarrow> string \<Rightarrow> probe_wait option \<Rightarrow> probe_wait option" where
  "settled_wait probe now i old =
     (if i \<in> set (held_ids probe)
      then let w = held_wait (set (pst_running probe)) now i old
           in Some (if is_running_wait w \<and> probe_deadline < now - pw_since w then w\<lparr>pw_given_up := True\<rparr> else w)
      else filter_opt (\<lambda>w. \<not> pw_acked w \<and> now - pw_since w \<le> probe_ack_grace) old)"

lemma distinct_held_ids [simp]: "distinct (held_ids probe)"
  by (simp add: held_ids_def)

lemma take_waits_settle:
  assumes "distinct (map fst (ws_checking (wr_state r)))"
  shows "map_of (ws_checking (wr_state (take_waits probe now now_ms r))) i
    = settled_wait probe now i (map_of (ws_checking (wr_state r)) i)"
proof -
  let ?held = "set (held_ids probe)"
  let ?r = "foldl (hold_id (set (pst_running probe)) now) r (held_ids probe)"
  have d: "distinct (map fst (ws_checking (wr_state ?r)))" using assms by (rule hold_fold_distinct)
  have "map_of (ws_checking (wr_state (take_waits probe now now_ms r))) i =
      (if i \<in> set (finished ?held now (ws_checking (wr_state ?r))) then None
       else if i \<in> set (expired ?held now (ws_checking (wr_state ?r)))
       then map_option (\<lambda>w. w\<lparr>pw_given_up := True\<rparr>) (map_of (ws_checking (wr_state ?r)) i)
       else map_of (ws_checking (wr_state ?r)) i)"
    by (simp add: take_waits_def Let_def let_go_fold_waits give_up_fold_waits)
  also have "\<dots> = settled_wait probe now i (map_of (ws_checking (wr_state r)) i)"
    by (cases "map_of (ws_checking (wr_state r)) i")
       (auto simp: expired_iff [OF d] finished_iff [OF d] hold_fold_waits settled_wait_def Let_def filter_opt_def)
  finally show ?thesis .
qed

lemma take_waits_distinct:
  assumes "distinct (map fst (ws_checking (wr_state r)))"
  shows "distinct (map fst (ws_checking (wr_state (take_waits probe now now_ms r))))"
proof -
  have up: "distinct (map fst (ws_checking (wr_state r))) \<Longrightarrow> distinct (map fst (ws_checking (wr_state (foldl (give_up now_ms) r xs))))" for r xs
    by (induction xs arbitrary: r) (simp_all add: give_up_def Let_def distinct_update split: option.split)
  have go: "distinct (map fst (ws_checking (wr_state r))) \<Longrightarrow> distinct (map fst (ws_checking (wr_state (foldl (let_go now_ms) r xs))))" for r xs
    by (induction xs arbitrary: r) (simp_all add: let_go_def Let_def distinct_delete)
  show ?thesis unfolding take_waits_def Let_def by (intro go up hold_fold_distinct assms)
qed

section \<open>The effects for one card\<close>

definition shown :: "string \<Rightarrow> window_effect list \<Rightarrow> latency_state set" where
  "shown i es = {x. Ef_Latency i x \<in> set es}"

lemma shown_simps [simp]:
  "shown i [] = {}" "shown i (es @ es') = shown i es \<union> shown i es'"
  "shown i (Ef_Latency j x # es) = (if i = j then insert x (shown i es) else shown i es)"
  "shown i (Ef_Reprobe j # es) = shown i es" "shown i (Ef_Connection_Error m # es) = shown i es"
  "shown i (Ef_Daemon_Outdated # es) = shown i es" "shown i (toast_effects ts) = {}"
  by (auto simp: shown_def toast_effects_def)

lemma shown_card_effects [simp]: "shown i (card_effects j x) = (if i = j then {x} else {})"
  by (simp add: card_effects_def)

lemma shown_push_card: "shown i (push_card now_ms s es j) \<subseteq> shown i es \<union> (if i = j then {card_state s i now_ms} else {})"
  by (auto simp: push_card_def)

lemma shown_fold_reading: "i \<in> held \<Longrightarrow> shown i (wr_effects (fold_reading now_ms held r entry)) = shown i (wr_effects r)"
  by (cases entry) (auto simp: fold_reading_def Let_def answer_keeps)

lemma shown_fold_proxied: "i \<in> held \<Longrightarrow> shown i (wr_effects (fold_proxied now_ms held r entry)) = shown i (wr_effects r)"
  by (cases entry) (auto simp: fold_proxied_def Let_def answer_keeps split: option.split)

lemma shown_take_readings:
  assumes "i \<in> set (held_ids probe)"
  shows "shown i (wr_effects (take_readings probe now_ms r)) = shown i (wr_effects r)"
  using foldl_keeps [where f = "\<lambda>r. shown i (wr_effects r)" and g = "fold_reading now_ms (set (held_ids probe))", OF shown_fold_reading [OF assms]]
    foldl_keeps [where f = "\<lambda>r. shown i (wr_effects r)" and g = "fold_proxied now_ms (set (held_ids probe))", OF shown_fold_proxied [OF assms]]
  by (simp add: take_readings_def Let_def)

definition checks :: "latency_state set" where
  "checks = range Ls_Checking"

lemma shown_hold_fold: "shown i (wr_effects (foldl (hold_id measuring now) r ids)) \<subseteq> shown i (wr_effects r) \<union> checks"
proof (induction ids arbitrary: r)
  case (Cons j ids)
  have "shown i (wr_effects (hold_id measuring now r j)) \<subseteq> shown i (wr_effects r) \<union> checks"
    by (auto simp: hold_id_def Let_def checks_def split: option.split)
  with Cons [of "hold_id measuring now r j"] show ?case by auto
qed simp

lemma shown_hold_fold_given_up:
  assumes "map_of (ws_checking (wr_state r)) i = Some w" and "pw_given_up w"
  shows "shown i (wr_effects (foldl (hold_id measuring now) r ids)) = shown i (wr_effects r)"
  using assms
proof (induction ids arbitrary: r w)
  case (Cons j ids)
  have "shown i (wr_effects (hold_id measuring now r j)) = shown i (wr_effects r)"
    using Cons.prems by (auto simp: hold_id_def Let_def is_running_wait_def split: option.split)
  moreover have "\<exists>w'. map_of (ws_checking (wr_state (hold_id measuring now r j))) i = Some w' \<and> pw_given_up w'"
    using Cons.prems by (auto simp: hold_id_waits update_conv' held_wait_def Let_def)
  ultimately show ?case using Cons.IH by fastforce
qed simp

lemma shown_give_up_fold: "i \<notin> set ids \<Longrightarrow> shown i (wr_effects (foldl (give_up now_ms) r ids)) = shown i (wr_effects r)"
proof (induction ids arbitrary: r)
  case (Cons j ids)
  have "shown i (wr_effects (give_up now_ms r j)) = shown i (wr_effects r)"
    using Cons.prems by (auto simp: give_up_def Let_def push_card_def)
  with Cons show ?case by simp
qed simp

lemma shown_let_go_fold: "i \<notin> set ids \<Longrightarrow> shown i (wr_effects (foldl (let_go now_ms) r ids)) = shown i (wr_effects r)"
proof (induction ids arbitrary: r)
  case (Cons j ids)
  have "shown i (wr_effects (let_go now_ms r j)) = shown i (wr_effects r)"
    using Cons.prems by (auto simp: let_go_def Let_def push_card_def)
  with Cons show ?case by simp
qed simp

lemma shown_reroute_fold:
  "shown i (wr_effects (foldl (reroute now_ms) r ids)) \<subseteq> shown i (wr_effects r)
     \<union> (if is_checking (wr_state r) i then {} else {card_state (wr_state r) i now_ms})"
proof (induction ids arbitrary: r)
  case (Cons j ids)
  let ?T = "if is_checking (wr_state r) i then {} else {card_state (wr_state r) i now_ms}"
  have "shown i (wr_effects (reroute now_ms r j)) \<subseteq> shown i (wr_effects r) \<union> ?T"
    using shown_push_card [of i now_ms "wr_state r" "wr_effects r" j]
    by (cases "i = j") (auto simp: reroute_def)
  moreover have "shown i (wr_effects (foldl (reroute now_ms) (reroute now_ms r j) ids))
      \<subseteq> shown i (wr_effects (reroute now_ms r j)) \<union> ?T"
    using Cons [of "reroute now_ms r j"] by (simp only: reroute_keeps)
  ultimately show ?case by (simp only: foldl_Cons) blast
qed simp

lemma card_state_no_check: "\<not> is_checking s i \<Longrightarrow> card_state s i now_ms \<notin> checks"
  by (auto simp: card_state_def is_checking_def latency_state_of_def checks_def Let_def split: option.splits if_splits probe_failure.splits)

text \<open>For a card whose check the daemon holds, the waits show checks only, and nothing once it was given up on.\<close>

lemma shown_take_waits:
  assumes "i \<in> set (held_ids probe)" and "distinct (map fst (ws_checking (wr_state r)))"
    and "is_checking (wr_state (take_waits probe now now_ms r)) i"
  shows "shown i (wr_effects (take_waits probe now now_ms r)) \<subseteq> shown i (wr_effects r) \<union> checks"
proof -
  let ?held = "set (held_ids probe)"
  let ?r = "foldl (hold_id (set (pst_running probe)) now) r (held_ids probe)"
  have d: "distinct (map fst (ws_checking (wr_state ?r)))" using assms(2) by (rule hold_fold_distinct)
  have "i \<notin> set (finished ?held now (ws_checking (wr_state ?r)))" using assms(1) by (simp add: finished_iff [OF d])
  moreover have "i \<notin> set (expired ?held now (ws_checking (wr_state ?r)))"
    using assms(1,3) unfolding expired_iff [OF d] is_checking_def running_wait_def take_waits_settle [OF assms(2)]
    by (auto simp: hold_fold_waits settled_wait_def Let_def filter_opt_def is_running_wait_def split: if_splits)
  ultimately have "shown i (wr_effects (take_waits probe now now_ms r)) = shown i (wr_effects ?r)"
    by (simp add: take_waits_def Let_def shown_let_go_fold shown_give_up_fold)
  with shown_hold_fold show ?thesis by metis
qed

lemma shown_take_waits_given_up:
  assumes "i \<in> set (held_ids probe)" and "distinct (map fst (ws_checking (wr_state r)))"
    and "map_of (ws_checking (wr_state r)) i = Some w" and "pw_given_up w"
  shows "shown i (wr_effects (take_waits probe now now_ms r)) = shown i (wr_effects r)"
proof -
  let ?held = "set (held_ids probe)"
  let ?r = "foldl (hold_id (set (pst_running probe)) now) r (held_ids probe)"
  have d: "distinct (map fst (ws_checking (wr_state ?r)))" using assms(2) by (rule hold_fold_distinct)
  have "i \<notin> set (finished ?held now (ws_checking (wr_state ?r)))" using assms(1) by (simp add: finished_iff [OF d])
  moreover have "i \<notin> set (expired ?held now (ws_checking (wr_state ?r)))"
    using assms(1,3,4) by (auto simp: expired_iff [OF d] hold_fold_waits held_wait_def Let_def is_running_wait_def)
  ultimately show ?thesis
    by (simp add: take_waits_def Let_def shown_let_go_fold shown_give_up_fold shown_hold_fold_given_up [OF assms(3,4)])
qed

section \<open>One poll\<close>

text \<open>The state and effects of \<open>reduce\<close> before the pin is looked at.\<close>

definition measured :: "polled_snapshot \<Rightarrow> nat \<Rightarrow> nat \<Rightarrow> window_state \<Rightarrow> window_round" where
  "measured snapshot now now_ms s =
     (let status = sn_status snapshot; probe = sn_probe snapshot;
          (s, outdated) = note_outdated probe (adopt_status status s);
          (s, rerouted) = adopt_route (route_target_of status) s
      in foldl (reroute now_ms)
           (take_waits probe now now_ms (take_readings probe now_ms \<lparr>wr_state = s, wr_effects = outdated, wr_toasts = {}\<rparr>)) rerouted)"

definition closed_state :: "polled_snapshot \<Rightarrow> nat \<Rightarrow> bool \<Rightarrow> window_state \<Rightarrow> window_state" where
  "closed_state snapshot now visible s =
     forget_failure (adopt_active (sti_active_id (sn_status snapshot))
       (fst (note_error visible (retire_pin (sti_active_id (sn_status snapshot)) now s))))"

definition error_effects :: "polled_snapshot \<Rightarrow> nat \<Rightarrow> bool \<Rightarrow> window_state \<Rightarrow> window_effect list" where
  "error_effects snapshot now visible s =
     (case snd (note_error visible (retire_pin (sti_active_id (sn_status snapshot)) now s)) of
        Some error \<Rightarrow> [Ef_Connection_Error error] | None \<Rightarrow> [])"

lemma reduce_parts:
  "reduce snapshot now now_ms visible s =
     (if sn_epoch snapshot < ws_state_epoch s then (s, None)
      else (closed_state snapshot now visible (wr_state (measured snapshot now now_ms s)),
            Some (wr_effects (measured snapshot now now_ms s) @ toast_effects (wr_toasts (measured snapshot now now_ms s))
              @ error_effects snapshot now visible (wr_state (measured snapshot now now_ms s)))))"
  by (simp add: reduce_def measured_def closed_state_def error_effects_def Let_def split_beta)

lemma reduce_SomeD:
  assumes "reduce snapshot now now_ms visible s = (s', Some es)"
  shows "s' = closed_state snapshot now visible (wr_state (measured snapshot now now_ms s))"
    and "es = wr_effects (measured snapshot now now_ms s) @ toast_effects (wr_toasts (measured snapshot now now_ms s))
              @ error_effects snapshot now visible (wr_state (measured snapshot now now_ms s))"
    and "ws_state_epoch s \<le> sn_epoch snapshot"
  using assms by (auto simp: reduce_parts split: if_splits)

lemma reroute_fold_state: "wr_state (foldl (reroute now_ms) r ids) = wr_state r"
  using foldl_keeps [where f = wr_state and g = "reroute now_ms", OF reroute_keeps] .

lemma adopted_waits:
  "ws_checking (fst (note_outdated probe s)) = ws_checking s" "ws_checking (adopt_status status s) = ws_checking s"
  "ws_checking (fst (adopt_route target s)) = ws_checking s"
  by (simp_all add: note_outdated_def adopt_status_def adopt_route_def)

lemma measured_waits:
  assumes "distinct (map fst (ws_checking s))"
  shows "map_of (ws_checking (wr_state (measured snapshot now now_ms s))) i
      = settled_wait (sn_probe snapshot) now i (map_of (ws_checking s) i)"
    and "distinct (map fst (ws_checking (wr_state (measured snapshot now now_ms s))))"
  using assms
  by (simp_all add: measured_def Let_def split_beta reroute_fold_state take_waits_settle take_waits_distinct
      take_readings_keeps adopted_waits)

lemma measured_intent:
  "intent_view (wr_state (measured snapshot now now_ms s)) =
     intent_view ((adopt_status (sn_status snapshot) s)\<lparr>ws_route_target := route_target_of (sn_status snapshot)\<rparr>)"
  by (simp add: measured_def Let_def split_beta reroute_fold_state take_waits_keeps take_readings_keeps)
     (simp add: intent_view_def note_outdated_def adopt_route_def adopt_status_def)

lemma measured_fields:
  "ws_pending_status (wr_state (measured snapshot now now_ms s)) = ws_pending_status s"
  "ws_pending_profile (wr_state (measured snapshot now now_ms s)) = ws_pending_profile s"
  "ws_pending_since (wr_state (measured snapshot now now_ms s)) = ws_pending_since s"
  "ws_operation (wr_state (measured snapshot now now_ms s)) = ws_operation s"
  "ws_stop_operation (wr_state (measured snapshot now now_ms s)) = ws_stop_operation s"
  "ws_connected_id (wr_state (measured snapshot now now_ms s)) = ws_connected_id s"
  "ws_selected_profile (wr_state (measured snapshot now now_ms s)) = ws_selected_profile s"
  "ws_notified_error (wr_state (measured snapshot now now_ms s)) = ws_notified_error s"
  "ws_daemon_status (wr_state (measured snapshot now now_ms s)) = to_status (sn_status snapshot)"
  "ws_daemon_state (wr_state (measured snapshot now now_ms s)) = sti_state (sn_status snapshot)"
  "ws_sessions (wr_state (measured snapshot now now_ms s)) = sti_sessions (sn_status snapshot)"
  using measured_intent [of snapshot now now_ms s] by (simp_all add: intent_view_def adopt_status_def)

lemma retire_pin_fields:
  "ws_checking (retire_pin active now s) = ws_checking s"
  "ws_operation (retire_pin active now s) = ws_operation s"
  "ws_stop_operation (retire_pin active now s) = ws_stop_operation s"
  "ws_selected_profile (retire_pin active now s) = ws_selected_profile s"
  "ws_daemon_status (retire_pin active now s) = ws_daemon_status s"
  "ws_daemon_state (retire_pin active now s) = ws_daemon_state s"
  "ws_sessions (retire_pin active now s) = ws_sessions s"
  "ws_pending_profile (retire_pin active now s) = ws_pending_profile s"
  "ws_pending_since (retire_pin active now s) = ws_pending_since s"
  "ws_connected_id (retire_pin active now s) = ws_connected_id s"
  "ws_notified_error (retire_pin active now s) = ws_notified_error s"
  by (simp_all add: retire_pin_def clear_pin_def)

lemma note_error_fields:
  "ws_checking (fst (note_error visible s)) = ws_checking s"
  "ws_operation (fst (note_error visible s)) = ws_operation s"
  "ws_stop_operation (fst (note_error visible s)) = ws_stop_operation s"
  "ws_selected_profile (fst (note_error visible s)) = ws_selected_profile s"
  "ws_daemon_status (fst (note_error visible s)) = ws_daemon_status s"
  "ws_daemon_state (fst (note_error visible s)) = ws_daemon_state s"
  "ws_sessions (fst (note_error visible s)) = ws_sessions s"
  "ws_pending_profile (fst (note_error visible s)) = ws_pending_profile s"
  "ws_pending_since (fst (note_error visible s)) = ws_pending_since s"
  "ws_pending_status (fst (note_error visible s)) = ws_pending_status s"
  "ws_connected_id (fst (note_error visible s)) = ws_connected_id s"
  by (simp_all add: note_error_def Let_def)

lemma adopt_active_fields:
  "ws_checking (adopt_active active s) = ws_checking s"
  "ws_operation (adopt_active active s) = ws_operation s"
  "ws_stop_operation (adopt_active active s) = ws_stop_operation s"
  "ws_selected_profile (adopt_active active s) = ws_selected_profile s"
  "ws_daemon_status (adopt_active active s) = ws_daemon_status s"
  "ws_daemon_state (adopt_active active s) = ws_daemon_state s"
  "ws_sessions (adopt_active active s) = ws_sessions s"
  "ws_pending_profile (adopt_active active s) = ws_pending_profile s"
  "ws_pending_since (adopt_active active s) = ws_pending_since s"
  "ws_pending_status (adopt_active active s) = ws_pending_status s"
  "ws_notified_error (adopt_active active s) = ws_notified_error s"
  by (simp_all add: adopt_active_def)

lemma forget_failure_fields:
  "ws_checking (forget_failure s) = ws_checking s"
  "ws_operation (forget_failure s) = ws_operation s"
  "ws_stop_operation (forget_failure s) = ws_stop_operation s"
  "ws_selected_profile (forget_failure s) = ws_selected_profile s"
  "ws_daemon_status (forget_failure s) = ws_daemon_status s"
  "ws_daemon_state (forget_failure s) = ws_daemon_state s"
  "ws_sessions (forget_failure s) = ws_sessions s"
  "ws_pending_profile (forget_failure s) = ws_pending_profile s"
  "ws_pending_since (forget_failure s) = ws_pending_since s"
  "ws_pending_status (forget_failure s) = ws_pending_status s"
  "ws_notified_error (forget_failure s) = ws_notified_error s"
  "ws_connected_id (forget_failure s) = ws_connected_id s"
  by (cases "current_status s"; simp add: forget_failure_def)+

lemmas closing_fields = retire_pin_fields note_error_fields adopt_active_fields forget_failure_fields

lemma closed_fields:
  "ws_checking (closed_state snapshot now visible s) = ws_checking s"
  "ws_operation (closed_state snapshot now visible s) = ws_operation s"
  "ws_stop_operation (closed_state snapshot now visible s) = ws_stop_operation s"
  "ws_selected_profile (closed_state snapshot now visible s) = ws_selected_profile s"
  "ws_daemon_status (closed_state snapshot now visible s) = ws_daemon_status s"
  "ws_daemon_state (closed_state snapshot now visible s) = ws_daemon_state s"
  "ws_sessions (closed_state snapshot now visible s) = ws_sessions s"
  "ws_pending_profile (closed_state snapshot now visible s) = ws_pending_profile s"
  "ws_pending_since (closed_state snapshot now visible s) = ws_pending_since s"
  by (simp_all add: closed_state_def closing_fields)

lemma closed_pin: "ws_pending_status (closed_state snapshot now visible s) = ws_pending_status (retire_pin (sti_active_id (sn_status snapshot)) now s)"
  by (simp add: closed_state_def closing_fields)

lemma measured_shown:
  assumes "i \<in> set (held_ids (sn_probe snapshot))" and "distinct (map fst (ws_checking s))"
  shows "is_checking (wr_state (measured snapshot now now_ms s)) i \<Longrightarrow>
           shown i (wr_effects (measured snapshot now now_ms s)) \<subseteq> checks"
    and "map_of (ws_checking s) i = Some w \<Longrightarrow> pw_given_up w \<Longrightarrow>
           shown i (wr_effects (measured snapshot now now_ms s)) \<inter> checks = {}"
proof -
  let ?probe = "sn_probe snapshot"
  obtain s1 out where 1: "note_outdated ?probe (adopt_status (sn_status snapshot) s) = (s1, out)" by fastforce
  obtain s2 moved where 2: "adopt_route (route_target_of (sn_status snapshot)) s1 = (s2, moved)" by fastforce
  let ?r0 = "take_readings ?probe now_ms \<lparr>wr_state = s2, wr_effects = out, wr_toasts = {}\<rparr>"
  let ?r1 = "take_waits ?probe now now_ms ?r0"
  have m: "measured snapshot now now_ms s = foldl (reroute now_ms) ?r1 moved" by (simp add: measured_def Let_def 1 2)
  have "shown i out = {}" using 1 by (auto simp: note_outdated_def split: if_splits)
  then have r0: "shown i (wr_effects ?r0) = {}" using shown_take_readings [OF assms(1)] by simp
  have "ws_checking s1 = ws_checking s" using 1 adopted_waits(1,2) by (metis fst_conv)
  moreover have "ws_checking s2 = ws_checking s1" using 2 adopted_waits(3) by (metis fst_conv)
  ultimately have c0: "ws_checking (wr_state ?r0) = ws_checking s" by (simp add: take_readings_keeps)
  have d0: "distinct (map fst (ws_checking (wr_state ?r0)))" using assms(2) c0 by simp
  have last: "shown i (wr_effects (measured snapshot now now_ms s)) \<subseteq> shown i (wr_effects ?r1)
      \<union> (if is_checking (wr_state ?r1) i then {} else {card_state (wr_state ?r1) i now_ms})"
    unfolding m by (rule shown_reroute_fold)
  show "is_checking (wr_state (measured snapshot now now_ms s)) i \<Longrightarrow>
      shown i (wr_effects (measured snapshot now now_ms s)) \<subseteq> checks"
    using last shown_take_waits [OF assms(1) d0] r0 by (auto simp: m reroute_fold_state)
  assume w: "map_of (ws_checking s) i = Some w" "pw_given_up w"
  have "\<not> is_checking (wr_state ?r1) i"
    using w assms(1) unfolding is_checking_def running_wait_def take_waits_settle [OF d0] c0
    by (simp add: settled_wait_def held_wait_def Let_def filter_opt_def is_running_wait_def)
  with last shown_take_waits_given_up [OF assms(1) d0, of w] w c0 r0 card_state_no_check
  show "shown i (wr_effects (measured snapshot now now_ms s)) \<inter> checks = {}" by fastforce
qed

lemma reduce_shown:
  assumes "reduce snapshot now now_ms visible s = (s', Some es)"
  shows "shown i es = shown i (wr_effects (measured snapshot now now_ms s))"
  using reduce_SomeD(2) [OF assms] by (simp add: error_effects_def split: option.split)

lemma reported_status_cong:
  assumes "ws_sessions s = ws_sessions t" and "ws_daemon_status s = ws_daemon_status t" and "ws_daemon_state s = ws_daemon_state t"
  shows "reported_status_for s p = reported_status_for t p"
  by (simp only: reported_status_for_def session_for_def profile_lifecycle_def assms)

definition no_error :: "window_effect list \<Rightarrow> bool" where
  "no_error es = (\<forall>m. Ef_Connection_Error m \<notin> set es)"

lemma no_error_simps [simp]:
  "no_error []" "no_error (es @ es') \<longleftrightarrow> no_error es \<and> no_error es'" "no_error (card_effects i x)"
  "no_error (Ef_Latency i x # es) \<longleftrightarrow> no_error es"
  by (auto simp: no_error_def card_effects_def)

lemma foldl_inherits: "P r \<Longrightarrow> (\<And>r x. P r \<Longrightarrow> P (g r x)) \<Longrightarrow> P (foldl g r xs)"
  by (induction xs arbitrary: r) simp_all

lemma measured_no_error: "Ef_Connection_Error m \<notin> set (wr_effects (measured snapshot now now_ms s))"
proof -
  have "no_error (push_card now_ms s es i)" if "no_error es" for s es i using that by (simp add: push_card_def)
  note push = this
  have steps:
    "no_error (wr_effects r) \<Longrightarrow> no_error (wr_effects (fold_reading now_ms held r entry))"
    "no_error (wr_effects r) \<Longrightarrow> no_error (wr_effects (fold_proxied now_ms held r entry))"
    "no_error (wr_effects r) \<Longrightarrow> no_error (wr_effects (hold_id measuring now r i))"
    "no_error (wr_effects r) \<Longrightarrow> no_error (wr_effects (give_up now_ms r i))"
    "no_error (wr_effects r) \<Longrightarrow> no_error (wr_effects (let_go now_ms r i))"
    "no_error (wr_effects r) \<Longrightarrow> no_error (wr_effects (reroute now_ms r i))" for r held entry measuring i
    by (cases entry; simp add: fold_reading_def fold_proxied_def hold_id_def give_up_def let_go_def reroute_def Let_def
        answer_keeps push split: option.split)+
  have "no_error (snd (note_outdated probe t))" for probe t by (simp add: note_outdated_def no_error_def)
  then have "no_error (wr_effects (measured snapshot now now_ms s))"
    unfolding measured_def take_waits_def take_readings_def Let_def split_beta
    by (intro foldl_inherits [where P = "\<lambda>r. no_error (wr_effects r)"] steps) 
       (simp, intro foldl_inherits [where P = "\<lambda>r. no_error (wr_effects r)"] steps, simp)
  then show ?thesis by (simp add: no_error_def)
qed

lemma measured_epoch: "ws_state_epoch (wr_state (measured snapshot now now_ms s)) = ws_state_epoch s"
  using measured_intent [of snapshot now now_ms s] by (simp add: intent_view_def adopt_status_def)

lemma closed_epoch: "ws_state_epoch (closed_state snapshot now visible s) = ws_state_epoch s"
proof -
  have "ws_state_epoch (forget_failure t) = ws_state_epoch t" for t
    by (cases "current_status t"; simp add: forget_failure_def)
  then show ?thesis by (simp add: closed_state_def adopt_active_def note_error_def retire_pin_def clear_pin_def Let_def)
qed

section \<open>Properties\<close>

text \<open>C20: no card spins for ever: after a poll every wait that is drawn as a check is at most five minutes old,
and it is one the daemon holds or one it has not yet acknowledged and that is at most three seconds old. A card
has one wait at most.\<close>

theorem spinners_are_bounded:
  assumes "distinct (map fst (ws_checking s))" and "reduce snapshot now now_ms visible s = (s', Some es)"
    and "running_wait s' i = Some w"
  shows "now - pw_since w \<le> probe_deadline
    \<and> (i \<in> set (held_ids (sn_probe snapshot)) \<or> now - pw_since w \<le> probe_ack_grace)
    \<and> distinct (map fst (ws_checking s'))"
proof -
  note parts = reduce_SomeD [OF assms(2)] and waits = measured_waits [OF assms(1), of snapshot now now_ms]
  from assms(3) have "map_of (ws_checking s') i = Some w" "is_running_wait w"
    by (auto simp: running_wait_def filter_opt_def split: option.splits if_splits)
  then have "settled_wait (sn_probe snapshot) now i (map_of (ws_checking s) i) = Some w" "is_running_wait w"
    using waits(1) [of i] by (simp_all add: parts(1) closed_fields)
  then have "now - pw_since w \<le> probe_deadline
      \<and> (i \<in> set (held_ids (sn_probe snapshot)) \<or> now - pw_since w \<le> probe_ack_grace)"
    by (auto simp: settled_wait_def Let_def filter_opt_def is_running_wait_def probe_deadline_def probe_ack_grace_def
        split: if_splits option.splits)
  with waits(2) show ?thesis by (simp add: parts(1) closed_fields)
qed

text \<open>C19: no card shows an old number as the result of the check under way: whatever a poll puts on a card
that waits for a check the daemon holds is a check.\<close>

theorem no_old_number_while_checking:
  assumes "distinct (map fst (ws_checking s))" and "reduce snapshot now now_ms visible s = (s', Some es)"
    and "i \<in> set (held_ids (sn_probe snapshot))" and "is_checking s' i" and "Ef_Latency i x \<in> set es"
  shows "\<exists>stoppable. x = Ls_Checking stoppable"
proof -
  have "is_checking (wr_state (measured snapshot now now_ms s)) i"
    using assms(4) by (simp add: reduce_SomeD(1) [OF assms(2)] is_checking_def running_wait_def closed_fields)
  from measured_shown(1) [OF assms(3,1) this] have "shown i es \<subseteq> checks" using reduce_shown [OF assms(2)] by simp
  with assms(5) show ?thesis by (auto simp: shown_def checks_def)
qed

text \<open>C21: a card given up on stays down: as long as the daemon goes on claiming a check whose deadline has passed,
no poll raises its spinner again, and the wait keeps the instant it began.\<close>

theorem given_up_stays_down:
  assumes "distinct (map fst (ws_checking s))" and "reduce snapshot now now_ms visible s = (s', Some es)"
    and "i \<in> set (held_ids (sn_probe snapshot))" and "map_of (ws_checking s) i = Some w" and "pw_given_up w"
  shows "(\<exists>w'. map_of (ws_checking s') i = Some w' \<and> pw_given_up w' \<and> pw_since w' = pw_since w)
    \<and> Ef_Latency i (Ls_Checking stoppable) \<notin> set es"
proof -
  have "map_of (ws_checking s') i = settled_wait (sn_probe snapshot) now i (Some w)"
    using measured_waits(1) [OF assms(1), of snapshot now now_ms i] assms(4)
    by (simp add: reduce_SomeD(1) [OF assms(2)] closed_fields)
  moreover have "shown i es \<inter> checks = {}"
    using measured_shown(2) [OF assms(3,1,4,5)] reduce_shown [OF assms(2)] by simp
  ultimately show ?thesis
    using assms(3,5) by (auto simp: settled_wait_def held_wait_def Let_def is_running_wait_def shown_def checks_def)
qed

lemma measured_unhindered: "unhindered (wr_state (measured snapshot now now_ms s)) = unhindered s"
  by (simp add: unhindered_def foreground_operation_def measured_fields)



text \<open>a failure is announced once: after any poll, a poll that reports the same status raises no connection
error again, whether the window was visible the first time or not.\<close>

theorem failure_announced_once:
  assumes "reduce first now now_ms visible s = (s', Some es)" and "reduce snapshot now' now_ms' visible' s' = (s'', Some es')"
    and "to_status (sn_status snapshot) = to_status (sn_status first)"
  shows "Ef_Connection_Error message \<notin> set es'"
proof -
  have noted: "ws_notified_error (fst (note_error v t)) = (case ws_daemon_status t of StError m \<Rightarrow> Some m | _ \<Rightarrow> None)" for v t
    by (simp add: note_error_def Let_def)
  have "ws_notified_error s' = (case to_status (sn_status first) of StError m \<Rightarrow> Some m | _ \<Rightarrow> None)"
    by (simp add: reduce_SomeD(1) [OF assms(1)] closed_state_def closing_fields noted measured_fields)
  then have "error_effects snapshot now' visible' (wr_state (measured snapshot now' now_ms' s')) = []"
    using assms(3) by (simp add: error_effects_def note_error_def Let_def closing_fields measured_fields split: session_status.split)
  moreover have "Ef_Connection_Error message \<notin> set (wr_effects (measured snapshot now' now_ms' s'))"
    by (rule measured_no_error)
  ultimately show ?thesis by (simp add: reduce_SomeD(2) [OF assms(2)] toast_effects_def)
qed

section \<open>What the window gets wrong\<close>

definition sample_status :: "string \<Rightarrow> string option \<Rightarrow> status_info" where
  "sample_status st active = \<lparr>sti_state = st, sti_error = (if st = ''error'' then Some ''failed'' else None),
     sti_active_id = active, sti_active_profile = Some ''default'', sti_error_id = None, sti_sessions = [], sti_standby_proxy = False\<rparr>"

definition sample_probe :: "string list \<Rightarrow> (string \<times> latency_reading) list \<Rightarrow> probe_state" where
  "sample_probe running readings = \<lparr>pst_version = 1, pst_running = running, pst_queued = [], pst_readings = readings, pst_proxied = []\<rparr>"

definition sample_poll :: "status_info \<Rightarrow> probe_state \<Rightarrow> polled_snapshot" where
  "sample_poll status probe = \<lparr>sn_status = status, sn_probe = probe, sn_epoch = 0\<rparr>"

definition sample_window :: window_state where
  "sample_window = (window_state_new (sample_status ''disconnected'' None) 0)\<lparr>ws_checking := [(''a'', probe_wait_new 0)]\<rparr>"

definition through_tunnel :: "nat \<Rightarrow> latency_reading" where
  "through_tunnel ms = reading_ok 0 ms RouteProxied HttpGet"

definition straight :: "nat \<Rightarrow> latency_reading" where
  "straight ms = reading_ok 0 ms RouteDirect Tcp"

definition reconnected :: polled_snapshot where
  "reconnected = sample_poll (sample_status ''connected'' (Some ''a'')) (sample_probe [] [(''a'', straight 30)])"

definition was_connected :: window_state where
  "was_connected = sample_window\<lparr>ws_checking := [], ws_proxied := [(''default'', through_tunnel 99)]\<rparr>"

lemma card_state_cong:
  assumes "ws_readings s = ws_readings t" and "ws_proxied s = ws_proxied t" and "ws_checking s = ws_checking t"
    and "ws_route_target s = ws_route_target t" and "ws_sessions s = ws_sessions t"
  shows "card_state s i now_ms = card_state t i now_ms"
proof -
  have "proxied_reading s = proxied_reading t" by (intro ext) (simp only: proxied_reading_def assms)
  then show ?thesis by (simp only: card_state_def shown_reading_def running_wait_def is_active_def is_proxied_def assms)
qed

lemma closed_card_state: "card_state (closed_state snapshot now visible s) i now_ms = card_state s i now_ms"
proof (rule card_state_cong)
  have "ws_readings (forget_failure t) = ws_readings t" "ws_proxied (forget_failure t) = ws_proxied t"
    "ws_route_target (forget_failure t) = ws_route_target t" for t
    by (cases "current_status t"; simp add: forget_failure_def)+
  then show "ws_readings (closed_state snapshot now visible s) = ws_readings s"
    "ws_proxied (closed_state snapshot now visible s) = ws_proxied s"
    "ws_route_target (closed_state snapshot now visible s) = ws_route_target s"
    by (simp_all add: closed_state_def adopt_active_def note_error_def retire_pin_def clear_pin_def Let_def)
qed (simp_all add: closed_fields)

lemma closing_shows_no_card:
  "filter (shows_card i) (toast_effects toasts) = []" "filter (shows_card i) (error_effects snapshot now visible s) = []"
  by (simp_all add: toast_effects_def error_effects_def shows_card_def split: option.split)


text \<open>a poll can ask for more than two new measurements: every reading taken through a tunnel in the map of the servers
earns one when its server is not the active one, so a window opened on the readings of three such servers measures
all three again.\<close>

theorem reprobe_sweep:
  "\<exists>es. snd (reduce (sample_poll (sample_status ''disconnected'' None)
       (sample_probe [] [(''a'', through_tunnel 1), (''b'', through_tunnel 2), (''c'', through_tunnel 3)])) 10 2 True
         (sample_window\<lparr>ws_checking := []\<rparr>)) = Some es
     \<and> filter (\<lambda>e. case e of Ef_Reprobe _ \<Rightarrow> True | _ \<Rightarrow> False) es = [Ef_Reprobe ''a'', Ef_Reprobe ''b'', Ef_Reprobe ''c'']"
proof -
  let ?p = "sample_poll (sample_status ''disconnected'' None)
       (sample_probe [] [(''a'', through_tunnel 1), (''b'', through_tunnel 2), (''c'', through_tunnel 3)])"
  let ?s = "sample_window\<lparr>ws_checking := []\<rparr>"
  let ?reprobes = "filter (\<lambda>e. case e of Ef_Reprobe _ \<Rightarrow> True | _ \<Rightarrow> False)"
  have "?reprobes (wr_effects (measured ?p 10 2 ?s)) = [Ef_Reprobe ''a'', Ef_Reprobe ''b'', Ef_Reprobe ''c'']" by code_simp
  moreover have "\<not> sn_epoch ?p < ws_state_epoch ?s" by code_simp
  moreover have "?reprobes (toast_effects toasts) = []" "?reprobes (error_effects ?p 10 True t) = []" for toasts t
    by (simp_all add: toast_effects_def error_effects_def split: option.split)
  ultimately show ?thesis by (simp add: reduce_parts)
qed

section \<open>Inputs where the hypotheses hold\<close>

definition still_down :: polled_snapshot where
  "still_down = sample_poll (sample_status ''disconnected'' None) (sample_probe [''a''] [])"

lemma sample_waits: "distinct (map fst (ws_checking sample_window))"
  by (simp add: sample_window_def)

lemma polled: "reduce still_down now now_ms visible sample_window
    = (fst (reduce still_down now now_ms visible sample_window), Some (the (snd (reduce still_down now now_ms visible sample_window))))"
  by (simp add: reduce_parts still_down_def sample_poll_def sample_window_def window_state_new_def)

lemma sample_wait: "map_of (ws_checking (fst (reduce still_down 10 2 True sample_window))) ''a''
    = Some \<lparr>pw_since = 0, pw_acked = True, pw_given_up = False, pw_phase = Phase_Running\<rparr>"
proof -
  have "map_of (ws_checking (wr_state (measured still_down 10 2 sample_window))) ''a''
      = settled_wait (sn_probe still_down) 10 ''a'' (Some (probe_wait_new 0))"
    by (simp only: measured_waits(1) [OF sample_waits]) (simp add: sample_window_def)
  then show ?thesis
    by (subst reduce_parts)
       (simp add: closed_fields settled_wait_def held_ids_def held_wait_def is_running_wait_def probe_wait_new_def
         probe_deadline_def still_down_def sample_poll_def sample_probe_def sample_window_def window_state_new_def)
qed

theorem spinners_are_bounded_witness:
  "(10::nat) - pw_since \<lparr>pw_since = 0, pw_acked = True, pw_given_up = False, pw_phase = Phase_Running\<rparr> \<le> probe_deadline"
  using spinners_are_bounded [OF sample_waits polled, where now = 10 and now_ms = 2 and visible = True and i = "''a''"] sample_wait
  by (simp add: running_wait_def filter_opt_def is_running_wait_def)

lemma sample_raised: "Ef_Latency ''a'' (Ls_Checking False) \<in> set (the (snd (reduce still_down 10 2 True sample_window)))"
proof -
  have "Ef_Latency ''a'' (Ls_Checking False) \<in> set (wr_effects (foldl (hold_id {''a''} 10) r [''a'']))"
    if "ws_checking (wr_state r) = [(''a'', probe_wait_new 0)]" for r
    using that by (simp add: hold_id_def Let_def probe_wait_new_def is_running_wait_def check_can_be_stopped_def)
  note raised = this
  have keep: "e \<in> set (wr_effects r) \<Longrightarrow> e \<in> set (wr_effects (foldl (give_up 2) r xs))"
    "e \<in> set (wr_effects r) \<Longrightarrow> e \<in> set (wr_effects (foldl (let_go 2) r xs))"
    "e \<in> set (wr_effects r) \<Longrightarrow> e \<in> set (wr_effects (foldl (reroute 2) r xs))" for e r xs
    by (induction xs arbitrary: r; simp add: give_up_def let_go_def reroute_def push_card_def Let_def)+
  have held: "held_ids (sn_probe still_down) = [''a'']" "pst_running (sn_probe still_down) = [''a'']"
    by (simp_all add: held_ids_def still_down_def sample_poll_def sample_probe_def)
  have "Ef_Latency ''a'' (Ls_Checking False) \<in> set (wr_effects (measured still_down 10 2 sample_window))"
    unfolding measured_def take_waits_def Let_def split_beta held
    by (intro keep, simp only: list.set, rule raised)
       (simp add: take_readings_keeps adopted_waits, simp add: sample_window_def)
  then show ?thesis
    by (subst reduce_parts) (simp add: still_down_def sample_poll_def sample_window_def window_state_new_def)
qed

theorem no_old_number_while_checking_witness: "\<exists>stoppable. Ls_Checking False = Ls_Checking stoppable"
proof (rule no_old_number_while_checking [OF sample_waits polled _ _ sample_raised])
  show "''a'' \<in> set (held_ids (sn_probe still_down))"
    by (simp add: held_ids_def still_down_def sample_poll_def sample_probe_def)
  show "is_checking (fst (reduce still_down 10 2 True sample_window)) ''a''"
    using sample_wait by (simp add: is_checking_def running_wait_def filter_opt_def is_running_wait_def)
qed

definition given_up_window :: window_state where
  "given_up_window = sample_window\<lparr>ws_checking := [(''a'', (probe_wait_new 0)\<lparr>pw_given_up := True\<rparr>)]\<rparr>"

lemma given_up_polled: "reduce still_down now now_ms visible given_up_window
    = (fst (reduce still_down now now_ms visible given_up_window), Some (the (snd (reduce still_down now now_ms visible given_up_window))))"
  by (simp add: reduce_parts still_down_def sample_poll_def given_up_window_def sample_window_def window_state_new_def)

theorem given_up_stays_down_witness:
  "(\<exists>w'. map_of (ws_checking (fst (reduce still_down 10 2 True given_up_window))) ''a'' = Some w' \<and> pw_given_up w' \<and> pw_since w' = 0)
   \<and> Ef_Latency ''a'' (Ls_Checking True) \<notin> set (the (snd (reduce still_down 10 2 True given_up_window)))"
  using given_up_stays_down [OF _ given_up_polled, where i = "''a''" and w = "(probe_wait_new 0)\<lparr>pw_given_up := True\<rparr>" and stoppable = True
     and now = 10 and now_ms = 2 and visible = True]
  by (simp add: given_up_window_def held_ids_def still_down_def sample_poll_def sample_probe_def probe_wait_new_def)

definition hopeful_window :: window_state where
  "hopeful_window = pin_status ''default'' StConnecting 0 sample_window"

lemma hopeful_polled: "reduce still_down now now_ms visible hopeful_window
    = (fst (reduce still_down now now_ms visible hopeful_window), Some (the (snd (reduce still_down now now_ms visible hopeful_window))))"
  by (simp add: reduce_parts still_down_def sample_poll_def hopeful_window_def pin_status_def sample_window_def window_state_new_def)



definition failing :: polled_snapshot where
  "failing = sample_poll (sample_status ''error'' None) (sample_probe [] [])"

theorem failure_announced_once_witness:
  "Ef_Connection_Error ''failed'' \<notin> set (the (snd (reduce failing 20 3 True (fst (reduce failing 10 2 False sample_window)))))"
proof -
  have first: "reduce failing 10 2 False sample_window = (fst (reduce failing 10 2 False sample_window), Some (the (snd (reduce failing 10 2 False sample_window))))"
    by (simp add: reduce_parts failing_def sample_poll_def sample_window_def window_state_new_def)
  have "ws_state_epoch (fst (reduce failing 10 2 False sample_window)) = 0"
    by (subst reduce_parts) (simp add: closed_epoch measured_epoch sample_window_def window_state_new_def)
  then have "reduce failing 20 3 True (fst (reduce failing 10 2 False sample_window))
      = (fst (reduce failing 20 3 True (fst (reduce failing 10 2 False sample_window))),
         Some (the (snd (reduce failing 20 3 True (fst (reduce failing 10 2 False sample_window))))))"
    by (simp add: reduce_parts failing_def sample_poll_def)
  with first show ?thesis by (rule failure_announced_once) simp
qed

end
