(* ===== verification/Spec2Isabelle.thy ===== *)
theory Spec2Isabelle
  imports Country Alias Pool Bind Route_Plan Failover Envelope Routing Core_Options Profile
    Log_Book Log_Feed Civil_Time Runtime_Facts Probe_Queue Complaints Recovery Xray_Routes Import_Types
    Link_Laws Refresh_Laws Window_Laws
begin

text \<open>
  A verification library for \<open>oxidom\<close>, an Xray client in three crates: the library
  \<open>oxidom-core\<close> (data, planning, validation), the daemon and command line \<open>oxidom\<close>, and the
  desktop window \<open>oxidom-gui\<close>. Users keep subscriptions of servers and named profiles; the daemon
  runs one Xray session per connected profile, gives it addresses and routing marks, plans the
  routes of its TUN device, restarts it when it dies, moves to another server when failover is
  authorized, and keeps a log the window shows next to its own.

  \<^bold>\<open>How the parts meet.\<close> A subscription is fetched and its body becomes servers (\<open>Subscription\<close>, \<open>Link\<close>,
  \<open>Importer\<close>), which the catalog merges with what the user decided about the stored ones (\<open>Catalog\<close>,
  \<open>Draft\<close>). A profile names a server or a pool of them (\<open>Profile\<close>, \<open>Pool\<close>, \<open>Alias\<close>); connecting it
  generates the document the core runs (\<open>Core_Options\<close>, \<open>Routing\<close>, \<open>Xray_Config\<close>), gives it an address, a
  device and a mark (\<open>Bind\<close>) and plans its routes (\<open>Net\<close>, \<open>Route_Plan\<close>, \<open>Envelope\<close>). While it runs, the
  daemon probes servers (\<open>Probe_Queue\<close>), explains what fails (\<open>Complaints\<close>), keeps its observations
  (\<open>Runtime_Facts\<close>) and, where the profile grants it, recovers (\<open>Failover\<close>, \<open>Activations\<close>, \<open>Recovery\<close>). Logs
  go through \<open>Log_Book\<close>, \<open>Civil_Time\<close> and \<open>Log_Feed\<close>.

  \<^bold>\<open>Foundations.\<close>
  \<^item> \<open>Prelude\<close>: results as sums, the list and option functions of the Rust library, machine integers, the
    collections of rewrite rules.
  \<^item> \<open>Rust_Text\<close>: strings as UTF-8 bytes with trimming, splitting, number parsing and printing.
  \<^item> \<open>Json\<close>: the values of \<open>serde_json\<close>, and \<open>merge_patch\<close> of \<open>xray/config.rs\<close> compared with RFC 7396.

  \<^bold>\<open>Servers and where they come from\<close> (\<open>crates/oxidom-core/src\<close>).
  \<^item> \<open>Model\<close> (\<open>model.rs\<close>): protocols, streams, outbounds, servers, subscriptions, identifiers, pins,
    bandwidths. \<open>Country\<close> (\<open>country.rs\<close>): the country in a server name.
  \<^item> \<open>Importer\<close> (\<open>subscription_format.rs\<close>): Xray, sing-box and Clash documents; \<open>Import_Roundtrip\<close> shows that the
    reader undoes the writer of outbounds, \<open>Import_Types\<close> that every server read is well typed and runs.
  \<^item> \<open>Link\<close> (\<open>link.rs\<close>, \<open>parse\<close> of \<open>subscription_format.rs\<close>): one reader per scheme, lists of links, whole
    bodies. \<open>Link_Laws\<close>: every server of any body is well typed and runs, no line that could be a link is
    lost uncounted, and a scheme that is announced but never read.
  \<^item> \<open>Draft\<close> (\<open>draft.rs\<close>): drafts, their resolution, the flattened difference of two drafts; \<open>Draft_Values\<close>: an edit
    of nothing changes nothing; \<open>Draft_Diff\<close>: the difference, applied, gives the second draft.
  \<^item> \<open>Subscription\<close> (\<open>subscription.rs\<close>): the request and its headers, the reply, the merge of a reply into the
    stored servers.
  \<^item> \<open>Catalog\<close> (\<open>Registry\<close> and the subscription updates of \<open>Engine\<close> in \<open>engine.rs\<close>, the in-place edits of
    \<open>daemon.rs\<close>): every operation on the catalog, in two steps where the daemon fetches without its lock, and the
    identity migration. \<open>Catalog_Laws\<close>: the shape every sequence of operations and late answers keeps, that a
    late answer never revives a removed subscription, that no identifier is sent without consent and that no
    refresh touches a server of the user's own. \<open>Override_Laws\<close>: an edit survives the next refresh.
    \<open>Refresh_Laws\<close>: a refresh uses each stored server once and one with no news changes nothing; two defects.

  \<^bold>\<open>Profiles and what they run\<close> (\<open>crates/oxidom-core/src\<close>).
  \<^item> \<open>Pool\<close> (\<open>pool.rs\<close>), \<open>Alias\<close> (\<open>alias.rs\<close>), \<open>Bind\<close> (\<open>bind.rs\<close>), \<open>Core_Options\<close> (\<open>core_options.rs\<close>), \<open>Routing\<close>
    (\<open>xray/routing.rs\<close>), \<open>Profile\<close> (\<open>profile.rs\<close>): selection and ranking, handles, addresses, settings, the
    routing block and the saved profile with its store.
  \<^item> \<open>Xray_Config\<close> (\<open>xray/config.rs\<close>): the generated document. \<open>Xray_Routes\<close> reads it the way the core
    documents it: traffic of a pool stays in the pool, an imported profile stays in its tunnel, every rule names
    an outbound that exists; and the one panic an imported document can cause.
  \<^item> \<open>Net\<close>, \<open>Route_Plan\<close> (\<open>tun/plan.rs\<close>): networks and the two planners; no address escapes the device in
    default mode, and a private table holds no bypass.
  \<^item> \<open>Failover\<close>, \<open>Envelope\<close> (\<open>failover.rs\<close>): the recovery policy, the activation state machine with explicit
    instants, and the envelope of addresses a TUN failover may dial.

  \<^bold>\<open>The daemon and the window.\<close>
  \<^item> \<open>Activations\<close> (\<open>daemon/failover.rs\<close>) and \<open>Recovery\<close> (\<open>daemon.rs\<close>): the saved grants, and the connect
    generations and workers as a transition system over them: a failure that is owed a recovery always has a
    worker, every admission is authorized at its moment, a revocation is final.
  \<^item> \<open>Probe_Queue\<close>, \<open>Connection\<close>, \<open>Complaints\<close> (\<open>daemon.rs\<close>, \<open>ipc.rs\<close>, \<open>probe.rs\<close>), \<open>Runtime_Facts\<close>
    (\<open>daemon/runtime.rs\<close>).
  \<^item> \<open>Wire\<close> (\<open>ipc.rs\<close>): what the daemon reports. \<open>Window_State\<close> and \<open>Window_Reduce\<close> (\<open>gui/reduce.rs\<close>,
    \<open>gui/operation.rs\<close>): the state of the window and the fold of one poll into it. \<open>Window_Laws\<close>: spinners are
    bounded and do not come back, no old number stands for a check under way, the window follows the daemon once
    the deadline of a pinned status has passed and a lagging daemon does not undo a click; two defects.
  \<^item> \<open>Log_Book\<close> (\<open>logbook.rs\<close>), \<open>Civil_Time\<close>, \<open>Log_Feed\<close> (\<open>gui/logfeed.rs\<close>).

  \<^bold>\<open>Conventions.\<close> A structure is a record, an enumeration a datatype, a failure the left of a sum,
  and a panic a value of its own in the result. A string is its UTF-8 bytes. Numbers are natural
  numbers with the bound of their type written out where the code checks or wraps it, and machine words where the
  code computes with bits. Instants are natural numbers. A map that is iterated is an association list whose order
  stands for the iteration order. Whether a file is saved, what a peer answers and what a foreign crate computes
  (\<open>url\<close>, \<open>base64\<close>, \<open>percent-encoding\<close>, the parsers of \<open>serde_json\<close>, \<open>serde_yaml\<close> and \<open>toml\<close>) are arguments;
  a property that relies on one of them names what it assumes.

  \<^bold>\<open>Termination.\<close> Every definition is total. The recursions that are not structural have a measure: trimming and
  splitting the length of the text, the queue its waiting jobs, the merge of values their size. No fuel is used.

  \<^bold>\<open>Interfaces.\<close> A contract that several theories rest on is a locale, interpreted on the model's own
  definitions in the theory of its provider, \<open>slot_ring\<close> in \<open>Bind\<close> for the three rings of addresses, devices and
  marks, \<open>log_source\<close> in \<open>Log_Feed\<close> for what the window relies on of the book, and \<open>stamped_answers\<close> in
  \<open>Catalog_Laws\<close> for answers that arrive after the catalog has changed.

  \<^bold>\<open>Not modelled.\<close>
  \<^item> The session half of \<open>engine.rs\<close> beyond targets and the catalog, and the request handling of \<open>daemon.rs\<close>: they
    drive processes, sockets, the kernel's routes and the desktop proxy, whose behaviour is not in the repository.
    Of the start of a connection only the decisions about a grant are modelled (\<open>Recovery\<close>).
  \<^item> Reading and writing the state, configuration and subscription files.
  \<^item> The writer of share links, which is built on the \<open>url\<close> crate's setters; the listing of draft parameters
    for display; warnings that are only logged.
  \<^item> The command line and the client, which parse arguments and exchange messages, and the GTK widgets with the
    texts they present.
\<close>

end
